(* ===== verification/Prelude.thy ===== *)
theory Prelude
  imports Main "HOL-Library.Word" "HOL-Library.Monad_Syntax" "HOL-Library.Multiset"
begin

text \<open>
  Vocabulary shared by every component theory.

  \<^item> C integers: \<open>unsigned\<close> counters are naturals with the 32-bit wrap-around written
    out (\<open>add_u32\<close>, \<open>sub_u32\<close>); bitmaps and statistics are words.
  \<^item> Bitmaps: the tests \<open>(1ULL << n) & w\<close>, the loops over \<open>__builtin_ffsll\<close> and
    \<open>__builtin_popcountl\<close>, with the lemma that the loop enumerates the set bits in
    ascending order.
  \<^item> C arrays: checked reads and writes; \<open>None\<close> stands for an access outside the array.
    In every component \<open>None\<close> is the outcome of a run that leaves the defined
    behaviour of the program: a failed \<open>assert\<close>, an index outside its array, or a loop
    that never ends.
  \<^item> C strings: character lists without the terminating zero byte, with the truncating
    copy \<open>strlcpy\<close>.
\<close>

unbundle bit_operations_syntax

named_theorems bitmap_simps \<open>reading bits of words built by shifts and masks\<close>
named_theorems array_simps \<open>checked array accesses\<close>

subsection \<open>Unsigned counters\<close>

definition add_u32 :: "nat \<Rightarrow> nat \<Rightarrow> nat" where
  "add_u32 a b = (a + b) mod 2 ^ 32"

definition sub_u32 :: "nat \<Rightarrow> nat \<Rightarrow> nat" where
  "sub_u32 a b = (a + 2 ^ 32 - b mod 2 ^ 32) mod 2 ^ 32"

lemma add_u32_small [simp]: "a + b < 2 ^ 32 \<Longrightarrow> add_u32 a b = a + b"
  by (simp add: add_u32_def)

lemma sub_u32_small [simp]:
  assumes "b \<le> a" "a < 2 ^ 32"
  shows "sub_u32 a b = a - b"
proof -
  have eq: "a + 2 ^ 32 - b = (a - b) + 2 ^ 32" using assms by simp
  have lt: "a - b < 2 ^ 32" and b: "b mod 2 ^ 32 = b" using assms by simp_all
  show ?thesis unfolding sub_u32_def b eq mod_add_self2 using lt by (rule mod_less)
qed

lemma sub_u32_self [simp]: "a < 2 ^ 32 \<Longrightarrow> sub_u32 a a = 0"
  by simp

subsection \<open>Bits of a bitmap\<close>

definition bit_test :: "'a::len word \<Rightarrow> nat \<Rightarrow> bool" where
  "bit_test w n \<longleftrightarrow> (push_bit n 1 AND w) \<noteq> 0"

definition bit_set :: "'a::len word \<Rightarrow> nat \<Rightarrow> 'a word" where
  "bit_set w n = w OR push_bit n 1"

definition bit_clear :: "'a::len word \<Rightarrow> nat \<Rightarrow> 'a word" where
  "bit_clear w n = w AND NOT (push_bit n 1)"

lemma bit_test_eq [bitmap_simps]: "bit_test w n = bit w n"
  by (simp add: bit_test_def bit_iff_and_push_bit_not_eq_0 and.commute)

lemma bit_one_shift [bitmap_simps]:
  "bit (push_bit n (1 :: 'a::len word)) k \<longleftrightarrow> k = n \<and> k < LENGTH('a)"
  by (auto simp: bit_exp_iff)

lemma bit_bit_set [bitmap_simps]:
  "bit (bit_set (w :: 'a::len word) n) k \<longleftrightarrow> bit w k \<or> (k = n \<and> k < LENGTH('a))"
  by (auto simp: bit_set_def bit_or_iff bit_exp_iff)

lemma bit_bit_clear [bitmap_simps]:
  "bit (bit_clear (w :: 'a::len word) n) k \<longleftrightarrow> bit w k \<and> k \<noteq> n"
proof -
  have "bit w k \<Longrightarrow> k < LENGTH('a)" by (rule bit_imp_le_length)
  then show ?thesis
    by (auto simp: bit_clear_def bit_and_iff bit_not_iff bit_exp_iff)
qed

definition bits_of :: "'a::len word \<Rightarrow> nat list" where
  "bits_of w = filter (bit w) [0..<LENGTH('a)]"

definition popcount :: "'a::len word \<Rightarrow> nat" where
  "popcount w = length (bits_of w)"

text \<open>\<open>__builtin_ffs\<close>: one plus the index of the least significant set bit, 0 for 0.\<close>

definition ffs :: "'a::len word \<Rightarrow> nat" where
  "ffs w = (case bits_of w of [] \<Rightarrow> 0 | i # _ \<Rightarrow> Suc i)"

lemma set_bits_of [simp]: "set (bits_of (w :: 'a::len word)) = {i. bit w i}"
  by (auto simp: bits_of_def dest: bit_imp_le_length)

lemma distinct_bits_of [simp]: "distinct (bits_of w)"
  by (simp add: bits_of_def)

lemma sorted_bits_of [simp]: "sorted (bits_of w)"
  by (simp add: bits_of_def sorted_wrt_filter)

lemma bits_of_eq_Nil_iff [simp]: "bits_of w = [] \<longleftrightarrow> w = 0"
proof
  assume "bits_of w = []"
  then have "\<not> bit w i" for i using set_bits_of [of w] by auto
  then show "w = 0" by (simp add: bit_eq_iff)
qed (simp add: bits_of_def)

lemma bits_of_0 [simp]: "bits_of 0 = []"
  by simp

lemma popcount_eq_0_iff [simp]: "popcount w = 0 \<longleftrightarrow> w = 0"
  by (simp add: popcount_def)

lemma popcount_le: "popcount (w :: 'a::len word) \<le> LENGTH('a)"
proof -
  have "length (bits_of w) \<le> length [0..<LENGTH('a)]"
    unfolding bits_of_def by (rule length_filter_le)
  then show ?thesis by (simp add: popcount_def)
qed

lemma sorted_distinct_eq:
  "sorted xs \<Longrightarrow> sorted ys \<Longrightarrow> distinct xs \<Longrightarrow> distinct ys \<Longrightarrow> set xs = set ys \<Longrightarrow> xs = ys"
  for xs ys :: "nat list"
  by (simp add: sorted_distinct_set_unique)

lemma bits_of_bit_clear_head:
  assumes "bits_of w = i # is"
  shows "bits_of (bit_clear w i) = is"
proof (rule sorted_distinct_eq)
  have "sorted (i # is)" "distinct (i # is)"
    using sorted_bits_of [of w] distinct_bits_of [of w] by (simp_all only: assms)
  then show "sorted is" "distinct is" by simp_all
  have "set (i # is) = {j. bit w j}" using set_bits_of [of w] by (simp only: assms)
  with \<open>distinct (i # is)\<close> show "set (bits_of (bit_clear w i)) = set is"
    by (auto simp: bit_bit_clear)
qed simp_all

text \<open>
  The loop \<open>while (w) { i = ffs(w) - 1; w &= ~(1 << i); ... }\<close>, as the list of the
  indices it visits.
\<close>

function scan_bits :: "'a::len word \<Rightarrow> nat list" where
  "scan_bits w = (if w = 0 then [] else (ffs w - 1) # scan_bits (bit_clear w (ffs w - 1)))"
  by pat_completeness auto

lemma ffs_bits: "bits_of w = i # is \<Longrightarrow> ffs w - 1 = i"
  by (simp add: ffs_def)

termination scan_bits
proof (relation "measure popcount")
  fix w :: "'a word"
  assume "w \<noteq> 0"
  then obtain i "is" where "bits_of w = i # is" by (cases "bits_of w") simp_all
  then show "(bit_clear w (ffs w - 1), w) \<in> measure popcount"
    by (simp add: ffs_def popcount_def bits_of_bit_clear_head)
qed simp

declare scan_bits.simps [simp del]

lemma scan_bits_eq: "scan_bits w = bits_of w"
proof (induction w rule: scan_bits.induct)
  case (1 w)
  show ?case
  proof (cases "bits_of w")
    case Nil
    then have "w = 0" by simp
    with Nil show ?thesis by (simp add: scan_bits.simps)
  next
    case (Cons i "is")
    then have "w \<noteq> 0" by auto
    with 1 Cons show ?thesis
      by (simp add: scan_bits.simps [of w] ffs_def bits_of_bit_clear_head)
  qed
qed

subsection \<open>Arrays with checked accesses\<close>

definition array_get :: "'a list \<Rightarrow> nat \<Rightarrow> 'a option" where
  "array_get xs i = (if i < length xs then Some (xs ! i) else None)"

definition array_set :: "'a list \<Rightarrow> nat \<Rightarrow> 'a \<Rightarrow> 'a list option" where
  "array_set xs i x = (if i < length xs then Some (xs[i := x]) else None)"

text \<open>An array indexed by a C \<open>int\<close>: a negative index is outside as well.\<close>

definition array_get_int :: "'a list \<Rightarrow> int \<Rightarrow> 'a option" where
  "array_get_int xs i = (if 0 \<le> i then array_get xs (nat i) else None)"

lemma array_get_simps [array_simps]:
  "i < length xs \<Longrightarrow> array_get xs i = Some (xs ! i)"
  "length xs \<le> i \<Longrightarrow> array_get xs i = None"
  by (simp_all add: array_get_def)

lemma array_set_simps [array_simps]:
  "i < length xs \<Longrightarrow> array_set xs i x = Some (xs[i := x])"
  "length xs \<le> i \<Longrightarrow> array_set xs i x = None"
  by (simp_all add: array_set_def)

lemma array_get_Some_iff: "array_get xs i = Some x \<longleftrightarrow> i < length xs \<and> x = xs ! i"
  by (auto simp: array_get_def)

lemma array_set_Some_iff: "array_set xs i x = Some ys \<longleftrightarrow> i < length xs \<and> ys = xs[i := x]"
  by (auto simp: array_set_def)

text \<open>Writing a run of values into an array from position \<open>k\<close> on.\<close>

definition array_blit :: "'a list \<Rightarrow> nat \<Rightarrow> 'a list \<Rightarrow> 'a list" where
  "array_blit xs k ys = take k xs @ ys @ drop (k + length ys) xs"

lemma length_array_blit [simp]:
  "k + length ys \<le> length xs \<Longrightarrow> length (array_blit xs k ys) = length xs"
  by (simp add: array_blit_def)

lemma array_blit_read [simp]:
  "k \<le> length xs \<Longrightarrow> take (length ys) (drop k (array_blit xs k ys)) = ys"
  by (simp add: array_blit_def)

lemma array_blit_self:
  "take n (drop k xs) = ys \<Longrightarrow> k + n \<le> length xs \<Longrightarrow> array_blit xs k ys = xs"
  by (metis (no_types, lifting) add_leD1 append_take_drop_id array_blit_def diff_le_mono2
      diff_add_inverse drop_drop length_drop length_take le_diff_conv2 add.commute min.absorb2)

subsection \<open>Strings\<close>

text \<open>\<open>strlcpy\<close> and \<open>snprintf("%s")\<close> into a buffer of \<open>n\<close> bytes keep \<open>n - 1\<close> characters.\<close>

definition strlcpy :: "string \<Rightarrow> nat \<Rightarrow> string" where
  "strlcpy s n = take (n - 1) s"

lemma strlcpy_fits [simp]: "length s < n \<Longrightarrow> strlcpy s n = s"
  by (simp add: strlcpy_def)

lemma length_strlcpy: "0 < n \<Longrightarrow> length (strlcpy s n) < n"
  by (auto simp: strlcpy_def)

text \<open>Decimal notation, as \<open>printf("%u")\<close> writes it.\<close>

definition digit :: "nat \<Rightarrow> char" where
  "digit d = char_of (48 + d)"

fun dec :: "nat \<Rightarrow> string" where
  "dec n = (if n < 10 then [digit n] else dec (n div 10) @ [digit (n mod 10)])"

declare dec.simps [simp del]

subsection \<open>Lists and multisets\<close>

lemma take_drop_split: "take m (drop k xs) = take n (drop k xs) @ take (m - n) (drop (k + n) xs)"
  if "n \<le> m"
  using that by (metis add.commute add_diff_inverse_nat drop_drop not_le take_add)

lemma mset_rev_map: "mset (map f (rev xs)) = image_mset f (mset xs)"
  by simp

lemma bind_Some_iff: "(m \<bind> f) = Some y \<longleftrightarrow> (\<exists>x. m = Some x \<and> f x = Some y)"
  by (cases m) simp_all

end
