(* ===== verification/Dpdk.thy ===== *)
theory Dpdk
  imports Prelude
begin

text \<open>
  The boundary of the model. DPDK (\<open>rte_*\<close>), the C library and the kernel are not part of
  the repository, so their answers are parameters: an environment \<open>env\<close> maps the history
  of everything that happened so far and the call being made to the call's result. Nothing
  is assumed about these answers in a definition; what a theorem relies on is a named
  predicate over \<open>env\<close> (\<open>burst_contract\<close>).

  The history is the list of library calls in the order the program makes them. Packet
  buffers move through it visibly: \<open>Received\<close> records the buffers a receive call hands to
  the program, \<open>Sent\<close> the prefix of a burst that the library accepted, \<open>Freed\<close> a buffer
  given back with \<open>rte_pktmbuf_free\<close>.
\<close>

type_synonym port = nat
type_synonym mempool = nat

text \<open>
  A packet buffer: its address (0 is the null pointer), \<open>pkt_len\<close>, the field
  \<open>hash.fdir.id\<close>, and the bytes of the buffer from the packet data on.
\<close>

record mbuf =
  m_ptr :: nat
  pkt_len :: "32 word"
  fdir_id :: "32 word"
  m_mem :: "8 word list"

record queue_conf =
  offloads :: "64 word"
  q_rest :: nat

record dev_info =
  default_txconf :: queue_conf
  default_rxconf :: queue_conf
  tx_offload_capa :: "64 word"
  rx_offload_capa :: "64 word"
  device :: nat

record eth_conf =
  rx_offloads :: "64 word"
  tx_offloads :: "64 word"
  rx_mtu :: nat

datatype (plugins only: code) call =
    Rte_eth_dev_info_get port
  | Rte_eth_dev_configure port nat nat eth_conf
  | Rte_eth_dev_set_mtu port nat
  | Rte_eth_tx_queue_setup port nat nat int queue_conf
  | Rte_eth_rx_queue_setup port nat nat int queue_conf "mempool option"
  | Rte_eth_dev_start port
  | Rte_eth_dev_stop port
  | Rte_eth_dev_close port
  | Rte_dev_remove nat
  | Rte_dev_probe string
  | Rte_eth_matching_dev string
  | Rte_eth_iterator_cleanup
  | Rte_eth_promiscuous_enable port
  | Rte_eth_dev_get_port_by_name string
  | Rte_eth_bond_create string nat int
  | Rte_eth_bond_slave_add port port
  | Rte_eth_bond_slaves_get port nat
  | Rte_eth_bond_slave_remove port port
  | Rte_eth_bond_free string
  | Rte_mempool_lookup string
  | Rte_pktmbuf_pool_create string nat nat nat nat int
  | Rte_mempool_free "mempool option"
  | Rte_eth_rx_burst port nat nat
  | Rte_eth_tx_burst port nat "mbuf list"
  | Rte_vhost_dequeue_burst int nat "mempool option" nat
  | Rte_vhost_enqueue_burst int nat "mbuf list"
  | Rte_vhost_avail_entries int nat
  | Rte_vhost_get_vring_num int
  | Rte_vhost_get_numa_node int
  | Rte_vhost_get_ifname int
  | Rte_vhost_enable_guest_notification int nat int
  | Rte_vhost_driver_register string nat
  | Rte_vhost_driver_disable_features string nat
  | Rte_vhost_driver_callback_register string
  | Rte_vhost_driver_start string
  | Rte_vhost_driver_unregister string
  | Rte_get_timer_cycles
  | Rte_delay_ms nat
  | Stat string
  | Unlink string
  | Mkdir string
  | Chown string int int
  | Getpwnam string
  | Getgrnam string

datatype event =
    Did call
  | Received call "mbuf list"
  | Sent call "mbuf list"
  | Freed mbuf

type_synonym hist = "event list"

text \<open>Offload capability bits, the packet headroom and \<open>BONDING_MODE_ACTIVE_BACKUP\<close>: macros
  of DPDK's headers.\<close>

record dpdk_consts =
  TX_IPV4_CKSUM :: "64 word"
  TX_UDP_CKSUM :: "64 word"
  TX_TCP_CKSUM :: "64 word"
  TX_TCP_TSO :: "64 word"
  TX_UDP_TSO :: "64 word"
  RX_IPV4_CKSUM :: "64 word"
  RX_UDP_CKSUM :: "64 word"
  RX_TCP_CKSUM :: "64 word"
  RX_CHECKSUM :: "64 word"
  RTE_PKTMBUF_HEADROOM :: nat
  BONDING_MODE_ACTIVE_BACKUP :: nat

datatype file_kind = NoFile | Directory | Socket | OtherFile

text \<open>The answers, by type of result.\<close>

record env =
  e_rc :: "hist \<Rightarrow> call \<Rightarrow> int"
  e_count :: "hist \<Rightarrow> call \<Rightarrow> nat"
  e_pkts :: "hist \<Rightarrow> call \<Rightarrow> mbuf list"
  e_pool :: "hist \<Rightarrow> call \<Rightarrow> mempool option"
  e_port :: "hist \<Rightarrow> call \<Rightarrow> port option"
  e_ports :: "hist \<Rightarrow> call \<Rightarrow> port list"
  e_info :: "hist \<Rightarrow> call \<Rightarrow> dev_info"
  e_name :: "hist \<Rightarrow> call \<Rightarrow> string"
  e_file :: "hist \<Rightarrow> call \<Rightarrow> file_kind"
  e_ids :: "hist \<Rightarrow> call \<Rightarrow> int option"
  e_clock :: "hist \<Rightarrow> 64 word"
  e_jhash :: "32 word list \<Rightarrow> 32 word \<Rightarrow> 32 word"
  e_consts :: dpdk_consts
  e_uid :: int
  e_gid :: int

subsection \<open>Packet buffers in a history\<close>

fun received_in :: "event \<Rightarrow> mbuf list" where
  "received_in (Received c ps) = ps"
| "received_in _ = []"

fun eth_sent_in :: "event \<Rightarrow> mbuf list" where
  "eth_sent_in (Sent (Rte_eth_tx_burst p q ps) acc) = acc"
| "eth_sent_in _ = []"

fun vhost_sent_in :: "event \<Rightarrow> mbuf list" where
  "vhost_sent_in (Sent (Rte_vhost_enqueue_burst d q ps) acc) = acc"
| "vhost_sent_in _ = []"

fun freed_in :: "event \<Rightarrow> mbuf list" where
  "freed_in (Freed m) = [m]"
| "freed_in _ = []"

definition received :: "hist \<Rightarrow> mbuf list" where
  "received h = concat (map received_in h)"

definition eth_sent :: "hist \<Rightarrow> mbuf list" where
  "eth_sent h = concat (map eth_sent_in h)"

definition vhost_sent :: "hist \<Rightarrow> mbuf list" where
  "vhost_sent h = concat (map vhost_sent_in h)"

definition freed :: "hist \<Rightarrow> mbuf list" where
  "freed h = concat (map freed_in h)"

lemma packets_Nil [simp]:
  "received [] = []" "eth_sent [] = []" "vhost_sent [] = []" "freed [] = []"
  by (simp_all add: received_def eth_sent_def vhost_sent_def freed_def)

lemma packets_Cons [simp]:
  "received (e # h) = received_in e @ received h"
  "eth_sent (e # h) = eth_sent_in e @ eth_sent h"
  "vhost_sent (e # h) = vhost_sent_in e @ vhost_sent h"
  "freed (e # h) = freed_in e @ freed h"
  by (simp_all add: received_def eth_sent_def vhost_sent_def freed_def)

lemma packets_append [simp]:
  "received (h @ h') = received h @ received h'"
  "eth_sent (h @ h') = eth_sent h @ eth_sent h'"
  "vhost_sent (h @ h') = vhost_sent h @ vhost_sent h'"
  "freed (h @ h') = freed h @ freed h'"
  by (simp_all add: received_def eth_sent_def vhost_sent_def freed_def)

lemma packets_map_Freed [simp]:
  "received (map Freed ps) = []" "eth_sent (map Freed ps) = []"
  "vhost_sent (map Freed ps) = []" "freed (map Freed ps) = ps"
  by (induction ps) simp_all

subsection \<open>What the data path relies on\<close>

text \<open>
  Documented behaviour of the burst calls: a receive call returns at most as many buffers
  as were asked for, a transmit call accepts at most as many as were offered.
\<close>

definition burst_contract :: "env \<Rightarrow> bool" where
  "burst_contract env \<longleftrightarrow>
     (\<forall>h d q mp n. length (e_pkts env h (Rte_vhost_dequeue_burst d q mp n)) \<le> n) \<and>
     (\<forall>h p q n. length (e_pkts env h (Rte_eth_rx_burst p q n)) \<le> n) \<and>
     (\<forall>h p q ps. e_count env h (Rte_eth_tx_burst p q ps) \<le> length ps) \<and>
     (\<forall>h d q ps. e_count env h (Rte_vhost_enqueue_burst d q ps) \<le> length ps)"

lemma burst_contractD:
  assumes "burst_contract env"
  shows "length (e_pkts env h (Rte_vhost_dequeue_burst d q mp n)) \<le> n"
    and "length (e_pkts env h (Rte_eth_rx_burst p q n)) \<le> n"
    and "e_count env h (Rte_eth_tx_burst p q ps) \<le> length ps"
    and "e_count env h (Rte_vhost_enqueue_burst d q ps) \<le> length ps"
  using assms by (simp_all add: burst_contract_def)

end
