(* ===== verification/Relay.thy ===== *)
theory Relay
  imports Dpdk
begin

text \<open>
  The data of \<open>virtio_worker.h\<close> and of \<open>virtio_vhostuser.h\<close>: a relay couples a vhost-user
  device (\<open>relay_virtio\<close>) with an SR-IOV VF or a bond (\<open>relay_dpdk\<close>), each side with a
  staging array of at most \<open>BURST_LEN\<close> packets, and counts what it forwards
  (\<open>relay_stats\<close>). The global state of the forwarder is the array of relays, the array of
  worker threads, the configuration and the map from relays to vhost-user sockets.

  The number of relays, \<open>MAX_RELAYS = RTE_MAX_ETHPORTS\<close>, is fixed when DPDK is built; here
  it is the length of the array of relays.
\<close>

definition BURST_LEN :: nat where "BURST_LEN = 32"
definition MAX_CPUS :: nat where "MAX_CPUS = 64"
definition MAX_MULTIQUEUE_PAIRS :: nat where "MAX_MULTIQUEUE_PAIRS = 32"
definition NUM_PKTMBUF_POOL :: nat where "NUM_PKTMBUF_POOL = 4096"
definition JUMBO_IP_MTU :: nat where "JUMBO_IP_MTU = 9000"
definition DEFAULT_IP_MTU :: nat where "DEFAULT_IP_MTU = 2100"
definition L2_OVERHEAD :: nat where "L2_OVERHEAD = 14 + 4 + 4"
definition VF_RX_OFFSET :: nat where "VF_RX_OFFSET = 32"
definition MAX_NUM_BOND_SLAVES :: nat where "MAX_NUM_BOND_SLAVES = 8"

definition JUMBO_MBUF_SIZE :: "env \<Rightarrow> nat" where
  "JUMBO_MBUF_SIZE env =
     JUMBO_IP_MTU + L2_OVERHEAD + RTE_PKTMBUF_HEADROOM (e_consts env) + VF_RX_OFFSET"

definition DEFAULT_MBUF_SIZE :: "env \<Rightarrow> nat" where
  "DEFAULT_MBUF_SIZE env =
     DEFAULT_IP_MTU + L2_OVERHEAD + RTE_PKTMBUF_HEADROOM (e_consts env) + VF_RX_OFFSET"

definition SOCKET_ID_ANY :: int where "SOCKET_ID_ANY = -1"

lemmas worker_consts =
  BURST_LEN_def MAX_CPUS_def MAX_MULTIQUEUE_PAIRS_def NUM_PKTMBUF_POOL_def MAX_NUM_BOND_SLAVES_def

subsection \<open>States of the two sides\<close>

datatype vio_state_t = VIRTIO_UNINIT | VIRTIO_READY | VIRTIO_REMOVING1 | VIRTIO_REMOVING2

datatype dpdk_state_t = DPDK_UNINIT | DPDK_ADDED | DPDK_READY | DPDK_REMOVING1 | DPDK_REMOVING2

fun vio_state_value :: "vio_state_t \<Rightarrow> nat" where
  "vio_state_value VIRTIO_UNINIT = 0"
| "vio_state_value VIRTIO_READY = 1"
| "vio_state_value VIRTIO_REMOVING1 = 2"
| "vio_state_value VIRTIO_REMOVING2 = 3"

fun dpdk_state_value :: "dpdk_state_t \<Rightarrow> nat" where
  "dpdk_state_value DPDK_UNINIT = 0"
| "dpdk_state_value DPDK_ADDED = 1"
| "dpdk_state_value DPDK_READY = 2"
| "dpdk_state_value DPDK_REMOVING1 = 3"
| "dpdk_state_value DPDK_REMOVING2 = 4"

text \<open>The enumerations are ordered as C orders them, by their integer values.\<close>

lemma vio_state_value_inj: "vio_state_value a = vio_state_value b \<Longrightarrow> a = b"
  by (cases a; cases b) simp_all

lemma dpdk_state_value_inj: "dpdk_state_value a = dpdk_state_value b \<Longrightarrow> a = b"
  by (cases a; cases b) simp_all

instantiation vio_state_t :: linorder
begin

definition less_eq_vio_state_t :: "vio_state_t \<Rightarrow> vio_state_t \<Rightarrow> bool" where
  "less_eq_vio_state_t a b \<longleftrightarrow> vio_state_value a \<le> vio_state_value b"

definition less_vio_state_t :: "vio_state_t \<Rightarrow> vio_state_t \<Rightarrow> bool" where
  "less_vio_state_t a b \<longleftrightarrow> vio_state_value a < vio_state_value b"

instance
  by standard (auto simp: less_eq_vio_state_t_def less_vio_state_t_def intro: vio_state_value_inj)

end

instantiation dpdk_state_t :: linorder
begin

definition less_eq_dpdk_state_t :: "dpdk_state_t \<Rightarrow> dpdk_state_t \<Rightarrow> bool" where
  "less_eq_dpdk_state_t a b \<longleftrightarrow> dpdk_state_value a \<le> dpdk_state_value b"

definition less_dpdk_state_t :: "dpdk_state_t \<Rightarrow> dpdk_state_t \<Rightarrow> bool" where
  "less_dpdk_state_t a b \<longleftrightarrow> dpdk_state_value a < dpdk_state_value b"

instance
  by standard
    (auto simp: less_eq_dpdk_state_t_def less_dpdk_state_t_def intro: dpdk_state_value_inj)

end

subsection \<open>A relay\<close>

record relay_virtio =
  vio2vf_cpu :: int
  max_queue_pairs :: nat
  rx_q_bitmap :: "64 word"
  tx_q_bitmap :: "64 word"
  rx_q_active :: nat
  rx_q_lut :: "nat list"
  tx_q_rr :: nat
  pow2queues :: bool
  vio_state :: vio_state_t
  vio_dev :: int
  mempool :: "mempool option"
  mempool_socket_id :: int
  tx_pkts :: "mbuf list"
  tx_pkts_avail :: nat
  tx_pkts_used :: nat
  vio_sl :: bool
  lm_pending :: bool

record relay_dpdk =
  vf2vio_cpu :: int
  dpdk_state :: dpdk_state_t
  is_bond :: bool
  num_slaves :: nat
  dpdk_port :: port
  pci_dbdf :: string
  rx_pkts :: "mbuf list"
  rx_pkts_avail :: nat
  rx_pkts_used :: nat
  dpdk_sl :: bool

record relay_stats =
  st_vio_rx :: "64 word"
  st_vio_rx_bytes :: "64 word"
  st_dpdk_tx :: "64 word"
  st_dpdk_tx_bytes :: "64 word"
  st_dpdk_drop_full :: "64 word"
  st_dpdk_drop_unavail :: "64 word"
  st_dpdk_rx :: "64 word"
  st_dpdk_rx_bytes :: "64 word"
  st_vio_tx :: "64 word"
  st_vio_tx_bytes :: "64 word"
  st_vio_drop_full :: "64 word"
  st_vio_drop_unavail :: "64 word"

record relay =
  relay_id :: nat
  vio :: relay_virtio
  dpdk :: relay_dpdk
  stats :: relay_stats
  use_jumbo :: bool

record relay_prev_counters =
  prev_virtio_rx :: "64 word"
  prev_virtio_rx_bytes :: "64 word"
  prev_dpdk_tx :: "64 word"
  prev_dpdk_tx_bytes :: "64 word"
  prev_dpdk_rx :: "64 word"
  prev_dpdk_rx_bytes :: "64 word"
  prev_virtio_tx :: "64 word"
  prev_virtio_tx_bytes :: "64 word"
  time_prev :: "64 word"

subsection \<open>Worker threads, configuration, global state\<close>

record worker_thread =
  w_cpu :: int
  initialized :: bool
  running :: bool
  must_stop :: bool
  need_update :: bool
  active_relays :: "64 word"

record cpu_desc =
  cpunum :: nat
  corenum :: nat
  socket :: nat
  alive :: nat
  numanode :: nat

record cpuinfo_t =
  numcpus :: nat
  numsockets :: nat
  numnodes :: nat
  cpubitmap :: "64 word"
  cpus :: "cpu_desc list"

record relay_cpus =
  conf_vf2vio_cpu :: int
  conf_vio2vf_cpu :: int

record static_relay_entry =
  static_pci_dbdf :: string
  static_virtio_id :: int

record virtio_vhostuser_conf =
  conf_worker_core_bitmap :: "64 word"
  socket_path :: string
  socket_name :: string
  vhost_username :: string
  vhost_groupname :: string
  conf_relay_cpus :: "relay_cpus list"
  static_relays :: "static_relay_entry list"
  conf_use_jumbo :: bool
  use_rx_mrgbuf :: bool
  vhost_client :: bool
  zerocopy :: bool
  enable_tso :: bool

record gstate =
  worker_threads :: "worker_thread list"
  worker_core_bitmap :: "64 word"
  virtio_vf_relays :: "relay list"
  relay_prev_counters :: "relay_prev_counters list"
  g_conf :: virtio_vhostuser_conf
  cpuinfo :: cpuinfo_t
  relay_ifname_map :: "string option list"
  vhost_socket_name_prefix :: string
  vhost_socket_name_suffix :: string
  mk_default_sockets :: bool
  hist :: hist

abbreviation MAX_RELAYS :: "gstate \<Rightarrow> nat" where
  "MAX_RELAYS st \<equiv> length (virtio_vf_relays st)"

abbreviation relay_of :: "gstate \<Rightarrow> nat \<Rightarrow> relay" where
  "relay_of st i \<equiv> virtio_vf_relays st ! i"

text \<open>Writing through a pointer to the array element \<open>i\<close>, and logging a library call.\<close>

definition put_relay :: "nat \<Rightarrow> relay \<Rightarrow> gstate \<Rightarrow> gstate" where
  "put_relay i r st = st\<lparr>virtio_vf_relays := (virtio_vf_relays st)[i := r]\<rparr>"

definition map_vio :: "nat \<Rightarrow> (relay_virtio \<Rightarrow> relay_virtio) \<Rightarrow> gstate \<Rightarrow> gstate" where
  "map_vio i f st = put_relay i ((relay_of st i)\<lparr>vio := f (vio (relay_of st i))\<rparr>) st"

definition map_dpdk :: "nat \<Rightarrow> (relay_dpdk \<Rightarrow> relay_dpdk) \<Rightarrow> gstate \<Rightarrow> gstate" where
  "map_dpdk i f st = put_relay i ((relay_of st i)\<lparr>dpdk := f (dpdk (relay_of st i))\<rparr>) st"

definition did :: "call \<Rightarrow> gstate \<Rightarrow> gstate" where
  "did c st = st\<lparr>hist := hist st @ [Did c]\<rparr>"

definition rc :: "env \<Rightarrow> gstate \<Rightarrow> call \<Rightarrow> int" where
  "rc env st c = e_rc env (hist st) c"

end
