(* ===== verification/Vring.thy ===== *)
theory Vring
  imports Relay
begin

text \<open>
  Queue selection on the virtio side (\<open>virtio_worker.c\<close>).
  \<open>virtio_forwarder_vring_state_change\<close> keeps, per relay, the bitmaps of enabled receive
  and transmit queues, the number of enabled receive queues and a lookup table from a flow
  index to an enabled queue; \<open>calc_mbuf_queue\<close> uses them to spread the packets of a burst
  over the queues by a hash of the packet's header.

  The lemmas show that the table lists exactly the enabled queues in ascending order, that
  the masking used for a power of two is the modulo of the general case, and that the
  queue chosen for a packet is an enabled one.
\<close>

subsection \<open>Enabling and disabling a vring\<close>

text \<open>\<open>while (bmp) { val = ffsl(bmp) - 1; bmp &= ~(1ULL << val); rx_q_lut[idx] = val; ++idx; }\<close>\<close>

primrec fill_lut :: "nat list \<Rightarrow> nat \<Rightarrow> nat list \<Rightarrow> nat list option" where
  "fill_lut [] idx lut = Some lut"
| "fill_lut (val # vals) idx lut = do {
     lut \<leftarrow> array_set lut idx val;
     fill_lut vals (Suc idx) lut }"

definition set_queue_bit :: "64 word \<Rightarrow> nat \<Rightarrow> bool \<Rightarrow> 64 word" where
  "set_queue_bit bm n enable = (if enable then bit_set bm n else bit_clear bm n)"

definition vring_state_change :: "nat \<Rightarrow> int \<Rightarrow> relay_virtio \<Rightarrow> relay_virtio option" where
  "vring_state_change queue_id enable v = do {
     let shiftwidth = queue_id div 2;
     v \<leftarrow> (if shiftwidth < 64
           then Some (if odd queue_id
                      then v\<lparr>tx_q_bitmap := set_queue_bit (tx_q_bitmap v) shiftwidth (enable \<noteq> 0)\<rparr>
                      else v\<lparr>rx_q_bitmap := set_queue_bit (rx_q_bitmap v) shiftwidth (enable \<noteq> 0)\<rparr>)
           else None);
     let active = popcount (rx_q_bitmap v);
     let a = (of_nat active :: 32 word);
     let v = v\<lparr>pow2queues := ((a AND (a - 1)) = 0)\<rparr>;
     lut \<leftarrow> fill_lut (scan_bits (ucast (rx_q_bitmap v) :: 32 word)) 0 (rx_q_lut v);
     Some (v\<lparr>rx_q_lut := lut, rx_q_active := active\<rparr>) }"

definition virtio_forwarder_vring_state_change ::
  "nat \<Rightarrow> nat \<Rightarrow> int \<Rightarrow> gstate \<Rightarrow> gstate option" where
  "virtio_forwarder_vring_state_change i queue_id enable st =
     (if MAX_RELAYS st \<le> i then Some st
      else do {
        v \<leftarrow> vring_state_change queue_id enable (vio (relay_of st i));
        Some (map_vio i (\<lambda>_. v) st) })"

text \<open>What the worker relies on: the bookkeeping of the enabled receive queues.\<close>

definition vring_inv :: "relay_virtio \<Rightarrow> bool" where
  "vring_inv v \<longleftrightarrow>
     length (rx_q_lut v) = MAX_MULTIQUEUE_PAIRS \<and>
     (\<forall>q. bit (rx_q_bitmap v) q \<longrightarrow> q < MAX_MULTIQUEUE_PAIRS) \<and>
     (\<forall>q. bit (tx_q_bitmap v) q \<longrightarrow> q < MAX_MULTIQUEUE_PAIRS) \<and>
     rx_q_active v = popcount (rx_q_bitmap v) \<and>
     take (rx_q_active v) (rx_q_lut v) = bits_of (rx_q_bitmap v) \<and>
     (pow2queues v \<longleftrightarrow> rx_q_active v = 0 \<or> (\<exists>k<7. rx_q_active v = 2 ^ k))"

lemma vring_invD:
  assumes "vring_inv v"
  shows "length (rx_q_lut v) = 32"
    and "\<forall>q. bit (rx_q_bitmap v) q \<longrightarrow> q < 32"
    and "\<forall>q. bit (tx_q_bitmap v) q \<longrightarrow> q < 32"
    and "rx_q_active v = popcount (rx_q_bitmap v)"
    and "take (rx_q_active v) (rx_q_lut v) = bits_of (rx_q_bitmap v)"
    and "pow2queues v \<longleftrightarrow> rx_q_active v = 0 \<or> (\<exists>k<7. rx_q_active v = 2 ^ k)"
  using assms unfolding vring_inv_def MAX_MULTIQUEUE_PAIRS_def by blast+

text \<open>What is left of the invariant after start-up and after a disconnection, which clear the
  bitmaps but not the table: bits and table in range.\<close>

definition vring_range :: "relay_virtio \<Rightarrow> bool" where
  "vring_range v \<longleftrightarrow> length (rx_q_lut v) = MAX_MULTIQUEUE_PAIRS \<and>
     (\<forall>q. bit (rx_q_bitmap v) q \<longrightarrow> q < MAX_MULTIQUEUE_PAIRS) \<and>
     (\<forall>q. bit (tx_q_bitmap v) q \<longrightarrow> q < MAX_MULTIQUEUE_PAIRS)"

lemma vring_rangeD:
  assumes "vring_range v"
  shows "length (rx_q_lut v) = 32" "\<forall>q. bit (rx_q_bitmap v) q \<longrightarrow> q < 32" "\<forall>q. bit (tx_q_bitmap v) q \<longrightarrow> q < 32"
  using assms unfolding vring_range_def MAX_MULTIQUEUE_PAIRS_def by blast+

lemma vring_inv_range: "vring_inv v \<Longrightarrow> vring_range v"
  by (simp add: vring_inv_def vring_range_def)

subsection \<open>The packet hash\<close>

definition le16 :: "8 word list \<Rightarrow> nat \<Rightarrow> 32 word option" where
  "le16 m i = do {
     b0 \<leftarrow> array_get m i; b1 \<leftarrow> array_get m (i + 1);
     Some (ucast b0 OR push_bit 8 (ucast b1)) }"

definition le32 :: "8 word list \<Rightarrow> nat \<Rightarrow> 32 word option" where
  "le32 m i = do {
     lo \<leftarrow> le16 m i; hi \<leftarrow> le16 m (i + 2);
     Some (lo OR push_bit 16 hi) }"

definition ETHER_HDR_LEN :: nat where "ETHER_HDR_LEN = 14"

definition is_l4_with_ports :: "8 word \<Rightarrow> bool" where
  "is_l4_with_ports proto \<longleftrightarrow> proto = 6 \<or> proto = 17 \<or> proto = 132"

definition l4_ports :: "8 word list \<Rightarrow> nat \<Rightarrow> 32 word option" where
  "l4_ports m l4 = do {
     src_port \<leftarrow> le16 m l4; dst_port \<leftarrow> le16 m (l4 + 2);
     Some (push_bit 16 dst_port + src_port) }"

definition ipv4_hash_words :: "8 word list \<Rightarrow> 32 word list option" where
  "ipv4_hash_words m = do {
     let ip = ETHER_HDR_LEN;
     src \<leftarrow> le32 m (ip + 12);
     dst \<leftarrow> le32 m (ip + 16);
     proto \<leftarrow> array_get m (ip + 9);
     version_ihl \<leftarrow> array_get m ip;
     let ipv4_hdrlen = unat (version_ihl AND 15) * 4;
     l4 \<leftarrow> (if is_l4_with_ports proto
            then map_option (\<lambda>w. [w]) (l4_ports m (ip + ipv4_hdrlen)) else Some []);
     Some ([src, dst, ucast proto] @ l4) }"

definition ipv6_hash_words :: "8 word list \<Rightarrow> 32 word list option" where
  "ipv6_hash_words m = do {
     let ip = ETHER_HDR_LEN;
     s0 \<leftarrow> le32 m (ip + 8);  s1 \<leftarrow> le32 m (ip + 12);
     s2 \<leftarrow> le32 m (ip + 16); s3 \<leftarrow> le32 m (ip + 20);
     d0 \<leftarrow> le32 m (ip + 24); d1 \<leftarrow> le32 m (ip + 28);
     d2 \<leftarrow> le32 m (ip + 32); d3 \<leftarrow> le32 m (ip + 36);
     proto \<leftarrow> array_get m (ip + 6);
     l4 \<leftarrow> (if is_l4_with_ports proto
            then map_option (\<lambda>w. [w]) (l4_ports m (ip + 40)) else Some []);
     Some ([s0, s1, s2, s3, d0, d1, d2, d3, ucast proto] @ l4) }"

definition ether_hash_words :: "8 word list \<Rightarrow> 32 word list option" where
  "ether_hash_words m = do {
     w0 \<leftarrow> le32 m 0; w1 \<leftarrow> le32 m 4; w2 \<leftarrow> le32 m 8;
     ty \<leftarrow> le16 m 12;
     Some [w0, w1, w2, ty] }"

definition hash_words :: "8 word list \<Rightarrow> 32 word list option" where
  "hash_words m = do {
     t0 \<leftarrow> array_get m 12; t1 \<leftarrow> array_get m 13;
     if t0 = 8 \<and> t1 = 0 then ipv4_hash_words m
     else if t0 = 0x86 \<and> t1 = 0xDD then ipv6_hash_words m
     else ether_hash_words m }"

definition calc_eth_header_hash :: "env \<Rightarrow> 8 word list \<Rightarrow> 32 word option" where
  "calc_eth_header_hash env m = do {
     buf \<leftarrow> hash_words m;
     Some (e_jhash env buf 0xdeadbee5) }"

subsection \<open>Choosing the queue of each packet of a burst\<close>

definition select_queue :: "relay_virtio \<Rightarrow> 32 word \<Rightarrow> nat option" where
  "select_queue v h =
     (if pow2queues v then array_get (rx_q_lut v) (unat (h AND (of_nat (rx_q_active v) - 1)))
      else if rx_q_active v = 0 then None
      else array_get (rx_q_lut v) (unat (h mod of_nat (rx_q_active v))))"

primrec calc_mbuf_queue :: "env \<Rightarrow> relay_virtio \<Rightarrow> mbuf list \<Rightarrow> mbuf list option" where
  "calc_mbuf_queue env v [] = Some []"
| "calc_mbuf_queue env v (p # ps) = do {
     h \<leftarrow> calc_eth_header_hash env (m_mem p);
     q \<leftarrow> select_queue v h;
     ps \<leftarrow> calc_mbuf_queue env v ps;
     Some (p\<lparr>fdir_id := of_nat q\<rparr> # ps) }"


subsection \<open>The lookup table lists the enabled queues\<close>

lemma fill_lut_eq:
  "idx + length vals \<le> length lut \<Longrightarrow> fill_lut vals idx lut = Some (array_blit lut idx vals)"
proof (induction vals arbitrary: idx lut)
  case Nil
  then show ?case by (simp add: array_blit_def)
next
  case (Cons v vs)
  then have "idx < length lut" by simp
  with Cons show ?case
    by (simp add: array_set_def array_blit_def upd_conv_take_nth_drop add.commute)
qed

lemma bits_of_ucast:
  fixes w :: "64 word"
  assumes "\<forall>q. bit w q \<longrightarrow> q < 32"
  shows "bits_of (ucast w :: 32 word) = bits_of w"
proof (rule sorted_distinct_eq)
  show "set (bits_of (ucast w :: 32 word)) = set (bits_of w)"
    using assms by (auto simp: bit_unsigned_iff)
qed simp_all

lemma pow2_test_upto_64:
  "list_all (\<lambda>n. ((of_nat n :: 32 word) AND (of_nat n - 1)) = 0 \<longleftrightarrow>
     n = 0 \<or> list_ex (\<lambda>k. n = 2 ^ k) [0..<7]) [0..<65]"
  by (simp add: upt_conv_Cons)

lemma pow2_test:
  "n \<le> 64 \<Longrightarrow>
     ((of_nat n :: 32 word) AND (of_nat n - 1)) = 0 \<longleftrightarrow> n = 0 \<or> (\<exists>k<7. n = 2 ^ k)"
  using pow2_test_upto_64 by (simp add: list_all_iff list_ex_iff atLeast0LessThan Bex_def)

lemma set_queue_bit_below:
  assumes "\<forall>q. bit w q \<longrightarrow> q < m" "n < m"
  shows "bit (set_queue_bit w n e) q \<longrightarrow> q < m"
  using assms by (auto simp: set_queue_bit_def bitmap_simps)

lemma popcount_below_32:
  fixes w :: "64 word"
  assumes "\<forall>q. bit w q \<longrightarrow> q < 32"
  shows "popcount w \<le> 32"
proof -
  have "set (bits_of w) \<subseteq> {..<32}" using assms by auto
  then have "card (set (bits_of w)) \<le> card {..<32::nat}" by (intro card_mono) simp_all
  then show ?thesis by (simp add: popcount_def distinct_card del: set_bits_of)
qed

lemma vring_state_change_inv:
  assumes inv: "vring_range v" and q: "queue_id < 2 * MAX_MULTIQUEUE_PAIRS"
  shows "\<exists>v'. vring_state_change queue_id enable v = Some v' \<and> vring_inv v' \<and>
     tx_q_bitmap v' = (if odd queue_id then set_queue_bit (tx_q_bitmap v) (queue_id div 2) (enable \<noteq> 0)
                       else tx_q_bitmap v) \<and>
     rx_q_bitmap v' = (if odd queue_id then rx_q_bitmap v
                       else set_queue_bit (rx_q_bitmap v) (queue_id div 2) (enable \<noteq> 0))"
proof -
  define n where "n = queue_id div 2"
  have n: "n < 32" using q by (simp add: n_def worker_consts)
  define rx where "rx = (if odd queue_id then rx_q_bitmap v else set_queue_bit (rx_q_bitmap v) n (enable \<noteq> 0))"
  define tx where "tx = (if odd queue_id then set_queue_bit (tx_q_bitmap v) n (enable \<noteq> 0) else tx_q_bitmap v)"
  have rx: "\<forall>i. bit rx i \<longrightarrow> i < 32" and tx: "\<forall>i. bit tx i \<longrightarrow> i < 32"
    using vring_rangeD(2,3) [OF inv] set_queue_bit_below [OF vring_rangeD(2) [OF inv] n]
      set_queue_bit_below [OF vring_rangeD(3) [OF inv] n]
    by (simp_all add: rx_def tx_def)
  have len: "length (bits_of rx) \<le> 32" using popcount_below_32 [OF rx] by (simp add: popcount_def)
  note lut = vring_rangeD(1) [OF inv]
  have fill: "fill_lut (scan_bits (ucast rx :: 32 word)) 0 (rx_q_lut v)
      = Some (array_blit (rx_q_lut v) 0 (bits_of rx))"
    using len lut by (simp add: scan_bits_eq bits_of_ucast [OF rx] fill_lut_eq)
  have pc: "popcount rx \<le> 64" using popcount_below_32 [OF rx] by simp
  have "vring_state_change queue_id enable v =
    Some (v\<lparr>tx_q_bitmap := tx, rx_q_bitmap := rx,
           pow2queues := (popcount rx = 0 \<or> (\<exists>k<7. popcount rx = 2 ^ k)),
           rx_q_lut := array_blit (rx_q_lut v) 0 (bits_of rx), rx_q_active := popcount rx\<rparr>)"
    using n fill pow2_test [OF pc]
    by (auto simp: vring_state_change_def rx_def tx_def Let_def n_def [symmetric])
  then show ?thesis
    using rx tx len lut
    by (simp add: vring_inv_def worker_consts popcount_def array_blit_def rx_def tx_def n_def)
qed

subsection \<open>The chosen queue is enabled\<close>

text \<open>The cheap modulo: masking with one less than a power of two.\<close>

lemma mask_is_mod:
  fixes h :: "32 word"
  assumes "k < 32"
  shows "unat (h AND (of_nat (2 ^ k) - 1)) = unat h mod 2 ^ k"
proof -
  have "(of_nat (2 ^ k) - 1 :: 32 word) = mask k" by (simp add: mask_eq_decr_exp)
  then have "h AND (of_nat (2 ^ k) - 1) = take_bit k h" by (simp add: take_bit_eq_mask)
  moreover have "unat (take_bit k h) = take_bit k (unat h)" by (rule unsigned_take_bit_eq)
  ultimately show ?thesis by (simp only: take_bit_eq_mod [of k "unat h"])
qed

text \<open>The reference for \<open>select_queue\<close>: index the list of enabled queues by the hash
  modulo their number.\<close>

lemma select_queue_ref:
  assumes inv: "vring_inv v" and act: "0 < rx_q_active v"
  shows "select_queue v h = Some (bits_of (rx_q_bitmap v) ! (unat h mod rx_q_active v))"
proof -
  let ?a = "rx_q_active v"
  have le: "?a \<le> 32"
    using popcount_below_32 [OF vring_invD(2) [OF inv]] vring_invD(4) [OF inv] by simp
  note lut = vring_invD(1) [OF inv]
  have idx: "unat h mod ?a < ?a" using act by simp
  then have look: "array_get (rx_q_lut v) (unat h mod ?a)
      = Some (bits_of (rx_q_bitmap v) ! (unat h mod ?a))"
    using le lut nth_take [of "unat h mod ?a" ?a "rx_q_lut v"]
    by (simp add: array_get_def vring_invD(5) [OF inv])
  show ?thesis
  proof (cases "pow2queues v")
    case True
    then obtain k where k: "k < 7" "?a = 2 ^ k" using vring_invD(6) [OF inv] act by auto
    have "unat (h AND (of_nat ?a - 1)) = unat h mod ?a"
      using mask_is_mod [of k h] k by simp
    then show ?thesis using True look by (simp add: select_queue_def)
  next
    case False
    have "unat (of_nat ?a :: 32 word) = ?a" using le by (simp add: unat_of_nat)
    then have "unat (h mod of_nat ?a) = unat h mod ?a" by (simp add: unat_mod)
    then show ?thesis using False act look by (simp add: select_queue_def)
  qed
qed

lemma select_queue_enabled:
  assumes "vring_inv v" "0 < rx_q_active v"
  shows "\<exists>q. select_queue v h = Some q \<and> bit (rx_q_bitmap v) q \<and> q < MAX_MULTIQUEUE_PAIRS"
proof -
  have "unat h mod rx_q_active v < length (bits_of (rx_q_bitmap v))"
    using assms(2) vring_invD(4) [OF assms(1)] by (simp add: popcount_def)
  then have "bits_of (rx_q_bitmap v) ! (unat h mod rx_q_active v) \<in> set (bits_of (rx_q_bitmap v))"
    by (rule nth_mem)
  then show ?thesis using vring_invD(2) [OF assms(1)] select_queue_ref [OF assms]
    by (simp add: MAX_MULTIQUEUE_PAIRS_def)
qed

subsection \<open>The hash reads only the headers\<close>

text \<open>An Ethernet header, the longest IPv4 header and the two ports: 14 + 60 + 4 bytes.\<close>

definition MIN_HASH_BYTES :: nat where "MIN_HASH_BYTES = 78"

lemma le16_total: "i + 1 < length m \<Longrightarrow> le16 m i \<noteq> None"
  by (simp add: le16_def array_get_def)

lemma le32_total: "i + 3 < length m \<Longrightarrow> le32 m i \<noteq> None"
  using le16_total [of i m] le16_total [of "i + 2" m] by (auto simp: le32_def)

lemma l4_ports_total: "i + 3 < length m \<Longrightarrow> l4_ports m i \<noteq> None"
  using le16_total [of i m] le16_total [of "i + 2" m] by (auto simp: l4_ports_def)

lemma ihl_bound: "unat (b AND 15 :: 8 word) * 4 \<le> 60"
proof -
  have "unat (b AND 15) \<le> unat (15 :: 8 word)"
    by (rule word_and_le1 [THEN word_le_nat_alt [THEN iffD1]])
  then show ?thesis by simp
qed

lemma hash_words_total:
  assumes "MIN_HASH_BYTES \<le> length m"
  shows "hash_words m \<noteq> None"
proof -
  have len: "78 \<le> length m" using assms by (simp add: MIN_HASH_BYTES_def)
  have le: "\<exists>w. le32 m i = Some w" "\<exists>w. le16 m i = Some w" "\<exists>w. l4_ports m i = Some w"
    if "i + 3 < length m" for i
    using that le32_total [of i m] le16_total [of i m] l4_ports_total [of i m] by auto
  have get: "array_get m i = Some (m ! i)" if "i < 78" for i using that len by (simp add: array_get_def)
  have l4: "\<exists>w. l4_ports m (14 + unat (b AND 15) * 4) = Some w" for b :: "8 word"
    using le(3) [of "14 + unat (b AND 15) * 4"] ihl_bound [of b] len by simp
  have v4: "ipv4_hash_words m \<noteq> None"
    using le(1) [of 26] le(1) [of 30] l4 [of "m ! 14"] len
    by (auto simp: ipv4_hash_words_def ETHER_HDR_LEN_def get Let_def)
  have v6: "ipv6_hash_words m \<noteq> None"
    using le(1) [of 22] le(1) [of 26] le(1) [of 30] le(1) [of 34] le(1) [of 38] le(1) [of 42]
      le(1) [of 46] le(1) [of 50] le(3) [of 54] len
    by (auto simp: ipv6_hash_words_def ETHER_HDR_LEN_def get Let_def)
  have ether: "ether_hash_words m \<noteq> None"
    using le(1) [of 0] le(1) [of 4] le(1) [of 8] le(2) [of 12] len
    by (auto simp: ether_hash_words_def)
  show ?thesis using v4 v6 ether by (simp add: hash_words_def get)
qed

lemma calc_eth_header_hash_total:
  "MIN_HASH_BYTES \<le> length m \<Longrightarrow> \<exists>h. calc_eth_header_hash env m = Some h"
  using hash_words_total [of m] by (auto simp: calc_eth_header_hash_def)

text \<open>The queue of a packet, as a function of its header words.\<close>

definition flow_queue :: "env \<Rightarrow> relay_virtio \<Rightarrow> mbuf \<Rightarrow> nat" where
  "flow_queue env v p =
     bits_of (rx_q_bitmap v) ! (unat (e_jhash env (the (hash_words (m_mem p))) 0xdeadbee5) mod rx_q_active v)"

lemma calc_mbuf_queue_eq:
  assumes "vring_inv v" "0 < rx_q_active v" "\<forall>p\<in>set ps. MIN_HASH_BYTES \<le> length (m_mem p)"
  shows "calc_mbuf_queue env v ps = Some (map (\<lambda>p. p\<lparr>fdir_id := of_nat (flow_queue env v p)\<rparr>) ps)"
  using assms(3)
proof (induction ps)
  case Nil
  then show ?case by simp
next
  case (Cons p ps)
  then obtain buf where "hash_words (m_mem p) = Some buf" using hash_words_total by fastforce
  with Cons show ?case
    by (simp add: calc_eth_header_hash_def select_queue_ref [OF assms(1,2)] flow_queue_def)
qed

lemma calc_mbuf_queue_ptrs:
  "calc_mbuf_queue env v ps = Some ps' \<Longrightarrow>
     length ps' = length ps \<and> map m_ptr ps' = map m_ptr ps \<and> map pkt_len ps' = map pkt_len ps"
  by (induction ps arbitrary: ps') (auto simp: bind_Some_iff)

lemma flow_queue_enabled:
  assumes "vring_inv v" "0 < rx_q_active v"
  shows "bit (rx_q_bitmap v) (flow_queue env v p)" "flow_queue env v p < MAX_MULTIQUEUE_PAIRS"
proof -
  let ?h = "e_jhash env (the (hash_words (m_mem p))) 0xdeadbee5"
  show "bit (rx_q_bitmap v) (flow_queue env v p)" "flow_queue env v p < MAX_MULTIQUEUE_PAIRS"
    using select_queue_enabled [OF assms, of ?h] select_queue_ref [OF assms, of ?h]
    by (auto simp: flow_queue_def)
qed

end
