(* ===== verification/Datapath.thy ===== *)
theory Datapath
  imports Vring
begin

text \<open>
  The data path of one relay (\<open>virtio_worker.c\<close>, \<open>virtio_rx\<close> to \<open>relay_vf2vm_traffic\<close>).
  Each direction owns a staging array of \<open>BURST_LEN\<close> packet buffers with a count of
  buffers still to send (\<open>avail\<close>) and of buffers already handed on (\<open>used\<close>). A round
  fetches a burst when the array is empty, sends as much as the other side accepts, drops
  everything when the other side is not connected, and takes part in the two-phase removal
  of either side.

  A function takes the relay and the history of library calls and returns its C result
  with the new relay and history. \<open>None\<close> is a failed \<open>assert\<close>, an access outside an
  array, or the loop of \<open>virtio_rx\<close> that never finds an enabled queue.
\<close>

subsection \<open>Staging arrays\<close>

definition tx_stage :: "mbuf list \<Rightarrow> nat \<Rightarrow> nat \<Rightarrow> relay \<Rightarrow> relay" where
  "tx_stage a n u r =
     r\<lparr>vio := (vio r)\<lparr>tx_pkts := a, tx_pkts_avail := n, tx_pkts_used := u\<rparr>\<rparr>"

definition rx_stage :: "mbuf list \<Rightarrow> nat \<Rightarrow> nat \<Rightarrow> relay \<Rightarrow> relay" where
  "rx_stage a n u r =
     r\<lparr>dpdk := (dpdk r)\<lparr>rx_pkts := a, rx_pkts_avail := n, rx_pkts_used := u\<rparr>\<rparr>"

definition vio_held :: "relay \<Rightarrow> mbuf list" where
  "vio_held r = take (tx_pkts_avail (vio r)) (drop (tx_pkts_used (vio r)) (tx_pkts (vio r)))"

definition dpdk_held :: "relay \<Rightarrow> mbuf list" where
  "dpdk_held r = take (rx_pkts_avail (dpdk r)) (drop (rx_pkts_used (dpdk r)) (rx_pkts (dpdk r)))"

text \<open>Freeing the packets of a staging array, last one first.\<close>

definition free_pkts :: "mbuf list \<Rightarrow> hist \<Rightarrow> hist" where
  "free_pkts ps h = h @ map Freed (rev ps)"

definition bytes_of :: "mbuf list \<Rightarrow> 32 word" where
  "bytes_of ps = sum_list (map pkt_len ps)"

subsection \<open>Spinlocks\<close>

text \<open>A spinlock is a flag; \<open>rte_spinlock_trylock\<close> takes it if it is free and says whether it did.\<close>

definition rte_spinlock_trylock :: "bool \<Rightarrow> bool \<times> bool" where
  "rte_spinlock_trylock locked = (\<not> locked, True)"

text \<open>\<open>while (rte_spinlock_trylock(&sl));\<close>\<close>

function spin_while_trylock :: "bool \<Rightarrow> bool" where
  "spin_while_trylock locked =
     (let (taken, locked') = rte_spinlock_trylock locked
      in if taken then spin_while_trylock locked' else locked')"
  by pat_completeness auto
termination
  by (relation "measure (\<lambda>locked. if locked then 0 else 1)")
    (auto simp: rte_spinlock_trylock_def)

declare spin_while_trylock.simps [simp del]

subsection \<open>From the virtual machine to the VF\<close>

text \<open>\<open>do { ++tx_q_rr; if (tx_q_rr >= max) tx_q_rr = 0; } while (!(bitmap & (1ULL << tx_q_rr)));\<close>\<close>

definition next_rr :: "nat \<Rightarrow> nat \<Rightarrow> nat" where
  "next_rr m rr = (if m \<le> Suc rr then 0 else Suc rr)"

partial_function (option) next_tx_q :: "64 word \<Rightarrow> nat \<Rightarrow> nat \<Rightarrow> nat option" where
  "next_tx_q bm m rr =
     (if bit_test bm (next_rr m rr) then Some (next_rr m rr) else next_tx_q bm m (next_rr m rr))"

definition count_vio_rx :: "mbuf list \<Rightarrow> relay_stats \<Rightarrow> relay_stats" where
  "count_vio_rx ps s =
     (if length ps \<noteq> 0
      then s\<lparr>st_vio_rx := st_vio_rx s + of_nat (length ps),
             st_vio_rx_bytes := st_vio_rx_bytes s + ucast (bytes_of ps)\<rparr>
      else s)"

definition virtio_rx :: "env \<Rightarrow> relay \<Rightarrow> hist \<Rightarrow> (int \<times> relay \<times> hist) option" where
  "virtio_rx env r h =
     (let v = vio r in
      if vio_state v \<noteq> VIRTIO_READY then Some (-1, r, h)
      else do {
        let c = Rte_vhost_dequeue_burst (vio_dev v) (tx_q_rr v * 2 + 1) (mempool v) BURST_LEN;
        let enabled = bit_test (tx_q_bitmap v) (tx_q_rr v);
        let pkts = (if enabled then e_pkts env h c else []);
        let h = (if enabled then h @ [Received c pkts] else h);
        let r = tx_stage (array_blit (tx_pkts v) 0 pkts) (length pkts) 0 r;
        rr \<leftarrow> next_tx_q (tx_q_bitmap v) (max_queue_pairs v) (tx_q_rr v);
        let r = r\<lparr>vio := (vio r)\<lparr>tx_q_rr := rr\<rparr>, stats := count_vio_rx pkts (stats r)\<rparr>;
        Some (int (length pkts), r, h) })"

definition count_dpdk_tx :: "mbuf list \<Rightarrow> relay_stats \<Rightarrow> relay_stats" where
  "count_dpdk_tx ps s =
     (if length ps \<noteq> 0
      then s\<lparr>st_dpdk_tx := st_dpdk_tx s + of_nat (length ps),
             st_dpdk_tx_bytes := st_dpdk_tx_bytes s + ucast (bytes_of ps)\<rparr>
      else s)"

definition dpdk_tx :: "env \<Rightarrow> relay \<Rightarrow> hist \<Rightarrow> (int \<times> relay \<times> hist) option" where
  "dpdk_tx env r h =
     (let v = vio r in
      if dpdk_state (dpdk r) \<noteq> DPDK_READY then Some (-1, r, h)
      else do {
        let c = Rte_eth_tx_burst (dpdk_port (dpdk r)) 0 (vio_held r);
        let sent = e_count env h c;
        let pkts = take sent (drop (tx_pkts_used v) (tx_pkts v));
        let h = h @ [Sent c pkts];
        let r = tx_stage (tx_pkts v) (sub_u32 (tx_pkts_avail v) sent)
                         (add_u32 (tx_pkts_used v) sent) r;
        if tx_pkts_used (vio r) \<le> BURST_LEN
        then Some (int sent, r\<lparr>stats := count_dpdk_tx pkts (stats r)\<rparr>, h)
        else None })"

text \<open>Giving up the buffered packets of one direction: they count as dropped.\<close>

definition drop_vio_held :: "relay \<Rightarrow> hist \<Rightarrow> relay \<times> hist" where
  "drop_vio_held r h =
     (let v = vio r; s = stats r in
      ((tx_stage (tx_pkts v) 0 (tx_pkts_used v) r)
         \<lparr>stats := s\<lparr>st_dpdk_drop_unavail := st_dpdk_drop_unavail s + of_nat (tx_pkts_avail v)\<rparr>\<rparr>,
       free_pkts (vio_held r) h))"

definition drop_dpdk_held :: "relay \<Rightarrow> hist \<Rightarrow> relay \<times> hist" where
  "drop_dpdk_held r h =
     (let d = dpdk r; s = stats r in
      ((rx_stage (rx_pkts d) 0 (rx_pkts_used d) r)
         \<lparr>stats := s\<lparr>st_vio_drop_unavail := st_vio_drop_unavail s + of_nat (rx_pkts_avail d)\<rparr>\<rparr>,
       free_pkts (dpdk_held r) h))"

text \<open>The same during removal, where the array is rewound as well.\<close>

definition flush_vio :: "relay \<Rightarrow> hist \<Rightarrow> relay \<times> hist" where
  "flush_vio r h =
     (if tx_pkts_avail (vio r) \<noteq> 0
      then let (r, h) = drop_vio_held r h in (tx_stage (tx_pkts (vio r)) 0 0 r, h)
      else (r, h))"

definition flush_dpdk :: "relay \<Rightarrow> hist \<Rightarrow> relay \<times> hist" where
  "flush_dpdk r h =
     (if rx_pkts_avail (dpdk r) \<noteq> 0
      then let (r, h) = drop_dpdk_held r h in (rx_stage (rx_pkts (dpdk r)) 0 0 r, h)
      else (r, h))"

definition worker_remove_vf :: "relay \<Rightarrow> hist \<Rightarrow> relay \<times> hist" where
  "worker_remove_vf r h =
     (let r = r\<lparr>dpdk := (dpdk r)\<lparr>dpdk_sl := spin_while_trylock (dpdk_sl (dpdk r))\<rparr>\<rparr>;
          (r, h) = flush_dpdk r h;
          r = r\<lparr>dpdk := (dpdk r)\<lparr>dpdk_sl := False\<rparr>\<rparr>;
          (r, h) = flush_vio r h
      in (r\<lparr>dpdk := (dpdk r)\<lparr>dpdk_state := DPDK_UNINIT\<rparr>\<rparr>, h))"

definition vm2vf_handshake :: "relay \<Rightarrow> relay" where
  "vm2vf_handshake r =
     (if vio_state (vio r) = VIRTIO_REMOVING1
      then r\<lparr>vio := (vio r)\<lparr>vio_state :=
               (if vf2vio_cpu (dpdk r) = -1 then VIRTIO_UNINIT else VIRTIO_REMOVING2)\<rparr>\<rparr>
      else r)"

definition relay_vm2vf_traffic :: "env \<Rightarrow> relay \<Rightarrow> hist \<Rightarrow> (int \<times> relay \<times> hist) option" where
  "relay_vm2vf_traffic env r h = do {
     (_, r, h) \<leftarrow> (if tx_pkts_avail (vio r) = 0 then virtio_rx env r h else Some (0, r, h));
     (sent, r, h) \<leftarrow> (if tx_pkts_avail (vio r) \<noteq> 0 then dpdk_tx env r h else Some (0, r, h));
     let (r, h) = (if sent = -1 \<and> tx_pkts_avail (vio r) \<noteq> 0 then drop_vio_held r h else (r, h));
     let r = vm2vf_handshake r;
     let (r, h) = (if dpdk_state (dpdk r) = DPDK_REMOVING2 then worker_remove_vf r h else (r, h));
     Some (if vio_state (vio r) = VIRTIO_READY then 1 else 0, r, h) }"

subsection \<open>From the VF to the virtual machine\<close>

definition VIRTIO_RXQ :: nat where "VIRTIO_RXQ = 0"

definition count_dpdk_rx :: "mbuf list \<Rightarrow> relay_stats \<Rightarrow> relay_stats" where
  "count_dpdk_rx ps s =
     (if length ps \<noteq> 0
      then s\<lparr>st_dpdk_rx := st_dpdk_rx s + of_nat (length ps),
             st_dpdk_rx_bytes := st_dpdk_rx_bytes s + ucast (bytes_of ps)\<rparr>
      else s)"

definition dpdk_rx :: "env \<Rightarrow> relay \<Rightarrow> hist \<Rightarrow> (int \<times> relay \<times> hist) option" where
  "dpdk_rx env r h =
     (let v = vio r; d = dpdk r in
      if dpdk_state d \<noteq> DPDK_READY then Some (-1, r, h)
      else do {
        let q = Rte_vhost_avail_entries (vio_dev v) VIRTIO_RXQ;
        let try_rcv = (if lm_pending v then BURST_LEN else min (e_count env h q) BURST_LEN);
        let h = (if lm_pending v then h else h @ [Did q]);
        let c = Rte_eth_rx_burst (dpdk_port d) 0 try_rcv;
        let pkts = e_pkts env h c;
        let h = h @ [Received c pkts];
        pkts \<leftarrow> (if 1 < rx_q_bitmap v then calc_mbuf_queue env v pkts else Some pkts);
        let r = rx_stage (array_blit (rx_pkts d) 0 pkts) (length pkts) 0 r;
        Some (int (length pkts), r\<lparr>stats := count_dpdk_rx pkts (stats r)\<rparr>, h) })"

definition count_vio_tx :: "mbuf list \<Rightarrow> relay_stats \<Rightarrow> relay_stats" where
  "count_vio_tx ps s =
     (if length ps \<noteq> 0
      then s\<lparr>st_vio_tx_bytes := st_vio_tx_bytes s + ucast (bytes_of ps),
             st_vio_tx := st_vio_tx s + of_nat (length ps)\<rparr>
      else s)"

text \<open>\<open>q = pkts[i]->hash.fdir.id; q_pkts[q][q_len[q]++] = pkts[i];\<close> for every buffered packet.\<close>

primrec batch_queues :: "mbuf list \<Rightarrow> mbuf list list \<Rightarrow> mbuf list list option" where
  "batch_queues [] qs = Some qs"
| "batch_queues (p # ps) qs =
     (let q = unat (fdir_id p) in
      if q < length qs \<and> length (qs ! q) < BURST_LEN
      then batch_queues ps (qs[q := qs ! q @ [p]]) else None)"

text \<open>
  One queue of the loop over the queues: send, count, put the packets that were not
  accepted back (\<open>while (j > sent) { j--; pkts[k++] = q_pkts[i][j]; }\<close>), free the others.
\<close>

definition send_queue ::
  "env \<Rightarrow> int \<Rightarrow> nat \<Rightarrow> mbuf list \<Rightarrow> hist \<times> relay_stats \<times> mbuf list \<Rightarrow> hist \<times> relay_stats \<times> mbuf list"
  where
  "send_queue env dev i qp = (\<lambda>(h, s, kept).
     if length qp = 0 then (h, s, kept)
     else let c = Rte_vhost_enqueue_burst dev (i * 2) qp;
              sent = e_count env h c;
              acc = take sent qp
          in (free_pkts acc (h @ [Sent c acc]), count_vio_tx acc s, kept @ rev (drop sent qp)))"

primrec send_queues ::
  "env \<Rightarrow> int \<Rightarrow> nat \<Rightarrow> mbuf list list \<Rightarrow> hist \<times> relay_stats \<times> mbuf list \<Rightarrow> hist \<times> relay_stats \<times> mbuf list"
  where
  "send_queues env dev i [] acc = acc"
| "send_queues env dev i (qp # qps) acc = send_queues env dev (Suc i) qps (send_queue env dev i qp acc)"

definition virtio_tx :: "env \<Rightarrow> relay \<Rightarrow> hist \<Rightarrow> (int \<times> relay \<times> hist) option" where
  "virtio_tx env r h =
     (let v = vio r; d = dpdk r in
      if vio_state v \<noteq> VIRTIO_READY then Some (-1, r, h)
      else if 1 < rx_q_bitmap v then do {
        qs \<leftarrow> batch_queues (dpdk_held r) (replicate (rx_q_active v) []);
        let (h, s, kept) = send_queues env (vio_dev v) 0 qs (h, stats r, []);
        let r = rx_stage (array_blit (rx_pkts d) (rx_pkts_used d) kept) (length kept) (rx_pkts_used d) r;
        Some (0, r\<lparr>stats := s\<rparr>, h) }
      else do {
        let c = Rte_vhost_enqueue_burst (vio_dev v) VIRTIO_RXQ (dpdk_held r);
        let sent = e_count env h c;
        let pkts = take sent (drop (rx_pkts_used d) (rx_pkts d));
        let h = h @ [Sent c pkts];
        let r = rx_stage (rx_pkts d) (sub_u32 (rx_pkts_avail d) sent)
                         (add_u32 (rx_pkts_used d) sent) r;
        if rx_pkts_used (dpdk r) \<le> BURST_LEN
        then Some (0, r\<lparr>stats := count_vio_tx pkts (stats r)\<rparr>, free_pkts pkts h)
        else None })"

definition worker_remove_virtio :: "relay \<Rightarrow> hist \<Rightarrow> relay \<times> hist" where
  "worker_remove_virtio r h =
     (let (r, h) = flush_dpdk r h;
          r = r\<lparr>vio := (vio r)\<lparr>vio_sl := spin_while_trylock (vio_sl (vio r))\<rparr>\<rparr>;
          (r, h) = flush_vio r h
      in (r\<lparr>vio := (vio r)\<lparr>vio_sl := False, vio_state := VIRTIO_UNINIT\<rparr>\<rparr>, h))"

definition vf2vm_handshake :: "relay \<Rightarrow> relay" where
  "vf2vm_handshake r =
     (if dpdk_state (dpdk r) = DPDK_REMOVING1
      then r\<lparr>dpdk := (dpdk r)\<lparr>dpdk_state :=
               (if vio2vf_cpu (vio r) = -1 then DPDK_UNINIT else DPDK_REMOVING2)\<rparr>\<rparr>
      else r)"

definition relay_vf2vm_traffic :: "env \<Rightarrow> relay \<Rightarrow> hist \<Rightarrow> (int \<times> relay \<times> hist) option" where
  "relay_vf2vm_traffic env r h = do {
     (_, r, h) \<leftarrow> (if rx_pkts_avail (dpdk r) = 0 then dpdk_rx env r h else Some (0, r, h));
     (sent, r, h) \<leftarrow> (if rx_pkts_avail (dpdk r) \<noteq> 0 then virtio_tx env r h else Some (0, r, h));
     let (r, h) = (if sent = -1 \<and> rx_pkts_avail (dpdk r) \<noteq> 0 then drop_dpdk_held r h else (r, h));
     let (r, h) = (if vio_state (vio r) = VIRTIO_REMOVING2 then worker_remove_virtio r h else (r, h));
     let r = vf2vm_handshake r;
     Some (if dpdk_state (dpdk r) = DPDK_READY then 1 else 0, r, h) }"

subsection \<open>The contract of a staging array\<close>

text \<open>
  Both directions use their array the same way: fill it from position 0, consume a prefix,
  put packets back over the part in flight, give everything up. The locale states what the
  four uses do to the list of held packets; it is interpreted once per direction.
\<close>

locale staging_buffer =
  fixes arr :: "'r \<Rightarrow> mbuf list"
    and avail :: "'r \<Rightarrow> nat"
    and used :: "'r \<Rightarrow> nat"
    and set_buf :: "mbuf list \<Rightarrow> nat \<Rightarrow> nat \<Rightarrow> 'r \<Rightarrow> 'r"
    and held :: "'r \<Rightarrow> mbuf list"
    and ok :: "'r \<Rightarrow> bool"
  assumes arr_set: "arr (set_buf a n u r) = a"
    and avail_set: "avail (set_buf a n u r) = n"
    and used_set: "used (set_buf a n u r) = u"
    and held_eq: "held r = take (avail r) (drop (used r) (arr r))"
    and ok_eq: "ok r \<longleftrightarrow> length (arr r) = BURST_LEN \<and> used r + avail r \<le> BURST_LEN"
begin

lemmas set_simps = arr_set avail_set used_set held_eq ok_eq

lemma length_held: "ok r \<Longrightarrow> length (held r) = avail r"
  by (auto simp: set_simps)

lemma ok_small: "ok r \<Longrightarrow> avail r < 2 ^ 32 \<and> used r < 2 ^ 32"
  by (simp add: set_simps BURST_LEN_def)

lemma fill:
  assumes "ok r" "length ps \<le> BURST_LEN"
  shows "held (set_buf (array_blit (arr r) 0 ps) (length ps) 0 r) = ps"
    and "ok (set_buf (array_blit (arr r) 0 ps) (length ps) 0 r)"
  using assms by (simp_all add: set_simps array_blit_def)

lemma consume:
  assumes "ok r" "n \<le> avail r"
  defines "r' \<equiv> set_buf (arr r) (sub_u32 (avail r) n) (add_u32 (used r) n) r"
  shows "held r' = drop n (held r)"
    and "ok r'"
    and "used r' \<le> BURST_LEN"
    and "take n (drop (used r) (arr r)) = take n (held r)"
proof -
  have a: "sub_u32 (avail r) n = avail r - n" and u: "add_u32 (used r) n = used r + n"
    using assms(1,2) by (simp_all add: set_simps BURST_LEN_def)
  show "held r' = drop n (held r)" "ok r'" "used r' \<le> BURST_LEN"
    "take n (drop (used r) (arr r)) = take n (held r)"
    using assms(1,2) by (auto simp: r'_def a u set_simps drop_take min_def add.commute)
qed

lemma put_back:
  assumes "ok r" "length kept \<le> avail r"
  defines "r' \<equiv> set_buf (array_blit (arr r) (used r) kept) (length kept) (used r) r"
  shows "held r' = kept" and "ok r'"
  using assms by (simp_all add: set_simps array_blit_def)

lemma give_up:
  assumes "ok r" "u \<le> BURST_LEN"
  shows "held (set_buf (arr r) 0 u r) = []" and "ok (set_buf (arr r) 0 u r)"
  using assms by (simp_all add: set_simps)

end

definition tx_ok :: "relay \<Rightarrow> bool" where
  "tx_ok r \<longleftrightarrow> length (tx_pkts (vio r)) = BURST_LEN \<and>
     tx_pkts_used (vio r) + tx_pkts_avail (vio r) \<le> BURST_LEN"

definition rx_ok :: "relay \<Rightarrow> bool" where
  "rx_ok r \<longleftrightarrow> length (rx_pkts (dpdk r)) = BURST_LEN \<and>
     rx_pkts_used (dpdk r) + rx_pkts_avail (dpdk r) \<le> BURST_LEN"

interpretation tx: staging_buffer "\<lambda>r. tx_pkts (vio r)" "\<lambda>r. tx_pkts_avail (vio r)"
  "\<lambda>r. tx_pkts_used (vio r)" tx_stage vio_held tx_ok
  by unfold_locales (simp_all add: tx_stage_def vio_held_def tx_ok_def)

interpretation rx: staging_buffer "\<lambda>r. rx_pkts (dpdk r)" "\<lambda>r. rx_pkts_avail (dpdk r)"
  "\<lambda>r. rx_pkts_used (dpdk r)" rx_stage dpdk_held rx_ok
  by unfold_locales (simp_all add: rx_stage_def dpdk_held_def rx_ok_def)

text \<open>The two arrays are independent of each other and of the statistics.\<close>

named_theorems frame_simps \<open>what an update of a part of the relay leaves alone\<close>

lemma held_frame [frame_simps]:
  "dpdk_held (tx_stage a n u r) = dpdk_held r" "rx_ok (tx_stage a n u r) = rx_ok r"
  "vio_held (rx_stage a n u r) = vio_held r" "tx_ok (rx_stage a n u r) = tx_ok r"
  "vio_held (r\<lparr>stats := s\<rparr>) = vio_held r" "dpdk_held (r\<lparr>stats := s\<rparr>) = dpdk_held r"
  "tx_ok (r\<lparr>stats := s\<rparr>) = tx_ok r" "rx_ok (r\<lparr>stats := s\<rparr>) = rx_ok r"
  "vio_held (r\<lparr>dpdk := d\<rparr>) = vio_held r" "dpdk_held (r\<lparr>vio := v\<rparr>) = dpdk_held r"
  "tx_ok (r\<lparr>dpdk := d\<rparr>) = tx_ok r" "rx_ok (r\<lparr>vio := v\<rparr>) = rx_ok r"
  by (simp_all add: tx_stage_def rx_stage_def vio_held_def dpdk_held_def tx_ok_def rx_ok_def)

lemma held_vio_frame [frame_simps]:
  "vio_held (r\<lparr>vio := (vio r)\<lparr>tx_q_rr := q\<rparr>\<rparr>) = vio_held r"
  "vio_held (r\<lparr>vio := (vio r)\<lparr>vio_state := s\<rparr>\<rparr>) = vio_held r"
  "vio_held (r\<lparr>vio := (vio r)\<lparr>vio_sl := l\<rparr>\<rparr>) = vio_held r"
  "vio_held (r\<lparr>vio := (vio r)\<lparr>vio_sl := l, vio_state := s\<rparr>\<rparr>) = vio_held r"
  "tx_ok (r\<lparr>vio := (vio r)\<lparr>tx_q_rr := q\<rparr>\<rparr>) = tx_ok r"
  "tx_ok (r\<lparr>vio := (vio r)\<lparr>vio_state := s\<rparr>\<rparr>) = tx_ok r"
  "tx_ok (r\<lparr>vio := (vio r)\<lparr>vio_sl := l\<rparr>\<rparr>) = tx_ok r"
  "tx_ok (r\<lparr>vio := (vio r)\<lparr>vio_sl := l, vio_state := s\<rparr>\<rparr>) = tx_ok r"
  by (simp_all add: vio_held_def tx_ok_def)

lemma held_dpdk_frame [frame_simps]:
  "dpdk_held (r\<lparr>dpdk := (dpdk r)\<lparr>dpdk_state := s'\<rparr>\<rparr>) = dpdk_held r"
  "dpdk_held (r\<lparr>dpdk := (dpdk r)\<lparr>dpdk_sl := l\<rparr>\<rparr>) = dpdk_held r"
  "rx_ok (r\<lparr>dpdk := (dpdk r)\<lparr>dpdk_state := s'\<rparr>\<rparr>) = rx_ok r"
  "rx_ok (r\<lparr>dpdk := (dpdk r)\<lparr>dpdk_sl := l\<rparr>\<rparr>) = rx_ok r"
  by (simp_all add: dpdk_held_def rx_ok_def)

lemma spin_while_trylock_locks [simp]: "spin_while_trylock l = True"
  by (subst spin_while_trylock.simps, cases l)
    (simp_all add: rte_spinlock_trylock_def, subst spin_while_trylock.simps,
      simp add: rte_spinlock_trylock_def)

subsection \<open>The round robin over transmit queues\<close>

text \<open>
  If some enabled queue is below \<open>m\<close>, the loop finds one, and it is the next enabled one
  in cyclic order.
\<close>

lemma next_tx_q_up:
  assumes "rr < q" "q < m" "bit bm q" "\<forall>i. rr < i \<and> i < q \<longrightarrow> \<not> bit bm i"
  shows "next_tx_q bm m rr = Some q"
  using assms
proof (induction "q - rr" arbitrary: rr)
  case 0
  then show ?case by simp
next
  case (Suc k)
  have n: "next_rr m rr = Suc rr" using Suc.prems by (simp add: next_rr_def)
  show ?case
  proof (cases "Suc rr = q")
    case True
    then show ?thesis using n Suc.prems by (simp add: next_tx_q.simps [of bm m rr] bitmap_simps)
  next
    case False
    then have "rr < Suc rr" "Suc rr < q" using Suc.prems by simp_all
    then have "\<not> bit bm (Suc rr)" using Suc.prems by blast
    moreover have "next_tx_q bm m (Suc rr) = Some q"
      using Suc.hyps(1) [of "Suc rr"] Suc.hyps(2) Suc.prems \<open>Suc rr < q\<close> by simp
    ultimately show ?thesis using n by (simp add: next_tx_q.simps [of bm m rr] bitmap_simps)
  qed
qed

lemma next_tx_q_wrap:
  assumes "rr < m" "\<forall>i. rr < i \<and> i < m \<longrightarrow> \<not> bit bm i"
  shows "next_tx_q bm m rr = (if bit bm 0 then Some 0 else next_tx_q bm m 0)"
  using assms
proof (induction "m - rr" arbitrary: rr)
  case 0
  then show ?case by simp
next
  case (Suc k)
  show ?case
  proof (cases "Suc rr < m")
    case True
    then have "\<not> bit bm (Suc rr)" using Suc.prems by simp
    moreover have "next_tx_q bm m (Suc rr) = (if bit bm 0 then Some 0 else next_tx_q bm m 0)"
      using Suc.hyps(1) [of "Suc rr"] Suc.hyps(2) Suc.prems True by simp
    ultimately show ?thesis
      using True by (simp add: next_tx_q.simps [of bm m rr] next_rr_def bitmap_simps)
  next
    case False
    then show ?thesis
      using Suc.prems by (simp add: next_tx_q.simps [of bm m rr] next_rr_def bitmap_simps)
  qed
qed

lemma next_tx_q_total:
  assumes "rr < m" "q < m" "bit bm q"
  shows "\<exists>q'. next_tx_q bm m rr = Some q'"
proof (cases "\<exists>i. rr < i \<and> i < m \<and> bit bm i")
  case True
  define q' where "q' = (LEAST i. rr < i \<and> i < m \<and> bit bm i)"
  have "rr < q' \<and> q' < m \<and> bit bm q'" unfolding q'_def using True by (rule LeastI_ex)
  moreover have "\<forall>i. rr < i \<and> i < q' \<longrightarrow> \<not> bit bm i"
    using not_less_Least q'_def calculation by (metis (mono_tags, lifting) order_less_trans)
  ultimately show ?thesis using next_tx_q_up by blast
next
  case False
  then have w: "next_tx_q bm m rr = (if bit bm 0 then Some 0 else next_tx_q bm m 0)"
    using next_tx_q_wrap [OF assms(1)] by blast
  show ?thesis
  proof (cases "bit bm 0")
    case True
    with w show ?thesis by simp
  next
    case nb: False
    define q' where "q' = (LEAST i. bit bm i)"
    have "bit bm q'" unfolding q'_def using assms(3) by (rule LeastI)
    moreover have "q' \<le> q" unfolding q'_def using assms(3) by (rule Least_le)
    moreover have "\<forall>i. i < q' \<longrightarrow> \<not> bit bm i" unfolding q'_def using not_less_Least by blast
    moreover have "0 < q'" using nb calculation(1) by (cases q') simp_all
    ultimately have "next_tx_q bm m 0 = Some q'" using assms(2) by (intro next_tx_q_up) auto
    with w nb show ?thesis by simp
  qed
qed

text \<open>Conversely, the loop only returns at an enabled queue that it can step to.\<close>

lemma next_tx_q_result:
  assumes "next_tx_q bm m rr = Some q"
  shows "bit bm q \<and> (q < m \<or> q = 0)"
proof (rule next_tx_q.raw_induct [where P = "\<lambda>bm m rr q. bit bm q \<and> (q < m \<or> q = 0)", OF _ assms])
  fix f bm m rr q
  assume IH: "\<And>bm m rr q. f bm m rr = Some q \<Longrightarrow> bit bm q \<and> (q < m \<or> q = 0)"
    and eq: "(if bit_test bm (next_rr m rr) then Some (next_rr m rr) else f bm m (next_rr m rr)) = Some q"
  show "bit bm q \<and> (q < m \<or> q = 0)"
    using eq IH [of bm m "next_rr m rr" q]
    by (auto simp: bitmap_simps next_rr_def split: if_splits)
qed

lemma next_tx_q_diverges:
  assumes "\<forall>q. q < m \<or> q = 0 \<longrightarrow> \<not> bit bm q"
  shows "next_tx_q bm m rr = None"
  using assms next_tx_q_result [of bm m rr] by (cases "next_tx_q bm m rr") blast+

subsection \<open>Conservation of packets and of counts\<close>

text \<open>
  \<open>conserves r h r' h'\<close>: going from \<open>(r, h)\<close> to \<open>(r', h')\<close> extends the history by some
  \<open>d\<close>, and every packet buffer that was held or came in during \<open>d\<close> was, exactly once,
  handed to the VF, freed, or is still held. Buffers are compared by address, because the
  queue tag of a buffer changes.
\<close>

definition ptrs :: "mbuf list \<Rightarrow> nat multiset" where
  "ptrs ps = mset (map m_ptr ps)"

definition held :: "relay \<Rightarrow> mbuf list" where
  "held r = vio_held r @ dpdk_held r"

definition conserves :: "relay \<Rightarrow> hist \<Rightarrow> relay \<Rightarrow> hist \<Rightarrow> bool" where
  "conserves r h r' h' \<longleftrightarrow>
     (\<exists>d. h' = h @ d \<and>
          ptrs (held r) + ptrs (received d) = ptrs (eth_sent d) + ptrs (freed d) + ptrs (held r'))"

lemma ptrs_simps [simp]:
  "ptrs [] = {#}" "ptrs (p # ps) = add_mset (m_ptr p) (ptrs ps)"
  "ptrs (ps @ qs) = ptrs ps + ptrs qs" "ptrs (rev ps) = ptrs ps"
  by (simp_all add: ptrs_def)

lemma ptrs_take_drop: "ptrs (take n ps) + ptrs (drop n ps) = ptrs ps"
  by (simp flip: ptrs_simps(3))

lemma conserves_refl [intro, simp]: "conserves r h r h"
  unfolding conserves_def by (rule exI [of _ "[]"]) simp

lemma conserves_trans [trans]:
  assumes "conserves r h r' h'" "conserves r' h' r'' h''"
  shows "conserves r h r'' h''"
proof -
  obtain d where d: "h' = h @ d"
    "ptrs (held r) + ptrs (received d) = ptrs (eth_sent d) + ptrs (freed d) + ptrs (held r')"
    using assms(1) by (auto simp: conserves_def)
  obtain d' where d': "h'' = h' @ d'"
    "ptrs (held r') + ptrs (received d') = ptrs (eth_sent d') + ptrs (freed d') + ptrs (held r'')"
    using assms(2) by (auto simp: conserves_def)
  have "ptrs (held r) + ptrs (received (d @ d')) =
      ptrs (eth_sent (d @ d')) + ptrs (freed (d @ d')) + ptrs (held r'')"
    using d(2) d'(2) by simp (metis (no_types, lifting) add.assoc add.commute)
  then show ?thesis using d(1) d'(1) unfolding conserves_def
    by (intro exI [of _ "d @ d'"]) simp
qed

lemma conservesI:
  "h' = h @ d \<Longrightarrow>
   ptrs (held r) + ptrs (received d) = ptrs (eth_sent d) + ptrs (freed d) + ptrs (held r') \<Longrightarrow>
   conserves r h r' h'"
  by (auto simp: conserves_def)

text \<open>
  The counters: per direction, packets in minus packets out, dropped and still buffered,
  in 64-bit arithmetic. The forwarder never changes this difference.
\<close>

definition vm2vf_balance :: "relay \<Rightarrow> 64 word" where
  "vm2vf_balance r =
     st_vio_rx (stats r) - st_dpdk_tx (stats r) - st_dpdk_drop_full (stats r)
     - st_dpdk_drop_unavail (stats r) - of_nat (tx_pkts_avail (vio r))"

definition vf2vm_balance :: "relay \<Rightarrow> 64 word" where
  "vf2vm_balance r =
     st_dpdk_rx (stats r) - st_vio_tx (stats r) - st_vio_drop_full (stats r)
     - st_vio_drop_unavail (stats r) - of_nat (rx_pkts_avail (dpdk r))"

definition balanced :: "relay \<Rightarrow> relay \<Rightarrow> bool" where
  "balanced r r' \<longleftrightarrow> vm2vf_balance r' = vm2vf_balance r \<and> vf2vm_balance r' = vf2vm_balance r"

lemma balanced_refl [intro, simp]: "balanced r r"
  by (simp add: balanced_def)

lemma balanced_trans [trans]: "balanced r r' \<Longrightarrow> balanced r' r'' \<Longrightarrow> balanced r r''"
  by (simp add: balanced_def)

text \<open>One step of the data path, seen from outside: arrays stay well formed, packets and
  counts are conserved.\<close>

definition stage_ok :: "relay \<Rightarrow> bool" where
  "stage_ok r \<longleftrightarrow> tx_ok r \<and> rx_ok r"

definition forwards :: "relay \<Rightarrow> hist \<Rightarrow> relay \<Rightarrow> hist \<Rightarrow> bool" where
  "forwards r h r' h' \<longleftrightarrow> stage_ok r' \<and> conserves r h r' h' \<and> balanced r r'"

lemma forwards_refl: "stage_ok r \<Longrightarrow> forwards r h r h"
  by (simp add: forwards_def)

lemma forwards_trans [trans]:
  "forwards r h r' h' \<Longrightarrow> forwards r' h' r'' h'' \<Longrightarrow> forwards r h r'' h''"
  unfolding forwards_def by (meson balanced_trans conserves_trans)

lemma forwards_stage_ok: "forwards r h r' h' \<Longrightarrow> stage_ok r'"
  by (simp add: forwards_def)

lemma forwards_frame:
  assumes "stage_ok r" "vio_held r' = vio_held r" "dpdk_held r' = dpdk_held r"
    "tx_ok r' = tx_ok r" "rx_ok r' = rx_ok r" "stats r' = stats r"
    "tx_pkts_avail (vio r') = tx_pkts_avail (vio r)" "rx_pkts_avail (dpdk r') = rx_pkts_avail (dpdk r)"
  shows "forwards r h r' h"
  using assms
  by (auto simp: forwards_def stage_ok_def conserves_def held_def balanced_def vm2vf_balance_def
      vf2vm_balance_def)

subsection \<open>Each function of the data path forwards\<close>

lemmas count_defs = count_vio_rx_def count_dpdk_tx_def count_dpdk_rx_def count_vio_tx_def

lemma stage_sel [simp]:
  "stats (tx_stage a n u r) = stats r" "dpdk (tx_stage a n u r) = dpdk r"
  "tx_pkts_avail (vio (tx_stage a n u r)) = n"
  "stats (rx_stage a n u r) = stats r" "vio (rx_stage a n u r) = vio r"
  "rx_pkts_avail (dpdk (rx_stage a n u r)) = n"
  by (simp_all add: tx_stage_def rx_stage_def)

lemma virtio_rx_effect:
  assumes "burst_contract env" "stage_ok r" "vio_state (vio r) = VIRTIO_READY"
    "virtio_rx env r h = Some (n, r', h')"
  obtains d ps where "h' = h @ d" "received d = ps" "eth_sent d = []" "vhost_sent d = []" "freed d = []"
    "vio_held r' = ps" "dpdk_held r' = dpdk_held r" "stage_ok r'" "dpdk r' = dpdk r"
    "tx_pkts_avail (vio r') = length ps" "stats r' = count_vio_rx ps (stats r)"
proof -
  define c where "c = Rte_vhost_dequeue_burst (vio_dev (vio r)) (tx_q_rr (vio r) * 2 + 1) (mempool (vio r)) BURST_LEN"
  define en where "en = bit_test (tx_q_bitmap (vio r)) (tx_q_rr (vio r))"
  define ps where "ps = (if en then e_pkts env h c else [])"
  define r1 where "r1 = tx_stage (array_blit (tx_pkts (vio r)) 0 ps) (length ps) 0 r"
  define d where "d = (if en then [Received c ps] else [])"
  have eq: "virtio_rx env r h = next_tx_q (tx_q_bitmap (vio r)) (max_queue_pairs (vio r)) (tx_q_rr (vio r)) \<bind>
    (\<lambda>rr. Some (int (length ps), r1\<lparr>vio := (vio r1)\<lparr>tx_q_rr := rr\<rparr>, stats := count_vio_rx ps (stats r1)\<rparr>,
      h @ d))"
    unfolding virtio_rx_def Let_def c_def [symmetric] en_def [symmetric] ps_def [symmetric]
      r1_def [symmetric] d_def
    using assms(3) by simp
  obtain rr where r': "r' = r1\<lparr>vio := (vio r1)\<lparr>tx_q_rr := rr\<rparr>, stats := count_vio_rx ps (stats r1)\<rparr>"
    and h': "h' = h @ d"
    using assms(4) unfolding eq by (auto simp: bind_Some_iff)
  have ok: "tx_ok r" "rx_ok r" using assms(2) by (simp_all add: stage_ok_def)
  have len: "length ps \<le> BURST_LEN"
    using burst_contractD(1) [OF assms(1)] by (simp add: ps_def c_def)
  note fill = tx.fill [OF ok(1) len, folded r1_def]
  have "vio_held r' = ps" "tx_ok r'" "dpdk_held r' = dpdk_held r" "rx_ok r'"
    using fill ok(2) by (simp_all add: r' frame_simps) (simp_all add: r1_def frame_simps)
  then show ?thesis
    by (intro that [OF h', of ps]) (simp_all add: stage_ok_def r' r1_def d_def ps_def)
qed

lemma virtio_rx_forwards:
  assumes "burst_contract env" "stage_ok r" "tx_pkts_avail (vio r) = 0"
    "virtio_rx env r h = Some (n, r', h')"
  shows "forwards r h r' h'"
proof (cases "vio_state (vio r) = VIRTIO_READY")
  case False
  then show ?thesis using assms by (simp add: virtio_rx_def forwards_refl)
next
  case True
  obtain d ps where e: "h' = h @ d" "received d = ps" "eth_sent d = []" "freed d = []"
    "vio_held r' = ps" "dpdk_held r' = dpdk_held r" "stage_ok r'" "dpdk r' = dpdk r"
    "tx_pkts_avail (vio r') = length ps" "stats r' = count_vio_rx ps (stats r)"
    using virtio_rx_effect [OF assms(1,2) True assms(4)] by metis
  have "vio_held r = []" using assms(3) by (simp add: vio_held_def)
  then have "conserves r h r' h'" by (intro conservesI [OF e(1)]) (simp add: held_def e)
  moreover have "balanced r r'"
    using assms(3) by (simp add: balanced_def vm2vf_balance_def vf2vm_balance_def e count_defs)
  ultimately show ?thesis by (simp add: forwards_def e)
qed

lemma dpdk_tx_effect:
  assumes "burst_contract env" "stage_ok r" "dpdk_state (dpdk r) = DPDK_READY"
  obtains r' d ps where "dpdk_tx env r h = Some (int (length ps), r', h @ d)"
    "eth_sent d = ps" "received d = []" "vhost_sent d = []" "freed d = []"
    "vio_held r = ps @ vio_held r'" "dpdk_held r' = dpdk_held r" "stage_ok r'" "dpdk r' = dpdk r"
    "stats r' = count_dpdk_tx ps (stats r)"
    "length ps \<le> tx_pkts_avail (vio r)" "tx_pkts_avail (vio r') = tx_pkts_avail (vio r) - length ps"
proof -
  define c where "c = Rte_eth_tx_burst (dpdk_port (dpdk r)) 0 (vio_held r)"
  define sent where "sent = e_count env h c"
  define r1 where "r1 = tx_stage (tx_pkts (vio r)) (sub_u32 (tx_pkts_avail (vio r)) sent)
    (add_u32 (tx_pkts_used (vio r)) sent) r"
  define ps where "ps = take sent (vio_held r)"
  have ok: "tx_ok r" "rx_ok r" using assms(2) by (simp_all add: stage_ok_def)
  have le: "sent \<le> tx_pkts_avail (vio r)"
    using burst_contractD(3) [OF assms(1), of h "dpdk_port (dpdk r)" 0 "vio_held r"]
      tx.length_held [OF ok(1)]
    by (simp add: sent_def c_def)
  note con = tx.consume [OF ok(1) le, folded r1_def]
  define r' where "r' = r1\<lparr>stats := count_dpdk_tx ps (stats r1)\<rparr>"
  have len: "length ps = sent" using le tx.length_held [OF ok(1)] by (simp add: ps_def)
  have eq: "dpdk_tx env r h = Some (int (length ps), r', h @ [Sent c ps])"
    using assms(3) con(3,4) len
    by (simp add: dpdk_tx_def Let_def c_def [symmetric] sent_def [symmetric] r1_def [symmetric]
        ps_def r'_def)
  have "vio_held r' = drop sent (vio_held r)" "tx_ok r'" "dpdk_held r' = dpdk_held r" "rx_ok r'"
    using con(1,2) ok(2) by (simp_all add: r'_def frame_simps) (simp_all add: r1_def frame_simps)
  moreover have "vio_held r = ps @ vio_held r'" using calculation(1) by (simp add: ps_def)
  moreover have "tx_pkts_avail (vio r') = tx_pkts_avail (vio r) - length ps"
    using le tx.ok_small [OF ok(1)] len by (simp add: r'_def r1_def)
  ultimately show ?thesis
    using le len by (intro that [OF eq]) (simp_all add: stage_ok_def c_def r'_def r1_def)
qed

lemma dpdk_tx_forwards:
  assumes "burst_contract env" "stage_ok r"
  shows "\<exists>n r' h'. dpdk_tx env r h = Some (n, r', h') \<and> forwards r h r' h'"
proof (cases "dpdk_state (dpdk r) = DPDK_READY")
  case False
  then show ?thesis using assms by (simp add: dpdk_tx_def forwards_refl)
next
  case True
  obtain r' d ps where e: "dpdk_tx env r h = Some (int (length ps), r', h @ d)"
    "eth_sent d = ps" "received d = []" "freed d = []"
    "vio_held r = ps @ vio_held r'" "dpdk_held r' = dpdk_held r" "stage_ok r'" "dpdk r' = dpdk r"
    "stats r' = count_dpdk_tx ps (stats r)"
    "length ps \<le> tx_pkts_avail (vio r)" "tx_pkts_avail (vio r') = tx_pkts_avail (vio r) - length ps"
    using dpdk_tx_effect [OF assms True, of h] by metis
  have "conserves r h r' (h @ d)"
    by (rule conservesI [OF refl]) (use e(2-6) in \<open>simp add: held_def\<close>)
  moreover have "balanced r r'"
    using e(10) by (simp add: balanced_def vm2vf_balance_def vf2vm_balance_def e(8,9,11) count_defs)
  ultimately show ?thesis using e(1,7) by (auto simp: forwards_def)
qed

lemma drop_vio_held_forwards:
  assumes "stage_ok r"
  shows "forwards r h (fst (drop_vio_held r h)) (snd (drop_vio_held r h))"
proof -
  have ok: "tx_ok r" "rx_ok r" using assms by (simp_all add: stage_ok_def)
  have u: "tx_pkts_used (vio r) \<le> BURST_LEN" using ok(1) by (simp add: tx_ok_def)
  note give = tx.give_up [OF ok(1) u]
  let ?r' = "fst (drop_vio_held r h)"
  have "vio_held ?r' = []" "tx_ok ?r'" "dpdk_held ?r' = dpdk_held r" "rx_ok ?r'"
    using give ok by (simp_all add: drop_vio_held_def Let_def frame_simps)
  moreover have "balanced r ?r'"
    by (simp add: balanced_def vm2vf_balance_def vf2vm_balance_def drop_vio_held_def Let_def)
  moreover have "conserves r h ?r' (snd (drop_vio_held r h))"
    by (rule conservesI [of _ _ "map Freed (rev (vio_held r))"])
      (use calculation in \<open>simp_all add: held_def drop_vio_held_def free_pkts_def Let_def\<close>)
  ultimately show ?thesis by (simp add: forwards_def stage_ok_def)
qed

lemma drop_dpdk_held_forwards:
  assumes "stage_ok r"
  shows "forwards r h (fst (drop_dpdk_held r h)) (snd (drop_dpdk_held r h))"
proof -
  have ok: "tx_ok r" "rx_ok r" using assms by (simp_all add: stage_ok_def)
  have u: "rx_pkts_used (dpdk r) \<le> BURST_LEN" using ok(2) by (simp add: rx_ok_def)
  note give = rx.give_up [OF ok(2) u]
  let ?r' = "fst (drop_dpdk_held r h)"
  have "dpdk_held ?r' = []" "rx_ok ?r'" "vio_held ?r' = vio_held r" "tx_ok ?r'"
    using give ok by (simp_all add: drop_dpdk_held_def Let_def frame_simps)
  moreover have "balanced r ?r'"
    by (simp add: balanced_def vm2vf_balance_def vf2vm_balance_def drop_dpdk_held_def Let_def)
  moreover have "conserves r h ?r' (snd (drop_dpdk_held r h))"
    by (rule conservesI [of _ _ "map Freed (rev (dpdk_held r))"])
      (use calculation in \<open>simp_all add: held_def drop_dpdk_held_def free_pkts_def Let_def\<close>)
  ultimately show ?thesis by (simp add: forwards_def stage_ok_def)
qed

lemma dpdk_rx_effect:
  assumes "burst_contract env" "stage_ok r" "dpdk_state (dpdk r) = DPDK_READY"
    "dpdk_rx env r h = Some (n, r', h')"
  obtains d ps ps' where "h' = h @ d" "received d = ps" "eth_sent d = []" "vhost_sent d = []" "freed d = []"
    "(if 1 < rx_q_bitmap (vio r) then calc_mbuf_queue env (vio r) ps else Some ps) = Some ps'"
    "length ps' = length ps" "ptrs ps' = ptrs ps"
    "dpdk_held r' = ps'" "vio_held r' = vio_held r" "stage_ok r'" "vio r' = vio r"
    "rx_pkts_avail (dpdk r') = length ps'" "stats r' = count_dpdk_rx ps' (stats r)"
proof -
  define q where "q = Rte_vhost_avail_entries (vio_dev (vio r)) VIRTIO_RXQ"
  define n_try where "n_try = (if lm_pending (vio r) then BURST_LEN else min (e_count env h q) BURST_LEN)"
  define h1 where "h1 = (if lm_pending (vio r) then h else h @ [Did q])"
  define c where "c = Rte_eth_rx_burst (dpdk_port (dpdk r)) 0 n_try"
  define ps where "ps = e_pkts env h1 c"
  have eq: "dpdk_rx env r h = (if 1 < rx_q_bitmap (vio r) then calc_mbuf_queue env (vio r) ps else Some ps) \<bind>
    (\<lambda>ps'. Some (int (length ps'),
       (rx_stage (array_blit (rx_pkts (dpdk r)) 0 ps') (length ps') 0 r)\<lparr>stats := count_dpdk_rx ps' (stats r)\<rparr>,
       h1 @ [Received c ps]))"
    unfolding dpdk_rx_def Let_def q_def [symmetric] n_try_def [symmetric] h1_def [symmetric]
      c_def [symmetric] ps_def [symmetric]
    using assms(3) by simp
  obtain ps' where tag: "(if 1 < rx_q_bitmap (vio r) then calc_mbuf_queue env (vio r) ps else Some ps) = Some ps'"
    and r': "r' = (rx_stage (array_blit (rx_pkts (dpdk r)) 0 ps') (length ps') 0 r)\<lparr>stats := count_dpdk_rx ps' (stats r)\<rparr>"
    and h': "h' = h1 @ [Received c ps]"
    using assms(4) unfolding eq bind_Some_iff by auto
  have same: "length ps' = length ps" "ptrs ps' = ptrs ps"
    using tag calc_mbuf_queue_ptrs [of env "vio r" ps ps'] by (auto simp: ptrs_def simp del: mset_map split: if_splits)
  have ok: "tx_ok r" "rx_ok r" using assms(2) by (simp_all add: stage_ok_def)
  have "length ps \<le> n_try" using burst_contractD(2) [OF assms(1)] by (simp add: ps_def c_def)
  then have len: "length ps' \<le> BURST_LEN" using same(1) by (simp add: n_try_def split: if_splits)
  note fill = rx.fill [OF ok(2) len]
  have "dpdk_held r' = ps'" "rx_ok r'" "vio_held r' = vio_held r" "tx_ok r'"
    using fill ok(1) by (simp_all add: r' frame_simps)
  moreover define d where "d = (if lm_pending (vio r) then [] else [Did q]) @ [Received c ps]"
  moreover have "received d = ps" "eth_sent d = []" "vhost_sent d = []" "freed d = []"
    by (simp_all add: d_def)
  moreover have "h' = h @ d" by (simp add: h' h1_def d_def)
  ultimately show ?thesis
    by (intro that [of d ps, OF _ _ _ _ _ tag same]) (simp_all add: stage_ok_def r')
qed

lemma dpdk_rx_forwards:
  assumes "burst_contract env" "stage_ok r" "rx_pkts_avail (dpdk r) = 0"
    "dpdk_rx env r h = Some (n, r', h')"
  shows "forwards r h r' h'"
proof (cases "dpdk_state (dpdk r) = DPDK_READY")
  case False
  then show ?thesis using assms by (simp add: dpdk_rx_def forwards_refl)
next
  case True
  obtain d ps ps' where e: "h' = h @ d" "received d = ps" "eth_sent d = []" "freed d = []"
    "length ps' = length ps" "ptrs ps' = ptrs ps"
    "dpdk_held r' = ps'" "vio_held r' = vio_held r" "stage_ok r'" "vio r' = vio r"
    "rx_pkts_avail (dpdk r') = length ps'" "stats r' = count_dpdk_rx ps' (stats r)"
    using dpdk_rx_effect [OF assms(1,2) True assms(4)] by metis
  have "dpdk_held r = []" using assms(3) by (simp add: dpdk_held_def)
  then have "conserves r h r' h'"
    by (intro conservesI [OF e(1)]) (use e(2-8) in \<open>simp add: held_def\<close>)
  moreover have "balanced r r'"
    using assms(3) by (simp add: balanced_def vm2vf_balance_def vf2vm_balance_def e(5,10-12) count_defs)
  ultimately show ?thesis using e(9) by (simp add: forwards_def)
qed

subsection \<open>Spreading a burst over several queues\<close>

lemma mset_concat_update:
  "i < length qs \<Longrightarrow> mset (concat (qs[i := qs ! i @ [p]])) = add_mset p (mset (concat qs))"
  by (induction qs arbitrary: i) (auto split: nat.splits simp: nth_Cons')

lemma batch_queues_mset:
  "batch_queues ps qs = Some qs' \<Longrightarrow>
     length qs' = length qs \<and> mset (concat qs') = mset (concat qs) + mset ps"
  by (induction ps arbitrary: qs)
    (auto simp: Let_def mset_concat_update split: if_splits)

text \<open>Each queue gets exactly the packets tagged for it, in their order.\<close>

lemma batch_queues_nth:
  "batch_queues ps qs = Some qs' \<Longrightarrow> i < length qs \<Longrightarrow>
     qs' ! i = qs ! i @ filter (\<lambda>p. unat (fdir_id p) = i) ps"
proof (induction ps arbitrary: qs)
  case Nil
  then show ?case by simp
next
  case (Cons p ps)
  then show ?case
    by (cases "unat (fdir_id p) = i") (auto simp: Let_def split: if_splits)
qed

lemma batch_queues_total:
  assumes "\<forall>p\<in>set ps. unat (fdir_id p) < length qs"
    "\<forall>q\<in>set qs. length q + length ps \<le> BURST_LEN"
  shows "\<exists>qs'. batch_queues ps qs = Some qs'"
  using assms
proof (induction ps arbitrary: qs)
  case Nil
  then show ?case by simp
next
  case (Cons p ps)
  let ?q = "unat (fdir_id p)"
  have q: "?q < length qs" using Cons.prems by simp
  then have l: "length (qs ! ?q) + length (p # ps) \<le> BURST_LEN" using Cons.prems nth_mem by blast
  have "\<exists>qs'. batch_queues ps (qs[?q := qs ! ?q @ [p]]) = Some qs'"
  proof (rule Cons.IH)
    show "\<forall>p'\<in>set ps. unat (fdir_id p') < length (qs[?q := qs ! ?q @ [p]])" using Cons.prems by simp
    show "\<forall>q'\<in>set (qs[?q := qs ! ?q @ [p]]). length q' + length ps \<le> BURST_LEN"
      using Cons.prems(2) l by (auto dest!: set_update_subset_insert [THEN subsetD])
  qed
  then show ?case using q l by (simp add: Let_def)
qed

text \<open>A tag that is not a queue index below the number of active queues writes outside the
  arrays.\<close>

lemma batch_queues_overflow:
  "p \<in> set ps \<Longrightarrow> length qs \<le> unat (fdir_id p) \<Longrightarrow> batch_queues ps qs = None"
  by (induction ps arbitrary: qs) (auto simp: Let_def)

definition same_other_stats :: "relay_stats \<Rightarrow> relay_stats \<Rightarrow> bool" where
  "same_other_stats s s' \<longleftrightarrow>
     s' = s\<lparr>st_vio_tx := st_vio_tx s', st_vio_tx_bytes := st_vio_tx_bytes s'\<rparr>"

lemma same_other_stats_trans:
  "same_other_stats s s' \<Longrightarrow> same_other_stats s' s'' \<Longrightarrow> same_other_stats s s''"
  by (cases s; cases s'; cases s'') (simp add: same_other_stats_def)

lemma count_vio_tx_same: "same_other_stats s (count_vio_tx ps s)"
  by (cases s) (simp add: same_other_stats_def count_vio_tx_def)

lemma st_vio_tx_count [simp]: "st_vio_tx (count_vio_tx ps s) = st_vio_tx s + of_nat (length ps)"
  by (simp add: count_vio_tx_def)

text \<open>The effect of sending: what was staged is either sent and freed, or kept.\<close>

definition sends :: "mbuf list \<Rightarrow> hist \<times> relay_stats \<times> mbuf list \<Rightarrow> hist \<times> relay_stats \<times> mbuf list \<Rightarrow> bool"
  where
  "sends ps = (\<lambda>(h, s, kept) (h', s', kept').
     (\<exists>d. h' = h @ d \<and> received d = [] \<and> eth_sent d = [] \<and> ptrs (freed d) = ptrs (vhost_sent d) \<and>
          ptrs ps + ptrs kept = ptrs (freed d) + ptrs kept') \<and>
     same_other_stats s s' \<and>
     st_vio_tx s' + of_nat (length kept') = st_vio_tx s + of_nat (length ps) + of_nat (length kept) \<and>
     length kept' \<le> length ps + length kept)"

lemma sends_Nil: "sends [] a a"
  by (cases a) (auto simp: sends_def same_other_stats_def intro: exI [of _ "[]"])

lemma sends_append:
  assumes "sends ps a b" "sends qs b c"
  shows "sends (ps @ qs) a c"
proof -
  obtain h s k h' s' k' h'' s'' k'' where abc: "a = (h, s, k)" "b = (h', s', k')" "c = (h'', s'', k'')"
    by (cases a, cases b, cases c) auto
  obtain d where d: "h' = h @ d" "received d = []" "eth_sent d = []" "ptrs (freed d) = ptrs (vhost_sent d)"
    "ptrs ps + ptrs k = ptrs (freed d) + ptrs k'"
    using assms(1) by (auto simp: sends_def abc)
  obtain d' where d': "h'' = h' @ d'" "received d' = []" "eth_sent d' = []"
    "ptrs (freed d') = ptrs (vhost_sent d')" "ptrs qs + ptrs k' = ptrs (freed d') + ptrs k''"
    using assms(2) by (auto simp: sends_def abc)
  have "ptrs (ps @ qs) + ptrs k = ptrs (freed (d @ d')) + ptrs k''"
    using d(5) d'(5) by simp (metis (no_types, lifting) add.assoc add.commute)
  then have "\<exists>e. h'' = h @ e \<and> received e = [] \<and> eth_sent e = [] \<and> ptrs (freed e) = ptrs (vhost_sent e) \<and>
      ptrs (ps @ qs) + ptrs k = ptrs (freed e) + ptrs k''"
    using d d' by (intro exI [of _ "d @ d'"]) simp
  moreover have "same_other_stats s s''"
    using assms by (auto simp: sends_def abc intro: same_other_stats_trans)
  moreover have "st_vio_tx s'' + of_nat (length k'') = st_vio_tx s + of_nat (length (ps @ qs)) + of_nat (length k)"
    using assms by (simp add: sends_def abc algebra_simps)
  moreover have "length k'' \<le> length (ps @ qs) + length k" using assms by (simp add: sends_def abc)
  ultimately show ?thesis by (simp add: sends_def abc)
qed

text \<open>One enqueue call: the accepted prefix is sent and freed, the rest is kept in some order.\<close>

lemma sends_burst:
  assumes le: "sent \<le> length qp"
    and k': "ptrs k' = ptrs k + ptrs (drop sent qp)" "length k' = length k + (length qp - sent)"
  shows "sends qp (h, s, k)
    (free_pkts (take sent qp) (h @ [Sent (Rte_vhost_enqueue_burst dev q qp) (take sent qp)]),
     count_vio_tx (take sent qp) s, k')"
proof -
  let ?c = "Rte_vhost_enqueue_burst dev q qp"
  let ?d = "[Sent ?c (take sent qp)] @ map Freed (rev (take sent qp))"
  have 1: "\<exists>d. free_pkts (take sent qp) (h @ [Sent ?c (take sent qp)]) = h @ d \<and>
      received d = [] \<and> eth_sent d = [] \<and> ptrs (freed d) = ptrs (vhost_sent d) \<and>
      ptrs qp + ptrs k = ptrs (freed d) + ptrs k'"
    by (intro exI [of _ ?d])
      (simp add: free_pkts_def k' ptrs_take_drop [of sent qp, symmetric] ac_simps)
  have 2: "(of_nat (min (length qp) sent) + of_nat (length qp - sent) :: 64 word) = of_nat (length qp)"
    using le by (simp add: min_def flip: of_nat_add)
  have 3: "st_vio_tx (count_vio_tx (take sent qp) s) + of_nat (length k')
      = st_vio_tx s + of_nat (length qp) + of_nat (length k)"
    using 2 by (simp add: k'(2) algebra_simps)
  show ?thesis
    unfolding sends_def prod.case by (intro conjI 1 3 count_vio_tx_same) (simp add: k'(2))
qed

lemma send_queue_sends:
  assumes "burst_contract env"
  shows "sends qp a (send_queue env dev i qp a)"
proof -
  obtain h s k where a: "a = (h, s, k)" by (cases a) auto
  have le: "e_count env h (Rte_vhost_enqueue_burst dev (i * 2) qp) \<le> length qp"
    using burst_contractD(4) [OF assms] by simp
  show ?thesis
    using sends_Nil sends_burst [OF le]
    by (cases "qp = []") (simp_all add: a send_queue_def Let_def)
qed

lemma send_queues_sends:
  assumes "burst_contract env"
  shows "sends (concat qs) a (send_queues env dev i qs a)"
proof (induction qs arbitrary: i a)
  case Nil
  then show ?case by (simp add: sends_Nil)
next
  case (Cons q qs)
  show ?case
    using sends_append [OF send_queue_sends [OF assms] Cons.IH] by simp
qed

lemma sends_forwards:
  assumes ok: "stage_ok r" and len: "length ps = rx_pkts_avail (dpdk r)"
    and ps: "ptrs ps = ptrs (dpdk_held r)"
    and s: "sends ps (h, stats r, []) (h', s', kept)"
    and r': "dpdk_held r' = kept" "rx_ok r'" "vio_held r' = vio_held r" "tx_ok r'"
      "stats r' = s'" "rx_pkts_avail (dpdk r') = length kept"
      "tx_pkts_avail (vio r') = tx_pkts_avail (vio r)"
  shows "forwards r h r' h'"
proof -
  obtain d where d: "h' = h @ d" "received d = []" "eth_sent d = []"
    "ptrs ps = ptrs (freed d) + ptrs kept"
    using s by (auto simp: sends_def)
  have st: "same_other_stats (stats r) s'"
    "st_vio_tx s' + of_nat (length kept) = st_vio_tx (stats r) + of_nat (rx_pkts_avail (dpdk r))"
    using s len by (simp_all add: sends_def)
  have f: "st_vio_rx s' = st_vio_rx (stats r)" "st_dpdk_tx s' = st_dpdk_tx (stats r)"
    "st_dpdk_drop_full s' = st_dpdk_drop_full (stats r)"
    "st_dpdk_drop_unavail s' = st_dpdk_drop_unavail (stats r)"
    "st_dpdk_rx s' = st_dpdk_rx (stats r)" "st_vio_drop_full s' = st_vio_drop_full (stats r)"
    "st_vio_drop_unavail s' = st_vio_drop_unavail (stats r)"
    using st(1) unfolding same_other_stats_def by (metis (no_types, lifting) relay_stats.select_convs
        relay_stats.simps relay_stats.update_convs relay_stats.surjective)+
  have "balanced r r'"
    using st(2) r' f
    by (simp add: balanced_def vm2vf_balance_def vf2vm_balance_def diff_diff_eq algebra_simps)
  moreover have "conserves r h r' h'"
    by (rule conservesI [OF d(1)]) (use d ps r' in \<open>simp add: held_def\<close>)
  ultimately show ?thesis using r' by (simp add: forwards_def stage_ok_def)
qed

lemma virtio_tx_single_effect:
  assumes "burst_contract env" "stage_ok r" "vio_state (vio r) = VIRTIO_READY" "rx_q_bitmap (vio r) \<le> 1"
  obtains r' ps d where "virtio_tx env r h = Some (0, r', h @ d)"
    "d = [Sent (Rte_vhost_enqueue_burst (vio_dev (vio r)) VIRTIO_RXQ (dpdk_held r)) ps] @ map Freed (rev ps)"
    "ps = take (length ps) (dpdk_held r)" "dpdk_held r' = drop (length ps) (dpdk_held r)"
    "length ps \<le> length (dpdk_held r)"
    "vio_held r' = vio_held r" "stage_ok r'" "vio r' = vio r"
    "rx_pkts_avail (dpdk r') = length (dpdk_held r')" "stats r' = count_vio_tx ps (stats r)"
proof -
  define c where "c = Rte_vhost_enqueue_burst (vio_dev (vio r)) VIRTIO_RXQ (dpdk_held r)"
  define sent where "sent = e_count env h c"
  define r1 where "r1 = rx_stage (rx_pkts (dpdk r)) (sub_u32 (rx_pkts_avail (dpdk r)) sent)
    (add_u32 (rx_pkts_used (dpdk r)) sent) r"
  define ps where "ps = take sent (dpdk_held r)"
  have ok: "tx_ok r" "rx_ok r" using assms(2) by (simp_all add: stage_ok_def)
  note lh = rx.length_held [OF ok(2)]
  have le: "sent \<le> length (dpdk_held r)"
    using burst_contractD(4) [OF assms(1), of h "vio_dev (vio r)" VIRTIO_RXQ "dpdk_held r"]
    by (simp add: sent_def c_def)
  note con = rx.consume [OF ok(2) le [unfolded lh], folded r1_def]
  define r' where "r' = r1\<lparr>stats := count_vio_tx ps (stats r1)\<rparr>"
  have single: "\<not> 1 < rx_q_bitmap (vio r)" using assms(4) by (rule leD)
  have len: "length ps = sent" using le by (simp add: ps_def)
  have eq: "virtio_tx env r h = Some (0, r', h @ [Sent c ps] @ map Freed (rev ps))"
    using assms(3) con(3,4) single
    by (simp add: virtio_tx_def Let_def c_def [symmetric] sent_def [symmetric] r1_def [symmetric]
        ps_def r'_def free_pkts_def)
  have "dpdk_held r' = drop sent (dpdk_held r)" "rx_ok r'" "vio_held r' = vio_held r" "tx_ok r'"
    using con(1,2) ok(1) by (simp_all add: r'_def frame_simps) (simp_all add: r1_def frame_simps)
  moreover have "rx_pkts_avail (dpdk r') = length (drop sent (dpdk_held r))"
    using le lh rx.ok_small [OF ok(2)] by (simp add: r'_def r1_def)
  ultimately show ?thesis
    by (intro that [OF eq]) (use len le in \<open>simp_all add: c_def ps_def stage_ok_def r'_def r1_def\<close>)
qed

lemma virtio_tx_single_forwards:
  assumes "burst_contract env" "stage_ok r" "rx_q_bitmap (vio r) \<le> 1"
  shows "\<exists>n r' h'. virtio_tx env r h = Some (n, r', h') \<and> forwards r h r' h'"
proof (cases "vio_state (vio r) = VIRTIO_READY")
  case False
  then show ?thesis using assms by (simp add: virtio_tx_def forwards_refl)
next
  case True
  obtain r' ps d where e: "virtio_tx env r h = Some (0, r', h @ d)"
    "d = [Sent (Rte_vhost_enqueue_burst (vio_dev (vio r)) VIRTIO_RXQ (dpdk_held r)) ps] @ map Freed (rev ps)"
    "ps = take (length ps) (dpdk_held r)" "dpdk_held r' = drop (length ps) (dpdk_held r)"
    "length ps \<le> length (dpdk_held r)"
    "vio_held r' = vio_held r" "stage_ok r'" "vio r' = vio r"
    "rx_pkts_avail (dpdk r') = length (dpdk_held r')" "stats r' = count_vio_tx ps (stats r)"
    using virtio_tx_single_effect [OF assms(1,2) True assms(3), of h] by metis
  have lh: "length (dpdk_held r) = rx_pkts_avail (dpdk r)"
    using assms(2) rx.length_held by (simp add: stage_ok_def)
  have s: "sends (dpdk_held r) (h, stats r, []) (h @ d, stats r', dpdk_held r')"
    using sends_burst [OF e(5), of "dpdk_held r'" "[]" h "stats r" "vio_dev (vio r)" VIRTIO_RXQ]
    unfolding e(2,10) e(3) [symmetric] by (simp add: e(4) free_pkts_def)
  have "forwards r h r' (h @ d)"
    by (rule sends_forwards [OF assms(2) lh refl s refl])
      (use e(6-9) in \<open>simp_all add: stage_ok_def\<close>)
  then show ?thesis using e(1) by blast
qed

lemma virtio_tx_forwards:
  assumes "burst_contract env" "stage_ok r" "virtio_tx env r h = Some (n, r', h')"
  shows "forwards r h r' h'"
proof (cases "vio_state (vio r) = VIRTIO_READY \<and> 1 < rx_q_bitmap (vio r)")
  case False
  then consider "vio_state (vio r) \<noteq> VIRTIO_READY" | "rx_q_bitmap (vio r) \<le> 1" by fastforce
  then show ?thesis
  proof cases
    case 1
    then show ?thesis using assms by (simp add: virtio_tx_def forwards_refl)
  next
    case 2
    then show ?thesis using virtio_tx_single_forwards [OF assms(1,2) 2, of h] assms(3) by auto
  qed
next
  case True
  have ok: "tx_ok r" "rx_ok r" using assms(2) by (simp_all add: stage_ok_def)
  note lh = rx.length_held [OF ok(2)]
  obtain qs where qs: "batch_queues (dpdk_held r) (replicate (rx_q_active (vio r)) []) = Some qs"
    using True assms(3) by (auto simp: virtio_tx_def Let_def bind_Some_iff)
  obtain h2 s2 kept where sq: "send_queues env (vio_dev (vio r)) 0 qs (h, stats r, []) = (h2, s2, kept)"
    by (cases "send_queues env (vio_dev (vio r)) 0 qs (h, stats r, [])") auto
  define r1 where "r1 = rx_stage (array_blit (rx_pkts (dpdk r)) (rx_pkts_used (dpdk r)) kept)
    (length kept) (rx_pkts_used (dpdk r)) r"
  have res: "r' = r1\<lparr>stats := s2\<rparr>" "h' = h2"
    using True assms(3) qs sq by (simp_all add: virtio_tx_def Let_def r1_def)
  have m: "mset (concat qs) = mset (dpdk_held r)"
    using batch_queues_mset [OF qs] by (simp add: concat_replicate_trivial)
  have s: "sends (concat qs) (h, stats r, []) (h2, s2, kept)"
    using send_queues_sends [OF assms(1)] sq by metis
  have cl: "length (concat qs) = rx_pkts_avail (dpdk r)" using m lh by (metis size_mset)
  then have kl: "length kept \<le> rx_pkts_avail (dpdk r)" using s by (simp add: sends_def)
  note restage = rx.put_back [OF ok(2) kl, folded r1_def]
  show ?thesis
    unfolding res(2)
  proof (rule sends_forwards [OF assms(2) cl _ s])
    show "ptrs (concat qs) = ptrs (dpdk_held r)" using m by (simp add: ptrs_def)
    show "dpdk_held r' = kept" "rx_ok r'" "vio_held r' = vio_held r" "tx_ok r'"
      using restage ok(1) by (simp_all add: res(1) frame_simps) (simp_all add: r1_def frame_simps)
  qed (simp_all add: res(1) r1_def)
qed

subsection \<open>Removal and whole rounds\<close>

lemma forwards_lockstate:
  assumes "stage_ok r"
  shows "forwards r h (r\<lparr>vio := (vio r)\<lparr>vio_sl := l\<rparr>\<rparr>) h"
    and "forwards r h (r\<lparr>vio := (vio r)\<lparr>vio_state := s\<rparr>\<rparr>) h"
    and "forwards r h (r\<lparr>vio := (vio r)\<lparr>vio_sl := l, vio_state := s\<rparr>\<rparr>) h"
    and "forwards r h (r\<lparr>dpdk := (dpdk r)\<lparr>dpdk_sl := l\<rparr>\<rparr>) h"
    and "forwards r h (r\<lparr>dpdk := (dpdk r)\<lparr>dpdk_state := s'\<rparr>\<rparr>) h"
  by (rule forwards_frame [OF assms]; simp add: frame_simps)+

lemma rewind_forwards:
  assumes "stage_ok r"
  shows "tx_pkts_avail (vio r) = 0 \<Longrightarrow> forwards r h (tx_stage (tx_pkts (vio r)) 0 0 r) h"
    and "rx_pkts_avail (dpdk r) = 0 \<Longrightarrow> forwards r h (rx_stage (rx_pkts (dpdk r)) 0 0 r) h"
  using assms tx.give_up [of r 0] rx.give_up [of r 0]
  by (auto intro!: forwards_frame simp: stage_ok_def frame_simps vio_held_def dpdk_held_def
      tx_stage_def rx_stage_def tx_ok_def rx_ok_def)

lemma flush_vio_forwards:
  assumes "stage_ok r"
  shows "forwards r h (fst (flush_vio r h)) (snd (flush_vio r h))"
proof (cases "tx_pkts_avail (vio r) = 0")
  case False
  obtain r1 h1 where d: "drop_vio_held r h = (r1, h1)" by (cases "drop_vio_held r h") auto
  have f: "forwards r h r1 h1" using drop_vio_held_forwards [OF assms, of h] d by simp
  have "tx_pkts_avail (vio r1) = 0" using d by (auto simp: drop_vio_held_def Let_def)
  then have "forwards r1 h1 (tx_stage (tx_pkts (vio r1)) 0 0 r1) h1"
    using rewind_forwards(1) forwards_stage_ok [OF f] by blast
  with f show ?thesis using False d by (auto simp: flush_vio_def Let_def intro: forwards_trans)
qed (simp add: flush_vio_def forwards_refl assms)

lemma flush_dpdk_forwards:
  assumes "stage_ok r"
  shows "forwards r h (fst (flush_dpdk r h)) (snd (flush_dpdk r h))"
proof (cases "rx_pkts_avail (dpdk r) = 0")
  case False
  obtain r1 h1 where d: "drop_dpdk_held r h = (r1, h1)" by (cases "drop_dpdk_held r h") auto
  have f: "forwards r h r1 h1" using drop_dpdk_held_forwards [OF assms, of h] d by simp
  have "rx_pkts_avail (dpdk r1) = 0" using d by (auto simp: drop_dpdk_held_def Let_def)
  then have "forwards r1 h1 (rx_stage (rx_pkts (dpdk r1)) 0 0 r1) h1"
    using rewind_forwards(2) forwards_stage_ok [OF f] by blast
  with f show ?thesis using False d by (auto simp: flush_dpdk_def Let_def intro: forwards_trans)
qed (simp add: flush_dpdk_def forwards_refl assms)

lemma worker_remove_vf_forwards:
  assumes "stage_ok r" "worker_remove_vf r h = (r', h')"
  shows "forwards r h r' h'"
proof -
  define r1 where "r1 = r\<lparr>dpdk := (dpdk r)\<lparr>dpdk_sl := True\<rparr>\<rparr>"
  obtain r2 h2 where 2: "flush_dpdk r1 h = (r2, h2)" by (cases "flush_dpdk r1 h") auto
  define r3 where "r3 = r2\<lparr>dpdk := (dpdk r2)\<lparr>dpdk_sl := False\<rparr>\<rparr>"
  obtain r4 h4 where 4: "flush_vio r3 h2 = (r4, h4)" by (cases "flush_vio r3 h2") auto
  have res: "r' = r4\<lparr>dpdk := (dpdk r4)\<lparr>dpdk_state := DPDK_UNINIT\<rparr>\<rparr>" "h' = h4"
    using assms(2) 2 4 by (auto simp: worker_remove_vf_def Let_def r1_def r3_def)
  have f1: "forwards r h r1 h" unfolding r1_def by (rule forwards_lockstate(4) [OF assms(1)])
  have f2: "forwards r1 h r2 h2"
    using flush_dpdk_forwards [OF forwards_stage_ok [OF f1], of h] 2 by simp
  have f3: "forwards r2 h2 r3 h2"
    unfolding r3_def by (rule forwards_lockstate(4) [OF forwards_stage_ok [OF f2]])
  have f4: "forwards r3 h2 r4 h4"
    using flush_vio_forwards [OF forwards_stage_ok [OF f3], of h2] 4 by simp
  have f5: "forwards r4 h4 r' h'"
    unfolding res by (rule forwards_lockstate(5) [OF forwards_stage_ok [OF f4]])
  show ?thesis using f1 f2 f3 f4 f5 by (blast intro: forwards_trans)
qed

lemma worker_remove_virtio_forwards:
  assumes "stage_ok r" "worker_remove_virtio r h = (r', h')"
  shows "forwards r h r' h'"
proof -
  obtain r1 h1 where 1: "flush_dpdk r h = (r1, h1)" by (cases "flush_dpdk r h") auto
  define r2 where "r2 = r1\<lparr>vio := (vio r1)\<lparr>vio_sl := True\<rparr>\<rparr>"
  obtain r3 h3 where 3: "flush_vio r2 h1 = (r3, h3)" by (cases "flush_vio r2 h1") auto
  have res: "r' = r3\<lparr>vio := (vio r3)\<lparr>vio_sl := False, vio_state := VIRTIO_UNINIT\<rparr>\<rparr>" "h' = h3"
    using assms(2) 1 3 by (auto simp: worker_remove_virtio_def Let_def r2_def)
  have f1: "forwards r h r1 h1" using flush_dpdk_forwards [OF assms(1), of h] 1 by simp
  have f2: "forwards r1 h1 r2 h1"
    unfolding r2_def by (rule forwards_lockstate(1) [OF forwards_stage_ok [OF f1]])
  have f3: "forwards r2 h1 r3 h3"
    using flush_vio_forwards [OF forwards_stage_ok [OF f2], of h1] 3 by simp
  have f4: "forwards r3 h3 r' h'"
    unfolding res by (rule forwards_lockstate(3) [OF forwards_stage_ok [OF f3]])
  show ?thesis using f1 f2 f3 f4 by (blast intro: forwards_trans)
qed

lemma handshake_forwards:
  assumes "stage_ok r"
  shows "forwards r h (vm2vf_handshake r) h" "forwards r h (vf2vm_handshake r) h"
  using forwards_lockstate(2,5) [OF assms] forwards_refl [OF assms]
  by (simp_all add: vm2vf_handshake_def vf2vm_handshake_def)

text \<open>The stages of a round.\<close>

lemma vm2vf_roundE:
  assumes "relay_vm2vf_traffic env r h = Some (b, r', h')"
  obtains n1 r1 h1 n2 r2 h2 r3 h3 where
    "(if tx_pkts_avail (vio r) = 0 then virtio_rx env r h else Some (0, r, h)) = Some (n1, r1, h1)"
    "(if tx_pkts_avail (vio r1) \<noteq> 0 then dpdk_tx env r1 h1 else Some (0, r1, h1)) = Some (n2, r2, h2)"
    "(if n2 = -1 \<and> tx_pkts_avail (vio r2) \<noteq> 0 then drop_vio_held r2 h2 else (r2, h2)) = (r3, h3)"
    "(if dpdk_state (dpdk (vm2vf_handshake r3)) = DPDK_REMOVING2
      then worker_remove_vf (vm2vf_handshake r3) h3 else (vm2vf_handshake r3, h3)) = (r', h')"
    "b = (if vio_state (vio r') = VIRTIO_READY then 1 else 0)"
proof -
  obtain n1 r1 h1 where 1: "(if tx_pkts_avail (vio r) = 0 then virtio_rx env r h else Some (0, r, h)) = Some (n1, r1, h1)"
    using assms unfolding relay_vm2vf_traffic_def bind_Some_iff by (metis prod_cases3)
  obtain n2 r2 h2 where 2: "(if tx_pkts_avail (vio r1) \<noteq> 0 then dpdk_tx env r1 h1 else Some (0, r1, h1)) = Some (n2, r2, h2)"
    using assms unfolding relay_vm2vf_traffic_def 1 Option.bind.bind_lunit prod.case bind_Some_iff
    by (metis prod_cases3)
  obtain r3 h3 where 3: "(if n2 = -1 \<and> tx_pkts_avail (vio r2) \<noteq> 0 then drop_vio_held r2 h2 else (r2, h2)) = (r3, h3)"
    by (cases "if n2 = -1 \<and> tx_pkts_avail (vio r2) \<noteq> 0 then drop_vio_held r2 h2 else (r2, h2)") auto
  show ?thesis
    using assms that [OF 1 2 3]
    unfolding relay_vm2vf_traffic_def 1 2 Option.bind.bind_lunit prod.case Let_def 3
    by (auto simp: case_prod_beta split: if_splits)
qed

lemma vf2vm_roundE:
  assumes "relay_vf2vm_traffic env r h = Some (b, r', h')"
  obtains n1 r1 h1 n2 r2 h2 r3 h3 r4 where
    "(if rx_pkts_avail (dpdk r) = 0 then dpdk_rx env r h else Some (0, r, h)) = Some (n1, r1, h1)"
    "(if rx_pkts_avail (dpdk r1) \<noteq> 0 then virtio_tx env r1 h1 else Some (0, r1, h1)) = Some (n2, r2, h2)"
    "(if n2 = -1 \<and> rx_pkts_avail (dpdk r2) \<noteq> 0 then drop_dpdk_held r2 h2 else (r2, h2)) = (r3, h3)"
    "(if vio_state (vio r3) = VIRTIO_REMOVING2 then worker_remove_virtio r3 h3 else (r3, h3)) = (r4, h')"
    "r' = vf2vm_handshake r4"
    "b = (if dpdk_state (dpdk r') = DPDK_READY then 1 else 0)"
proof -
  obtain n1 r1 h1 where 1: "(if rx_pkts_avail (dpdk r) = 0 then dpdk_rx env r h else Some (0, r, h)) = Some (n1, r1, h1)"
    using assms unfolding relay_vf2vm_traffic_def bind_Some_iff by (metis prod_cases3)
  obtain n2 r2 h2 where 2: "(if rx_pkts_avail (dpdk r1) \<noteq> 0 then virtio_tx env r1 h1 else Some (0, r1, h1)) = Some (n2, r2, h2)"
    using assms unfolding relay_vf2vm_traffic_def 1 Option.bind.bind_lunit prod.case bind_Some_iff
    by (metis prod_cases3)
  obtain r3 h3 where 3: "(if n2 = -1 \<and> rx_pkts_avail (dpdk r2) \<noteq> 0 then drop_dpdk_held r2 h2 else (r2, h2)) = (r3, h3)"
    by (cases "if n2 = -1 \<and> rx_pkts_avail (dpdk r2) \<noteq> 0 then drop_dpdk_held r2 h2 else (r2, h2)") auto
  obtain r4 h4 where 4: "(if vio_state (vio r3) = VIRTIO_REMOVING2 then worker_remove_virtio r3 h3 else (r3, h3)) = (r4, h4)"
    by (cases "if vio_state (vio r3) = VIRTIO_REMOVING2 then worker_remove_virtio r3 h3 else (r3, h3)") auto
  have res: "r' = vf2vm_handshake r4" "h' = h4" "b = (if dpdk_state (dpdk r') = DPDK_READY then 1 else 0)"
    using assms unfolding relay_vf2vm_traffic_def 1 2 Option.bind.bind_lunit prod.case Let_def 3 4
    by (simp_all split: if_splits)
  show ?thesis using that [OF 1 2 3 4 [folded res(2)] res(1,3)] .
qed

lemma relay_vm2vf_traffic_forwards:
  assumes "burst_contract env" "stage_ok r" "relay_vm2vf_traffic env r h = Some (b, r', h')"
  shows "forwards r h r' h'"
  using assms(3)
proof (rule vm2vf_roundE)
  fix n1 r1 h1 n2 r2 h2 r3 h3
  assume 1: "(if tx_pkts_avail (vio r) = 0 then virtio_rx env r h else Some (0, r, h)) = Some (n1, r1, h1)"
    and 2: "(if tx_pkts_avail (vio r1) \<noteq> 0 then dpdk_tx env r1 h1 else Some (0, r1, h1)) = Some (n2, r2, h2)"
    and 3: "(if n2 = -1 \<and> tx_pkts_avail (vio r2) \<noteq> 0 then drop_vio_held r2 h2 else (r2, h2)) = (r3, h3)"
    and 5: "(if dpdk_state (dpdk (vm2vf_handshake r3)) = DPDK_REMOVING2
      then worker_remove_vf (vm2vf_handshake r3) h3 else (vm2vf_handshake r3, h3)) = (r', h')"
  have f1: "forwards r h r1 h1"
    using 1 virtio_rx_forwards [OF assms(1,2)] forwards_refl [OF assms(2)] by (auto split: if_splits)
  have f2: "forwards r1 h1 r2 h2"
    using 2 dpdk_tx_forwards [OF assms(1) forwards_stage_ok [OF f1], of h1]
      forwards_refl [OF forwards_stage_ok [OF f1]]
    by (auto split: if_splits)
  have f3: "forwards r2 h2 r3 h3"
    using 3 drop_vio_held_forwards [OF forwards_stage_ok [OF f2], of h2]
      forwards_refl [OF forwards_stage_ok [OF f2]]
    by (auto split: if_splits)
  note f4 = handshake_forwards(1) [OF forwards_stage_ok [OF f3], of h3]
  have f5: "forwards (vm2vf_handshake r3) h3 r' h'"
    using 5 worker_remove_vf_forwards [OF forwards_stage_ok [OF f4]]
      forwards_refl [OF forwards_stage_ok [OF f4]]
    by (auto split: if_splits)
  show ?thesis using f1 f2 f3 f4 f5 by (blast intro: forwards_trans)
qed

lemma relay_vf2vm_traffic_forwards:
  assumes "burst_contract env" "stage_ok r" "relay_vf2vm_traffic env r h = Some (b, r', h')"
  shows "forwards r h r' h'"
  using assms(3)
proof (rule vf2vm_roundE)
  fix n1 r1 h1 n2 r2 h2 r3 h3 r4
  assume 1: "(if rx_pkts_avail (dpdk r) = 0 then dpdk_rx env r h else Some (0, r, h)) = Some (n1, r1, h1)"
    and 2: "(if rx_pkts_avail (dpdk r1) \<noteq> 0 then virtio_tx env r1 h1 else Some (0, r1, h1)) = Some (n2, r2, h2)"
    and 3: "(if n2 = -1 \<and> rx_pkts_avail (dpdk r2) \<noteq> 0 then drop_dpdk_held r2 h2 else (r2, h2)) = (r3, h3)"
    and 4: "(if vio_state (vio r3) = VIRTIO_REMOVING2 then worker_remove_virtio r3 h3 else (r3, h3)) = (r4, h')"
    and 5: "r' = vf2vm_handshake r4"
  have f1: "forwards r h r1 h1"
    using 1 dpdk_rx_forwards [OF assms(1,2)] forwards_refl [OF assms(2)] by (auto split: if_splits)
  have f2: "forwards r1 h1 r2 h2"
    using 2 virtio_tx_forwards [OF assms(1) forwards_stage_ok [OF f1]]
      forwards_refl [OF forwards_stage_ok [OF f1]]
    by (auto split: if_splits)
  have f3: "forwards r2 h2 r3 h3"
    using 3 drop_dpdk_held_forwards [OF forwards_stage_ok [OF f2], of h2]
      forwards_refl [OF forwards_stage_ok [OF f2]]
    by (auto split: if_splits)
  have f4: "forwards r3 h3 r4 h'"
    using 4 worker_remove_virtio_forwards [OF forwards_stage_ok [OF f3]]
      forwards_refl [OF forwards_stage_ok [OF f3]]
    by (auto split: if_splits)
  note f5 = handshake_forwards(2) [OF forwards_stage_ok [OF f4], of h']
  show ?thesis unfolding 5 using f1 f2 f3 f4 f5 by (blast intro: forwards_trans)
qed

subsection \<open>What the data path leaves alone\<close>

text \<open>
  \<open>wiring\<close> is everything about a relay that only the control path may change: identity,
  CPUs, queue configuration, device, port, memory pool. \<open>steady\<close> relays also agree on the
  states and locks.
\<close>

definition zero_stats :: relay_stats where
  "zero_stats = \<lparr>st_vio_rx = 0, st_vio_rx_bytes = 0, st_dpdk_tx = 0, st_dpdk_tx_bytes = 0,
     st_dpdk_drop_full = 0, st_dpdk_drop_unavail = 0, st_dpdk_rx = 0, st_dpdk_rx_bytes = 0,
     st_vio_tx = 0, st_vio_tx_bytes = 0, st_vio_drop_full = 0, st_vio_drop_unavail = 0\<rparr>"

definition wiring :: "relay \<Rightarrow> relay" where
  "wiring r = r\<lparr>
     vio := (vio r)\<lparr>tx_q_rr := 0, vio_state := VIRTIO_UNINIT, tx_pkts := [], tx_pkts_avail := 0,
                   tx_pkts_used := 0, vio_sl := False\<rparr>,
     dpdk := (dpdk r)\<lparr>dpdk_state := DPDK_UNINIT, rx_pkts := [], rx_pkts_avail := 0,
                     rx_pkts_used := 0, dpdk_sl := False\<rparr>,
     stats := zero_stats\<rparr>"

definition steady :: "relay \<Rightarrow> relay \<Rightarrow> bool" where
  "steady r r' \<longleftrightarrow> wiring r' = wiring r \<and>
     vio_state (vio r') = vio_state (vio r) \<and> dpdk_state (dpdk r') = dpdk_state (dpdk r) \<and>
     vio_sl (vio r') = vio_sl (vio r) \<and> dpdk_sl (dpdk r') = dpdk_sl (dpdk r)"

lemma steady_refl [simp]: "steady r r"
  by (simp add: steady_def)

lemma steady_trans: "steady r r' \<Longrightarrow> steady r' r'' \<Longrightarrow> steady r r''"
  by (simp add: steady_def)

lemma steady_stage:
  "steady r (tx_stage a n u r)" "steady r (rx_stage a n u r)" "steady r (r\<lparr>stats := s\<rparr>)"
  "steady r (r\<lparr>vio := (vio r)\<lparr>tx_q_rr := q\<rparr>\<rparr>)"
  by (simp_all add: steady_def wiring_def tx_stage_def rx_stage_def)

lemma wiringD:
  assumes "wiring r' = wiring r"
  shows "relay_id r' = relay_id r" "vio2vf_cpu (vio r') = vio2vf_cpu (vio r)"
    "vf2vio_cpu (dpdk r') = vf2vio_cpu (dpdk r)" "rx_q_bitmap (vio r') = rx_q_bitmap (vio r)"
    "tx_q_bitmap (vio r') = tx_q_bitmap (vio r)" "max_queue_pairs (vio r') = max_queue_pairs (vio r)"
    "rx_q_active (vio r') = rx_q_active (vio r)" "rx_q_lut (vio r') = rx_q_lut (vio r)"
    "pow2queues (vio r') = pow2queues (vio r)" "dpdk_port (dpdk r') = dpdk_port (dpdk r)"
    "pci_dbdf (dpdk r') = pci_dbdf (dpdk r)" "mempool (vio r') = mempool (vio r)"
proof -
  have "vio (wiring r') = vio (wiring r)" "dpdk (wiring r') = dpdk (wiring r)"
    "relay_id (wiring r') = relay_id (wiring r)"
    using assms by simp_all
  note eqs = this
  from arg_cong [OF eqs(1), of vio2vf_cpu] arg_cong [OF eqs(1), of rx_q_bitmap]
    arg_cong [OF eqs(1), of tx_q_bitmap] arg_cong [OF eqs(1), of max_queue_pairs]
    arg_cong [OF eqs(1), of rx_q_active] arg_cong [OF eqs(1), of rx_q_lut]
    arg_cong [OF eqs(1), of pow2queues] arg_cong [OF eqs(1), of mempool]
    arg_cong [OF eqs(2), of vf2vio_cpu] arg_cong [OF eqs(2), of dpdk_port]
    arg_cong [OF eqs(2), of pci_dbdf] eqs(3)
  show "relay_id r' = relay_id r" "vio2vf_cpu (vio r') = vio2vf_cpu (vio r)"
    "vf2vio_cpu (dpdk r') = vf2vio_cpu (dpdk r)" "rx_q_bitmap (vio r') = rx_q_bitmap (vio r)"
    "tx_q_bitmap (vio r') = tx_q_bitmap (vio r)" "max_queue_pairs (vio r') = max_queue_pairs (vio r)"
    "rx_q_active (vio r') = rx_q_active (vio r)" "rx_q_lut (vio r') = rx_q_lut (vio r)"
    "pow2queues (vio r') = pow2queues (vio r)" "dpdk_port (dpdk r') = dpdk_port (dpdk r)"
    "pci_dbdf (dpdk r') = pci_dbdf (dpdk r)" "mempool (vio r') = mempool (vio r)"
    by (simp_all add: wiring_def)
qed

lemma virtio_rx_steady:
  "virtio_rx env r h = Some (n, r', h') \<Longrightarrow> steady r r'"
  by (auto simp: virtio_rx_def Let_def bind_Some_iff steady_def wiring_def tx_stage_def
      split: if_splits)

lemma dpdk_tx_steady:
  "dpdk_tx env r h = Some (n, r', h') \<Longrightarrow> steady r r'"
  by (auto simp: dpdk_tx_def Let_def steady_def wiring_def tx_stage_def split: if_splits)

lemma dpdk_rx_steady:
  "dpdk_rx env r h = Some (n, r', h') \<Longrightarrow> steady r r'"
  by (auto simp: dpdk_rx_def Let_def bind_Some_iff steady_def wiring_def rx_stage_def
      split: if_splits)

lemma virtio_tx_steady:
  "virtio_tx env r h = Some (n, r', h') \<Longrightarrow> steady r r'"
  by (auto simp: virtio_tx_def Let_def bind_Some_iff case_prod_beta steady_def wiring_def
      rx_stage_def split: if_splits)

lemma drop_held_steady:
  "steady r (fst (drop_vio_held r h))" "steady r (fst (drop_dpdk_held r h))"
  by (simp_all add: drop_vio_held_def drop_dpdk_held_def Let_def steady_def wiring_def
      tx_stage_def rx_stage_def)

lemma flush_steady:
  "steady r (fst (flush_vio r h))" "steady r (fst (flush_dpdk r h))"
  by (simp_all add: flush_vio_def flush_dpdk_def drop_vio_held_def drop_dpdk_held_def Let_def
      steady_def wiring_def tx_stage_def rx_stage_def)

lemma flush_empty:
  "tx_pkts_avail (vio (fst (flush_vio r h))) = 0"
  "rx_pkts_avail (dpdk (fst (flush_dpdk r h))) = 0"
  "dpdk (fst (flush_vio r h)) = dpdk r" "vio (fst (flush_dpdk r h)) = vio r"
  by (simp_all add: flush_vio_def flush_dpdk_def drop_vio_held_def drop_dpdk_held_def Let_def
      tx_stage_def rx_stage_def)

text \<open>Removal ends in the uninitialised state with both arrays empty and its lock free.\<close>

lemma worker_remove_vf_state:
  assumes "worker_remove_vf r h = (r', h')"
  shows "dpdk_state (dpdk r') = DPDK_UNINIT" "vio_state (vio r') = vio_state (vio r)"
    "wiring r' = wiring r" "tx_pkts_avail (vio r') = 0" "rx_pkts_avail (dpdk r') = 0"
    "dpdk_sl (dpdk r') = False" "vio_sl (vio r') = vio_sl (vio r)"
  using assms
  by (auto simp: worker_remove_vf_def flush_vio_def flush_dpdk_def drop_vio_held_def
      drop_dpdk_held_def Let_def wiring_def tx_stage_def rx_stage_def split: if_splits)

lemma worker_remove_virtio_state:
  assumes "worker_remove_virtio r h = (r', h')"
  shows "vio_state (vio r') = VIRTIO_UNINIT" "dpdk_state (dpdk r') = dpdk_state (dpdk r)"
    "wiring r' = wiring r" "tx_pkts_avail (vio r') = 0" "rx_pkts_avail (dpdk r') = 0"
    "vio_sl (vio r') = False" "dpdk_sl (dpdk r') = dpdk_sl (dpdk r)"
  using assms
  by (auto simp: worker_remove_virtio_def flush_vio_def flush_dpdk_def drop_vio_held_def
      drop_dpdk_held_def Let_def wiring_def tx_stage_def rx_stage_def split: if_splits)

text \<open>The part a round plays in the two-phase removal of either side.\<close>

lemma handshake_state:
  "vio_state (vio (vm2vf_handshake r)) =
     (if vio_state (vio r) = VIRTIO_REMOVING1
      then if vf2vio_cpu (dpdk r) = -1 then VIRTIO_UNINIT else VIRTIO_REMOVING2
      else vio_state (vio r))"
  "dpdk (vm2vf_handshake r) = dpdk r" "wiring (vm2vf_handshake r) = wiring r"
  "vio_sl (vio (vm2vf_handshake r)) = vio_sl (vio r)"
  "dpdk_state (dpdk (vf2vm_handshake r)) =
     (if dpdk_state (dpdk r) = DPDK_REMOVING1
      then if vio2vf_cpu (vio r) = -1 then DPDK_UNINIT else DPDK_REMOVING2
      else dpdk_state (dpdk r))"
  "vio (vf2vm_handshake r) = vio r" "wiring (vf2vm_handshake r) = wiring r"
  "dpdk_sl (dpdk (vf2vm_handshake r)) = dpdk_sl (dpdk r)"
  by (simp_all add: vm2vf_handshake_def vf2vm_handshake_def wiring_def)

lemma relay_vm2vf_traffic_state:
  assumes "relay_vm2vf_traffic env r h = Some (b, r', h')"
  shows "vio_state (vio r') =
      (if vio_state (vio r) = VIRTIO_REMOVING1
       then if vf2vio_cpu (dpdk r) = -1 then VIRTIO_UNINIT else VIRTIO_REMOVING2
       else vio_state (vio r))"
    and "dpdk_state (dpdk r') =
      (if dpdk_state (dpdk r) = DPDK_REMOVING2 then DPDK_UNINIT else dpdk_state (dpdk r))"
    and "wiring r' = wiring r"
    and "vio_sl (vio r') = vio_sl (vio r)"
    and "dpdk_sl (dpdk r') = (dpdk_sl (dpdk r) \<and> dpdk_state (dpdk r) \<noteq> DPDK_REMOVING2)"
proof -
  obtain r3 h3 where st: "steady r r3"
    and 5: "(if dpdk_state (dpdk (vm2vf_handshake r3)) = DPDK_REMOVING2
      then worker_remove_vf (vm2vf_handshake r3) h3 else (vm2vf_handshake r3, h3)) = (r', h')"
    using assms
  proof (rule vm2vf_roundE)
    fix n1 r1 h1 n2 r2 h2 r3 h3
    assume 1: "(if tx_pkts_avail (vio r) = 0 then virtio_rx env r h else Some (0, r, h)) = Some (n1, r1, h1)"
      and 2: "(if tx_pkts_avail (vio r1) \<noteq> 0 then dpdk_tx env r1 h1 else Some (0, r1, h1)) = Some (n2, r2, h2)"
      and 3: "(if n2 = -1 \<and> tx_pkts_avail (vio r2) \<noteq> 0 then drop_vio_held r2 h2 else (r2, h2)) = (r3, h3)"
      and 5: "(if dpdk_state (dpdk (vm2vf_handshake r3)) = DPDK_REMOVING2
        then worker_remove_vf (vm2vf_handshake r3) h3 else (vm2vf_handshake r3, h3)) = (r', h')"
    have "steady r r1" using 1 virtio_rx_steady by (auto split: if_splits)
    moreover have "steady r1 r2" using 2 dpdk_tx_steady by (auto split: if_splits)
    moreover have "steady r2 r3" using 3 drop_held_steady(1) [of r2 h2] by (auto split: if_splits)
    ultimately have "steady r r3" by (blast intro: steady_trans)
    then show ?thesis using that 5 by blast
  qed
  note s = st [unfolded steady_def] wiringD [OF st [unfolded steady_def, THEN conjunct1]]
  show "vio_state (vio r') =
      (if vio_state (vio r) = VIRTIO_REMOVING1
       then if vf2vio_cpu (dpdk r) = -1 then VIRTIO_UNINIT else VIRTIO_REMOVING2
       else vio_state (vio r))"
    "dpdk_state (dpdk r') =
      (if dpdk_state (dpdk r) = DPDK_REMOVING2 then DPDK_UNINIT else dpdk_state (dpdk r))"
    "wiring r' = wiring r" "vio_sl (vio r') = vio_sl (vio r)"
    "dpdk_sl (dpdk r') = (dpdk_sl (dpdk r) \<and> dpdk_state (dpdk r) \<noteq> DPDK_REMOVING2)"
    using 5 s worker_remove_vf_state [of "vm2vf_handshake r3" h3 r' h']
    by (auto simp: handshake_state split: if_splits)
qed

lemma relay_vf2vm_traffic_state:
  assumes "relay_vf2vm_traffic env r h = Some (b, r', h')"
  shows "vio_state (vio r') =
      (if vio_state (vio r) = VIRTIO_REMOVING2 then VIRTIO_UNINIT else vio_state (vio r))"
    and "dpdk_state (dpdk r') =
      (if dpdk_state (dpdk r) = DPDK_REMOVING1
       then if vio2vf_cpu (vio r) = -1 then DPDK_UNINIT else DPDK_REMOVING2
       else dpdk_state (dpdk r))"
    and "wiring r' = wiring r"
    and "dpdk_sl (dpdk r') = dpdk_sl (dpdk r)"
    and "vio_sl (vio r') = (vio_sl (vio r) \<and> vio_state (vio r) \<noteq> VIRTIO_REMOVING2)"
proof -
  obtain r3 h3 r4 where st: "steady r r3"
    and 4: "(if vio_state (vio r3) = VIRTIO_REMOVING2 then worker_remove_virtio r3 h3 else (r3, h3)) = (r4, h')"
    and 5: "r' = vf2vm_handshake r4"
    using assms
  proof (rule vf2vm_roundE)
    fix n1 r1 h1 n2 r2 h2 r3 h3 r4
    assume 1: "(if rx_pkts_avail (dpdk r) = 0 then dpdk_rx env r h else Some (0, r, h)) = Some (n1, r1, h1)"
      and 2: "(if rx_pkts_avail (dpdk r1) \<noteq> 0 then virtio_tx env r1 h1 else Some (0, r1, h1)) = Some (n2, r2, h2)"
      and 3: "(if n2 = -1 \<and> rx_pkts_avail (dpdk r2) \<noteq> 0 then drop_dpdk_held r2 h2 else (r2, h2)) = (r3, h3)"
      and 4: "(if vio_state (vio r3) = VIRTIO_REMOVING2 then worker_remove_virtio r3 h3 else (r3, h3)) = (r4, h')"
      and 5: "r' = vf2vm_handshake r4"
    have "steady r r1" using 1 dpdk_rx_steady by (auto split: if_splits)
    moreover have "steady r1 r2" using 2 virtio_tx_steady by (auto split: if_splits)
    moreover have "steady r2 r3" using 3 drop_held_steady(2) [of r2 h2] by (auto split: if_splits)
    ultimately have "steady r r3" by (blast intro: steady_trans)
    then show ?thesis using that 4 5 by blast
  qed
  note s = st [unfolded steady_def] wiringD [OF st [unfolded steady_def, THEN conjunct1]]
  have w: "wiring r4 = wiring r" "dpdk_state (dpdk r4) = dpdk_state (dpdk r)"
    "dpdk_sl (dpdk r4) = dpdk_sl (dpdk r)"
    using 4 s worker_remove_virtio_state [of r3 h3 r4 h'] by (auto split: if_splits)
  show "vio_state (vio r') =
      (if vio_state (vio r) = VIRTIO_REMOVING2 then VIRTIO_UNINIT else vio_state (vio r))"
    "dpdk_state (dpdk r') =
      (if dpdk_state (dpdk r) = DPDK_REMOVING1
       then if vio2vf_cpu (vio r) = -1 then DPDK_UNINIT else DPDK_REMOVING2
       else dpdk_state (dpdk r))"
    "wiring r' = wiring r" "dpdk_sl (dpdk r') = dpdk_sl (dpdk r)"
    "vio_sl (vio r') = (vio_sl (vio r) \<and> vio_state (vio r) \<noteq> VIRTIO_REMOVING2)"
    using 4 s w wiringD(2) [OF w(1)] worker_remove_virtio_state [of r3 h3 r4 h']
    unfolding 5 by (auto simp: handshake_state split: if_splits)
qed

end
