(* ===== verification/Rounds.thy ===== *)
theory Rounds
  imports Datapath
begin

text \<open>
  What a round of the data path guarantees, for each direction: it conserves packets and
  keeps the statistics balanced, it delivers in order, it runs without leaving the defined
  behaviour of C, and it plays its part in the removal of a device. The last section fixes
  a small concrete relay and library on which the theorems are applied.
\<close>

subsection \<open>Order\<close>

lemma vm2vf_round_fifo:
  assumes "burst_contract env" "stage_ok r" "dpdk_state (dpdk r) = DPDK_READY"
    "relay_vm2vf_traffic env r h = Some (b, r', h')"
  shows "\<exists>d. h' = h @ d \<and> vio_held r @ received d = eth_sent d @ vio_held r' \<and> freed d = [] \<and>
    dpdk_held r' = dpdk_held r"
  using assms(4)
proof (rule vm2vf_roundE)
  fix n1 r1 h1 n2 r2 h2 r3 h3
  assume 1: "(if tx_pkts_avail (vio r) = 0 then virtio_rx env r h else Some (0, r, h)) = Some (n1, r1, h1)"
    and 2: "(if tx_pkts_avail (vio r1) \<noteq> 0 then dpdk_tx env r1 h1 else Some (0, r1, h1)) = Some (n2, r2, h2)"
    and 3: "(if n2 = -1 \<and> tx_pkts_avail (vio r2) \<noteq> 0 then drop_vio_held r2 h2 else (r2, h2)) = (r3, h3)"
    and 5: "(if dpdk_state (dpdk (vm2vf_handshake r3)) = DPDK_REMOVING2
      then worker_remove_vf (vm2vf_handshake r3) h3 else (vm2vf_handshake r3, h3)) = (r', h')"
  have "\<exists>d. h1 = h @ d \<and> vio_held r @ received d = vio_held r1 \<and> eth_sent d = [] \<and> freed d = [] \<and>
      dpdk_held r1 = dpdk_held r \<and> stage_ok r1 \<and> dpdk r1 = dpdk r"
  proof (cases "tx_pkts_avail (vio r) = 0 \<and> vio_state (vio r) = VIRTIO_READY")
    case True
    then have e: "virtio_rx env r h = Some (n1, r1, h1)" "vio_held r = []"
      using 1 by (simp_all add: vio_held_def)
    show ?thesis
      by (rule virtio_rx_effect [OF assms(1,2) conjunct2 [OF True] e(1)]) (auto simp: e(2))
  next
    case False
    then have "r1 = r" "h1 = h" using 1 by (auto simp: virtio_rx_def split: if_splits)
    then show ?thesis using assms(2) by simp
  qed
  then obtain d1 where d1: "h1 = h @ d1" "vio_held r @ received d1 = vio_held r1" "eth_sent d1 = []"
    "freed d1 = []" "dpdk_held r1 = dpdk_held r" "stage_ok r1" "dpdk r1 = dpdk r"
    by blast
  have "\<exists>d. h2 = h1 @ d \<and> received d = [] \<and> vio_held r1 = eth_sent d @ vio_held r2 \<and> freed d = [] \<and>
      dpdk_held r2 = dpdk_held r1 \<and> dpdk r2 = dpdk r1 \<and> 0 \<le> n2"
  proof (cases "tx_pkts_avail (vio r1) = 0")
    case True
    then show ?thesis using 2 by simp
  next
    case False
    have ready: "dpdk_state (dpdk r1) = DPDK_READY" using assms(3) d1(7) by simp
    show ?thesis
      by (rule dpdk_tx_effect [OF assms(1) d1(6) ready, of h1]) (use 2 False in auto)
  qed
  then obtain d2 where d2: "h2 = h1 @ d2" "received d2 = []" "vio_held r1 = eth_sent d2 @ vio_held r2"
    "freed d2 = []" "dpdk_held r2 = dpdk_held r1" "dpdk r2 = dpdk r1" "0 \<le> n2"
    by blast
  have "r3 = r2" "h3 = h2" using 3 d2(7) by auto
  then have "r' = vm2vf_handshake r2" "h' = h2"
    using 5 assms(3) d1(7) d2(6) by (simp_all add: handshake_state)
  moreover have "vio_held (vm2vf_handshake r2) = vio_held r2" "dpdk_held (vm2vf_handshake r2) = dpdk_held r2"
    by (simp_all add: vm2vf_handshake_def frame_simps)
  ultimately show ?thesis using d1 d2 by (intro exI [of _ "d1 @ d2"]) simp
qed

lemma vf2vm_round_fifo:
  assumes "burst_contract env" "stage_ok r" "dpdk_state (dpdk r) = DPDK_READY"
    "vio_state (vio r) = VIRTIO_READY" "rx_q_bitmap (vio r) \<le> 1"
    "relay_vf2vm_traffic env r h = Some (b, r', h')"
  shows "\<exists>d. h' = h @ d \<and> dpdk_held r @ received d = vhost_sent d @ dpdk_held r' \<and>
    ptrs (freed d) = ptrs (vhost_sent d) \<and> vio_held r' = vio_held r"
  using assms(6)
proof (rule vf2vm_roundE)
  fix n1 r1 h1 n2 r2 h2 r3 h3 r4
  assume 1: "(if rx_pkts_avail (dpdk r) = 0 then dpdk_rx env r h else Some (0, r, h)) = Some (n1, r1, h1)"
    and 2: "(if rx_pkts_avail (dpdk r1) \<noteq> 0 then virtio_tx env r1 h1 else Some (0, r1, h1)) = Some (n2, r2, h2)"
    and 3: "(if n2 = -1 \<and> rx_pkts_avail (dpdk r2) \<noteq> 0 then drop_dpdk_held r2 h2 else (r2, h2)) = (r3, h3)"
    and 4: "(if vio_state (vio r3) = VIRTIO_REMOVING2 then worker_remove_virtio r3 h3 else (r3, h3)) = (r4, h')"
    and 5: "r' = vf2vm_handshake r4"
  have single: "\<not> 1 < rx_q_bitmap (vio r)" using assms(5) by (rule leD)
  have "\<exists>d. h1 = h @ d \<and> dpdk_held r @ received d = dpdk_held r1 \<and> vhost_sent d = [] \<and> freed d = [] \<and>
      vio_held r1 = vio_held r \<and> stage_ok r1 \<and> vio r1 = vio r"
  proof (cases "rx_pkts_avail (dpdk r) = 0")
    case True
    then have e: "dpdk_rx env r h = Some (n1, r1, h1)" "dpdk_held r = []"
      using 1 by (simp_all add: dpdk_held_def)
    show ?thesis
      by (rule dpdk_rx_effect [OF assms(1-3) e(1)]) (use e(2) single in auto)
  next
    case False
    then show ?thesis using 1 assms(2) by simp
  qed
  then obtain d1 where d1: "h1 = h @ d1" "dpdk_held r @ received d1 = dpdk_held r1" "vhost_sent d1 = []"
    "freed d1 = []" "vio_held r1 = vio_held r" "stage_ok r1" "vio r1 = vio r"
    by blast
  have "\<exists>d. h2 = h1 @ d \<and> received d = [] \<and> dpdk_held r1 = vhost_sent d @ dpdk_held r2 \<and>
      ptrs (freed d) = ptrs (vhost_sent d) \<and> vio_held r2 = vio_held r1 \<and> vio r2 = vio r1 \<and> n2 = 0"
  proof (cases "rx_pkts_avail (dpdk r1) = 0")
    case True
    then show ?thesis using 2 by simp
  next
    case False
    have ready: "vio_state (vio r1) = VIRTIO_READY" "rx_q_bitmap (vio r1) \<le> 1"
      using assms(4,5) d1(7) by simp_all
    obtain s ps d where e: "virtio_tx env r1 h1 = Some (0, s, h1 @ d)"
      "d = [Sent (Rte_vhost_enqueue_burst (vio_dev (vio r1)) VIRTIO_RXQ (dpdk_held r1)) ps] @ map Freed (rev ps)"
      "ps = take (length ps) (dpdk_held r1)" "dpdk_held s = drop (length ps) (dpdk_held r1)"
      "vio_held s = vio_held r1" "vio s = vio r1"
      using virtio_tx_single_effect [OF assms(1) d1(6) ready, of h1] by metis
    have "dpdk_held r1 = ps @ dpdk_held s" using e(3,4) by (metis append_take_drop_id)
    then show ?thesis using 2 False e(1,5,6) by (auto simp: e(2))
  qed
  then obtain d2 where d2: "h2 = h1 @ d2" "received d2 = []" "dpdk_held r1 = vhost_sent d2 @ dpdk_held r2"
    "ptrs (freed d2) = ptrs (vhost_sent d2)" "vio_held r2 = vio_held r1" "vio r2 = vio r1" "n2 = 0"
    by blast
  have "r3 = r2" "h3 = h2" using 3 d2(7) by auto
  then have "r4 = r2" "h' = h2" using 4 assms(4) d1(7) d2(6) by simp_all
  moreover have "vio_held (vf2vm_handshake r2) = vio_held r2" "dpdk_held (vf2vm_handshake r2) = dpdk_held r2"
    by (simp_all add: vf2vm_handshake_def frame_simps)
  ultimately show ?thesis using d1 d2 5 by (intro exI [of _ "d1 @ d2"]) simp
qed

subsection \<open>Runs that stay within the defined behaviour of C\<close>

text \<open>Towards the VF, the only hazard is the search for the next enabled queue.\<close>

lemma virtio_rx_total:
  assumes "tx_q_rr (vio r) < max_queue_pairs (vio r)" "q < max_queue_pairs (vio r)" "bit (tx_q_bitmap (vio r)) q"
  shows "\<exists>n r' h'. virtio_rx env r h = Some (n, r', h') \<and> tx_q_rr (vio r') < max_queue_pairs (vio r')"
proof -
  obtain rr where rr: "next_tx_q (tx_q_bitmap (vio r)) (max_queue_pairs (vio r)) (tx_q_rr (vio r)) = Some rr"
    using next_tx_q_total [OF assms] by blast
  then have "rr < max_queue_pairs (vio r)" using next_tx_q_result [OF rr] assms(1) by auto
  then show ?thesis using rr assms(1) by (simp add: virtio_rx_def Let_def tx_stage_def)
qed

lemma dpdk_tx_rr: "dpdk_tx env r h = Some (n, r', h') \<Longrightarrow> tx_q_rr (vio r') = tx_q_rr (vio r)"
  by (auto simp: dpdk_tx_def Let_def tx_stage_def split: if_splits)

lemma later_stages_rr:
  "tx_q_rr (vio (fst (drop_vio_held r h))) = tx_q_rr (vio r)"
  "tx_q_rr (vio (vm2vf_handshake r)) = tx_q_rr (vio r)"
  "tx_q_rr (vio (fst (worker_remove_vf r h))) = tx_q_rr (vio r)"
  by (simp_all add: drop_vio_held_def vm2vf_handshake_def worker_remove_vf_def flush_vio_def
      flush_dpdk_def drop_dpdk_held_def Let_def tx_stage_def rx_stage_def case_prod_beta)

lemma vm2vf_round_total:
  assumes "burst_contract env" "stage_ok r"
    "tx_q_rr (vio r) < max_queue_pairs (vio r)" "q < max_queue_pairs (vio r)" "bit (tx_q_bitmap (vio r)) q"
  shows "\<exists>b r' h'. relay_vm2vf_traffic env r h = Some (b, r', h') \<and>
    tx_q_rr (vio r') < max_queue_pairs (vio r')"
proof -
  obtain n1 r1 h1 where 1: "(if tx_pkts_avail (vio r) = 0 then virtio_rx env r h else Some (0, r, h)) = Some (n1, r1, h1)"
    and rr1: "tx_q_rr (vio r1) < max_queue_pairs (vio r1)"
    using virtio_rx_total [OF assms(3-5), of env h] assms(3)
    by (cases "tx_pkts_avail (vio r) = 0") auto
  have "forwards r h r1 h1"
    using 1 virtio_rx_forwards [OF assms(1,2)] forwards_refl [OF assms(2)] by (auto split: if_splits)
  note ok1 = forwards_stage_ok [OF this]
  have w1: "wiring r1 = wiring r"
    using 1 virtio_rx_steady [of env r h n1 r1 h1] by (auto simp: steady_def split: if_splits)
  obtain n2 r2 h2 where 2: "(if tx_pkts_avail (vio r1) \<noteq> 0 then dpdk_tx env r1 h1 else Some (0, r1, h1)) = Some (n2, r2, h2)"
    using dpdk_tx_forwards [OF assms(1) ok1, of h1] by fastforce
  have rr2: "tx_q_rr (vio r2) = tx_q_rr (vio r1)" using 2 dpdk_tx_rr by (auto split: if_splits)
  obtain r3 h3 where 3: "(if n2 = -1 \<and> tx_pkts_avail (vio r2) \<noteq> 0 then drop_vio_held r2 h2 else (r2, h2)) = (r3, h3)"
    by (cases "if n2 = -1 \<and> tx_pkts_avail (vio r2) \<noteq> 0 then drop_vio_held r2 h2 else (r2, h2)") auto
  obtain r' h' where 5: "(if dpdk_state (dpdk (vm2vf_handshake r3)) = DPDK_REMOVING2
      then worker_remove_vf (vm2vf_handshake r3) h3 else (vm2vf_handshake r3, h3)) = (r', h')"
    by (cases "if dpdk_state (dpdk (vm2vf_handshake r3)) = DPDK_REMOVING2
      then worker_remove_vf (vm2vf_handshake r3) h3 else (vm2vf_handshake r3, h3)") auto
  obtain b where e: "relay_vm2vf_traffic env r h = Some (b, r', h')"
    unfolding relay_vm2vf_traffic_def 1 2 Option.bind.bind_lunit prod.case Let_def 3 5 by blast
  have "tx_q_rr (vio r') = tx_q_rr (vio r2)"
    using 3 5 later_stages_rr(1) [of r2 h2] later_stages_rr(2) [of r3]
      later_stages_rr(3) [of "vm2vf_handshake r3" h3]
    by (auto split: if_splits)
  moreover have "max_queue_pairs (vio r') = max_queue_pairs (vio r1)"
    using wiringD(6) [OF relay_vm2vf_traffic_state(3) [OF e]] wiringD(6) [OF w1] by simp
  ultimately show ?thesis using e rr1 rr2 by simp
qed

text \<open>
  Towards the virtual machine, the tags of the buffered packets index arrays of
  \<open>rx_q_active\<close> entries.
\<close>

definition tags_ok :: "relay \<Rightarrow> bool" where
  "tags_ok r \<longleftrightarrow> 1 < rx_q_bitmap (vio r) \<longrightarrow>
     (\<forall>p\<in>set (dpdk_held r). unat (fdir_id p) < rx_q_active (vio r))"

text \<open>The enabled receive queues are the queues 0 to \<open>rx_q_active - 1\<close>.\<close>

definition contiguous :: "relay_virtio \<Rightarrow> bool" where
  "contiguous v \<longleftrightarrow> (\<forall>q. bit (rx_q_bitmap v) q \<longrightarrow> q < rx_q_active v)"

lemma contiguous_bits:
  assumes "vring_inv v"
  shows "contiguous v \<longleftrightarrow> bits_of (rx_q_bitmap v) = [0..<rx_q_active v]"
proof
  assume c: "contiguous v"
  let ?S = "set (bits_of (rx_q_bitmap v))"
  have "?S \<subseteq> {0..<rx_q_active v}" using c by (auto simp: contiguous_def)
  moreover have "card ?S = rx_q_active v"
    using vring_invD(4) [OF assms] distinct_card [OF distinct_bits_of [of "rx_q_bitmap v"]]
    by (simp only: popcount_def)
  ultimately have "?S = {0..<rx_q_active v}" by (intro card_subset_eq) simp_all
  then show "bits_of (rx_q_bitmap v) = [0..<rx_q_active v]"
    by (intro sorted_distinct_eq) (simp_all only: sorted_bits_of distinct_bits_of sorted_upt distinct_upt set_upt)
next
  assume "bits_of (rx_q_bitmap v) = [0..<rx_q_active v]"
  then have "set (bits_of (rx_q_bitmap v)) = {0..<rx_q_active v}" by (simp only: set_upt)
  then show "contiguous v" by (auto simp: contiguous_def)
qed

lemma active_pos:
  assumes "vring_inv v" "1 < rx_q_bitmap v"
  shows "0 < rx_q_active v"
proof -
  have "popcount (rx_q_bitmap v) \<noteq> 0" using assms(2) by auto
  then show ?thesis using vring_invD(4) [OF assms(1)] by (simp only: neq0_conv)
qed

text \<open>With several queues, \<open>virtio_tx\<close> leaves its arrays exactly when some buffered packet
  carries a tag that is not below the number of active queues.\<close>

lemma batch_queues_None_iff:
  assumes "length ps \<le> BURST_LEN"
  shows "batch_queues ps (replicate n []) = None \<longleftrightarrow> (\<exists>p\<in>set ps. n \<le> unat (fdir_id p))"
  using batch_queues_total [of ps "replicate n []"] batch_queues_overflow [of _ ps "replicate n []"] assms
  by (auto simp: not_less) (metis not_le option.distinct(1))

lemma virtio_tx_None_iff:
  assumes "stage_ok r" "vio_state (vio r) = VIRTIO_READY" "1 < rx_q_bitmap (vio r)"
  shows "virtio_tx env r h = None \<longleftrightarrow> (\<exists>p\<in>set (dpdk_held r). rx_q_active (vio r) \<le> unat (fdir_id p))"
proof -
  have "length (dpdk_held r) \<le> BURST_LEN"
    using assms(1) rx.length_held [of r] by (auto simp: stage_ok_def rx_ok_def)
  note none = batch_queues_None_iff [OF this, of "rx_q_active (vio r)"]
  have "virtio_tx env r h = None \<longleftrightarrow>
      batch_queues (dpdk_held r) (replicate (rx_q_active (vio r)) []) = None"
    using assms(2,3)
    by (cases "batch_queues (dpdk_held r) (replicate (rx_q_active (vio r)) [])")
      (simp_all add: virtio_tx_def Let_def case_prod_beta)
  then show ?thesis using none by simp
qed

text \<open>
  The documented layout of a packet buffer: a received buffer holds at least the bytes the
  hash may read.
\<close>

definition hashable :: "env \<Rightarrow> bool" where
  "hashable env \<longleftrightarrow>
     (\<forall>h p q n. \<forall>m\<in>set (e_pkts env h (Rte_eth_rx_burst p q n)). MIN_HASH_BYTES \<le> length (m_mem m))"

definition vf2vm_ready :: "relay \<Rightarrow> bool" where
  "vf2vm_ready r \<longleftrightarrow> stage_ok r \<and> vring_inv (vio r) \<and> contiguous (vio r) \<and> tags_ok r"

lemma dpdk_rx_total:
  assumes "hashable env" "vring_inv (vio r)"
  shows "\<exists>n r' h'. dpdk_rx env r h = Some (n, r', h')"
proof -
  have "calc_mbuf_queue env (vio r) (e_pkts env h1 (Rte_eth_rx_burst p q n))
      = Some (map (\<lambda>m. m\<lparr>fdir_id := of_nat (flow_queue env (vio r) m)\<rparr>) (e_pkts env h1 (Rte_eth_rx_burst p q n)))"
    if "1 < rx_q_bitmap (vio r)" for h1 p q n
    using calc_mbuf_queue_eq [OF assms(2) active_pos [OF assms(2) that]] assms(1)
    by (simp add: hashable_def)
  then show ?thesis by (simp add: dpdk_rx_def Let_def)
qed

lemma calc_mbuf_queue_tags:
  assumes "vring_inv v" "contiguous v" "1 < rx_q_bitmap v" "calc_mbuf_queue env v ps = Some ps'"
  shows "\<forall>p\<in>set ps'. unat (fdir_id p) < rx_q_active v"
  using assms(4)
proof (induction ps arbitrary: ps')
  case Nil
  then show ?case by simp
next
  case (Cons p ps)
  then obtain h q qs where e: "calc_eth_header_hash env (m_mem p) = Some h" "select_queue v h = Some q"
    "calc_mbuf_queue env v ps = Some qs" "ps' = p\<lparr>fdir_id := of_nat q\<rparr> # qs"
    by (auto simp: bind_Some_iff)
  have "bit (rx_q_bitmap v) q" "q < 32"
    using select_queue_enabled [OF assms(1) active_pos [OF assms(1,3)], of h] e(2)
    by (simp_all add: MAX_MULTIQUEUE_PAIRS_def)
  then have "unat (of_nat q :: 32 word) < rx_q_active v"
    using assms(2) by (simp add: contiguous_def unat_of_nat)
  then show ?case using e(4) Cons.IH [OF e(3)] by simp
qed

lemma send_queue_kept:
  "set (snd (snd (send_queue env dev i qp (h, s, kept)))) \<subseteq> set qp \<union> set kept"
  by (auto simp: send_queue_def Let_def dest: in_set_dropD)

lemma send_queues_kept:
  "set (snd (snd (send_queues env dev i qs a))) \<subseteq> set (concat qs) \<union> set (snd (snd a))"
proof (induction qs arbitrary: i a)
  case Nil
  then show ?case by simp
next
  case (Cons q qs)
  obtain h s k where "a = (h, s, k)" by (cases a)
  then show ?case
    using Cons.IH [of "Suc i" "send_queue env dev i q a"] send_queue_kept [of env dev i q h s k] by auto
qed

lemma virtio_tx_held_subset:
  assumes "burst_contract env" "stage_ok r" "virtio_tx env r h = Some (n, r', h')" "1 < rx_q_bitmap (vio r)"
  shows "set (dpdk_held r') \<subseteq> set (dpdk_held r)"
proof (cases "vio_state (vio r) = VIRTIO_READY")
  case False
  then show ?thesis using assms(3) by (simp add: virtio_tx_def)
next
  case True
  obtain qs where qs: "batch_queues (dpdk_held r) (replicate (rx_q_active (vio r)) []) = Some qs"
    using True assms(3,4) by (auto simp: virtio_tx_def Let_def bind_Some_iff)
  obtain h2 s2 kept where sq: "send_queues env (vio_dev (vio r)) 0 qs (h, stats r, []) = (h2, s2, kept)"
    by (cases "send_queues env (vio_dev (vio r)) 0 qs (h, stats r, [])") auto
  have m: "mset (concat qs) = mset (dpdk_held r)"
    using batch_queues_mset [OF qs] by (simp add: concat_replicate_trivial)
  have ok: "rx_ok r" using assms(2) by (simp add: stage_ok_def)
  have "sends (concat qs) (h, stats r, []) (h2, s2, kept)"
    using send_queues_sends [OF assms(1)] sq by metis
  then have "length kept \<le> rx_pkts_avail (dpdk r)"
    using m rx.length_held [OF ok] by (simp add: sends_def) (metis size_mset)
  from rx.put_back(1) [OF ok this] have "dpdk_held r' = kept"
    using True assms(3,4) qs sq by (auto simp: virtio_tx_def Let_def frame_simps)
  moreover have "set kept \<subseteq> set (concat qs)"
    using send_queues_kept [of env "vio_dev (vio r)" 0 qs "(h, stats r, [])"] sq by simp
  ultimately show ?thesis using m by (metis set_mset_mset)
qed

lemma tags_ok_cong:
  "set (dpdk_held r') \<subseteq> set (dpdk_held r) \<Longrightarrow> wiring r' = wiring r \<Longrightarrow> tags_ok r \<Longrightarrow> tags_ok r'"
  using wiringD(4,7) [of r' r] by (auto simp: tags_ok_def)

lemma queues_wiring:
  assumes "wiring r' = wiring r"
  shows "vring_inv (vio r') = vring_inv (vio r)" "contiguous (vio r') = contiguous (vio r)"
  using wiringD [OF assms] by (simp_all add: vring_inv_def contiguous_def)

lemma fetch_tags_ok:
  assumes "burst_contract env" "hashable env" "vf2vm_ready r"
  shows "\<exists>n r' h'. (if rx_pkts_avail (dpdk r) = 0 then dpdk_rx env r h else Some (0, r, h)) = Some (n, r', h') \<and>
    vf2vm_ready r' \<and> steady r r'"
proof (cases "rx_pkts_avail (dpdk r) = 0")
  case False
  then show ?thesis using assms(3) by simp
next
  case True
  have inv: "stage_ok r" "vring_inv (vio r)" "contiguous (vio r)" "tags_ok r"
    using assms(3) by (simp_all add: vf2vm_ready_def)
  obtain n r' h' where e: "dpdk_rx env r h = Some (n, r', h')" using dpdk_rx_total [OF assms(2) inv(2)] by blast
  have st: "steady r r'" by (rule dpdk_rx_steady [OF e])
  have ok: "stage_ok r'" using dpdk_rx_forwards [OF assms(1) inv(1) True e] by (rule forwards_stage_ok)
  have "tags_ok r'"
  proof (cases "dpdk_state (dpdk r) = DPDK_READY")
    case False
    then show ?thesis using e inv(4) by (simp add: dpdk_rx_def)
  next
    case ready: True
    show ?thesis
      by (rule dpdk_rx_effect [OF assms(1) inv(1) ready e])
        (use calc_mbuf_queue_tags [OF inv(2,3)] in \<open>auto simp: tags_ok_def split: if_splits\<close>)
  qed
  then show ?thesis
    using True e st ok inv(2,3) queues_wiring [of r' r] by (auto simp: vf2vm_ready_def steady_def)
qed

lemma send_tags_ok:
  assumes "burst_contract env" "vf2vm_ready r"
  shows "\<exists>n r' h'. (if rx_pkts_avail (dpdk r) \<noteq> 0 then virtio_tx env r h else Some (0, r, h)) = Some (n, r', h') \<and>
    vf2vm_ready r' \<and> steady r r'"
proof (cases "rx_pkts_avail (dpdk r) = 0")
  case True
  then show ?thesis using assms(2) by simp
next
  case False
  have inv: "stage_ok r" "vring_inv (vio r)" "contiguous (vio r)" "tags_ok r"
    using assms(2) by (simp_all add: vf2vm_ready_def)
  have "virtio_tx env r h \<noteq> None"
  proof (cases "1 < rx_q_bitmap (vio r) \<and> vio_state (vio r) = VIRTIO_READY")
    case True
    then show ?thesis
      using virtio_tx_None_iff [OF inv(1), of env h] inv(4) by (auto simp: tags_ok_def not_le [symmetric])
  next
    case False
    then show ?thesis
      using virtio_tx_single_forwards [OF assms(1) inv(1), of h]
      by (cases "vio_state (vio r) = VIRTIO_READY") (auto simp: virtio_tx_def not_less)
  qed
  then obtain n r' h' where e: "virtio_tx env r h = Some (n, r', h')" by auto
  have st: "steady r r'" by (rule virtio_tx_steady [OF e])
  then have w: "wiring r' = wiring r" by (simp add: steady_def)
  have "tags_ok r'"
    using tags_ok_cong [OF _ w inv(4)] virtio_tx_held_subset [OF assms(1) inv(1) e] wiringD(4) [OF w]
    by (cases "1 < rx_q_bitmap (vio r)") (auto simp: tags_ok_def)
  then show ?thesis
    using False e st inv(2,3) queues_wiring [OF w] forwards_stage_ok [OF virtio_tx_forwards [OF assms(1) inv(1) e]]
    by (auto simp: vf2vm_ready_def)
qed

lemma vf2vm_round_total:
  assumes "burst_contract env" "hashable env" "vf2vm_ready r"
  shows "\<exists>b r' h'. relay_vf2vm_traffic env r h = Some (b, r', h') \<and> vf2vm_ready r'"
proof -
  obtain n1 r1 h1 where 1: "(if rx_pkts_avail (dpdk r) = 0 then dpdk_rx env r h else Some (0, r, h)) = Some (n1, r1, h1)"
    "vf2vm_ready r1"
    using fetch_tags_ok [OF assms, of h] by blast
  obtain n2 r2 h2 where 2: "(if rx_pkts_avail (dpdk r1) \<noteq> 0 then virtio_tx env r1 h1 else Some (0, r1, h1)) = Some (n2, r2, h2)"
    "vf2vm_ready r2"
    using send_tags_ok [OF assms(1) 1(2), of h1] by blast
  obtain r3 h3 where 3: "(if n2 = -1 \<and> rx_pkts_avail (dpdk r2) \<noteq> 0 then drop_dpdk_held r2 h2 else (r2, h2)) = (r3, h3)"
    by (cases "if n2 = -1 \<and> rx_pkts_avail (dpdk r2) \<noteq> 0 then drop_dpdk_held r2 h2 else (r2, h2)") auto
  obtain r4 h4 where 4: "(if vio_state (vio r3) = VIRTIO_REMOVING2 then worker_remove_virtio r3 h3 else (r3, h3)) = (r4, h4)"
    by (cases "if vio_state (vio r3) = VIRTIO_REMOVING2 then worker_remove_virtio r3 h3 else (r3, h3)") auto
  obtain b where e: "relay_vf2vm_traffic env r h = Some (b, vf2vm_handshake r4, h4)"
    unfolding relay_vf2vm_traffic_def 1 2 Option.bind.bind_lunit prod.case Let_def 3 4 by blast
  have drop: "dpdk_held (fst (drop_dpdk_held r2 h2)) = []"
    by (simp add: drop_dpdk_held_def Let_def frame_simps) (simp add: dpdk_held_def)
  have "dpdk_held r3 = dpdk_held r2 \<or> dpdk_held r3 = []" using 3 drop by (auto split: if_splits)
  moreover have "dpdk_held r4 = dpdk_held r3 \<or> dpdk_held r4 = []"
    using 4 worker_remove_virtio_state(5) [of r3 h3 r4 h4] by (auto simp: dpdk_held_def split: if_splits)
  moreover have "dpdk_held (vf2vm_handshake r4) = dpdk_held r4"
    by (simp add: vf2vm_handshake_def frame_simps)
  ultimately have sub: "set (dpdk_held (vf2vm_handshake r4)) \<subseteq> set (dpdk_held r2)" by auto
  have w: "wiring (vf2vm_handshake r4) = wiring r2"
    using 3 4 drop_held_steady(2) [of r2 h2] worker_remove_virtio_state(3) [of r3 h3 r4 h4]
    by (auto simp: handshake_state steady_def split: if_splits)
  have "stage_ok (vf2vm_handshake r4)"
    using relay_vf2vm_traffic_forwards [OF assms(1) _ e] assms(3) by (auto simp: vf2vm_ready_def forwards_def)
  then have "vf2vm_ready (vf2vm_handshake r4)"
    using 2(2) tags_ok_cong [OF sub w] queues_wiring [OF w] by (simp add: vf2vm_ready_def)
  then show ?thesis using e by blast
qed

subsection \<open>Several queues towards the virtual machine\<close>

abbreviation tag :: "mbuf \<Rightarrow> nat" where
  "tag p \<equiv> unat (fdir_id p)"

lemma send_queue_eq:
  "\<exists>d n. send_queue env dev i qp (h, s, kept) =
     (h @ d, count_vio_tx (take n qp) s, kept @ rev (drop n qp)) \<and> vhost_sent d = take n qp \<and>
     (\<forall>c acc. Sent c acc \<in> set d \<longrightarrow> c = Rte_vhost_enqueue_burst dev (i * 2) qp \<and> acc = take n qp)"
proof (cases "qp = []")
  case True
  then show ?thesis by (intro exI [of _ "[]"] exI [of _ 0]) (simp add: send_queue_def count_vio_tx_def)
next
  case False
  let ?c = "Rte_vhost_enqueue_burst dev (i * 2) qp"
  let ?n = "e_count env h ?c"
  show ?thesis
    by (rule exI [of _ "Sent ?c (take ?n qp) # map Freed (rev (take ?n qp))"], rule exI [of _ ?n])
      (use False in \<open>auto simp: send_queue_def Let_def free_pkts_def\<close>)
qed

text \<open>Every enqueue call offers a queue the packets batched for it.\<close>

lemma send_queues_sent:
  "\<exists>d s' kept'. send_queues env dev i qs (h, s, kept) = (h @ d, s', kept') \<and>
     (\<forall>c acc. Sent c acc \<in> set d \<longrightarrow>
        (\<exists>j<length qs. c = Rte_vhost_enqueue_burst dev ((i + j) * 2) (qs ! j) \<and> (\<exists>n. acc = take n (qs ! j))))"
proof (induction qs arbitrary: i h s kept)
  case Nil
  then show ?case by simp
next
  case (Cons q qs)
  obtain d1 n where 1: "send_queue env dev i q (h, s, kept) =
      (h @ d1, count_vio_tx (take n q) s, kept @ rev (drop n q))"
    "\<forall>c acc. Sent c acc \<in> set d1 \<longrightarrow> c = Rte_vhost_enqueue_burst dev (i * 2) q \<and> acc = take n q"
    using send_queue_eq by blast
  obtain d2 s' kept' where 2: "send_queues env dev (Suc i) qs (h @ d1, count_vio_tx (take n q) s, kept @ rev (drop n q))
      = ((h @ d1) @ d2, s', kept')"
    "\<forall>c acc. Sent c acc \<in> set d2 \<longrightarrow> (\<exists>j<length qs. c = Rte_vhost_enqueue_burst dev ((Suc i + j) * 2) (qs ! j) \<and>
       (\<exists>n. acc = take n (qs ! j)))"
    using Cons.IH by blast
  have "\<exists>j<length (q # qs). c = Rte_vhost_enqueue_burst dev ((i + j) * 2) ((q # qs) ! j) \<and>
      (\<exists>n. acc = take n ((q # qs) ! j))" if "Sent c acc \<in> set (d1 @ d2)" for c acc
  proof (cases "Sent c acc \<in> set d1")
    case True
    then show ?thesis using 1(2) by (intro exI [of _ 0]) auto
  next
    case False
    then have "Sent c acc \<in> set d2" using that by simp
    then obtain j where "j < length qs" "c = Rte_vhost_enqueue_burst dev ((Suc i + j) * 2) (qs ! j)"
      "\<exists>n. acc = take n (qs ! j)"
      using 2(2) by blast
    then show ?thesis by (intro exI [of _ "Suc j"]) simp
  qed
  then show ?case using 1(1) 2(1) by (intro exI [of _ "d1 @ d2"]) simp
qed

text \<open>The packets a queue did not accept are kept in reverse.\<close>

lemma send_queues_other_tag:
  assumes "\<forall>q\<in>set qs. \<forall>p\<in>set q. tag p \<noteq> t" "send_queues env dev i qs (h, s, k) = (h @ d, s', k')"
  shows "filter (\<lambda>p. tag p = t) k' = filter (\<lambda>p. tag p = t) k \<and> filter (\<lambda>p. tag p = t) (vhost_sent d) = []"
  using assms
proof (induction qs arbitrary: i h s k d s' k')
  case Nil
  then show ?case by simp
next
  case (Cons q qs)
  obtain d1 n where e: "send_queue env dev i q (h, s, k) = (h @ d1, count_vio_tx (take n q) s, k @ rev (drop n q))"
    and v1: "vhost_sent d1 = take n q"
    using send_queue_eq [of env dev i q h s k] by blast
  obtain d2 s2 k2 where rest: "send_queues env dev (Suc i) qs (h @ d1, count_vio_tx (take n q) s, k @ rev (drop n q))
      = ((h @ d1) @ d2, s2, k2)"
    using send_queues_sent by blast
  have d: "d = d1 @ d2" "k' = k2" using Cons.prems(2) by (simp_all add: e rest)
  have "filter (\<lambda>p. tag p = t) (rev (drop n q)) = []" "filter (\<lambda>p. tag p = t) (take n q) = []"
    using Cons.prems(1) by (auto simp: filter_empty_conv dest: in_set_dropD in_set_takeD)
  then show ?case using Cons.IH [OF _ rest] Cons.prems(1) by (simp add: d v1)
qed

lemma drop_length_take: "drop (length (take n xs)) xs = drop n xs"
  by (cases "n \<le> length xs") simp_all

lemma send_queues_reverses:
  assumes "\<forall>j<length qs. \<forall>p\<in>set (qs ! j). tag p = i + j" "j < length qs"
    "send_queues env dev i qs (h, s, k) = (h @ d, s', k')"
  shows "filter (\<lambda>p. tag p = i + j) k' =
    filter (\<lambda>p. tag p = i + j) k @ rev (drop (length (filter (\<lambda>p. tag p = i + j) (vhost_sent d))) (qs ! j))"
  using assms
proof (induction qs arbitrary: i j h s k d s' k')
  case Nil
  then show ?case by simp
next
  case (Cons q qs)
  obtain d1 n where e: "send_queue env dev i q (h, s, k) = (h @ d1, count_vio_tx (take n q) s, k @ rev (drop n q))"
    and v1: "vhost_sent d1 = take n q"
    using send_queue_eq [of env dev i q h s k] by blast
  obtain d2 s2 k2 where rest: "send_queues env dev (Suc i) qs (h @ d1, count_vio_tx (take n q) s, k @ rev (drop n q))
      = ((h @ d1) @ d2, s2, k2)"
    using send_queues_sent by blast
  have d: "d = d1 @ d2" "k' = k2" using Cons.prems(3) by (simp_all add: e rest)
  have q: "\<forall>p\<in>set q. tag p = i" using Cons.prems(1) by force
  have tl: "\<forall>j<length qs. \<forall>p\<in>set (qs ! j). tag p = Suc i + j" using Cons.prems(1) by force
  show ?case
  proof (cases j)
    case 0
    have other: "\<forall>q'\<in>set qs. \<forall>p\<in>set q'. tag p \<noteq> i" using tl by (force simp: in_set_conv_nth)
    have "filter (\<lambda>p. tag p = i) (rev (drop n q)) = rev (drop n q)" "filter (\<lambda>p. tag p = i) (take n q) = take n q"
      using q by (auto simp: filter_id_conv dest: in_set_dropD in_set_takeD)
    then show ?thesis
      using 0 send_queues_other_tag [OF other rest] drop_length_take [of n q] by (simp add: d v1)
  next
    case (Suc j')
    have "filter (\<lambda>p. tag p = i + j) (rev (drop n q)) = []" "filter (\<lambda>p. tag p = i + j) (take n q) = []"
      using q Suc by (auto simp: filter_empty_conv dest: in_set_dropD in_set_takeD)
    then show ?thesis
      using Cons.IH [OF tl _ rest, of j'] Cons.prems(2) Suc by (simp add: d v1)
  qed
qed

lemma virtio_tx_multi:
  assumes "burst_contract env" "stage_ok r" "vio_state (vio r) = VIRTIO_READY" "1 < rx_q_bitmap (vio r)"
    "virtio_tx env r h = Some (n, r', h')"
  obtains d where "h' = h @ d"
    "\<forall>c acc. Sent c acc \<in> set d \<longrightarrow> (\<exists>j<rx_q_active (vio r).
       c = Rte_vhost_enqueue_burst (vio_dev (vio r)) (j * 2) (filter (\<lambda>p. tag p = j) (dpdk_held r)) \<and>
       (\<exists>n. acc = take n (filter (\<lambda>p. tag p = j) (dpdk_held r))))"
    "\<forall>j<rx_q_active (vio r). filter (\<lambda>p. tag p = j) (dpdk_held r') =
       rev (drop (length (filter (\<lambda>p. tag p = j) (vhost_sent d))) (filter (\<lambda>p. tag p = j) (dpdk_held r)))"
proof -
  let ?a = "rx_q_active (vio r)"
  obtain qs where qs: "batch_queues (dpdk_held r) (replicate ?a []) = Some qs"
    using assms(3-5) by (auto simp: virtio_tx_def Let_def bind_Some_iff)
  have len: "length qs = ?a" using batch_queues_mset [OF qs] by simp
  have nth: "qs ! j = filter (\<lambda>p. tag p = j) (dpdk_held r)" if "j < ?a" for j
    using batch_queues_nth [OF qs, of j] that by simp
  obtain d s2 kept where sq: "send_queues env (vio_dev (vio r)) 0 qs (h, stats r, []) = (h @ d, s2, kept)"
    and sent: "\<forall>c acc. Sent c acc \<in> set d \<longrightarrow> (\<exists>j<length qs.
      c = Rte_vhost_enqueue_burst (vio_dev (vio r)) ((0 + j) * 2) (qs ! j) \<and> (\<exists>n. acc = take n (qs ! j)))"
    using send_queues_sent [of env "vio_dev (vio r)" 0 qs h "stats r" "[]"] by blast
  have ok: "rx_ok r" using assms(2) by (simp add: stage_ok_def)
  have m: "mset (concat qs) = mset (dpdk_held r)"
    using batch_queues_mset [OF qs] by (simp add: concat_replicate_trivial)
  have "sends (concat qs) (h, stats r, []) (h @ d, s2, kept)"
    using send_queues_sends [OF assms(1)] sq by metis
  then have "length kept \<le> rx_pkts_avail (dpdk r)"
    using m rx.length_held [OF ok] by (simp add: sends_def) (metis size_mset)
  from rx.put_back(1) [OF ok this] have kept: "dpdk_held r' = kept" and h': "h' = h @ d"
    using assms(3-5) qs sq by (auto simp: virtio_tx_def Let_def frame_simps)
  have reversed: "\<forall>j<?a. filter (\<lambda>p. tag p = j) (dpdk_held r') =
      rev (drop (length (filter (\<lambda>p. tag p = j) (vhost_sent d))) (filter (\<lambda>p. tag p = j) (dpdk_held r)))"
    using send_queues_reverses [OF _ _ sq] len nth by (simp add: kept)
  have "\<exists>j<?a. c = Rte_vhost_enqueue_burst (vio_dev (vio r)) (j * 2) (filter (\<lambda>p. tag p = j) (dpdk_held r)) \<and>
      (\<exists>n. acc = take n (filter (\<lambda>p. tag p = j) (dpdk_held r)))" if "Sent c acc \<in> set d" for c acc
  proof -
    obtain j where "j < length qs" "c = Rte_vhost_enqueue_burst (vio_dev (vio r)) ((0 + j) * 2) (qs ! j)"
      "\<exists>n. acc = take n (qs ! j)"
      using sent \<open>Sent c acc \<in> set d\<close> by blast
    then show ?thesis using len nth by (intro exI [of _ j]) simp
  qed
  then show ?thesis using that [OF h' _ reversed] by blast
qed

subsection \<open>A concrete relay and library\<close>

definition demo_pkt :: "nat \<Rightarrow> 32 word \<Rightarrow> mbuf" where
  "demo_pkt a t = \<lparr>m_ptr = a, pkt_len = 60, fdir_id = t, m_mem = replicate 78 0\<rparr>"

fun demo_pkts :: "hist \<Rightarrow> call \<Rightarrow> mbuf list" where
  "demo_pkts h (Rte_vhost_dequeue_burst d q mp n) = take n [demo_pkt 1 0, demo_pkt 2 0]"
| "demo_pkts h (Rte_eth_rx_burst p q n) = take n [demo_pkt 3 0, demo_pkt 4 0]"
| "demo_pkts h _ = []"

text \<open>The VF and the virtual machine accept one packet per burst.\<close>

fun demo_count :: "hist \<Rightarrow> call \<Rightarrow> nat" where
  "demo_count h (Rte_eth_tx_burst p q ps) = min 1 (length ps)"
| "demo_count h (Rte_vhost_enqueue_burst d q ps) = min 1 (length ps)"
| "demo_count h (Rte_vhost_avail_entries d q) = 32"
| "demo_count h _ = 0"

definition demo_consts :: dpdk_consts where
  "demo_consts = \<lparr>TX_IPV4_CKSUM = 2, TX_UDP_CKSUM = 4, TX_TCP_CKSUM = 8, TX_TCP_TSO = 32, TX_UDP_TSO = 64,
     RX_IPV4_CKSUM = 2, RX_UDP_CKSUM = 4, RX_TCP_CKSUM = 8, RX_CHECKSUM = 14,
     RTE_PKTMBUF_HEADROOM = 128, BONDING_MODE_ACTIVE_BACKUP = 1\<rparr>"

definition demo_info :: dev_info where
  "demo_info = \<lparr>default_txconf = \<lparr>offloads = 0, q_rest = 0\<rparr>, default_rxconf = \<lparr>offloads = 0, q_rest = 0\<rparr>,
     tx_offload_capa = 0xFF, rx_offload_capa = 0xFF, device = 7\<rparr>"

definition demo_env :: env where
  "demo_env = \<lparr>e_rc = (\<lambda>h c. 0), e_count = demo_count, e_pkts = demo_pkts, e_pool = (\<lambda>h c. Some 1),
     e_port = (\<lambda>h c. Some 5), e_ports = (\<lambda>h c. []), e_info = (\<lambda>h c. demo_info), e_name = (\<lambda>h c. []),
     e_file = (\<lambda>h c. NoFile), e_ids = (\<lambda>h c. None), e_clock = (\<lambda>h. of_nat (length h)), e_jhash = (\<lambda>ws iv. iv),
     e_consts = demo_consts, e_uid = 0, e_gid = 0\<rparr>"

lemma demo_env_contract: "burst_contract demo_env"
  by (simp add: burst_contract_def demo_env_def)

lemma demo_env_hashable: "hashable demo_env"
  by (auto simp: hashable_def demo_env_def MIN_HASH_BYTES_def demo_pkt_def dest!: in_set_takeD)

definition demo_vio :: "64 word \<Rightarrow> nat \<Rightarrow> relay_virtio" where
  "demo_vio bm n = \<lparr>vio2vf_cpu = 1, max_queue_pairs = 2, rx_q_bitmap = bm, tx_q_bitmap = 1, rx_q_active = n,
     rx_q_lut = bits_of bm @ replicate (32 - length (bits_of bm)) 0, tx_q_rr = 0, pow2queues = True,
     vio_state = VIRTIO_READY, vio_dev = 0, mempool = Some 1, mempool_socket_id = 0,
     tx_pkts = replicate 32 (demo_pkt 0 0), tx_pkts_avail = 0, tx_pkts_used = 0, vio_sl = False, lm_pending = False\<rparr>"

definition demo_dpdk :: "mbuf list \<Rightarrow> relay_dpdk" where
  "demo_dpdk ps = \<lparr>vf2vio_cpu = 2, dpdk_state = DPDK_READY, is_bond = False, num_slaves = 0, dpdk_port = 5,
     pci_dbdf = ''0000:05:08.0'', rx_pkts = array_blit (replicate 32 (demo_pkt 0 0)) 0 ps,
     rx_pkts_avail = length ps, rx_pkts_used = 0, dpdk_sl = False\<rparr>"

definition demo_relay :: "64 word \<Rightarrow> nat \<Rightarrow> mbuf list \<Rightarrow> relay" where
  "demo_relay bm n ps = \<lparr>relay_id = 0, vio = demo_vio bm n, dpdk = demo_dpdk ps, stats = zero_stats, use_jumbo = False\<rparr>"

lemma demo_relay_sel [simp]:
  "vio (demo_relay bm n ps) = demo_vio bm n" "dpdk (demo_relay bm n ps) = demo_dpdk ps"
  "rx_q_bitmap (demo_vio bm n) = bm" "rx_q_active (demo_vio bm n) = n" "tx_q_bitmap (demo_vio bm n) = 1"
  "tx_q_rr (demo_vio bm n) = 0" "max_queue_pairs (demo_vio bm n) = 2" "vio_state (demo_vio bm n) = VIRTIO_READY"
  "dpdk_state (demo_dpdk ps) = DPDK_READY"
  by (simp_all add: demo_relay_def demo_vio_def demo_dpdk_def)

lemma demo_held [simp]: "dpdk_held (demo_relay bm n ps) = ps" "vio_held (demo_relay bm n ps) = []"
  by (simp_all add: dpdk_held_def vio_held_def) (simp_all add: demo_dpdk_def demo_vio_def array_blit_def)

lemma demo_stage_ok: "length ps \<le> 32 \<Longrightarrow> stage_ok (demo_relay bm n ps)"
  by (simp add: stage_ok_def tx_ok_def rx_ok_def demo_relay_def demo_vio_def demo_dpdk_def BURST_LEN_def)

lemma demo_bits: "bits_of (3 :: 64 word) = [0, 1]" "bits_of (1 :: 64 word) = [0]" "bits_of (5 :: 64 word) = [0, 2]"
  by (simp_all add: bits_of_def upt_conv_Cons)

lemma bit_below: "list_all (\<lambda>i. i < m) (bits_of w) \<Longrightarrow> bit w q \<Longrightarrow> q < m"
  by (simp add: list_all_iff)

lemma demo_vring_inv: "vring_inv (demo_vio 3 2)"
proof -
  have "bit (3 :: 64 word) q \<longrightarrow> q < 32" "bit (1 :: 64 word) q \<longrightarrow> q < 32" for q
    using bit_below [of 32 "3 :: 64 word" q] bit_below [of 32 "1 :: 64 word" q] by (simp_all add: demo_bits)
  moreover have "\<exists>k<7. (2 :: nat) = 2 ^ k" by (rule exI [of _ 1]) simp
  ultimately show ?thesis
    by (simp add: vring_inv_def demo_vio_def demo_bits popcount_def MAX_MULTIQUEUE_PAIRS_def)
qed

lemma demo_vf2vm_ready: "vf2vm_ready (demo_relay 3 2 [demo_pkt 8 1, demo_pkt 9 1])"
proof -
  have "contiguous (demo_vio 3 2)" using contiguous_bits [OF demo_vring_inv] by (simp add: demo_bits upt_conv_Cons)
  then show ?thesis
    using demo_stage_ok [of "[demo_pkt 8 1, demo_pkt 9 1]" 3 2] demo_vring_inv
    by (simp add: vf2vm_ready_def tags_ok_def demo_pkt_def)
qed

subsection \<open>The guarantees of a round\<close>

text \<open>One round towards the VF neither loses nor duplicates a packet buffer. The buffers
  held by the relay before the round together with those fetched from the virtual machine
  are, as a multiset of addresses, those handed to the VF, those freed, and those still
  held; and the staging arrays stay well formed.\<close>

theorem vm2vf_traffic_conserves:
  assumes "burst_contract env" "stage_ok r" "relay_vm2vf_traffic env r h = Some (b, r', h')"
  shows "stage_ok r' \<and> (\<exists>d. h' = h @ d \<and>
    ptrs (held r) + ptrs (received d) = ptrs (eth_sent d) + ptrs (freed d) + ptrs (held r'))"
  using relay_vm2vf_traffic_forwards [OF assms] by (simp add: forwards_def conserves_def)

theorem vm2vf_traffic_conserves_witness:
  "\<exists>b r' d. relay_vm2vf_traffic demo_env (demo_relay 3 2 [demo_pkt 9 1]) [] = Some (b, r', d) \<and>
    ptrs [demo_pkt 9 1] + ptrs (received d) = ptrs (eth_sent d) + ptrs (freed d) + ptrs (held r')"
proof -
  let ?r = "demo_relay 3 2 [demo_pkt 9 1]"
  have ok: "stage_ok ?r" by (rule demo_stage_ok) simp
  obtain b r' h' where e: "relay_vm2vf_traffic demo_env ?r [] = Some (b, r', h')"
    using vm2vf_round_total [OF demo_env_contract ok, of 0 "[]"] by auto
  show ?thesis
    using vm2vf_traffic_conserves [OF demo_env_contract ok e] e by (auto simp: held_def)
qed

text \<open>The same for one round towards the virtual machine. A packet the virtual machine
  accepted is copied by the library, so its buffer is freed by the round.\<close>

theorem vf2vm_traffic_conserves:
  assumes "burst_contract env" "stage_ok r" "relay_vf2vm_traffic env r h = Some (b, r', h')"
  shows "stage_ok r' \<and> (\<exists>d. h' = h @ d \<and>
    ptrs (held r) + ptrs (received d) = ptrs (eth_sent d) + ptrs (freed d) + ptrs (held r'))"
  using relay_vf2vm_traffic_forwards [OF assms] by (simp add: forwards_def conserves_def)

theorem vf2vm_traffic_conserves_witness:
  "\<exists>b r' d. relay_vf2vm_traffic demo_env (demo_relay 3 2 [demo_pkt 8 1, demo_pkt 9 1]) [] = Some (b, r', d) \<and>
    ptrs [demo_pkt 8 1, demo_pkt 9 1] + ptrs (received d) = ptrs (eth_sent d) + ptrs (freed d) + ptrs (held r')"
proof -
  let ?r = "demo_relay 3 2 [demo_pkt 8 1, demo_pkt 9 1]"
  have ok: "stage_ok ?r" by (rule demo_stage_ok) simp
  obtain b r' h' where e: "relay_vf2vm_traffic demo_env ?r [] = Some (b, r', h')"
    using vf2vm_round_total [OF demo_env_contract demo_env_hashable demo_vf2vm_ready, of "[]"] by auto
  show ?thesis
    using vf2vm_traffic_conserves [OF demo_env_contract ok e] e by (auto simp: held_def)
qed

text \<open>C4: While the VF is ready, the relay is a first-in first-out buffer towards it: what was
  held followed by what is fetched equals what is sent followed by what stays held; nothing
  is dropped.\<close>

theorem vm2vf_traffic_fifo:
  assumes "burst_contract env" "stage_ok r" "dpdk_state (dpdk r) = DPDK_READY"
    "relay_vm2vf_traffic env r h = Some (b, r', h')"
  shows "\<exists>d. h' = h @ d \<and> vio_held r @ received d = eth_sent d @ vio_held r' \<and> freed d = []"
  using vm2vf_round_fifo [OF assms] by blast

theorem vm2vf_traffic_fifo_witness:
  "\<exists>b r' d. relay_vm2vf_traffic demo_env (demo_relay 3 2 []) [] = Some (b, r', d) \<and>
    received d = eth_sent d @ vio_held r' \<and> freed d = []"
proof -
  have ok: "stage_ok (demo_relay 3 2 [])" by (rule demo_stage_ok) simp
  obtain b r' h' where e: "relay_vm2vf_traffic demo_env (demo_relay 3 2 []) [] = Some (b, r', h')"
    using vm2vf_round_total [OF demo_env_contract ok, of 0 "[]"] by auto
  show ?thesis using vm2vf_traffic_fifo [OF demo_env_contract ok _ e] e by auto
qed

text \<open>C5: With both sides ready and one receive queue, the relay is a first-in first-out
  buffer towards the virtual machine, and frees exactly the packets it delivered.\<close>

theorem vf2vm_traffic_fifo:
  assumes "burst_contract env" "stage_ok r" "dpdk_state (dpdk r) = DPDK_READY"
    "vio_state (vio r) = VIRTIO_READY" "rx_q_bitmap (vio r) \<le> 1"
    "relay_vf2vm_traffic env r h = Some (b, r', h')"
  shows "\<exists>d. h' = h @ d \<and> dpdk_held r @ received d = vhost_sent d @ dpdk_held r' \<and>
    ptrs (freed d) = ptrs (vhost_sent d)"
  using vf2vm_round_fifo [OF assms] by blast

lemma demo_single_ready: "vf2vm_ready (demo_relay 1 1 [demo_pkt 8 0])"
proof -
  have "bit (1 :: 64 word) q \<longrightarrow> q < 32" for q
    using bit_below [of 32 "1 :: 64 word" q] by (simp add: demo_bits)
  moreover have "\<exists>k<7. Suc 0 = 2 ^ k" by (rule exI [of _ 0]) simp
  ultimately have inv: "vring_inv (demo_vio 1 1)"
    by (simp add: vring_inv_def demo_vio_def demo_bits popcount_def MAX_MULTIQUEUE_PAIRS_def)
  have "contiguous (demo_vio 1 1)" using contiguous_bits [OF inv] by (simp add: demo_bits)
  then show ?thesis using inv demo_stage_ok [of "[demo_pkt 8 0]" 1 1] by (simp add: vf2vm_ready_def tags_ok_def)
qed

theorem vf2vm_traffic_fifo_witness:
  "\<exists>b r' d. relay_vf2vm_traffic demo_env (demo_relay 1 1 [demo_pkt 8 0]) [] = Some (b, r', d) \<and>
    demo_pkt 8 0 # received d = vhost_sent d @ dpdk_held r'"
proof -
  let ?r = "demo_relay 1 1 [demo_pkt 8 0]"
  have ok: "stage_ok ?r" by (rule demo_stage_ok) simp
  obtain b r' h' where e: "relay_vf2vm_traffic demo_env ?r [] = Some (b, r', h')"
    using vf2vm_round_total [OF demo_env_contract demo_env_hashable demo_single_ready, of "[]"] by auto
  show ?thesis using vf2vm_traffic_fifo [OF demo_env_contract ok _ _ _ e] e by auto
qed

text \<open>C6: A round towards the VF terminates within the defined behaviour of C (no failed
  assertion, no endless search for a queue) whenever the round robin position and some
  enabled transmit queue are below the number of queue pairs; and the position stays there.\<close>

theorem vm2vf_traffic_terminates:
  assumes "burst_contract env" "stage_ok r" "tx_q_rr (vio r) < max_queue_pairs (vio r)"
    "q < max_queue_pairs (vio r)" "bit_test (tx_q_bitmap (vio r)) q"
  shows "\<exists>b r' h'. relay_vm2vf_traffic env r h = Some (b, r', h') \<and>
    tx_q_rr (vio r') < max_queue_pairs (vio r')"
  using vm2vf_round_total [OF assms(1-4)] assms(5) by (simp add: bitmap_simps)

theorem vm2vf_traffic_terminates_witness:
  "\<exists>b r' h'. relay_vm2vf_traffic demo_env (demo_relay 3 2 []) [] = Some (b, r', h') \<and>
    tx_q_rr (vio r') < max_queue_pairs (vio r')"
  using vm2vf_traffic_terminates [OF demo_env_contract demo_stage_ok [of "[]" 3 2], of 0 "[]"]
  by (simp add: bitmap_simps)

text \<open>C7: A round towards the virtual machine stays within the defined behaviour of C, and
  keeps everything this rests on, when the bookkeeping of the receive queues is in order
  and the enabled receive queues are the lowest ones.\<close>

theorem vf2vm_traffic_safe:
  assumes "burst_contract env" "hashable env" "vf2vm_ready r"
  shows "\<exists>b r' h'. relay_vf2vm_traffic env r h = Some (b, r', h') \<and> vf2vm_ready r'"
  by (rule vf2vm_round_total [OF assms])

theorem vf2vm_traffic_safe_witness:
  "\<exists>b r' h'. relay_vf2vm_traffic demo_env (demo_relay 3 2 [demo_pkt 8 1, demo_pkt 9 1]) [] = Some (b, r', h') \<and>
    vf2vm_ready r'"
  by (rule vf2vm_traffic_safe [OF demo_env_contract demo_env_hashable demo_vf2vm_ready])

text \<open>The search for the next transmit queue ends if and only if some queue below the
  number of queue pairs is enabled; with no enabled queue \<open>virtio_rx\<close> never returns.\<close>

theorem virtio_rx_hangs_iff:
  assumes "vio_state (vio r) = VIRTIO_READY" "tx_q_rr (vio r) < max_queue_pairs (vio r)"
  shows "virtio_rx env r h = None \<longleftrightarrow> (\<forall>q<max_queue_pairs (vio r). \<not> bit_test (tx_q_bitmap (vio r)) q)"
proof
  assume "virtio_rx env r h = None"
  then show "\<forall>q<max_queue_pairs (vio r). \<not> bit_test (tx_q_bitmap (vio r)) q"
    using virtio_rx_total [OF assms(2), of _ env h] by (auto simp: bitmap_simps)
next
  assume "\<forall>q<max_queue_pairs (vio r). \<not> bit_test (tx_q_bitmap (vio r)) q"
  then have "next_tx_q (tx_q_bitmap (vio r)) (max_queue_pairs (vio r)) (tx_q_rr (vio r)) = None"
    using assms(2) by (intro next_tx_q_diverges) (auto simp: bitmap_simps)
  then show "virtio_rx env r h = None" using assms(1) by (simp add: virtio_rx_def Let_def)
qed

theorem virtio_rx_hangs_iff_witness:
  "virtio_rx demo_env ((demo_relay 1 1 [])\<lparr>vio := (demo_vio 1 1)\<lparr>tx_q_bitmap := 0\<rparr>\<rparr>) [] = None"
  by (subst virtio_rx_hangs_iff) (simp_all add: bitmap_simps)

text \<open>C10: With several receive queues, \<open>virtio_tx\<close> writes outside its per-queue arrays exactly
  when some buffered packet is tagged with a queue that is not below the number of enabled
  queues. The arrays have one entry per enabled queue but are indexed by queue number.\<close>

theorem virtio_tx_overflow_iff:
  assumes "stage_ok r" "vio_state (vio r) = VIRTIO_READY" "1 < rx_q_bitmap (vio r)"
  shows "virtio_tx env r h = None \<longleftrightarrow> (\<exists>p\<in>set (dpdk_held r). rx_q_active (vio r) \<le> unat (fdir_id p))"
  by (rule virtio_tx_None_iff [OF assms])

theorem virtio_tx_overflow_iff_witness:
  "virtio_tx demo_env (demo_relay 5 2 [demo_pkt 8 2]) [] = None"
  using virtio_tx_overflow_iff [OF demo_stage_ok [of "[demo_pkt 8 2]" 5 2], of demo_env "[]"]
  by (simp add: demo_pkt_def)

text \<open>With several receive queues, every burst \<open>virtio_tx\<close> hands to queue pair \<open>j\<close> consists
  of the buffered packets tagged \<open>j\<close> in their order, of which a prefix is accepted.\<close>

theorem virtio_tx_queues:
  assumes "burst_contract env" "stage_ok r" "vio_state (vio r) = VIRTIO_READY" "1 < rx_q_bitmap (vio r)"
    "virtio_tx env r h = Some (n, r', h')"
  shows "\<exists>d. h' = h @ d \<and> (\<forall>c acc. Sent c acc \<in> set d \<longrightarrow> (\<exists>j<rx_q_active (vio r).
    c = Rte_vhost_enqueue_burst (vio_dev (vio r)) (j * 2) (filter (\<lambda>p. tag p = j) (dpdk_held r)) \<and>
    (\<exists>n. acc = take n (filter (\<lambda>p. tag p = j) (dpdk_held r)))))"
  by (rule virtio_tx_multi [OF assms]) blast

theorem virtio_tx_queues_witness:
  "\<exists>n r' d. virtio_tx demo_env (demo_relay 3 2 [demo_pkt 8 1, demo_pkt 9 0]) [] = Some (n, r', d) \<and>
    (\<forall>c acc. Sent c acc \<in> set d \<longrightarrow> (\<exists>j<2.
      c = Rte_vhost_enqueue_burst 0 (j * 2) (filter (\<lambda>p. tag p = j) [demo_pkt 8 1, demo_pkt 9 0])))"
proof -
  let ?r = "demo_relay 3 2 [demo_pkt 8 1, demo_pkt 9 0]"
  have ok: "stage_ok ?r" by (rule demo_stage_ok) simp
  have "virtio_tx demo_env ?r [] \<noteq> None"
    using virtio_tx_None_iff [OF ok, of demo_env "[]"] by (simp add: demo_pkt_def)
  then obtain n r' h' where e: "virtio_tx demo_env ?r [] = Some (n, r', h')" by auto
  have dev: "vio_dev (demo_vio bm n) = 0" for bm n by (simp add: demo_vio_def)
  have "\<exists>d. h' = [] @ d \<and> (\<forall>c acc. Sent c acc \<in> set d \<longrightarrow> (\<exists>j<2.
      c = Rte_vhost_enqueue_burst 0 (j * 2) (filter (\<lambda>p. tag p = j) [demo_pkt 8 1, demo_pkt 9 0]) \<and>
      (\<exists>n. acc = take n (filter (\<lambda>p. tag p = j) [demo_pkt 8 1, demo_pkt 9 0]))))"
    using virtio_tx_queues [OF demo_env_contract ok _ _ e]
    unfolding demo_relay_sel demo_held dev by simp
  then have "\<forall>c acc. Sent c acc \<in> set h' \<longrightarrow> (\<exists>j<2.
      c = Rte_vhost_enqueue_burst 0 (j * 2) (filter (\<lambda>p. tag p = j) [demo_pkt 8 1, demo_pkt 9 0]))"
    by (metis append_Nil)
  then show ?thesis using e by blast
qed

text \<open>With several receive queues, the packets of a queue that were not accepted are put
  back in reverse order, so the next burst offers them in reverse: the order within a flow
  is not kept.\<close>

theorem virtio_tx_reverses:
  assumes "burst_contract env" "stage_ok r" "vio_state (vio r) = VIRTIO_READY" "1 < rx_q_bitmap (vio r)"
    "virtio_tx env r h = Some (n, r', h')"
  shows "\<exists>d. h' = h @ d \<and> (\<forall>j<rx_q_active (vio r). filter (\<lambda>p. tag p = j) (dpdk_held r') =
    rev (drop (length (filter (\<lambda>p. tag p = j) (vhost_sent d))) (filter (\<lambda>p. tag p = j) (dpdk_held r))))"
  by (rule virtio_tx_multi [OF assms]) blast

text \<open>Of three packets of one flow the first is accepted; the other two change places.\<close>

theorem virtio_tx_reverses_witness:
  "\<exists>n r' d. virtio_tx demo_env (demo_relay 3 2 [demo_pkt 7 1, demo_pkt 8 1, demo_pkt 9 1]) [] = Some (n, r', d) \<and>
    vhost_sent d = [demo_pkt 7 1] \<and> filter (\<lambda>p. tag p = 1) (dpdk_held r') = [demo_pkt 9 1, demo_pkt 8 1]"
proof -
  let ?ps = "[demo_pkt 7 1, demo_pkt 8 1, demo_pkt 9 1]"
  let ?r = "demo_relay 3 2 ?ps"
  have ok: "stage_ok ?r" by (rule demo_stage_ok) simp
  have t: "tag (demo_pkt a 1) = 1" for a by (simp add: demo_pkt_def)
  have "batch_queues ?ps (replicate 2 []) = Some [[], ?ps]"
    by (simp add: numeral_2_eq_2 BURST_LEN_def t Let_def)
  then obtain n r' h' where e: "virtio_tx demo_env ?r [] = Some (n, r', h')" and v: "vhost_sent h' = [demo_pkt 7 1]"
    by (simp add: virtio_tx_def Let_def send_queue_def demo_env_def free_pkts_def word_less_def)
  have "filter (\<lambda>p. tag p = 1) (dpdk_held r') =
      rev (drop (length (filter (\<lambda>p. tag p = 1) (vhost_sent h'))) (filter (\<lambda>p. tag p = 1) ?ps))"
    using virtio_tx_reverses [OF demo_env_contract ok _ _ e]
    unfolding demo_relay_sel demo_held by simp
  then show ?thesis using e v t by auto
qed

text \<open>C8: Enabling or disabling a vring changes exactly the bit of that vring, and leaves the
  bookkeeping of the receive queues consistent, whatever it was before: the count, the power-of-two flag and the lookup table,
  which lists the enabled queues in ascending order.\<close>

theorem vring_state_change_keeps:
  assumes "vring_range v" "queue_id < 2 * MAX_MULTIQUEUE_PAIRS"
  shows "\<exists>v'. vring_state_change queue_id enable v = Some v' \<and> vring_inv v' \<and>
    (\<forall>q. bit_test (rx_q_bitmap v') q =
       (if even queue_id \<and> q = queue_id div 2 then enable \<noteq> 0 else bit_test (rx_q_bitmap v) q)) \<and>
    (\<forall>q. bit_test (tx_q_bitmap v') q =
       (if odd queue_id \<and> q = queue_id div 2 then enable \<noteq> 0 else bit_test (tx_q_bitmap v) q))"
proof -
  have "queue_id div 2 < 64" using assms(2) by (simp add: MAX_MULTIQUEUE_PAIRS_def)
  then have bit: "bit (set_queue_bit w (queue_id div 2) e) q = (if q = queue_id div 2 then e else bit w q)"
    for w e q
    by (auto simp: set_queue_bit_def bitmap_simps)
  show ?thesis
    using vring_state_change_inv [OF assms, of enable] by (auto simp: bitmap_simps bit)
qed

theorem vring_state_change_keeps_witness:
  "\<exists>v'. vring_state_change 2 0 (demo_vio 3 2) = Some v' \<and> vring_inv v' \<and> \<not> bit_test (rx_q_bitmap v') 1"
proof -
  have "(2 :: nat) < 2 * MAX_MULTIQUEUE_PAIRS" by (simp add: MAX_MULTIQUEUE_PAIRS_def)
  from vring_state_change_keeps [OF vring_inv_range [OF demo_vring_inv] this, of 0] obtain v' where
    v': "vring_state_change 2 0 (demo_vio 3 2) = Some v'" "vring_inv v'"
    "\<forall>q. bit_test (rx_q_bitmap v') q =
       (if even (2 :: nat) \<and> q = 2 div 2 then (0 :: int) \<noteq> 0 else bit_test (rx_q_bitmap (demo_vio 3 2)) q)"
    by blast
  have "\<not> bit_test (rx_q_bitmap v') 1" using v'(3) [rule_format, of 1] by simp
  then show ?thesis using v'(1,2) by blast
qed

text \<open>C9: Choosing a queue by masking when the number of queues is a power of two and by
  division otherwise is one function: index the ascending list of enabled queues by the
  hash modulo their number.\<close>

theorem select_queue_is_modulo:
  assumes "vring_inv v" "0 < rx_q_active v"
  shows "select_queue v h = Some (bits_of (rx_q_bitmap v) ! (unat h mod rx_q_active v))"
  by (rule select_queue_ref [OF assms])

theorem select_queue_is_modulo_witness: "select_queue (demo_vio 3 2) 7 = Some 1"
  using select_queue_is_modulo [OF demo_vring_inv, of 7] by (simp add: demo_bits)

text \<open>Tagging a burst sends every packet to an enabled queue and packets with the same
  header fields (addresses, protocol, ports) to the same queue; addresses, order and
  lengths of the buffers stay.\<close>

theorem calc_mbuf_queue_flows:
  assumes "vring_inv v" "0 < rx_q_active v" "\<forall>p\<in>set ps. MIN_HASH_BYTES \<le> length (m_mem p)"
  shows "\<exists>ps'. calc_mbuf_queue env v ps = Some ps' \<and> map m_ptr ps' = map m_ptr ps \<and>
    (\<forall>i<length ps. bit_test (rx_q_bitmap v) (tag (ps' ! i))) \<and>
    (\<forall>i<length ps. \<forall>j<length ps.
       hash_words (m_mem (ps ! i)) = hash_words (m_mem (ps ! j)) \<longrightarrow> tag (ps' ! i) = tag (ps' ! j))"
proof -
  let ?ps' = "map (\<lambda>p. p\<lparr>fdir_id := of_nat (flow_queue env v p)\<rparr>) ps"
  have tag: "tag (?ps' ! i) = flow_queue env v (ps ! i)" if "i < length ps" for i
    using that flow_queue_enabled(2) [OF assms(1,2), of env "ps ! i"]
    by (simp add: unat_of_nat MAX_MULTIQUEUE_PAIRS_def)
  have "calc_mbuf_queue env v ps = Some ?ps'" by (rule calc_mbuf_queue_eq [OF assms])
  moreover have "map m_ptr ?ps' = map m_ptr ps" by simp
  moreover have "\<forall>i<length ps. bit_test (rx_q_bitmap v) (tag (?ps' ! i))"
    using flow_queue_enabled(1) [OF assms(1,2)] tag by (auto simp only: bitmap_simps)
  moreover have "\<forall>i<length ps. \<forall>j<length ps.
      hash_words (m_mem (ps ! i)) = hash_words (m_mem (ps ! j)) \<longrightarrow> tag (?ps' ! i) = tag (?ps' ! j)"
    using tag by (metis (no_types, lifting) flow_queue_def)
  ultimately show ?thesis by blast
qed

theorem calc_mbuf_queue_flows_witness:
  "\<exists>ps'. calc_mbuf_queue demo_env (demo_vio 3 2) [demo_pkt 1 0, demo_pkt 2 0] = Some ps' \<and>
    tag (ps' ! 0) = tag (ps' ! 1)"
proof -
  let ?ps = "[demo_pkt 1 0, demo_pkt 2 0]"
  have len: "\<forall>p\<in>set ?ps. MIN_HASH_BYTES \<le> length (m_mem p)"
    by (simp add: demo_pkt_def MIN_HASH_BYTES_def)
  have active: "0 < rx_q_active (demo_vio 3 2)" by simp
  obtain ps' where e: "calc_mbuf_queue demo_env (demo_vio 3 2) ?ps = Some ps'"
    "\<forall>i<length ?ps. \<forall>j<length ?ps.
       hash_words (m_mem (?ps ! i)) = hash_words (m_mem (?ps ! j)) \<longrightarrow> tag (ps' ! i) = tag (ps' ! j)"
    using calc_mbuf_queue_flows [OF demo_vring_inv active len, of demo_env] by blast
  have "m_mem (?ps ! 0) = m_mem (?ps ! 1)" by (simp add: demo_pkt_def)
  then have "tag (ps' ! 0) = tag (ps' ! 1)" by (intro e(2) [rule_format]) simp_all
  then show ?thesis using e(1) by blast
qed

end
