(* ===== verification/Worker.thy ===== *)
theory Worker
  imports Rounds
begin

text \<open>
  Worker threads (\<open>virtio_worker.c\<close>). Each thread services the relays of its bitmap
  \<open>active_relays\<close>: for each of them it takes the lock of a direction assigned to its CPU
  and runs one round of that direction (\<open>worker_func\<close>, \<open>update_thread\<close>). The control path
  chooses the least loaded CPU for a new direction (\<open>naive_get_idlest_worker\<close>) and moves
  directions between CPUs (\<open>migrate_relay_cpus\<close>).

  The lemmas show that the bitmap lists exactly the relays a thread has to service, that
  the chosen CPU is an eligible one of least load, that an iteration of a thread is a
  sequence of locked rounds, and that any interleaving of threads conserves packets,
  counts, and completes a removal.
\<close>

subsection \<open>Placement of a direction on a CPU\<close>

definition get_relay_from_id :: "gstate \<Rightarrow> nat \<Rightarrow> nat option" where
  "get_relay_from_id st i = (if MAX_RELAYS st \<le> i then None else Some i)"

definition have_worker_on_node :: "gstate \<Rightarrow> int \<Rightarrow> bool" where
  "have_worker_on_node st node =
     list_ex (\<lambda>i. int (numanode (cpus (cpuinfo st) ! i)) = node \<and> bit_test (worker_core_bitmap st) i)
       [0..<MAX_CPUS]"

text \<open>\<open>cpu_workers[cpu] += n\<close>\<close>

definition add_load :: "int \<Rightarrow> int \<Rightarrow> int list \<Rightarrow> int list option" where
  "add_load cpu n ws = do {
     x \<leftarrow> array_get ws (nat cpu);
     array_set ws (nat cpu) (x + n) }"

definition count_relay :: "relay \<Rightarrow> int list \<Rightarrow> int list option" where
  "count_relay r ws = do {
     ws \<leftarrow> (if (dpdk_state (dpdk r) = DPDK_READY \<or> dpdk_state (dpdk r) = DPDK_ADDED) \<and> 0 \<le> vf2vio_cpu (dpdk r)
            then add_load (vf2vio_cpu (dpdk r)) 12 ws else Some ws);
     if vio_state (vio r) = VIRTIO_READY \<and> 0 \<le> vio2vf_cpu (vio r)
     then add_load (vio2vf_cpu (vio r)) 10 ws else Some ws }"

primrec cpu_workers :: "relay list \<Rightarrow> int list \<Rightarrow> int list option" where
  "cpu_workers [] ws = Some ws"
| "cpu_workers (r # rs) ws = do { ws \<leftarrow> count_relay r ws; cpu_workers rs ws }"

definition eligible :: "gstate \<Rightarrow> int \<Rightarrow> nat \<Rightarrow> bool" where
  "eligible st node cpu \<longleftrightarrow>
     \<not> (node \<noteq> SOCKET_ID_ANY \<and> have_worker_on_node st node \<and>
        int (numanode (cpus (cpuinfo st) ! cpu)) \<noteq> node) \<and>
     bit_test (worker_core_bitmap st) cpu \<and>
     initialized (worker_threads st ! cpu)"

definition pick_cpu :: "gstate \<Rightarrow> int \<Rightarrow> int list \<Rightarrow> nat \<Rightarrow> int \<times> int \<Rightarrow> int \<times> int" where
  "pick_cpu st node ws cpu = (\<lambda>(min, min_index).
     if eligible st node cpu \<and> (ws ! cpu < min \<or> min_index = -1) then (ws ! cpu, int cpu)
     else (min, min_index))"

definition naive_get_idlest_worker :: "gstate \<Rightarrow> int \<Rightarrow> int option" where
  "naive_get_idlest_worker st node = do {
     ws \<leftarrow> cpu_workers (virtio_vf_relays st) (replicate MAX_CPUS 0);
     Some (snd (fold (pick_cpu st node ws) [0..<MAX_CPUS] (int (MAX_RELAYS st) * 100, -1))) }"

definition signal_update :: "nat \<Rightarrow> gstate \<Rightarrow> gstate" where
  "signal_update cpu st =
     st\<lparr>worker_threads := (worker_threads st)[cpu := (worker_threads st ! cpu)\<lparr>need_update := True\<rparr>]\<rparr>"

text \<open>\<open>worker_threads[cpu].need_update = true\<close> with the index checked.\<close>

definition flag_thread :: "int \<Rightarrow> gstate \<Rightarrow> gstate option" where
  "flag_thread cpu st =
     (if 0 \<le> cpu \<and> nat cpu < length (worker_threads st) then Some (signal_update (nat cpu) st) else None)"

definition find_vf2virtio_cpu :: "nat \<Rightarrow> gstate \<Rightarrow> gstate option" where
  "find_vf2virtio_cpu i st = do {
     conf \<leftarrow> array_get (conf_relay_cpus (g_conf st)) (relay_id (relay_of st i));
     if conf_vf2vio_cpu conf \<noteq> -1
     then Some (map_dpdk i (\<lambda>d. d\<lparr>vf2vio_cpu := conf_vf2vio_cpu conf\<rparr>) st)
     else do {
       st \<leftarrow> (if vf2vio_cpu (dpdk (relay_of st i)) \<noteq> -1
              then do { st \<leftarrow> flag_thread (vf2vio_cpu (dpdk (relay_of st i))) st;
                        Some (map_dpdk i (\<lambda>d. d\<lparr>vf2vio_cpu := -1\<rparr>) st) }
              else Some st);
       idlest_cpu \<leftarrow> naive_get_idlest_worker st (mempool_socket_id (vio (relay_of st i)));
       if 0 \<le> idlest_cpu then Some (map_dpdk i (\<lambda>d. d\<lparr>vf2vio_cpu := idlest_cpu\<rparr>) st) else None } }"

definition find_virtio2vf_cpu :: "nat \<Rightarrow> gstate \<Rightarrow> gstate option" where
  "find_virtio2vf_cpu i st = do {
     conf \<leftarrow> array_get (conf_relay_cpus (g_conf st)) (relay_id (relay_of st i));
     if conf_vio2vf_cpu conf \<noteq> -1
     then Some (map_vio i (\<lambda>v. v\<lparr>vio2vf_cpu := conf_vio2vf_cpu conf\<rparr>) st)
     else do {
       st \<leftarrow> (if vio2vf_cpu (vio (relay_of st i)) \<noteq> -1
              then do { st \<leftarrow> flag_thread (vio2vf_cpu (vio (relay_of st i))) st;
                        Some (map_vio i (\<lambda>v. v\<lparr>vio2vf_cpu := -1\<rparr>) st) }
              else Some st);
       idlest_cpu \<leftarrow> naive_get_idlest_worker st (mempool_socket_id (vio (relay_of st i)));
       if 0 \<le> idlest_cpu then Some (map_vio i (\<lambda>v. v\<lparr>vio2vf_cpu := idlest_cpu\<rparr>) st) else None } }"

subsection \<open>Moving a relay to other CPUs\<close>

text \<open>C's logical negation of a bitmap, as the bitmap 0 or 1.\<close>

definition logical_not :: "64 word \<Rightarrow> 64 word" where
  "logical_not w = (if w = 0 then 1 else 0)"

definition move_virtio2vf :: "nat \<Rightarrow> int \<Rightarrow> gstate \<Rightarrow> gstate option" where
  "move_virtio2vf i cpu st = do {
     t \<leftarrow> array_get_int (worker_threads st) cpu;
     let v = vio (relay_of st i);
     if \<not> initialized t then Some st
     else if vio_state v \<noteq> VIRTIO_READY then Some st
     else if vio2vf_cpu v \<noteq> cpu
     then do { let st = map_vio i (\<lambda>v. v\<lparr>vio2vf_cpu := cpu\<rparr>) st;
               st \<leftarrow> flag_thread (vio2vf_cpu v) st;
               flag_thread cpu st }
     else Some st }"

definition move_vf2virtio :: "nat \<Rightarrow> int \<Rightarrow> gstate \<Rightarrow> gstate option" where
  "move_vf2virtio i cpu st = do {
     t \<leftarrow> array_get_int (worker_threads st) cpu;
     let d = dpdk (relay_of st i);
     if \<not> initialized t then Some st
     else if \<not> (dpdk_state d = DPDK_ADDED \<or> dpdk_state d = DPDK_READY) then Some st
     else if vf2vio_cpu d \<noteq> cpu
     then do { let st = map_dpdk i (\<lambda>d. d\<lparr>vf2vio_cpu := cpu\<rparr>) st;
               st \<leftarrow> flag_thread (vf2vio_cpu d) st;
               flag_thread cpu st }
     else Some st }"

definition migrate_relay_cpus :: "int \<Rightarrow> int \<Rightarrow> int \<Rightarrow> gstate \<Rightarrow> (int \<times> gstate) option" where
  "migrate_relay_cpus relay_number new_virtio2vf_cpu new_vf2virtio_cpu st =
     (if \<not> (0 \<le> relay_number \<and> nat relay_number < MAX_RELAYS st) then None
      else if \<not> (0 \<le> new_virtio2vf_cpu \<and> new_virtio2vf_cpu < 64 \<and> 0 \<le> new_vf2virtio_cpu \<and> new_vf2virtio_cpu < 64)
      then None
      else if (push_bit (nat new_virtio2vf_cpu) 1 OR push_bit (nat new_vf2virtio_cpu) 1)
                AND logical_not (worker_core_bitmap st) \<noteq> 0
      then Some (-1, st)
      else do {
        st \<leftarrow> move_virtio2vf (nat relay_number) new_virtio2vf_cpu st;
        st \<leftarrow> move_vf2virtio (nat relay_number) new_vf2virtio_cpu st;
        Some (0, st) })"

subsection \<open>The worker thread\<close>

definition serves :: "int \<Rightarrow> relay \<Rightarrow> bool" where
  "serves cpu r \<longleftrightarrow>
     (dpdk_state (dpdk r) \<noteq> DPDK_UNINIT \<and> vf2vio_cpu (dpdk r) = cpu) \<or>
     (vio_state (vio r) \<noteq> VIRTIO_UNINIT \<and> vio2vf_cpu (vio r) = cpu)"

text \<open>\<open>for (w = 0; w < MAX_RELAYS; ++w) if (...) active_relays |= (1ULL << w);\<close>\<close>

primrec collect_relays :: "int \<Rightarrow> nat \<Rightarrow> relay list \<Rightarrow> 64 word \<Rightarrow> 64 word option" where
  "collect_relays cpu w [] bm = Some bm"
| "collect_relays cpu w (r # rs) bm =
     (if serves cpu r then if w < 64 then collect_relays cpu (Suc w) rs (bit_set bm w) else None
      else collect_relays cpu (Suc w) rs bm)"

definition update_thread :: "nat \<Rightarrow> gstate \<Rightarrow> gstate option" where
  "update_thread cpu st = do {
     let t = worker_threads st ! cpu;
     bm \<leftarrow> collect_relays (w_cpu t) 0 (virtio_vf_relays st) 0;
     Some (st\<lparr>worker_threads := (worker_threads st)[cpu := t\<lparr>need_update := False, active_relays := bm\<rparr>]\<rparr>) }"

text \<open>One direction of relay \<open>w\<close> under its lock; the result says whether there was work.\<close>

definition locked_vm2vf :: "env \<Rightarrow> nat \<Rightarrow> gstate \<Rightarrow> (int \<times> gstate) option" where
  "locked_vm2vf env w st = do {
     let r = relay_of st w;
     let (taken, sl) = rte_spinlock_trylock (vio_sl (vio r));
     if taken
     then do {
       (b, r, h) \<leftarrow> relay_vm2vf_traffic env (r\<lparr>vio := (vio r)\<lparr>vio_sl := sl\<rparr>\<rparr>) (hist st);
       Some (b, (put_relay w (r\<lparr>vio := (vio r)\<lparr>vio_sl := False\<rparr>\<rparr>) st)\<lparr>hist := h\<rparr>) }
     else Some (0, st) }"

definition locked_vf2vm :: "env \<Rightarrow> nat \<Rightarrow> gstate \<Rightarrow> (int \<times> gstate) option" where
  "locked_vf2vm env w st = do {
     let r = relay_of st w;
     let (taken, sl) = rte_spinlock_trylock (dpdk_sl (dpdk r));
     if taken
     then do {
       (b, r, h) \<leftarrow> relay_vf2vm_traffic env (r\<lparr>dpdk := (dpdk r)\<lparr>dpdk_sl := sl\<rparr>\<rparr>) (hist st);
       Some (b, (put_relay w (r\<lparr>dpdk := (dpdk r)\<lparr>dpdk_sl := False\<rparr>\<rparr>) st)\<lparr>hist := h\<rparr>) }
     else Some (0, st) }"

definition service_relay :: "env \<Rightarrow> int \<Rightarrow> nat \<Rightarrow> bool \<times> gstate \<Rightarrow> (bool \<times> gstate) option" where
  "service_relay env cpu w = (\<lambda>(processed, st).
     if MAX_RELAYS st \<le> w then None
     else do {
       (b1, st) \<leftarrow> (if vio2vf_cpu (vio (relay_of st w)) = cpu then locked_vm2vf env w st else Some (0, st));
       (b2, st) \<leftarrow> (if vf2vio_cpu (dpdk (relay_of st w)) = cpu then locked_vf2vm env w st else Some (0, st));
       Some (processed \<or> b1 \<noteq> 0 \<or> b2 \<noteq> 0, st) })"

primrec service_relays :: "env \<Rightarrow> int \<Rightarrow> nat list \<Rightarrow> bool \<times> gstate \<Rightarrow> (bool \<times> gstate) option" where
  "service_relays env cpu [] a = Some a"
| "service_relays env cpu (w # ws) a = do { a \<leftarrow> service_relay env cpu w a; service_relays env cpu ws a }"

text \<open>
  The body of the loop of \<open>worker_func\<close>. The bitmap is read before a pending update. The
  flag says whether any relay had work; without, the thread sleeps for a millisecond.
\<close>

definition worker_iteration :: "env \<Rightarrow> nat \<Rightarrow> gstate \<Rightarrow> (bool \<times> gstate) option" where
  "worker_iteration env cpu st = do {
     let t = worker_threads st ! cpu;
     let active = active_relays t;
     st \<leftarrow> (if need_update t then update_thread cpu st else Some st);
     service_relays env (w_cpu t) (scan_bits active) (False, st) }"

definition worker_start :: "nat \<Rightarrow> gstate \<Rightarrow> gstate" where
  "worker_start cpu st =
     st\<lparr>worker_threads := (worker_threads st)[cpu := (worker_threads st ! cpu)\<lparr>running := True, must_stop := False\<rparr>]\<rparr>"

definition worker_end :: "nat \<Rightarrow> gstate \<Rightarrow> gstate" where
  "worker_end cpu st =
     st\<lparr>worker_threads := (worker_threads st)[cpu := (worker_threads st ! cpu)\<lparr>running := False\<rparr>]\<rparr>"

text \<open>The threads run concurrently; an iteration of any running thread is a step.\<close>

inductive worker_step :: "env \<Rightarrow> gstate \<Rightarrow> gstate \<Rightarrow> bool" for env where
  Iterate: "\<lbrakk>cpu < length (worker_threads st); running (worker_threads st ! cpu);
             \<not> must_stop (worker_threads st ! cpu);
             worker_iteration env cpu st = Some (processed, st')\<rbrakk> \<Longrightarrow> worker_step env st st'"
| Stop: "\<lbrakk>cpu < length (worker_threads st); must_stop (worker_threads st ! cpu)\<rbrakk> \<Longrightarrow>
           worker_step env st (worker_end cpu st)"

inductive_cases worker_stepE: "worker_step env st st'"

subsection \<open>The chosen CPU is eligible and least loaded\<close>

definition relay_load :: "relay \<Rightarrow> nat \<Rightarrow> int" where
  "relay_load r c =
     (if (dpdk_state (dpdk r) = DPDK_READY \<or> dpdk_state (dpdk r) = DPDK_ADDED) \<and> vf2vio_cpu (dpdk r) = int c
      then 12 else 0) +
     (if vio_state (vio r) = VIRTIO_READY \<and> vio2vf_cpu (vio r) = int c then 10 else 0)"

definition load :: "relay list \<Rightarrow> nat \<Rightarrow> int" where
  "load rs c = sum_list (map (\<lambda>r. relay_load r c) rs)"

definition cpus_ok :: "relay \<Rightarrow> bool" where
  "cpus_ok r \<longleftrightarrow> vf2vio_cpu (dpdk r) < int MAX_CPUS \<and> vio2vf_cpu (vio r) < int MAX_CPUS"

lemma add_load_eq:
  "0 \<le> cpu \<Longrightarrow> cpu < int (length ws) \<Longrightarrow> add_load cpu n ws = Some (ws[nat cpu := ws ! nat cpu + n])"
  by (simp add: add_load_def array_get_def array_set_def nat_less_iff)

lemma count_relay_eq:
  assumes "cpus_ok r" "length ws = MAX_CPUS"
  shows "\<exists>ws'. count_relay r ws = Some ws' \<and> length ws' = MAX_CPUS \<and>
    (\<forall>c<MAX_CPUS. ws' ! c = ws ! c + relay_load r c)"
proof -
  define ws1 where "ws1 = (if (dpdk_state (dpdk r) = DPDK_READY \<or> dpdk_state (dpdk r) = DPDK_ADDED) \<and> 0 \<le> vf2vio_cpu (dpdk r)
    then ws[nat (vf2vio_cpu (dpdk r)) := ws ! nat (vf2vio_cpu (dpdk r)) + 12] else ws)"
  define ws2 where "ws2 = (if vio_state (vio r) = VIRTIO_READY \<and> 0 \<le> vio2vf_cpu (vio r)
    then ws1[nat (vio2vf_cpu (vio r)) := ws1 ! nat (vio2vf_cpu (vio r)) + 10] else ws1)"
  have len: "length ws1 = MAX_CPUS" "length ws2 = MAX_CPUS" using assms(2) by (simp_all add: ws1_def ws2_def)
  have "count_relay r ws = Some ws2"
    using assms len unfolding count_relay_def
    by (auto simp: add_load_eq cpus_ok_def ws1_def ws2_def)
  moreover have "ws2 ! c = ws ! c + relay_load r c" if "c < MAX_CPUS" for c
    using that assms(2) by (auto simp: ws1_def ws2_def relay_load_def nth_list_update)
  ultimately show ?thesis using len by blast
qed

lemma cpu_workers_eq:
  assumes "\<forall>r\<in>set rs. cpus_ok r" "length ws = MAX_CPUS"
  shows "\<exists>ws'. cpu_workers rs ws = Some ws' \<and> (\<forall>c<MAX_CPUS. ws' ! c = ws ! c + load rs c)"
  using assms
proof (induction rs arbitrary: ws)
  case Nil
  then show ?case by (simp add: load_def)
next
  case (Cons r rs)
  obtain ws1 where 1: "count_relay r ws = Some ws1" "length ws1 = MAX_CPUS"
    "\<forall>c<MAX_CPUS. ws1 ! c = ws ! c + relay_load r c"
    using count_relay_eq [of r ws] Cons.prems by auto
  then show ?case using Cons.IH [OF _ 1(2)] Cons.prems(1) by (fastforce simp: load_def)
qed

text \<open>The selection loop returns the first eligible CPU of least load, or -1 when there is none.\<close>

definition first_least :: "(nat \<Rightarrow> bool) \<Rightarrow> (nat \<Rightarrow> int) \<Rightarrow> nat \<Rightarrow> int \<Rightarrow> bool" where
  "first_least P f n i \<longleftrightarrow>
     (if i = -1 then \<forall>c<n. \<not> P c
      else 0 \<le> i \<and> nat i < n \<and> P (nat i) \<and> (\<forall>c<n. P c \<longrightarrow> f (nat i) \<le> f c) \<and>
           (\<forall>c<nat i. P c \<longrightarrow> f (nat i) < f c))"

lemma pick_cpu_fold:
  "first_least (eligible st node) ((!) ws) n (snd (fold (pick_cpu st node ws) [0..<n] (m, -1))) \<and>
   (snd (fold (pick_cpu st node ws) [0..<n] (m, -1)) \<noteq> -1 \<longrightarrow>
      fst (fold (pick_cpu st node ws) [0..<n] (m, -1)) = ws ! nat (snd (fold (pick_cpu st node ws) [0..<n] (m, -1))))"
proof (induction n)
  case 0
  then show ?case by (simp add: first_least_def)
next
  case (Suc n)
  obtain mn ix where a: "fold (pick_cpu st node ws) [0..<n] (m, -1) = (mn, ix)" by fastforce
  have step: "fold (pick_cpu st node ws) [0..<Suc n] (m, -1) = pick_cpu st node ws n (mn, ix)"
    by (simp add: a)
  show ?case unfolding step using Suc unfolding a
    by (auto simp: pick_cpu_def first_least_def less_Suc_eq split: if_splits)
qed

lemma idlest_worker_least:
  assumes "\<forall>r\<in>set (virtio_vf_relays st). cpus_ok r"
  shows "\<exists>c. naive_get_idlest_worker st node = Some c \<and>
    first_least (eligible st node) (load (virtio_vf_relays st)) MAX_CPUS c"
proof -
  obtain ws where ws: "cpu_workers (virtio_vf_relays st) (replicate MAX_CPUS 0) = Some ws"
    "\<forall>c<MAX_CPUS. ws ! c = replicate MAX_CPUS 0 ! c + load (virtio_vf_relays st) c"
    using cpu_workers_eq [OF assms, of "replicate MAX_CPUS 0"] by auto
  have eq: "ws ! c = load (virtio_vf_relays st) c" if "c < MAX_CPUS" for c using ws(2) that by simp
  let ?c = "snd (fold (pick_cpu st node ws) [0..<MAX_CPUS] (int (MAX_RELAYS st) * 100, -1))"
  have "first_least (eligible st node) ((!) ws) MAX_CPUS ?c" using pick_cpu_fold by blast
  then have "first_least (eligible st node) (load (virtio_vf_relays st)) MAX_CPUS ?c"
    using eq by (auto simp: first_least_def split: if_splits)
  then show ?thesis by (simp add: naive_get_idlest_worker_def ws(1))
qed

subsection \<open>The bitmap of a thread lists the relays it serves\<close>

lemma collect_relays_bits:
  assumes "collect_relays cpu w rs bm = Some bm'"
  shows "bit bm' i \<longleftrightarrow> bit bm i \<or> (w \<le> i \<and> i < w + length rs \<and> serves cpu (rs ! (i - w)))"
  using assms
proof (induction rs arbitrary: w bm)
  case Nil
  then show ?case by auto
next
  case (Cons r rs)
  have shift: "(w \<le> i \<and> i < w + length (r # rs) \<and> serves cpu ((r # rs) ! (i - w))) \<longleftrightarrow>
      (i = w \<and> serves cpu r) \<or> (Suc w \<le> i \<and> i < Suc w + length rs \<and> serves cpu (rs ! (i - Suc w)))"
    by (cases "i = w") (auto simp: nth_Cons' Suc_diff_Suc)
  show ?case
    using Cons.prems Cons.IH [of "Suc w"] unfolding shift by (auto simp: bitmap_simps split: if_splits)
qed

lemma collect_relays_total:
  "w + length rs \<le> 64 \<Longrightarrow> \<exists>bm'. collect_relays cpu w rs bm = Some bm'"
  by (induction rs arbitrary: w bm) auto

lemma update_thread_active:
  assumes "cpu < length (worker_threads st)" "MAX_RELAYS st \<le> 64"
  obtains st' where "update_thread cpu st = Some st'"
    "\<forall>w. bit (active_relays (worker_threads st' ! cpu)) w \<longleftrightarrow>
       w < MAX_RELAYS st \<and> serves (w_cpu (worker_threads st ! cpu)) (relay_of st w)"
    "\<not> need_update (worker_threads st' ! cpu)" "virtio_vf_relays st' = virtio_vf_relays st" "hist st' = hist st"
    "\<forall>c. c \<noteq> cpu \<longrightarrow> worker_threads st' ! c = worker_threads st ! c"
proof -
  obtain bm where bm: "collect_relays (w_cpu (worker_threads st ! cpu)) 0 (virtio_vf_relays st) 0 = Some bm"
    using collect_relays_total [of 0 "virtio_vf_relays st"] assms(2) by auto
  show ?thesis
    by (rule that [of "st\<lparr>worker_threads := (worker_threads st)[cpu :=
        (worker_threads st ! cpu)\<lparr>need_update := False, active_relays := bm\<rparr>]\<rparr>"])
      (use assms(1) collect_relays_bits [OF bm] in \<open>simp_all add: update_thread_def bm\<close>)
qed

lemma update_thread_frame:
  "update_thread cpu st = Some st' \<Longrightarrow> virtio_vf_relays st' = virtio_vf_relays st \<and> hist st' = hist st \<and>
     length (worker_threads st') = length (worker_threads st) \<and>
     (\<forall>c. w_cpu (worker_threads st' ! c) = w_cpu (worker_threads st ! c))"
  by (cases "cpu < length (worker_threads st)")
    (auto simp: update_thread_def Let_def bind_Some_iff nth_list_update list_update_beyond)

subsection \<open>Steps of a system and what they keep\<close>

text \<open>
  A transition system with an invariant and a reflexive, transitive relation between the
  states of a run that every step establishes.
\<close>

locale step_system =
  fixes step :: "'s \<Rightarrow> 's \<Rightarrow> bool"
    and inv :: "'s \<Rightarrow> bool"
    and rel :: "'s \<Rightarrow> 's \<Rightarrow> bool"
  assumes step_inv: "inv s \<Longrightarrow> step s s' \<Longrightarrow> inv s'"
    and step_rel: "inv s \<Longrightarrow> step s s' \<Longrightarrow> rel s s'"
    and rel_refl: "rel s s"
    and rel_trans: "rel s s' \<Longrightarrow> rel s' s'' \<Longrightarrow> rel s s''"
begin

lemma run_inv: "step\<^sup>*\<^sup>* s s' \<Longrightarrow> inv s \<Longrightarrow> inv s'"
  by (induction rule: rtranclp_induct) (auto intro: step_inv)

lemma run_rel: "step\<^sup>*\<^sup>* s s' \<Longrightarrow> inv s \<Longrightarrow> rel s s'"
proof (induction rule: rtranclp_induct)
  case base
  show ?case by (rule rel_refl)
next
  case (step y z)
  then show ?case using run_inv [of s y] by (blast intro: rel_trans step_rel)
qed

end

subsection \<open>Interleavings of the worker threads\<close>

definition all_held :: "gstate \<Rightarrow> mbuf list" where
  "all_held st = concat (map held (virtio_vf_relays st))"

definition relays_ok :: "gstate \<Rightarrow> bool" where
  "relays_ok st \<longleftrightarrow> (\<forall>r\<in>set (virtio_vf_relays st). stage_ok r)"

text \<open>Two states of a run: packets conserved, and per relay the same wiring and balance.\<close>

definition st_forwards :: "gstate \<Rightarrow> gstate \<Rightarrow> bool" where
  "st_forwards st st' \<longleftrightarrow>
     (\<exists>d. hist st' = hist st @ d \<and>
          ptrs (all_held st) + ptrs (received d) = ptrs (eth_sent d) + ptrs (freed d) + ptrs (all_held st')) \<and>
     list_all2 (\<lambda>r r'. wiring r' = wiring r \<and> balanced r r') (virtio_vf_relays st) (virtio_vf_relays st')"

lemma st_forwards_refl: "st_forwards st st"
  by (auto simp: st_forwards_def list.rel_refl intro: exI [of _ "[]"])

lemma st_forwards_trans:
  assumes "st_forwards st st'" "st_forwards st' st''"
  shows "st_forwards st st''"
proof -
  obtain d where d: "hist st' = hist st @ d"
    "ptrs (all_held st) + ptrs (received d) = ptrs (eth_sent d) + ptrs (freed d) + ptrs (all_held st')"
    using assms(1) by (auto simp: st_forwards_def)
  obtain d' where d': "hist st'' = hist st' @ d'"
    "ptrs (all_held st') + ptrs (received d') = ptrs (eth_sent d') + ptrs (freed d') + ptrs (all_held st'')"
    using assms(2) by (auto simp: st_forwards_def)
  have "ptrs (all_held st) + ptrs (received (d @ d')) =
      ptrs (eth_sent (d @ d')) + ptrs (freed (d @ d')) + ptrs (all_held st'')"
    using d(2) d'(2) by simp (metis (no_types, lifting) add.assoc add.commute)
  moreover have "list_all2 (\<lambda>r r'. wiring r' = wiring r \<and> balanced r r') (virtio_vf_relays st) (virtio_vf_relays st'')"
    using assms by (auto simp: st_forwards_def list_all2_conv_all_nth balanced_def)
  ultimately show ?thesis using d(1) d'(1) unfolding st_forwards_def
    by (intro conjI exI [of _ "d @ d'"]) simp_all
qed

lemma ptrs_all_held_update:
  "i < length rs \<Longrightarrow>
     ptrs (concat (map held (rs[i := r']))) + ptrs (held (rs ! i)) = ptrs (concat (map held rs)) + ptrs (held r')"
proof (induction rs arbitrary: i)
  case Nil
  then show ?case by simp
next
  case (Cons r rs)
  show ?case
  proof (cases i)
    case 0
    then show ?thesis by (simp add: ac_simps)
  next
    case (Suc k)
    then show ?thesis using Cons.IH [of k] Cons.prems by (simp add: add.assoc)
  qed
qed

lemma put_forwards:
  assumes "w < MAX_RELAYS st" "forwards (relay_of st w) (hist st) r' h'" "wiring r' = wiring (relay_of st w)"
    "relays_ok st"
  shows "st_forwards st ((put_relay w r' st)\<lparr>hist := h'\<rparr>)" "relays_ok ((put_relay w r' st)\<lparr>hist := h'\<rparr>)"
proof -
  let ?st' = "(put_relay w r' st)\<lparr>hist := h'\<rparr>"
  obtain d where d: "h' = hist st @ d"
    "ptrs (held (relay_of st w)) + ptrs (received d) = ptrs (eth_sent d) + ptrs (freed d) + ptrs (held r')"
    using assms(2) by (auto simp: forwards_def conserves_def)
  have "ptrs (all_held ?st') + ptrs (held (relay_of st w)) = ptrs (all_held st) + ptrs (held r')"
    using ptrs_all_held_update [OF assms(1)] by (simp add: all_held_def put_relay_def)
  then have "ptrs (held (relay_of st w)) + (ptrs (all_held st) + ptrs (received d)) =
      ptrs (held (relay_of st w)) + (ptrs (eth_sent d) + ptrs (freed d) + ptrs (all_held ?st'))"
    using d(2) by (metis (no_types, lifting) add.assoc add.commute)
  then have "ptrs (all_held st) + ptrs (received d) = ptrs (eth_sent d) + ptrs (freed d) + ptrs (all_held ?st')"
    by simp
  moreover have "list_all2 (\<lambda>r r'. wiring r' = wiring r \<and> balanced r r') (virtio_vf_relays st) (virtio_vf_relays ?st')"
    using assms(1-3) by (auto simp: list_all2_conv_all_nth put_relay_def nth_list_update forwards_def)
  ultimately show "st_forwards st ?st'" using d(1) by (auto simp: st_forwards_def put_relay_def)
  show "relays_ok ?st'"
    using assms(2,4) by (auto simp: relays_ok_def put_relay_def forwards_def
        dest!: set_update_subset_insert [THEN subsetD])
qed

text \<open>A locked round is a step of the data path of one relay.\<close>

lemma locked_vm2vf_forwards:
  assumes "burst_contract env" "relays_ok st" "w < MAX_RELAYS st" "locked_vm2vf env w st = Some (b, st')"
  shows "st_forwards st st' \<and> relays_ok st'"
proof (cases "vio_sl (vio (relay_of st w))")
  case True
  then show ?thesis
    using assms by (simp add: locked_vm2vf_def rte_spinlock_trylock_def st_forwards_refl)
next
  case False
  let ?r = "relay_of st w"
  let ?r1 = "?r\<lparr>vio := (vio ?r)\<lparr>vio_sl := True\<rparr>\<rparr>"
  have ok: "stage_ok ?r" using assms(2,3) by (simp add: relays_ok_def)
  obtain r2 h' where rd: "relay_vm2vf_traffic env ?r1 (hist st) = Some (b, r2, h')"
    and st': "st' = (put_relay w (r2\<lparr>vio := (vio r2)\<lparr>vio_sl := False\<rparr>\<rparr>) st)\<lparr>hist := h'\<rparr>"
    using assms(4) False by (auto simp: locked_vm2vf_def rte_spinlock_trylock_def Let_def bind_Some_iff)
  have f1: "forwards ?r (hist st) ?r1 (hist st)" by (rule forwards_lockstate(1) [OF ok])
  have f2: "forwards ?r1 (hist st) r2 h'"
    by (rule relay_vm2vf_traffic_forwards [OF assms(1) forwards_stage_ok [OF f1] rd])
  have f3: "forwards r2 h' (r2\<lparr>vio := (vio r2)\<lparr>vio_sl := False\<rparr>\<rparr>) h'"
    by (rule forwards_lockstate(1) [OF forwards_stage_ok [OF f2]])
  have f: "forwards ?r (hist st) (r2\<lparr>vio := (vio r2)\<lparr>vio_sl := False\<rparr>\<rparr>) h'"
    using f1 f2 f3 by (blast intro: forwards_trans)
  have "wiring (r2\<lparr>vio := (vio r2)\<lparr>vio_sl := False\<rparr>\<rparr>) = wiring r2" "wiring ?r1 = wiring ?r"
    by (simp_all add: wiring_def)
  then have "wiring (r2\<lparr>vio := (vio r2)\<lparr>vio_sl := False\<rparr>\<rparr>) = wiring ?r"
    using relay_vm2vf_traffic_state(3) [OF rd] by simp
  then show ?thesis unfolding st' using put_forwards [OF assms(3) f _ assms(2)] by blast
qed

lemma locked_vf2vm_forwards:
  assumes "burst_contract env" "relays_ok st" "w < MAX_RELAYS st" "locked_vf2vm env w st = Some (b, st')"
  shows "st_forwards st st' \<and> relays_ok st'"
proof (cases "dpdk_sl (dpdk (relay_of st w))")
  case True
  then show ?thesis
    using assms by (simp add: locked_vf2vm_def rte_spinlock_trylock_def st_forwards_refl)
next
  case False
  let ?r = "relay_of st w"
  let ?r1 = "?r\<lparr>dpdk := (dpdk ?r)\<lparr>dpdk_sl := True\<rparr>\<rparr>"
  have ok: "stage_ok ?r" using assms(2,3) by (simp add: relays_ok_def)
  obtain r2 h' where rd: "relay_vf2vm_traffic env ?r1 (hist st) = Some (b, r2, h')"
    and st': "st' = (put_relay w (r2\<lparr>dpdk := (dpdk r2)\<lparr>dpdk_sl := False\<rparr>\<rparr>) st)\<lparr>hist := h'\<rparr>"
    using assms(4) False by (auto simp: locked_vf2vm_def rte_spinlock_trylock_def Let_def bind_Some_iff)
  have f1: "forwards ?r (hist st) ?r1 (hist st)" by (rule forwards_lockstate(4) [OF ok])
  have f2: "forwards ?r1 (hist st) r2 h'"
    by (rule relay_vf2vm_traffic_forwards [OF assms(1) forwards_stage_ok [OF f1] rd])
  have f3: "forwards r2 h' (r2\<lparr>dpdk := (dpdk r2)\<lparr>dpdk_sl := False\<rparr>\<rparr>) h'"
    by (rule forwards_lockstate(4) [OF forwards_stage_ok [OF f2]])
  have f: "forwards ?r (hist st) (r2\<lparr>dpdk := (dpdk r2)\<lparr>dpdk_sl := False\<rparr>\<rparr>) h'"
    using f1 f2 f3 by (blast intro: forwards_trans)
  have "wiring (r2\<lparr>dpdk := (dpdk r2)\<lparr>dpdk_sl := False\<rparr>\<rparr>) = wiring r2" "wiring ?r1 = wiring ?r"
    by (simp_all add: wiring_def)
  then have "wiring (r2\<lparr>dpdk := (dpdk r2)\<lparr>dpdk_sl := False\<rparr>\<rparr>) = wiring ?r"
    using relay_vf2vm_traffic_state(3) [OF rd] by simp
  then show ?thesis unfolding st' using put_forwards [OF assms(3) f _ assms(2)] by blast
qed

lemma st_forwards_length: "st_forwards st st' \<Longrightarrow> MAX_RELAYS st' = MAX_RELAYS st"
  by (auto simp: st_forwards_def list_all2_conv_all_nth)

text \<open>The two directions of a serviced relay.\<close>

lemma service_relayE:
  assumes "service_relay env cpu w (p, st) = Some (p', st'')"
  obtains b1 st' b2 where "w < MAX_RELAYS st"
    "(if vio2vf_cpu (vio (relay_of st w)) = cpu then locked_vm2vf env w st else Some (0, st)) = Some (b1, st')"
    "(if vf2vio_cpu (dpdk (relay_of st' w)) = cpu then locked_vf2vm env w st' else Some (0, st')) = Some (b2, st'')"
proof -
  have w: "w < MAX_RELAYS st" using assms by (auto simp: service_relay_def split: if_splits)
  have nle: "(MAX_RELAYS st \<le> w) = False" using w by simp
  note eq = assms [unfolded service_relay_def prod.case nle if_False]
  obtain b1 st' where 1:
    "(if vio2vf_cpu (vio (relay_of st w)) = cpu then locked_vm2vf env w st else Some (0, st)) = Some (b1, st')"
    using eq unfolding bind_Some_iff [of "if _ then locked_vm2vf env w st else _"] by (metis surj_pair)
  obtain b2 where
    "(if vf2vio_cpu (dpdk (relay_of st' w)) = cpu then locked_vf2vm env w st' else Some (0, st')) = Some (b2, st'')"
    using eq unfolding 1 Option.bind.bind_lunit prod.case bind_Some_iff by (auto split del: if_split)
  then show ?thesis using that w 1 by blast
qed

lemma service_relay_forwards:
  assumes "burst_contract env" "relays_ok st" "service_relay env cpu w (p, st) = Some (p', st'')"
  shows "st_forwards st st'' \<and> relays_ok st''"
  using assms(3)
proof (rule service_relayE)
  fix b1 st' b2
  assume w: "w < MAX_RELAYS st"
    and 1: "(if vio2vf_cpu (vio (relay_of st w)) = cpu then locked_vm2vf env w st else Some (0, st)) = Some (b1, st')"
    and 2: "(if vf2vio_cpu (dpdk (relay_of st' w)) = cpu then locked_vf2vm env w st' else Some (0, st')) = Some (b2, st'')"
  have f1: "st_forwards st st'" "relays_ok st'"
    using 1 locked_vm2vf_forwards [OF assms(1,2) w] assms(2) by (auto simp: st_forwards_refl split: if_splits)
  have w': "w < MAX_RELAYS st'" using w st_forwards_length [OF f1(1)] by simp
  have "st_forwards st' st''" "relays_ok st''"
    using 2 locked_vf2vm_forwards [OF assms(1) f1(2) w'] f1(2) by (auto simp: st_forwards_refl split: if_splits)
  then show ?thesis using f1 by (blast intro: st_forwards_trans)
qed

lemma service_relays_forwards:
  assumes "burst_contract env" "relays_ok st" "service_relays env cpu ws (p, st) = Some (p', st')"
  shows "st_forwards st st' \<and> relays_ok st'"
  using assms(2,3)
proof (induction ws arbitrary: p st)
  case Nil
  then show ?case by (simp add: st_forwards_refl)
next
  case (Cons w ws)
  obtain p1 st1 where 1: "service_relay env cpu w (p, st) = Some (p1, st1)"
    "service_relays env cpu ws (p1, st1) = Some (p', st')"
    using Cons.prems(2) by (auto simp: bind_Some_iff)
  show ?case
    using service_relay_forwards [OF assms(1) Cons.prems(1) 1(1)] Cons.IH [OF _ 1(2)]
    by (blast intro: st_forwards_trans)
qed

lemma same_relays_forwards:
  assumes "virtio_vf_relays st' = virtio_vf_relays st" "hist st' = hist st"
  shows "st_forwards st st'" "relays_ok st' = relays_ok st"
  using st_forwards_refl [of st] assms by (simp_all add: st_forwards_def all_held_def relays_ok_def)

lemma worker_iteration_forwards:
  assumes "burst_contract env" "relays_ok st" "worker_iteration env cpu st = Some (p, st')"
  shows "st_forwards st st' \<and> relays_ok st'"
proof -
  obtain st1 where 1: "(if need_update (worker_threads st ! cpu) then update_thread cpu st else Some st) = Some st1"
    and 2: "service_relays env (w_cpu (worker_threads st ! cpu))
      (scan_bits (active_relays (worker_threads st ! cpu))) (False, st1) = Some (p, st')"
    using assms(3) by (auto simp: worker_iteration_def Let_def bind_Some_iff)
  have "virtio_vf_relays st1 = virtio_vf_relays st \<and> hist st1 = hist st"
    using 1 update_thread_frame by (auto split: if_splits)
  then have "st_forwards st st1" "relays_ok st1"
    using same_relays_forwards [of st1 st] assms(2) by auto
  then show ?thesis
    using service_relays_forwards [OF assms(1) _ 2] by (blast intro: st_forwards_trans)
qed

interpretation workers: step_system "worker_step env" "\<lambda>st. burst_contract env \<and> relays_ok st" st_forwards for env
proof
  fix st st' :: gstate
  assume inv: "burst_contract env \<and> relays_ok st" and step: "worker_step env st st'"
  have "st_forwards st st' \<and> relays_ok st'"
    using step
  proof (cases rule: worker_step.cases)
    case (Iterate cpu processed)
    then show ?thesis using inv worker_iteration_forwards by blast
  next
    case (Stop cpu)
    then show ?thesis using inv same_relays_forwards [of st' st] by (simp add: worker_end_def)
  qed
  then show "burst_contract env \<and> relays_ok st'" "st_forwards st st'" using inv by blast+
qed (blast intro: st_forwards_refl st_forwards_trans)+

subsection \<open>Removal of a device by its two workers\<close>

text \<open>The round that completes a removal leaves both staging arrays empty.\<close>

lemma vf2vm_round_removes:
  assumes "relay_vf2vm_traffic env r h = Some (b, r', h')" "vio_state (vio r) = VIRTIO_REMOVING2"
  shows "tx_pkts_avail (vio r') = 0 \<and> rx_pkts_avail (dpdk r') = 0"
  using assms(1)
proof (rule vf2vm_roundE)
  fix n1 r1 h1 n2 r2 h2 r3 h3 r4
  assume 1: "(if rx_pkts_avail (dpdk r) = 0 then dpdk_rx env r h else Some (0, r, h)) = Some (n1, r1, h1)"
    and 2: "(if rx_pkts_avail (dpdk r1) \<noteq> 0 then virtio_tx env r1 h1 else Some (0, r1, h1)) = Some (n2, r2, h2)"
    and 3: "(if n2 = -1 \<and> rx_pkts_avail (dpdk r2) \<noteq> 0 then drop_dpdk_held r2 h2 else (r2, h2)) = (r3, h3)"
    and 4: "(if vio_state (vio r3) = VIRTIO_REMOVING2 then worker_remove_virtio r3 h3 else (r3, h3)) = (r4, h')"
    and 5: "r' = vf2vm_handshake r4"
  have "steady r r1" using 1 dpdk_rx_steady by (auto split: if_splits)
  moreover have "steady r1 r2" using 2 virtio_tx_steady by (auto split: if_splits)
  moreover have "steady r2 r3" using 3 drop_held_steady(2) [of r2 h2] by (auto split: if_splits)
  ultimately have "vio_state (vio r3) = VIRTIO_REMOVING2" using assms(2) by (simp add: steady_def)
  then have "worker_remove_virtio r3 h3 = (r4, h')" using 4 by simp
  then show ?thesis using worker_remove_virtio_state(4,5) by (simp add: 5 vf2vm_handshake_def)
qed

lemma vm2vf_round_removes:
  assumes "relay_vm2vf_traffic env r h = Some (b, r', h')" "dpdk_state (dpdk r) = DPDK_REMOVING2"
  shows "tx_pkts_avail (vio r') = 0 \<and> rx_pkts_avail (dpdk r') = 0"
  using assms(1)
proof (rule vm2vf_roundE)
  fix n1 r1 h1 n2 r2 h2 r3 h3
  assume 1: "(if tx_pkts_avail (vio r) = 0 then virtio_rx env r h else Some (0, r, h)) = Some (n1, r1, h1)"
    and 2: "(if tx_pkts_avail (vio r1) \<noteq> 0 then dpdk_tx env r1 h1 else Some (0, r1, h1)) = Some (n2, r2, h2)"
    and 3: "(if n2 = -1 \<and> tx_pkts_avail (vio r2) \<noteq> 0 then drop_vio_held r2 h2 else (r2, h2)) = (r3, h3)"
    and 5: "(if dpdk_state (dpdk (vm2vf_handshake r3)) = DPDK_REMOVING2
      then worker_remove_vf (vm2vf_handshake r3) h3 else (vm2vf_handshake r3, h3)) = (r', h')"
  have "steady r r1" using 1 virtio_rx_steady by (auto split: if_splits)
  moreover have "steady r1 r2" using 2 dpdk_tx_steady by (auto split: if_splits)
  moreover have "steady r2 r3" using 3 drop_held_steady(1) [of r2 h2] by (auto split: if_splits)
  ultimately have "dpdk_state (dpdk r3) = DPDK_REMOVING2" using assms(2) by (simp add: steady_def)
  then have "worker_remove_vf (vm2vf_handshake r3) h3 = (r', h')" using 5 by (simp add: handshake_state)
  then show ?thesis using worker_remove_vf_state(4,5) by blast
qed

text \<open>What a locked round does to its relay and leaves alone elsewhere.\<close>

lemma put_relay_frame [simp]:
  "worker_threads (put_relay w r st) = worker_threads st" "hist (put_relay w r st) = hist st"
  "MAX_RELAYS (put_relay w r st) = MAX_RELAYS st"
  "w' \<noteq> w \<Longrightarrow> relay_of (put_relay w r st) w' = relay_of st w'"
  "w < MAX_RELAYS st \<Longrightarrow> relay_of (put_relay w r st) w = r"
  by (simp_all add: put_relay_def)

lemma locked_frame:
  "locked_vm2vf env w st = Some (b, st') \<Longrightarrow>
     worker_threads st' = worker_threads st \<and> MAX_RELAYS st' = MAX_RELAYS st \<and>
     (\<forall>w'. w' \<noteq> w \<longrightarrow> relay_of st' w' = relay_of st w')"
  "locked_vf2vm env w st = Some (b, st') \<Longrightarrow>
     worker_threads st' = worker_threads st \<and> MAX_RELAYS st' = MAX_RELAYS st \<and>
     (\<forall>w'. w' \<noteq> w \<longrightarrow> relay_of st' w' = relay_of st w')"
  by (auto simp: locked_vm2vf_def locked_vf2vm_def rte_spinlock_trylock_def Let_def bind_Some_iff split: if_splits)

lemma locked_vm2vf_relay:
  assumes "locked_vm2vf env w st = Some (b, st')" "w < MAX_RELAYS st" "\<not> vio_sl (vio (relay_of st w))"
  obtains r h where
    "relay_vm2vf_traffic env ((relay_of st w)\<lparr>vio := (vio (relay_of st w))\<lparr>vio_sl := True\<rparr>\<rparr>) (hist st) = Some (b, r, h)"
    "relay_of st' w = r\<lparr>vio := (vio r)\<lparr>vio_sl := False\<rparr>\<rparr>"
  using assms by (auto simp: locked_vm2vf_def rte_spinlock_trylock_def Let_def bind_Some_iff put_relay_def)

lemma locked_vf2vm_relay:
  assumes "locked_vf2vm env w st = Some (b, st')" "w < MAX_RELAYS st" "\<not> dpdk_sl (dpdk (relay_of st w))"
  obtains r h where
    "relay_vf2vm_traffic env ((relay_of st w)\<lparr>dpdk := (dpdk (relay_of st w))\<lparr>dpdk_sl := True\<rparr>\<rparr>) (hist st) = Some (b, r, h)"
    "relay_of st' w = r\<lparr>dpdk := (dpdk r)\<lparr>dpdk_sl := False\<rparr>\<rparr>"
  using assms by (auto simp: locked_vf2vm_def rte_spinlock_trylock_def Let_def bind_Some_iff put_relay_def)

lemma service_relay_frame:
  assumes "service_relay env cpu w (p, st) = Some (p', st')"
  shows "worker_threads st' = worker_threads st \<and> MAX_RELAYS st' = MAX_RELAYS st \<and>
    (\<forall>w'. w' \<noteq> w \<longrightarrow> relay_of st' w' = relay_of st w')"
  using assms
  by (rule service_relayE) (auto dest!: locked_frame split: if_splits)

text \<open>Relay \<open>w\<close> is serviced once by an iteration of a thread that has it in its bitmap.\<close>

lemma service_relays_frame:
  assumes "service_relays env cpu ws (p, st) = Some (p', st')"
  shows "worker_threads st' = worker_threads st \<and> MAX_RELAYS st' = MAX_RELAYS st \<and>
    (\<forall>w. w \<notin> set ws \<longrightarrow> relay_of st' w = relay_of st w)"
  using assms
proof (induction ws arbitrary: p st)
  case Nil
  then show ?case by simp
next
  case (Cons w ws)
  obtain p1 st1 where 1: "service_relay env cpu w (p, st) = Some (p1, st1)"
    "service_relays env cpu ws (p1, st1) = Some (p', st')"
    using Cons.prems by (auto simp: bind_Some_iff)
  show ?case using service_relay_frame [OF 1(1)] Cons.IH [OF 1(2)] by simp
qed

lemma service_relays_once:
  assumes "service_relays env cpu ws (p, st) = Some (p', st')" "w \<in> set ws" "distinct ws"
  shows "\<exists>p1 st1 p2 st2. service_relay env cpu w (p1, st1) = Some (p2, st2) \<and>
    relay_of st1 w = relay_of st w \<and> relay_of st' w = relay_of st2 w \<and> MAX_RELAYS st1 = MAX_RELAYS st"
  using assms
proof (induction ws arbitrary: p st)
  case Nil
  then show ?case by simp
next
  case (Cons v ws)
  obtain p1 st1 where 1: "service_relay env cpu v (p, st) = Some (p1, st1)"
    "service_relays env cpu ws (p1, st1) = Some (p', st')"
    using Cons.prems(1) by (auto simp: bind_Some_iff)
  show ?case
  proof (cases "v = w")
    case True
    then show ?thesis using 1 service_relays_frame [OF 1(2)] Cons.prems(3) by fastforce
  next
    case False
    then show ?thesis
      using Cons.IH [OF 1(2)] Cons.prems service_relay_frame [OF 1(1)] by fastforce
  qed
qed

lemma worker_iteration_once:
  assumes "worker_iteration env cpu st = Some (p, st')" "bit (active_relays (worker_threads st ! cpu)) w"
  shows "\<exists>p1 st1 p2 st2. service_relay env (w_cpu (worker_threads st ! cpu)) w (p1, st1) = Some (p2, st2) \<and>
    relay_of st1 w = relay_of st w \<and> relay_of st' w = relay_of st2 w \<and> MAX_RELAYS st1 = MAX_RELAYS st"
proof -
  obtain st1 where 1: "(if need_update (worker_threads st ! cpu) then update_thread cpu st else Some st) = Some st1"
    and 2: "service_relays env (w_cpu (worker_threads st ! cpu))
      (scan_bits (active_relays (worker_threads st ! cpu))) (False, st1) = Some (p, st')"
    using assms(1) by (auto simp: worker_iteration_def Let_def bind_Some_iff)
  have "virtio_vf_relays st1 = virtio_vf_relays st"
    using 1 update_thread_frame by (auto split: if_splits)
  then show ?thesis
    using service_relays_once [OF 2, of w] assms(2) by (simp add: scan_bits_eq)
qed

lemma worker_iteration_threads:
  assumes "worker_iteration env cpu st = Some (p, st')" "c \<noteq> cpu"
  shows "worker_threads st' ! c = worker_threads st ! c"
  using assms
  by (auto simp: worker_iteration_def update_thread_def Let_def bind_Some_iff
      dest!: service_relays_frame split: if_splits)

text \<open>A thread that has one direction of the relay runs one round of it, under the lock.\<close>

lemma service_vm2vf_only:
  assumes "service_relay env cpu w (p, st) = Some (p', st')" "\<not> vio_sl (vio (relay_of st w))"
    "vio2vf_cpu (vio (relay_of st w)) = cpu" "vf2vio_cpu (dpdk (relay_of st w)) \<noteq> cpu"
  obtains b r h where
    "relay_vm2vf_traffic env ((relay_of st w)\<lparr>vio := (vio (relay_of st w))\<lparr>vio_sl := True\<rparr>\<rparr>) (hist st) = Some (b, r, h)"
    "relay_of st' w = r\<lparr>vio := (vio r)\<lparr>vio_sl := False\<rparr>\<rparr>"
  using assms(1)
proof (rule service_relayE)
  fix b1 st1 b2
  assume w: "w < MAX_RELAYS st"
    and 1: "(if vio2vf_cpu (vio (relay_of st w)) = cpu then locked_vm2vf env w st else Some (0, st)) = Some (b1, st1)"
    and 2: "(if vf2vio_cpu (dpdk (relay_of st1 w)) = cpu then locked_vf2vm env w st1 else Some (0, st1)) = Some (b2, st')"
  have l: "locked_vm2vf env w st = Some (b1, st1)" using 1 assms(3) by simp
  show ?thesis
  proof (rule locked_vm2vf_relay [OF l w assms(2)])
    fix r h
    assume rd: "relay_vm2vf_traffic env ((relay_of st w)\<lparr>vio := (vio (relay_of st w))\<lparr>vio_sl := True\<rparr>\<rparr>) (hist st) = Some (b1, r, h)"
      and r: "relay_of st1 w = r\<lparr>vio := (vio r)\<lparr>vio_sl := False\<rparr>\<rparr>"
    have "vf2vio_cpu (dpdk (relay_of st1 w)) = vf2vio_cpu (dpdk (relay_of st w))"
      using wiringD(3) [OF relay_vm2vf_traffic_state(3) [OF rd]] r by simp
    then have "st' = st1" using 2 assms(4) by simp
    then show ?thesis using that rd r by simp
  qed
qed

lemma service_vf2vm_only:
  assumes "service_relay env cpu w (p, st) = Some (p', st')" "\<not> dpdk_sl (dpdk (relay_of st w))"
    "vio2vf_cpu (vio (relay_of st w)) \<noteq> cpu" "vf2vio_cpu (dpdk (relay_of st w)) = cpu"
  obtains b r h where
    "relay_vf2vm_traffic env ((relay_of st w)\<lparr>dpdk := (dpdk (relay_of st w))\<lparr>dpdk_sl := True\<rparr>\<rparr>) (hist st) = Some (b, r, h)"
    "relay_of st' w = r\<lparr>dpdk := (dpdk r)\<lparr>dpdk_sl := False\<rparr>\<rparr>"
  using assms(1)
proof (rule service_relayE)
  fix b1 st1 b2
  assume w: "w < MAX_RELAYS st"
    and 1: "(if vio2vf_cpu (vio (relay_of st w)) = cpu then locked_vm2vf env w st else Some (0, st)) = Some (b1, st1)"
    and 2: "(if vf2vio_cpu (dpdk (relay_of st1 w)) = cpu then locked_vf2vm env w st1 else Some (0, st1)) = Some (b2, st')"
  have "st1 = st" using 1 assms(3) by simp
  then have l: "locked_vf2vm env w st = Some (b2, st')" using 2 assms(4) by simp
  show ?thesis by (rule locked_vf2vm_relay [OF l w assms(2)]) (rule that)
qed

text \<open>Each thread of the pair, as an effect of an iteration on relay \<open>w\<close>.\<close>

lemma iteration_vm2vf:
  assumes "worker_iteration env c st = Some (p, st')" "bit (active_relays (worker_threads st ! c)) w"
    "\<not> vio_sl (vio (relay_of st w))" "vio2vf_cpu (vio (relay_of st w)) = w_cpu (worker_threads st ! c)"
    "vf2vio_cpu (dpdk (relay_of st w)) \<noteq> w_cpu (worker_threads st ! c)"
  obtains b r h h' where
    "relay_vm2vf_traffic env ((relay_of st w)\<lparr>vio := (vio (relay_of st w))\<lparr>vio_sl := True\<rparr>\<rparr>) h = Some (b, r, h')"
    "relay_of st' w = r\<lparr>vio := (vio r)\<lparr>vio_sl := False\<rparr>\<rparr>"
proof -
  obtain p1 st1 p2 st2 where s: "service_relay env (w_cpu (worker_threads st ! c)) w (p1, st1) = Some (p2, st2)"
    "relay_of st1 w = relay_of st w" "relay_of st' w = relay_of st2 w"
    using worker_iteration_once [OF assms(1,2)] by blast
  show ?thesis
    by (rule service_vm2vf_only [OF s(1)]) (use assms s(2,3) that in auto)
qed

lemma iteration_vf2vm:
  assumes "worker_iteration env c st = Some (p, st')" "bit (active_relays (worker_threads st ! c)) w"
    "\<not> dpdk_sl (dpdk (relay_of st w))" "vio2vf_cpu (vio (relay_of st w)) \<noteq> w_cpu (worker_threads st ! c)"
    "vf2vio_cpu (dpdk (relay_of st w)) = w_cpu (worker_threads st ! c)"
  obtains b r h h' where
    "relay_vf2vm_traffic env ((relay_of st w)\<lparr>dpdk := (dpdk (relay_of st w))\<lparr>dpdk_sl := True\<rparr>\<rparr>) h = Some (b, r, h')"
    "relay_of st' w = r\<lparr>dpdk := (dpdk r)\<lparr>dpdk_sl := False\<rparr>\<rparr>"
proof -
  obtain p1 st1 p2 st2 where s: "service_relay env (w_cpu (worker_threads st ! c)) w (p1, st1) = Some (p2, st2)"
    "relay_of st1 w = relay_of st w" "relay_of st' w = relay_of st2 w"
    using worker_iteration_once [OF assms(1,2)] by blast
  show ?thesis
    by (rule service_vf2vm_only [OF s(1)]) (use assms s(2,3) that in auto)
qed

text \<open>The two threads a relay is assigned to, each with the relay in its bitmap, locks free.\<close>

definition assigned :: "gstate \<Rightarrow> nat \<Rightarrow> nat \<Rightarrow> nat \<Rightarrow> bool" where
  "assigned st w c1 c2 \<longleftrightarrow>
     c1 \<noteq> c2 \<and> vio2vf_cpu (vio (relay_of st w)) = w_cpu (worker_threads st ! c1) \<and>
     vf2vio_cpu (dpdk (relay_of st w)) = w_cpu (worker_threads st ! c2) \<and>
     w_cpu (worker_threads st ! c1) \<noteq> w_cpu (worker_threads st ! c2) \<and>
     w_cpu (worker_threads st ! c1) \<noteq> -1 \<and> w_cpu (worker_threads st ! c2) \<noteq> -1 \<and>
     bit_test (active_relays (worker_threads st ! c1)) w \<and> bit_test (active_relays (worker_threads st ! c2)) w \<and>
     \<not> vio_sl (vio (relay_of st w)) \<and> \<not> dpdk_sl (dpdk (relay_of st w))"

lemma virtio_removal:
  assumes a: "assigned st w c1 c2" and st: "vio_state (vio (relay_of st w)) = VIRTIO_REMOVING1"
    and i1: "worker_iteration env c1 st = Some (p1, st1)" and i2: "worker_iteration env c2 st1 = Some (p2, st2)"
  shows "vio_state (vio (relay_of st2 w)) = VIRTIO_UNINIT \<and>
    tx_pkts_avail (vio (relay_of st2 w)) = 0 \<and> rx_pkts_avail (dpdk (relay_of st2 w)) = 0"
proof -
  note a = a [unfolded assigned_def bit_test_eq]
  obtain b r h h' where 1:
    "relay_vm2vf_traffic env ((relay_of st w)\<lparr>vio := (vio (relay_of st w))\<lparr>vio_sl := True\<rparr>\<rparr>) h = Some (b, r, h')"
    "relay_of st1 w = r\<lparr>vio := (vio r)\<lparr>vio_sl := False\<rparr>\<rparr>"
    using iteration_vm2vf [OF i1] a by metis
  note s1 = relay_vm2vf_traffic_state [OF 1(1)]
  have t2: "worker_threads st1 ! c2 = worker_threads st ! c2" using worker_iteration_threads [OF i1] a by metis
  have r1: "vio_state (vio (relay_of st1 w)) = VIRTIO_REMOVING2"
    "vio2vf_cpu (vio (relay_of st1 w)) = vio2vf_cpu (vio (relay_of st w))"
    "vf2vio_cpu (dpdk (relay_of st1 w)) = vf2vio_cpu (dpdk (relay_of st w))"
    "\<not> dpdk_sl (dpdk (relay_of st1 w))"
    using s1 wiringD(2,3) [OF s1(3)] st a by (simp_all add: 1(2))
  obtain b' r' h2 h2' where 2:
    "relay_vf2vm_traffic env ((relay_of st1 w)\<lparr>dpdk := (dpdk (relay_of st1 w))\<lparr>dpdk_sl := True\<rparr>\<rparr>) h2 = Some (b', r', h2')"
    "relay_of st2 w = r'\<lparr>dpdk := (dpdk r')\<lparr>dpdk_sl := False\<rparr>\<rparr>"
    using iteration_vf2vm [OF i2, of w] a r1 t2 by metis
  show ?thesis
    using relay_vf2vm_traffic_state(1) [OF 2(1)] vf2vm_round_removes [OF 2(1)] r1(1) by (simp add: 2(2))
qed

lemma vf_removal:
  assumes a: "assigned st w c1 c2" and st: "dpdk_state (dpdk (relay_of st w)) = DPDK_REMOVING1"
    and i1: "worker_iteration env c2 st = Some (p1, st1)" and i2: "worker_iteration env c1 st1 = Some (p2, st2)"
  shows "dpdk_state (dpdk (relay_of st2 w)) = DPDK_UNINIT \<and>
    tx_pkts_avail (vio (relay_of st2 w)) = 0 \<and> rx_pkts_avail (dpdk (relay_of st2 w)) = 0"
proof -
  note a = a [unfolded assigned_def bit_test_eq]
  obtain b r h h' where 1:
    "relay_vf2vm_traffic env ((relay_of st w)\<lparr>dpdk := (dpdk (relay_of st w))\<lparr>dpdk_sl := True\<rparr>\<rparr>) h = Some (b, r, h')"
    "relay_of st1 w = r\<lparr>dpdk := (dpdk r)\<lparr>dpdk_sl := False\<rparr>\<rparr>"
    using iteration_vf2vm [OF i1] a by metis
  note s1 = relay_vf2vm_traffic_state [OF 1(1)]
  have t2: "worker_threads st1 ! c1 = worker_threads st ! c1" using worker_iteration_threads [OF i1] a by metis
  have r1: "dpdk_state (dpdk (relay_of st1 w)) = DPDK_REMOVING2"
    "vio2vf_cpu (vio (relay_of st1 w)) = vio2vf_cpu (vio (relay_of st w))"
    "vf2vio_cpu (dpdk (relay_of st1 w)) = vf2vio_cpu (dpdk (relay_of st w))"
    "\<not> vio_sl (vio (relay_of st1 w))"
    using s1 wiringD(2,3) [OF s1(3)] st a by (simp_all add: 1(2))
  obtain b' r' h2 h2' where 2:
    "relay_vm2vf_traffic env ((relay_of st1 w)\<lparr>vio := (vio (relay_of st1 w))\<lparr>vio_sl := True\<rparr>\<rparr>) h2 = Some (b', r', h2')"
    "relay_of st2 w = r'\<lparr>vio := (vio r')\<lparr>vio_sl := False\<rparr>\<rparr>"
    using iteration_vm2vf [OF i2, of w] a r1 t2 by metis
  show ?thesis
    using relay_vm2vf_traffic_state(2) [OF 2(1)] vm2vf_round_removes [OF 2(1)] r1(1) by (simp add: 2(2))
qed

subsection \<open>A concrete machine\<close>

definition demo_thread :: "nat \<Rightarrow> worker_thread" where
  "demo_thread c = \<lparr>w_cpu = int c, initialized = (0 < c), running = (c = 1 \<or> c = 2), must_stop = False,
     need_update = False, active_relays = (if c = 1 \<or> c = 2 then 1 else 0)\<rparr>"

definition demo_conf :: virtio_vhostuser_conf where
  "demo_conf = \<lparr>conf_worker_core_bitmap = 6, socket_path = ''/tmp/vf'', socket_name = ''virtio-forwarder%u.sock'',
     vhost_username = [], vhost_groupname = [],
     conf_relay_cpus = [\<lparr>conf_vf2vio_cpu = -1, conf_vio2vf_cpu = -1\<rparr>], static_relays = [], conf_use_jumbo = False,
     use_rx_mrgbuf = False, vhost_client = False, zerocopy = False, enable_tso = False\<rparr>"

definition demo_prev :: relay_prev_counters where
  "demo_prev = \<lparr>prev_virtio_rx = 0, prev_virtio_rx_bytes = 0, prev_dpdk_tx = 0, prev_dpdk_tx_bytes = 0,
     prev_dpdk_rx = 0, prev_dpdk_rx_bytes = 0, prev_virtio_tx = 0, prev_virtio_tx_bytes = 0, time_prev = 0\<rparr>"

definition demo_cpuinfo :: cpuinfo_t where
  "demo_cpuinfo = \<lparr>numcpus = 64, numsockets = 1, numnodes = 1, cpubitmap = -1,
     cpus = map (\<lambda>c. \<lparr>cpunum = c, corenum = c, socket = 0, alive = 1, numanode = 0\<rparr>) [0..<64]\<rparr>"

definition demo_threads :: "worker_thread list" where
  "demo_threads = map demo_thread [0..<64]"

lemma demo_threads_length [simp]: "length demo_threads = 64"
  by (simp add: demo_threads_def)

text \<open>One relay; CPUs 1 and 2 run workers, the other CPUs are not in the worker bitmap.\<close>

definition demo_state :: "relay \<Rightarrow> gstate" where
  "demo_state r = \<lparr>worker_threads = demo_threads, worker_core_bitmap = 6, virtio_vf_relays = [r],
     relay_prev_counters = [demo_prev], g_conf = demo_conf, cpuinfo = demo_cpuinfo, relay_ifname_map = [None],
     vhost_socket_name_prefix = ''/tmp/vf/virtio-forwarder'', vhost_socket_name_suffix = ''.sock'',
     mk_default_sockets = False, hist = []\<rparr>"

lemma demo_state_sel [simp]:
  "virtio_vf_relays (demo_state r) = [r]" "hist (demo_state r) = []" "worker_core_bitmap (demo_state r) = 6"
  "worker_threads (demo_state r) = demo_threads"
  by (simp_all add: demo_state_def)

lemma demo_thread_nth: "c < 64 \<Longrightarrow> demo_threads ! c = demo_thread c"
  by (simp add: demo_threads_def del: upt_rec_numeral)

lemma demo_relays_ok: "relays_ok (demo_state (demo_relay 3 2 [demo_pkt 9 1]))"
  using demo_stage_ok [of "[demo_pkt 9 1]" 3 2] by (simp add: relays_ok_def)

abbreviation demo_at :: "relay \<Rightarrow> hist \<Rightarrow> gstate" where
  "demo_at r h \<equiv> (demo_state r)\<lparr>hist := h\<rparr>"

lemma demo_scan: "scan_bits (1 :: 64 word) = [0]"
  by (simp add: scan_bits_eq demo_bits)

lemma demo_put: "put_relay 0 r' (demo_state r) = demo_state r'"
  "(put_relay 0 r' (demo_at r h))\<lparr>hist := h'\<rparr> = demo_at r' h'"
  by (simp_all add: put_relay_def demo_state_def)

text \<open>Iterations of the two workers of the machine, on a relay with CPUs 1 and 2 and free locks.\<close>

lemma demo_iteration1:
  assumes "relay_vm2vf_traffic demo_env (r\<lparr>vio := (vio r)\<lparr>vio_sl := True\<rparr>\<rparr>) h = Some (b, r', h')"
    "\<not> vio_sl (vio r)" "vio2vf_cpu (vio r) = 1" "vf2vio_cpu (dpdk r) = 2"
  shows "worker_iteration demo_env 1 (demo_at r h) = Some (b \<noteq> 0, demo_at (r'\<lparr>vio := (vio r')\<lparr>vio_sl := False\<rparr>\<rparr>) h')"
proof -
  have "vf2vio_cpu (dpdk r') = 2"
    using wiringD(3) [OF relay_vm2vf_traffic_state(3) [OF assms(1)]] assms(4) by simp
  then show ?thesis
    using assms
    by (simp add: worker_iteration_def demo_thread_nth demo_thread_def demo_scan service_relay_def
        locked_vm2vf_def rte_spinlock_trylock_def demo_put(2))
qed

lemma demo_iteration2:
  assumes "relay_vf2vm_traffic demo_env (r\<lparr>dpdk := (dpdk r)\<lparr>dpdk_sl := True\<rparr>\<rparr>) h = Some (b, r', h')"
    "\<not> dpdk_sl (dpdk r)" "vio2vf_cpu (vio r) = 1" "vf2vio_cpu (dpdk r) = 2"
  shows "worker_iteration demo_env 2 (demo_at r h) = Some (b \<noteq> 0, demo_at (r'\<lparr>dpdk := (dpdk r')\<lparr>dpdk_sl := False\<rparr>\<rparr>) h')"
  using assms
  by (simp add: worker_iteration_def demo_thread_nth demo_thread_def demo_scan service_relay_def
      locked_vf2vm_def rte_spinlock_trylock_def demo_put(2))

text \<open>A relay of the machine with one queue, in given states.\<close>

definition demo_one :: "vio_state_t \<Rightarrow> dpdk_state_t \<Rightarrow> relay" where
  "demo_one vs ds = (demo_relay 1 1 [demo_pkt 8 0])
     \<lparr>vio := (demo_vio 1 1)\<lparr>vio_state := vs\<rparr>, dpdk := (demo_dpdk [demo_pkt 8 0])\<lparr>dpdk_state := ds\<rparr>\<rparr>"

lemma demo_one_wiring: "wiring (demo_one vs ds) = wiring (demo_relay 1 1 [demo_pkt 8 0])"
  by (simp add: demo_one_def wiring_def demo_relay_def)

definition demo_like :: "relay \<Rightarrow> bool" where
  "demo_like r \<longleftrightarrow> stage_ok r \<and> wiring r = wiring (demo_relay 1 1 [demo_pkt 8 0]) \<and>
     tx_q_rr (vio r) < max_queue_pairs (vio r) \<and> \<not> vio_sl (vio r) \<and> \<not> dpdk_sl (dpdk r)"

lemma demo_one_like: "demo_like (demo_one vs ds)"
  using demo_stage_ok [of "[demo_pkt 8 0]" 1 1] demo_one_wiring [of vs ds]
  by (simp add: demo_like_def stage_ok_def tx_ok_def rx_ok_def)
    (simp add: demo_one_def demo_vio_def demo_dpdk_def)

lemma demo_like_cpus:
  assumes "demo_like r"
  shows "vio2vf_cpu (vio r) = 1" "vf2vio_cpu (dpdk r) = 2" "tx_q_bitmap (vio r) = 1" "max_queue_pairs (vio r) = 2"
    "rx_q_bitmap (vio r) = 1" "vring_inv (vio r)" "contiguous (vio r)"
proof -
  have w: "wiring r = wiring (demo_relay 1 1 [demo_pkt 8 0])" using assms by (simp add: demo_like_def)
  show "vio2vf_cpu (vio r) = 1" "vf2vio_cpu (dpdk r) = 2" "tx_q_bitmap (vio r) = 1" "max_queue_pairs (vio r) = 2"
    "rx_q_bitmap (vio r) = 1" "vring_inv (vio r)" "contiguous (vio r)"
    using wiringD(2,3,4,5,6) [OF w] queues_wiring [OF w] demo_single_ready
    by (simp_all add: vf2vm_ready_def) (simp_all add: demo_vio_def demo_dpdk_def)
qed

lemma demo_like_iteration1:
  assumes "demo_like r"
  shows "\<exists>p r' h'. worker_iteration demo_env 1 (demo_at r h) = Some (p, demo_at r' h') \<and> demo_like r'"
proof -
  note c = demo_like_cpus [OF assms]
  have l: "stage_ok r" "tx_q_rr (vio r) < max_queue_pairs (vio r)" "\<not> vio_sl (vio r)" "\<not> dpdk_sl (dpdk r)"
    "wiring r = wiring (demo_relay 1 1 [demo_pkt 8 0])"
    using assms by (simp_all add: demo_like_def)
  let ?r1 = "r\<lparr>vio := (vio r)\<lparr>vio_sl := True\<rparr>\<rparr>"
  have ok1: "stage_ok ?r1" using forwards_stage_ok [OF forwards_lockstate(1) [OF l(1)]] .
  obtain b r' h' where e: "relay_vm2vf_traffic demo_env ?r1 h = Some (b, r', h')"
    "tx_q_rr (vio r') < max_queue_pairs (vio r')"
    using vm2vf_round_total [OF demo_env_contract ok1, of 0 h] l(2) c by auto
  have ok': "stage_ok (r'\<lparr>vio := (vio r')\<lparr>vio_sl := False\<rparr>\<rparr>)"
    by (rule forwards_stage_ok [OF forwards_lockstate(1) [OF forwards_stage_ok
          [OF relay_vm2vf_traffic_forwards [OF demo_env_contract ok1 e(1)]]]])
  note s = relay_vm2vf_traffic_state [OF e(1)]
  have "demo_like (r'\<lparr>vio := (vio r')\<lparr>vio_sl := False\<rparr>\<rparr>)"
    using ok' e(2) s(3,5) l(4,5) by (simp add: demo_like_def) (simp add: wiring_def)
  then show ?thesis using demo_iteration1 [OF e(1) l(3) c(1,2)] by blast
qed

lemma vf2vm_stages_rr:
  "dpdk_rx env r h = Some (n, r', h') \<Longrightarrow> tx_q_rr (vio r') = tx_q_rr (vio r)"
  "virtio_tx env r h = Some (n, r', h') \<Longrightarrow> tx_q_rr (vio r') = tx_q_rr (vio r)"
  "tx_q_rr (vio (fst (drop_dpdk_held r h))) = tx_q_rr (vio r)"
  "tx_q_rr (vio (fst (worker_remove_virtio r h))) = tx_q_rr (vio r)"
  by (auto simp: dpdk_rx_def virtio_tx_def drop_dpdk_held_def worker_remove_virtio_def flush_vio_def flush_dpdk_def
      drop_vio_held_def Let_def bind_Some_iff case_prod_beta tx_stage_def rx_stage_def split: if_splits)

lemma vf2vm_round_rr:
  assumes "relay_vf2vm_traffic env r h = Some (b, r', h')"
  shows "tx_q_rr (vio r') = tx_q_rr (vio r)"
  using assms
proof (rule vf2vm_roundE)
  fix n1 r1 h1 n2 r2 h2 r3 h3 r4
  assume 1: "(if rx_pkts_avail (dpdk r) = 0 then dpdk_rx env r h else Some (0, r, h)) = Some (n1, r1, h1)"
    and 2: "(if rx_pkts_avail (dpdk r1) \<noteq> 0 then virtio_tx env r1 h1 else Some (0, r1, h1)) = Some (n2, r2, h2)"
    and 3: "(if n2 = -1 \<and> rx_pkts_avail (dpdk r2) \<noteq> 0 then drop_dpdk_held r2 h2 else (r2, h2)) = (r3, h3)"
    and 4: "(if vio_state (vio r3) = VIRTIO_REMOVING2 then worker_remove_virtio r3 h3 else (r3, h3)) = (r4, h')"
    and 5: "r' = vf2vm_handshake r4"
  have "tx_q_rr (vio r1) = tx_q_rr (vio r)" using 1 vf2vm_stages_rr(1) by (auto split: if_splits)
  moreover have "tx_q_rr (vio r2) = tx_q_rr (vio r1)" using 2 vf2vm_stages_rr(2) by (auto split: if_splits)
  moreover have "tx_q_rr (vio r3) = tx_q_rr (vio r2)" using 3 vf2vm_stages_rr(3) [of r2 h2] by (auto split: if_splits)
  moreover have "tx_q_rr (vio r4) = tx_q_rr (vio r3)" using 4 vf2vm_stages_rr(4) [of r3 h3] by (auto split: if_splits)
  ultimately show ?thesis by (simp add: 5 handshake_state)
qed

lemma demo_like_iteration2:
  assumes "demo_like r"
  shows "\<exists>p r' h'. worker_iteration demo_env 2 (demo_at r h) = Some (p, demo_at r' h') \<and> demo_like r'"
proof -
  note c = demo_like_cpus [OF assms]
  have l: "stage_ok r" "\<not> dpdk_sl (dpdk r)" "tx_q_rr (vio r) < max_queue_pairs (vio r)" "\<not> vio_sl (vio r)"
    "wiring r = wiring (demo_relay 1 1 [demo_pkt 8 0])"
    using assms by (simp_all add: demo_like_def)
  let ?r1 = "r\<lparr>dpdk := (dpdk r)\<lparr>dpdk_sl := True\<rparr>\<rparr>"
  have ok1: "stage_ok ?r1" using forwards_stage_ok [OF forwards_lockstate(4) [OF l(1)]] .
  have "vf2vm_ready ?r1" using ok1 c by (simp add: vf2vm_ready_def tags_ok_def)
  then obtain b r' h' where e: "relay_vf2vm_traffic demo_env ?r1 h = Some (b, r', h')"
    using vf2vm_round_total [OF demo_env_contract demo_env_hashable] by blast
  have ok': "stage_ok (r'\<lparr>dpdk := (dpdk r')\<lparr>dpdk_sl := False\<rparr>\<rparr>)"
    by (rule forwards_stage_ok [OF forwards_lockstate(4) [OF forwards_stage_ok
          [OF relay_vf2vm_traffic_forwards [OF demo_env_contract ok1 e]]]])
  note s = relay_vf2vm_traffic_state [OF e]
  have "tx_q_rr (vio r') < max_queue_pairs (vio r')"
    using vf2vm_round_rr [OF e] wiringD(6) [OF s(3)] l(3) by simp
  then have "demo_like (r'\<lparr>dpdk := (dpdk r')\<lparr>dpdk_sl := False\<rparr>\<rparr>)"
    using ok' s(3,5) l(4,5) by (simp add: demo_like_def) (simp add: wiring_def)
  then show ?thesis using demo_iteration2 [OF e l(2) c(1,2)] by blast
qed

lemma demo_assigned: "assigned (demo_state (demo_one vs ds)) 0 1 2"
  using demo_one_like [of vs ds] demo_like_cpus [OF demo_one_like, of vs ds]
  by (simp add: assigned_def demo_thread_nth demo_like_def demo_thread_def bitmap_simps)

subsection \<open>The guarantees of the workers\<close>

text \<open>Over any run of the worker threads, in any interleaving of their iterations, no packet
  buffer is lost or duplicated: what all relays held plus what they received is what they
  sent to VFs, freed, and still hold.\<close>

theorem worker_run_conserves:
  assumes "burst_contract env" "relays_ok st" "(worker_step env)\<^sup>*\<^sup>* st st'"
  shows "relays_ok st' \<and> (\<exists>d. hist st' = hist st @ d \<and>
    ptrs (all_held st) + ptrs (received d) = ptrs (eth_sent d) + ptrs (freed d) + ptrs (all_held st'))"
  using workers.run_inv [OF assms(3)] workers.run_rel [OF assms(3)] assms(1,2) by (simp add: st_forwards_def)

lemma demo_step: "\<exists>r' h'. worker_step demo_env (demo_at (demo_one VIRTIO_READY DPDK_READY) []) (demo_at r' h')"
proof -
  obtain p r' h' where e: "worker_iteration demo_env 1 (demo_at (demo_one VIRTIO_READY DPDK_READY) []) = Some (p, demo_at r' h')"
    using demo_like_iteration1 [OF demo_one_like] by blast
  have "worker_step demo_env (demo_at (demo_one VIRTIO_READY DPDK_READY) []) (demo_at r' h')"
    by (rule worker_step.Iterate [OF _ _ _ e]) (simp_all add: demo_thread_nth demo_thread_def)
  then show ?thesis by blast
qed

lemma demo_one_ok: "relays_ok (demo_at (demo_one vs ds) h)"
  using demo_one_like [of vs ds] by (simp add: relays_ok_def demo_like_def)

theorem worker_run_conserves_witness:
  "\<exists>st' d. (worker_step demo_env)\<^sup>*\<^sup>* (demo_at (demo_one VIRTIO_READY DPDK_READY) []) st' \<and> hist st' = d \<and>
    ptrs (all_held (demo_at (demo_one VIRTIO_READY DPDK_READY) [])) + ptrs (received d) =
    ptrs (eth_sent d) + ptrs (freed d) + ptrs (all_held st')"
proof -
  obtain r' h' where "worker_step demo_env (demo_at (demo_one VIRTIO_READY DPDK_READY) []) (demo_at r' h')"
    using demo_step by blast
  then have run: "(worker_step demo_env)\<^sup>*\<^sup>* (demo_at (demo_one VIRTIO_READY DPDK_READY) []) (demo_at r' h')" by blast
  show ?thesis
    using worker_run_conserves [OF demo_env_contract demo_one_ok run] run by auto
qed

text \<open>Over any run of the worker threads the statistics of every relay stay balanced, in each
  direction: packets received minus packets sent, dropped, and buffered is constant in
  64-bit arithmetic. Nothing else of a relay's configuration changes.\<close>

theorem worker_run_balances:
  assumes "burst_contract env" "relays_ok st" "(worker_step env)\<^sup>*\<^sup>* st st'" "i < MAX_RELAYS st"
  shows "vm2vf_balance (relay_of st' i) = vm2vf_balance (relay_of st i) \<and>
    vf2vm_balance (relay_of st' i) = vf2vm_balance (relay_of st i) \<and>
    wiring (relay_of st' i) = wiring (relay_of st i)"
  using workers.run_rel [OF assms(3)] assms(1,2,4)
  by (simp add: st_forwards_def list_all2_conv_all_nth balanced_def)

theorem worker_run_balances_witness:
  "\<exists>st'. (worker_step demo_env)\<^sup>*\<^sup>* (demo_at (demo_one VIRTIO_READY DPDK_READY) []) st' \<and>
    vm2vf_balance (relay_of st' 0) = vm2vf_balance (demo_one VIRTIO_READY DPDK_READY)"
proof -
  obtain r' h' where "worker_step demo_env (demo_at (demo_one VIRTIO_READY DPDK_READY) []) (demo_at r' h')"
    using demo_step by blast
  then have run: "(worker_step demo_env)\<^sup>*\<^sup>* (demo_at (demo_one VIRTIO_READY DPDK_READY) []) (demo_at r' h')" by blast
  show ?thesis
    using worker_run_balances [OF demo_env_contract demo_one_ok run, of 0] run by auto
qed

text \<open>C11: Once the control path has asked for the removal of a virtual machine, one iteration of
  the thread of the one direction followed by one of the other completes it: the state is
  back to uninitialised and no packet is left in either staging array.\<close>

theorem virtio_removal_completes:
  assumes "assigned st w c1 c2" "vio_state (vio (relay_of st w)) = VIRTIO_REMOVING1"
    "worker_iteration env c1 st = Some (p1, st1)" "worker_iteration env c2 st1 = Some (p2, st2)"
  shows "vio_state (vio (relay_of st2 w)) = VIRTIO_UNINIT \<and>
    tx_pkts_avail (vio (relay_of st2 w)) = 0 \<and> rx_pkts_avail (dpdk (relay_of st2 w)) = 0"
  by (rule virtio_removal [OF assms])

lemma demo_at_Nil: "demo_at r [] = demo_state r"
  by (simp add: demo_state_def)

theorem virtio_removal_completes_witness:
  "\<exists>p1 st1 p2 st2. worker_iteration demo_env 1 (demo_state (demo_one VIRTIO_REMOVING1 DPDK_READY)) = Some (p1, st1) \<and>
    worker_iteration demo_env 2 st1 = Some (p2, st2) \<and> vio_state (vio (relay_of st2 0)) = VIRTIO_UNINIT"
proof -
  let ?r = "demo_one VIRTIO_REMOVING1 DPDK_READY"
  obtain p1 r1 h1 where 1: "worker_iteration demo_env 1 (demo_at ?r []) = Some (p1, demo_at r1 h1)" "demo_like r1"
    using demo_like_iteration1 [OF demo_one_like] by blast
  obtain p2 r2 h2 where 2: "worker_iteration demo_env 2 (demo_at r1 h1) = Some (p2, demo_at r2 h2)"
    using demo_like_iteration2 [OF 1(2)] by blast
  have st: "vio_state (vio (relay_of (demo_state ?r) 0)) = VIRTIO_REMOVING1" by (simp add: demo_one_def)
  show ?thesis
    using virtio_removal_completes [OF demo_assigned st 1(1) [unfolded demo_at_Nil] 2] 1(1) 2
    unfolding demo_at_Nil by blast
qed

text \<open>The same for the removal of a VF, with the threads in the opposite order.\<close>

theorem vf_removal_completes:
  assumes "assigned st w c1 c2" "dpdk_state (dpdk (relay_of st w)) = DPDK_REMOVING1"
    "worker_iteration env c2 st = Some (p1, st1)" "worker_iteration env c1 st1 = Some (p2, st2)"
  shows "dpdk_state (dpdk (relay_of st2 w)) = DPDK_UNINIT \<and>
    tx_pkts_avail (vio (relay_of st2 w)) = 0 \<and> rx_pkts_avail (dpdk (relay_of st2 w)) = 0"
  by (rule vf_removal [OF assms])

theorem vf_removal_completes_witness:
  "\<exists>p1 st1 p2 st2. worker_iteration demo_env 2 (demo_state (demo_one VIRTIO_READY DPDK_REMOVING1)) = Some (p1, st1) \<and>
    worker_iteration demo_env 1 st1 = Some (p2, st2) \<and> dpdk_state (dpdk (relay_of st2 0)) = DPDK_UNINIT"
proof -
  let ?r = "demo_one VIRTIO_READY DPDK_REMOVING1"
  obtain p1 r1 h1 where 1: "worker_iteration demo_env 2 (demo_at ?r []) = Some (p1, demo_at r1 h1)" "demo_like r1"
    using demo_like_iteration2 [OF demo_one_like] by blast
  obtain p2 r2 h2 where 2: "worker_iteration demo_env 1 (demo_at r1 h1) = Some (p2, demo_at r2 h2)"
    using demo_like_iteration1 [OF 1(2)] by blast
  have st: "dpdk_state (dpdk (relay_of (demo_state ?r) 0)) = DPDK_REMOVING1" by (simp add: demo_one_def)
  show ?thesis
    using vf_removal_completes [OF demo_assigned st 1(1) [unfolded demo_at_Nil] 2] 1(1) 2
    unfolding demo_at_Nil by blast
qed

text \<open>C12: The CPU chosen for a new direction is eligible (in the worker bitmap, initialised, on
  the requested NUMA node if that node has a worker), carries the least load of all eligible
  CPUs, and is the first such CPU; the answer is -1 exactly when no CPU is eligible.\<close>

theorem idlest_worker_is_least:
  assumes "\<forall>r\<in>set (virtio_vf_relays st). cpus_ok r"
  shows "\<exists>c. naive_get_idlest_worker st node = Some c \<and>
    (if c = -1 then \<forall>i<MAX_CPUS. \<not> eligible st node i
     else 0 \<le> c \<and> nat c < MAX_CPUS \<and> eligible st node (nat c) \<and>
       (\<forall>i<MAX_CPUS. eligible st node i \<longrightarrow> load (virtio_vf_relays st) (nat c) \<le> load (virtio_vf_relays st) i) \<and>
       (\<forall>i<nat c. eligible st node i \<longrightarrow> load (virtio_vf_relays st) (nat c) < load (virtio_vf_relays st) i))"
  using idlest_worker_least [OF assms] by (simp add: first_least_def)

theorem idlest_worker_is_least_witness:
  "\<exists>c. naive_get_idlest_worker (demo_state (demo_one VIRTIO_READY DPDK_READY)) 0 = Some c \<and>
    0 \<le> c \<and> eligible (demo_state (demo_one VIRTIO_READY DPDK_READY)) 0 (nat c)"
proof -
  let ?st = "demo_state (demo_one VIRTIO_READY DPDK_READY)"
  have ok: "\<forall>r\<in>set (virtio_vf_relays ?st). cpus_ok r"
    using demo_like_cpus(1,2) [OF demo_one_like] by (simp add: cpus_ok_def MAX_CPUS_def)
  have bit: "bit (6 :: 64 word) 1" by simp
  have e: "eligible ?st 0 1"
    using bit by (simp add: eligible_def bitmap_simps demo_thread_nth demo_thread_def)
      (simp add: demo_state_def demo_cpuinfo_def)
  obtain c where c: "naive_get_idlest_worker ?st 0 = Some c"
    "if c = -1 then \<forall>i<MAX_CPUS. \<not> eligible ?st 0 i
     else 0 \<le> c \<and> nat c < MAX_CPUS \<and> eligible ?st 0 (nat c) \<and>
       (\<forall>i<MAX_CPUS. eligible ?st 0 i \<longrightarrow> load (virtio_vf_relays ?st) (nat c) \<le> load (virtio_vf_relays ?st) i) \<and>
       (\<forall>i<nat c. eligible ?st 0 i \<longrightarrow> load (virtio_vf_relays ?st) (nat c) < load (virtio_vf_relays ?st) i)"
    using idlest_worker_is_least [OF ok, of 0] by blast
  have "1 < MAX_CPUS" by (simp add: MAX_CPUS_def)
  then show ?thesis using c e by (auto split: if_splits)
qed

text \<open>After a thread has updated, its bitmap lists exactly the relays with a direction that is
  in use and assigned to its CPU, and no update is pending.\<close>

theorem update_thread_lists_relays:
  assumes "cpu < length (worker_threads st)" "MAX_RELAYS st \<le> 64"
  shows "\<exists>st'. update_thread cpu st = Some st' \<and> \<not> need_update (worker_threads st' ! cpu) \<and>
    (\<forall>w. bit_test (active_relays (worker_threads st' ! cpu)) w \<longleftrightarrow>
       w < MAX_RELAYS st \<and> serves (w_cpu (worker_threads st ! cpu)) (relay_of st w))"
  by (rule update_thread_active [OF assms]) (simp add: bitmap_simps)

theorem update_thread_lists_relays_witness:
  "\<exists>st'. update_thread 2 (demo_state (demo_one VIRTIO_READY DPDK_READY)) = Some st' \<and>
    bit_test (active_relays (worker_threads st' ! 2)) 0"
proof -
  let ?st = "demo_state (demo_one VIRTIO_READY DPDK_READY)"
  have s: "serves 2 (demo_one VIRTIO_READY DPDK_READY)"
    using demo_like_cpus(2) [OF demo_one_like] by (simp add: serves_def) (simp add: demo_one_def)
  have w: "w_cpu (worker_threads ?st ! 2) = 2" by (simp add: demo_thread_nth demo_thread_def)
  have len: "2 < length (worker_threads ?st)" "MAX_RELAYS ?st \<le> 64" by simp_all
  obtain st' where "update_thread 2 ?st = Some st'"
    "\<forall>w. bit_test (active_relays (worker_threads st' ! 2)) w \<longleftrightarrow>
       w < MAX_RELAYS ?st \<and> serves (w_cpu (worker_threads ?st ! 2)) (relay_of ?st w)"
    using update_thread_lists_relays [OF len] by blast
  then show ?thesis unfolding w using s by auto
qed

text \<open>Moving a relay whose sides are in use to initialised CPUs assigns both directions to
  the new CPUs and asks both threads to update; as the threads' next update lists the relays
  by CPU, the relay changes threads.\<close>

theorem migrate_relay_cpus_moves:
  assumes "w < MAX_RELAYS st" "worker_core_bitmap st \<noteq> 0" "c1 < 64" "c2 < 64"
    "c1 < length (worker_threads st)" "c2 < length (worker_threads st)"
    "initialized (worker_threads st ! c1)" "initialized (worker_threads st ! c2)"
    "vio_state (vio (relay_of st w)) = VIRTIO_READY" "dpdk_state (dpdk (relay_of st w)) = DPDK_READY"
    "vio2vf_cpu (vio (relay_of st w)) = int o1" "vf2vio_cpu (dpdk (relay_of st w)) = int o2"
    "o1 < length (worker_threads st)" "o2 < length (worker_threads st)" "o1 \<noteq> c1" "o2 \<noteq> c2"
  shows "\<exists>st'. migrate_relay_cpus (int w) (int c1) (int c2) st = Some (0, st') \<and>
    vio2vf_cpu (vio (relay_of st' w)) = int c1 \<and> vf2vio_cpu (dpdk (relay_of st' w)) = int c2 \<and>
    (\<forall>c\<in>{o1, o2, c1, c2}. need_update (worker_threads st' ! c))"
  using assms
  by (simp add: migrate_relay_cpus_def logical_not_def move_virtio2vf_def move_vf2virtio_def flag_thread_def
      signal_update_def map_vio_def map_dpdk_def put_relay_def array_get_int_def array_get_def nth_list_update)

theorem migrate_relay_cpus_moves_witness:
  "\<exists>st'. migrate_relay_cpus 0 3 4 (demo_state (demo_one VIRTIO_READY DPDK_READY)) = Some (0, st') \<and>
    vio2vf_cpu (vio (relay_of st' 0)) = 3 \<and> need_update (worker_threads st' ! 4)"
  using migrate_relay_cpus_moves [of 0 "demo_state (demo_one VIRTIO_READY DPDK_READY)" 3 4 1 2]
    demo_like_cpus(1,2) [OF demo_one_like, of VIRTIO_READY DPDK_READY]
  by (auto simp: demo_thread_nth demo_thread_def demo_one_def)

text \<open>The guard of \<open>migrate_relay_cpus\<close> against CPUs outside the worker bitmap is without
  effect: it masks with the logical negation of the bitmap, which is 0, instead of its
  complement, so with a nonempty bitmap no request is ever rejected.\<close>

theorem migrate_never_rejects:
  assumes "worker_core_bitmap st \<noteq> 0"
  shows "migrate_relay_cpus n a b st \<noteq> Some (-1, st')"
  using assms by (auto simp: migrate_relay_cpus_def logical_not_def bind_Some_iff split: if_splits)

text \<open>CPUs 3 and 4 are not in the bitmap of the machine.\<close>

theorem migrate_never_rejects_witness:
  "\<not> bit_test (worker_core_bitmap (demo_state (demo_one VIRTIO_READY DPDK_READY))) 3 \<and>
   migrate_relay_cpus 0 3 4 (demo_state (demo_one VIRTIO_READY DPDK_READY)) \<noteq>
     Some (-1, demo_state (demo_one VIRTIO_READY DPDK_READY))"
proof
  have "\<not> bit (6 :: 64 word) 3" by simp
  then show "\<not> bit_test (worker_core_bitmap (demo_state (demo_one VIRTIO_READY DPDK_READY))) 3"
    by (simp add: bitmap_simps)
  show "migrate_relay_cpus 0 3 4 (demo_state (demo_one VIRTIO_READY DPDK_READY)) \<noteq>
      Some (-1, demo_state (demo_one VIRTIO_READY DPDK_READY))"
    by (rule migrate_never_rejects) simp
qed

text \<open>The removal code does not wait for the holder of a lock: \<open>worker_remove_vf\<close> flushes the
  receive array and releases the lock of the other direction, whoever held it, and
  \<open>worker_remove_virtio\<close> does the same with the transmit array.\<close>

theorem removal_ignores_lock_holder:
  "\<not> dpdk_sl (dpdk (fst (worker_remove_vf r h))) \<and> rx_pkts_avail (dpdk (fst (worker_remove_vf r h))) = 0 \<and>
   \<not> vio_sl (vio (fst (worker_remove_virtio r h))) \<and> tx_pkts_avail (vio (fst (worker_remove_virtio r h))) = 0"
  using worker_remove_vf_state(5,6) [of r h] worker_remove_virtio_state(4,6) [of r h]
  by (metis prod.collapse)

end
