(* ===== verification/Device.thy ===== *)
theory Device
  imports Worker
begin

text \<open>
  The control path of the relays (\<open>virtio_worker.c\<close>): adding and removing VFs and bonds on
  the DPDK side, connecting and disconnecting virtual machines on the virtio side, memory
  pools, start-up and shutdown.

  A function takes the index of the relay in the array where the source has a pointer to it
  and returns its C result with the new global state; \<open>None\<close> is a failed assertion or an
  access outside an array. Where the source polls a state that worker threads change, the
  parameter \<open>sched\<close> gives the effect of the other threads during the n-th sleep. A spinlock
  that is held when it is taken with a loop is a run that does not end: between two steps of
  the workers all locks are free.
\<close>

subsection \<open>Calls of the library\<close>

definition call_rc :: "env \<Rightarrow> call \<Rightarrow> gstate \<Rightarrow> int \<times> gstate" where
  "call_rc env c st = (rc env st c, did c st)"

definition call_info :: "env \<Rightarrow> port \<Rightarrow> gstate \<Rightarrow> int \<times> dev_info \<times> gstate" where
  "call_info env p st =
     (rc env st (Rte_eth_dev_info_get p), e_info env (hist st) (Rte_eth_dev_info_get p),
      did (Rte_eth_dev_info_get p) st)"

definition call_pool :: "env \<Rightarrow> call \<Rightarrow> gstate \<Rightarrow> mempool option \<times> gstate" where
  "call_pool env c st = (e_pool env (hist st) c, did c st)"

subsection \<open>Ports and queues\<close>

definition pci_dbdf_equal :: "string \<Rightarrow> string \<Rightarrow> bool" where
  "pci_dbdf_equal dbdf1 dbdf2 \<longleftrightarrow> dbdf1 = dbdf2"

definition conditional_add_ok :: "relay \<Rightarrow> string \<Rightarrow> nat \<Rightarrow> bool" where
  "conditional_add_ok r dbdf virtio_id \<longleftrightarrow>
     (dpdk_state (dpdk r) = DPDK_READY \<or> dpdk_state (dpdk r) = DPDK_ADDED) \<and>
     relay_id r = virtio_id \<and> pci_dbdf_equal (pci_dbdf (dpdk r)) dbdf"

definition get_tx_conf :: "env \<Rightarrow> virtio_vhostuser_conf \<Rightarrow> dev_info \<Rightarrow> queue_conf" where
  "get_tx_conf env conf info =
     (let k = e_consts env;
          desired = TX_IPV4_CKSUM k OR TX_UDP_CKSUM k OR TX_TCP_CKSUM k;
          desired = (if enable_tso conf then desired OR (TX_TCP_TSO k OR TX_UDP_TSO k) else desired)
      in (default_txconf info)\<lparr>offloads := tx_offload_capa info AND desired\<rparr>)"

definition get_rx_conf :: "env \<Rightarrow> dev_info \<Rightarrow> queue_conf" where
  "get_rx_conf env info =
     (let k = e_consts env;
          desired = RX_IPV4_CKSUM k OR RX_UDP_CKSUM k OR RX_TCP_CKSUM k
      in (default_rxconf info)\<lparr>offloads := rx_offload_capa info AND desired\<rparr>)"

definition stop_close_remove_dev :: "env \<Rightarrow> port \<Rightarrow> dev_info \<Rightarrow> gstate \<Rightarrow> int \<times> gstate" where
  "stop_close_remove_dev env port_id info st =
     (let (err, st) = call_rc env (Rte_eth_dev_stop port_id) st in
      if err \<noteq> 0 then (err, st)
      else let (err, st) = call_rc env (Rte_eth_dev_close port_id) st in
        if err \<noteq> 0 then (err, st) else call_rc env (Rte_dev_remove (device info)) st)"

definition cleanup_eth_dev :: "env \<Rightarrow> port \<Rightarrow> gstate \<Rightarrow> int \<times> gstate" where
  "cleanup_eth_dev env port_id st =
     (let (err, info, st) = call_info env port_id st in
      if err \<noteq> 0 then (err, st) else stop_close_remove_dev env port_id info st)"

definition start_eth_dev :: "env \<Rightarrow> port \<Rightarrow> gstate \<Rightarrow> int \<times> gstate" where
  "start_eth_dev env port_id st = call_rc env (Rte_eth_dev_start port_id) st"

definition alloc_mempool :: "env \<Rightarrow> nat \<Rightarrow> int \<Rightarrow> nat \<Rightarrow> gstate \<Rightarrow> mempool option \<times> gstate" where
  "alloc_mempool env virtio_id socket_id n st =
     (let buf = strlcpy (''mempool_'' @ dec virtio_id) 32;
          (found, st) = call_pool env (Rte_mempool_lookup buf) st;
          buf = (if found \<noteq> None then strlcpy (''mempoolx_'' @ dec virtio_id) 32 else buf);
          size = (if conf_use_jumbo (g_conf st) \<or> enable_tso (g_conf st) then JUMBO_MBUF_SIZE env else DEFAULT_MBUF_SIZE env)
      in call_pool env (Rte_pktmbuf_pool_create buf n 31 0 size socket_id) st)"

text \<open>Swapping the memory pool under both locks.\<close>

definition swap_mempool :: "nat \<Rightarrow> mempool \<Rightarrow> int \<Rightarrow> gstate \<Rightarrow> gstate option" where
  "swap_mempool i new_pool newnode st =
     (let r = relay_of st i in
      if vio_sl (vio r) \<or> dpdk_sl (dpdk r) then None
      else let st = (if mempool (vio r) \<noteq> None then did (Rte_mempool_free (mempool (vio r))) st else st)
           in Some (map_vio i (\<lambda>v. v\<lparr>mempool := Some new_pool, mempool_socket_id := newnode\<rparr>) st))"

definition reconfigure_queues :: "env \<Rightarrow> nat \<Rightarrow> port \<Rightarrow> gstate \<Rightarrow> int \<times> gstate" where
  "reconfigure_queues env i port_id st =
     (let (err, info, st) = call_info env port_id st in
      if err \<noteq> 0 then (err, st)
      else let v = vio (relay_of st i);
               (err, st) = call_rc env (Rte_eth_tx_queue_setup port_id 0 1024 (mempool_socket_id v)
                             (get_tx_conf env (g_conf st) info)) st in
        if err \<noteq> 0 then (-1, snd (call_rc env (Rte_eth_dev_close port_id) st))
        else let (err, st) = call_rc env (Rte_eth_rx_queue_setup port_id 0 1024 (mempool_socket_id v)
                               (get_rx_conf env info) (mempool v)) st in
          if err \<noteq> 0 then (-1, snd (call_rc env (Rte_eth_dev_close port_id) st)) else (0, st))"

definition migrate_mempool :: "env \<Rightarrow> nat \<Rightarrow> int \<Rightarrow> nat \<Rightarrow> gstate \<Rightarrow> (int \<times> gstate) option" where
  "migrate_mempool env i newnode num_pktmbufs st = do {
     let port_id = dpdk_port (dpdk (relay_of st i)) mod 256;
     let (new_pool, st) = alloc_mempool env (relay_id (relay_of st i)) newnode num_pktmbufs st;
     case new_pool of
       None \<Rightarrow> Some (-1, st)
     | Some pool \<Rightarrow> do {
         let d = dpdk (relay_of st i);
         if dpdk_state d = DPDK_READY then None
         else if rx_pkts_avail d \<noteq> 0 then None
         else do {
           let st = (if dpdk_state d = DPDK_ADDED then snd (call_rc env (Rte_eth_dev_stop port_id) st) else st);
           st \<leftarrow> swap_mempool i pool newnode st;
           if dpdk_state d = DPDK_ADDED then Some (reconfigure_queues env i port_id st) else Some (0, st) } } }"

text \<open>\<open>if (capa & bit) conf |= bit;\<close>\<close>

definition offload :: "64 word \<Rightarrow> 64 word \<Rightarrow> 64 word \<Rightarrow> 64 word" where
  "offload capa b conf = (if capa AND b \<noteq> 0 then conf OR b else conf)"

definition port_conf :: "env \<Rightarrow> virtio_vhostuser_conf \<Rightarrow> bool \<Rightarrow> dev_info \<Rightarrow> eth_conf" where
  "port_conf env conf jumbo info =
     (let k = e_consts env;
          rx = offload (rx_offload_capa info) (RX_CHECKSUM k) 0;
          capa = tx_offload_capa info;
          tx = offload capa (TX_TCP_CKSUM k) (offload capa (TX_UDP_CKSUM k) (offload capa (TX_IPV4_CKSUM k) 0));
          tx = (if enable_tso conf then offload capa (TX_UDP_TSO k) (offload capa (TX_TCP_TSO k) tx) else tx)
      in \<lparr>rx_offloads = rx, tx_offloads = tx,
          rx_mtu = (if jumbo then JUMBO_MBUF_SIZE env else DEFAULT_MBUF_SIZE env)\<rparr>)"

text \<open>The part of \<open>dev_queue_configure\<close> after the port is configured: memory pool and queues.\<close>

definition ensure_mempool :: "env \<Rightarrow> nat \<Rightarrow> gstate \<Rightarrow> bool \<times> gstate" where
  "ensure_mempool env i st =
     (let v = vio (relay_of st i) in
      if mempool v \<noteq> None then (True, st)
      else let (mpool, st) = alloc_mempool env (relay_id (relay_of st i)) (mempool_socket_id v) (NUM_PKTMBUF_POOL - 1) st in
        case mpool of None \<Rightarrow> (False, st) | Some p \<Rightarrow> (True, map_vio i (\<lambda>v. v\<lparr>mempool := Some p\<rparr>) st))"

definition setup_queues :: "env \<Rightarrow> nat \<Rightarrow> port \<Rightarrow> gstate \<Rightarrow> int \<times> gstate" where
  "setup_queues env i port_id st =
     (let (err, info, st) = call_info env port_id st in
      if err \<noteq> 0 then (err, st)
      else let v = vio (relay_of st i);
               (err, st) = call_rc env (Rte_eth_tx_queue_setup port_id 0 1024 (mempool_socket_id v)
                             (get_tx_conf env (g_conf st) info)) st in
        if err \<noteq> 0 then (6, st)
        else let (err, st) = call_rc env (Rte_eth_rx_queue_setup port_id 0 1024 (mempool_socket_id v)
                               (get_rx_conf env info) (mempool v)) st in
          if err \<noteq> 0 then (5, st) else (0, st))"

definition dev_queue_configure :: "env \<Rightarrow> port \<Rightarrow> nat \<Rightarrow> bool \<Rightarrow> gstate \<Rightarrow> int \<times> gstate" where
  "dev_queue_configure env port_id i bond st =
     (let (err, info, st) = call_info env port_id st in
      if err \<noteq> 0 then (err, st)
      else let jumbo = use_jumbo (relay_of st i);
               (err, st) = call_rc env (Rte_eth_dev_configure port_id 1 1 (port_conf env (g_conf st) jumbo info)) st in
        if err \<noteq> 0 then (4, st)
        else let (err, st) = (if bond then (0, st)
                   else call_rc env (Rte_eth_dev_set_mtu port_id (if jumbo then JUMBO_IP_MTU else DEFAULT_IP_MTU)) st) in
          if err \<noteq> 0 then (4, st)
          else let (ok, st) = ensure_mempool env i st in
            if \<not> ok then (-1, st) else setup_queues env i port_id st)"

text \<open>
  \<open>init_vf\<close> returns the port in a variable of the caller. When no port matches the address,
  the iteration leaves it at \<open>RTE_MAX_ETHPORTS\<close> and the function succeeds.
\<close>

definition init_vf :: "env \<Rightarrow> string \<Rightarrow> nat \<Rightarrow> port \<Rightarrow> gstate \<Rightarrow> int \<times> port \<times> gstate" where
  "init_vf env dbdf i port0 st =
     (let (err, st) = call_rc env (Rte_dev_probe dbdf) st in
      if err \<noteq> 0 then (2, port0, st)
      else let port = e_port env (hist st) (Rte_eth_matching_dev dbdf);
               st = did (Rte_eth_matching_dev dbdf) st in
        case port of
          None \<Rightarrow> (0, MAX_RELAYS st, st)
        | Some p \<Rightarrow>
            let (err, st) = dev_queue_configure env p i False st in
            if err \<noteq> 0 then (err, p, snd (cleanup_eth_dev env p (did Rte_eth_iterator_cleanup st)))
            else (0, p, did Rte_eth_iterator_cleanup (did (Rte_eth_promiscuous_enable p) st)))"

subsection \<open>Adding a VF or a bond\<close>

definition configure_dev_with_virtio ::
  "env \<Rightarrow> string \<Rightarrow> port \<Rightarrow> nat \<Rightarrow> bool \<Rightarrow> nat \<Rightarrow> gstate \<Rightarrow> (int \<times> gstate) option" where
  "configure_dev_with_virtio env dbdf port_id i bond n st = do {
     let ready = (vio_state (vio (relay_of st i)) = VIRTIO_READY);
     let (err, st) = (if ready then start_eth_dev env port_id st
                      else (0, snd (call_rc env (Rte_eth_dev_stop port_id) st)));
     if err \<noteq> 0 then Some (1, st)
     else do {
       let st = map_vio i (\<lambda>v. v\<lparr>lm_pending := False\<rparr>) st;
       let st = map_dpdk i (\<lambda>d. d\<lparr>dpdk_port := port_id, pci_dbdf := strlcpy dbdf 20\<rparr>) st;
       st \<leftarrow> find_vf2virtio_cpu i st;
       let st = map_dpdk i (\<lambda>d. d\<lparr>dpdk_state := (if ready then DPDK_READY else DPDK_ADDED),
                                   is_bond := bond, num_slaves := n\<rparr>) st;
       st \<leftarrow> flag_thread (vf2vio_cpu (dpdk (relay_of st i))) st;
       Some (0, st) } }"

text \<open>The uninitialised local \<open>port_id\<close> is never read before \<open>init_vf\<close> has set it.\<close>

definition virtio_forwarder_add_vf2 :: "env \<Rightarrow> string \<Rightarrow> nat \<Rightarrow> bool \<Rightarrow> gstate \<Rightarrow> (int \<times> gstate) option" where
  "virtio_forwarder_add_vf2 env dbdf virtio_id conditional st =
     (if MAX_RELAYS st \<le> virtio_id then Some (1, st)
      else if dpdk_state (dpdk (relay_of st virtio_id)) \<noteq> DPDK_UNINIT
      then if conditional \<and> conditional_add_ok (relay_of st virtio_id) dbdf virtio_id
           then Some (0, st) else Some (8, st)
      else do {
        let (err, port_id, st) = init_vf env dbdf virtio_id 0 st;
        if err \<noteq> 0 then Some (err, st)
        else do {
          (err, st) \<leftarrow> configure_dev_with_virtio env dbdf port_id virtio_id False 0 st;
          Some (err, if err \<noteq> 0 then snd (cleanup_eth_dev env port_id st) else st) } })"

definition virtio_forwarder_add_vf :: "env \<Rightarrow> string \<Rightarrow> nat \<Rightarrow> gstate \<Rightarrow> (int \<times> gstate) option" where
  "virtio_forwarder_add_vf env dbdf virtio_id st = virtio_forwarder_add_vf2 env dbdf virtio_id False st"

text \<open>The list of slave addresses, for the log.\<close>

definition format_slave_dbdfs :: "string list \<Rightarrow> string" where
  "format_slave_dbdfs dbdfs = concat (map (\<lambda>s. s @ '' '') dbdfs)"

text \<open>Is some slave already attached to DPDK?\<close>

primrec slave_in_use :: "env \<Rightarrow> string list \<Rightarrow> gstate \<Rightarrow> bool \<times> gstate" where
  "slave_in_use env [] st = (False, st)"
| "slave_in_use env (s # ss) st =
     (let (err, st) = call_rc env (Rte_eth_dev_get_port_by_name s) st in
      if err = 0 then (True, st) else slave_in_use env ss st)"

text \<open>
  \<open>for (i...) { init_vf(slave_dbdfs[i], &slave_port_ids[i], ...); rte_eth_bond_slave_add(...); }\<close>
  over the array \<open>slave_port_ids\<close>, whose elements are uninitialised before.
\<close>

primrec init_slaves ::
  "env \<Rightarrow> port \<Rightarrow> nat \<Rightarrow> string list \<Rightarrow> nat \<Rightarrow> port list \<Rightarrow> gstate \<Rightarrow> (bool \<times> port list \<times> gstate) option"
  where
  "init_slaves env bond i [] k ids st = Some (True, ids, st)"
| "init_slaves env bond i (s # ss) k ids st = do {
     p0 \<leftarrow> array_get ids k;
     let (err, p, st) = init_vf env s i p0 st;
     let ids = ids[k := p];
     if err \<noteq> 0 then Some (False, ids, st)
     else init_slaves env bond i ss (Suc k) ids (did (Rte_eth_bond_slave_add bond p) st) }"

primrec cleanup_eth_devs :: "env \<Rightarrow> port list \<Rightarrow> gstate \<Rightarrow> gstate" where
  "cleanup_eth_devs env [] st = st"
| "cleanup_eth_devs env (p # ps) st = cleanup_eth_devs env ps (snd (cleanup_eth_dev env p st))"

text \<open>\<open>garbage\<close> is what the stack array \<open>slave_port_ids[MAX_NUM_BOND_SLAVES]\<close> holds at entry.\<close>

definition virtio_forwarder_bond_add ::
  "env \<Rightarrow> port list \<Rightarrow> string list \<Rightarrow> string \<Rightarrow> nat \<Rightarrow> nat \<Rightarrow> gstate \<Rightarrow> (int \<times> gstate) option" where
  "virtio_forwarder_bond_add env garbage slave_dbdfs name mode virtio_id st =
     (if MAX_RELAYS st \<le> virtio_id then Some (1, st)
      else if dpdk_state (dpdk (relay_of st virtio_id)) \<noteq> DPDK_UNINIT then Some (8, st)
      else do {
        let sock = mempool_socket_id (vio (relay_of st virtio_id));
        let socket_id = (if sock = SOCKET_ID_ANY then 0 else sock);
        let (err, st) = call_rc env (Rte_eth_bond_create name mode socket_id) st;
        if err < 0 then Some (2, st)
        else do {
          let port_id = nat err;
          let bond_free = (\<lambda>st. did (Rte_eth_bond_free name) st);
          let (used, st) = slave_in_use env slave_dbdfs st;
          if used then Some (3, bond_free st)
          else do {
            (_, st) \<leftarrow> migrate_mempool env virtio_id socket_id (sub_u32 (length slave_dbdfs * NUM_PKTMBUF_POOL) 1) st;
            let (err, st) = dev_queue_configure env port_id virtio_id True st;
            if err \<noteq> 0 then Some (4, bond_free st)
            else do {
              (ok, ids, st) \<leftarrow> init_slaves env port_id virtio_id slave_dbdfs 0 garbage st;
              let undo = (\<lambda>st. bond_free (cleanup_eth_devs env (take (length slave_dbdfs) ids) st));
              if \<not> ok then Some (5, undo st)
              else do {
                (err, st) \<leftarrow> configure_dev_with_virtio env name port_id virtio_id True (length slave_dbdfs) st;
                if err \<noteq> 0 then Some (6, undo st) else Some (0, st) } } } } })"

subsection \<open>Removing a VF or a bond\<close>

text \<open>\<open>while (!done && retries++ < n) usleep(50000);\<close>\<close>

primrec wait_until :: "(gstate \<Rightarrow> bool) \<Rightarrow> (nat \<Rightarrow> gstate \<Rightarrow> gstate) \<Rightarrow> nat \<Rightarrow> gstate \<Rightarrow> gstate" where
  "wait_until released sched 0 st = st"
| "wait_until released sched (Suc n) st =
     (if released st then st else wait_until released sched n (sched n st))"

definition stop_vm2vf_thread :: "(nat \<Rightarrow> gstate \<Rightarrow> gstate) \<Rightarrow> nat \<Rightarrow> gstate \<Rightarrow> int \<times> gstate" where
  "stop_vm2vf_thread sched i st =
     (if 0 \<le> vf2vio_cpu (dpdk (relay_of st i))
      then let st = map_dpdk i (\<lambda>d. d\<lparr>dpdk_state := DPDK_REMOVING1\<rparr>) st;
               released = (\<lambda>st. dpdk_state (dpdk (relay_of st i)) = DPDK_UNINIT);
               st = wait_until released sched 20 st
           in (if released st then 0 else 5, st)
      else (0, st))"

primrec remove_slaves :: "env \<Rightarrow> port \<Rightarrow> port list \<Rightarrow> gstate \<Rightarrow> gstate" where
  "remove_slaves env bond [] st = st"
| "remove_slaves env bond (p # ps) st = remove_slaves env bond ps (did (Rte_eth_bond_slave_remove bond p) st)"

text \<open>The library fills an array of \<open>MAX_NUM_BOND_SLAVES\<close> zeros with the slaves of a bond.\<close>

definition detach_slaves :: "env \<Rightarrow> nat \<Rightarrow> gstate \<Rightarrow> (int \<times> gstate) option" where
  "detach_slaves env i st = do {
     let d = dpdk (relay_of st i);
     if \<not> is_bond d then Some (0, st)
     else do {
       let c = Rte_eth_bond_slaves_get (dpdk_port d) MAX_NUM_BOND_SLAVES;
       let ports = e_ports env (hist st) c;
       let (n, st) = call_rc env c st;
       if n < 0 then Some (1, st)
       else if int MAX_NUM_BOND_SLAVES < n then None
       else do {
         let slaves = take (nat n) (ports @ replicate MAX_NUM_BOND_SLAVES 0);
         Some (0, cleanup_eth_devs env slaves (remove_slaves env (dpdk_port d) slaves st)) } } }"

text \<open>The library calls of \<open>detach_device\<close>, for a bond and for a VF, and its bookkeeping.\<close>

definition detach_calls :: "env \<Rightarrow> nat \<Rightarrow> port \<Rightarrow> gstate \<Rightarrow> (int \<times> gstate) option" where
  "detach_calls env i port_id st =
     (if is_bond (dpdk (relay_of st i))
      then do {
        (_, st) \<leftarrow> detach_slaves env i st;
        let st = snd (call_rc env (Rte_eth_dev_stop port_id) st);
        let st = snd (call_rc env (Rte_eth_dev_close port_id) st);
        Some (call_rc env (Rte_eth_bond_free (pci_dbdf (dpdk (relay_of st i)))) st) }
      else Some (cleanup_eth_dev env port_id st))"

definition forget_device :: "nat \<Rightarrow> gstate \<Rightarrow> gstate" where
  "forget_device i st =
     (let st = map_dpdk i (\<lambda>d. d\<lparr>dpdk_port := 65535, pci_dbdf := [], is_bond := False, num_slaves := 0\<rparr>) st;
          v = vio (relay_of st i)
      in if vio_state v = VIRTIO_UNINIT
         then map_vio i (\<lambda>v. v\<lparr>mempool := None\<rparr>) (did (Rte_mempool_free (mempool v)) st) else st)"

definition detach_device :: "env \<Rightarrow> (nat \<Rightarrow> gstate \<Rightarrow> gstate) \<Rightarrow> nat \<Rightarrow> gstate \<Rightarrow> (int \<times> gstate) option" where
  "detach_device env sched i st = do {
     let port_id = dpdk_port (dpdk (relay_of st i));
     let (err, st) = stop_vm2vf_thread sched i st;
     if err \<noteq> 0 then Some (err, st)
     else do {
       let tmpidx = vf2vio_cpu (dpdk (relay_of st i));
       let st = map_dpdk i (\<lambda>d. d\<lparr>vf2vio_cpu := -1\<rparr>) st;
       st \<leftarrow> flag_thread tmpidx st;
       (err, st) \<leftarrow> detach_calls env i port_id st;
       if err \<noteq> 0 then Some (2, st) else Some (0, forget_device i st) } }"

definition virtio_forwarder_remove_vf2 ::
  "env \<Rightarrow> (nat \<Rightarrow> gstate \<Rightarrow> gstate) \<Rightarrow> string \<Rightarrow> nat \<Rightarrow> bool \<Rightarrow> gstate \<Rightarrow> (int \<times> gstate) option" where
  "virtio_forwarder_remove_vf2 env sched dbdf virtio_id conditional st =
     (if MAX_RELAYS st \<le> virtio_id then Some (1, st)
      else let d = dpdk (relay_of st virtio_id) in
        if dpdk_state d = DPDK_READY \<or> dpdk_state d = DPDK_ADDED
        then if pci_dbdf_equal dbdf (pci_dbdf d) then detach_device env sched virtio_id st else Some (3, st)
        else if conditional then Some (0, st) else Some (4, st))"

definition virtio_forwarder_remove_vf ::
  "env \<Rightarrow> (nat \<Rightarrow> gstate \<Rightarrow> gstate) \<Rightarrow> string \<Rightarrow> nat \<Rightarrow> gstate \<Rightarrow> (int \<times> gstate) option" where
  "virtio_forwarder_remove_vf env sched dbdf virtio_id st =
     virtio_forwarder_remove_vf2 env sched dbdf virtio_id False st"

subsection \<open>Connecting a virtual machine\<close>

definition get_guest_numa :: "env \<Rightarrow> int \<Rightarrow> gstate \<Rightarrow> int \<times> gstate" where
  "get_guest_numa env virtionet st =
     (let (node, st) = call_rc env (Rte_vhost_get_numa_node virtionet) st
      in (if node = -1 then SOCKET_ID_ANY else node, st))"

text \<open>A memory pool on the guest's node, or on any node; or moving the present one.\<close>

definition guest_mempool :: "env \<Rightarrow> nat \<Rightarrow> int \<Rightarrow> gstate \<Rightarrow> (bool \<times> gstate) option" where
  "guest_mempool env i newnode st =
     (let r = relay_of st i; rid = relay_id r in
      if mempool (vio r) = None
      then let (mpool, st) = alloc_mempool env rid newnode (NUM_PKTMBUF_POOL - 1) st in
        case mpool of
          Some p \<Rightarrow> Some (True, map_vio i (\<lambda>v. v\<lparr>mempool := Some p, mempool_socket_id := newnode\<rparr>) st)
        | None \<Rightarrow>
            let (mpool, st) = alloc_mempool env rid SOCKET_ID_ANY (NUM_PKTMBUF_POOL - 1) st in
            (case mpool of
               None \<Rightarrow> Some (False, st)
             | Some p \<Rightarrow> Some (True, map_vio i (\<lambda>v. v\<lparr>mempool := Some p, mempool_socket_id := SOCKET_ID_ANY\<rparr>) st))
      else if mempool_socket_id (vio r) \<noteq> newnode \<and> newnode \<noteq> SOCKET_ID_ANY
      then do {
        let n = (if is_bond (dpdk r) then sub_u32 (num_slaves (dpdk r) * NUM_PKTMBUF_POOL) 1 else NUM_PKTMBUF_POOL - 1);
        (_, st) \<leftarrow> migrate_mempool env i newnode n st;
        Some (True, st) }
      else Some (True, st))"

text \<open>Starting a VF that waits for its virtual machine.\<close>

definition start_added_vf :: "env \<Rightarrow> nat \<Rightarrow> gstate \<Rightarrow> gstate option" where
  "start_added_vf env i st =
     (if dpdk_state (dpdk (relay_of st i)) = DPDK_ADDED
      then do {
        st \<leftarrow> find_vf2virtio_cpu i st;
        let (err, st) = start_eth_dev env (dpdk_port (dpdk (relay_of st i))) st;
        if err \<noteq> 0 then Some st
        else do {
          let st = map_vio i (\<lambda>v. v\<lparr>lm_pending := False\<rparr>) st;
          let st = map_dpdk i (\<lambda>d. d\<lparr>dpdk_state := DPDK_READY\<rparr>) st;
          flag_thread (vf2vio_cpu (dpdk (relay_of st i))) st } }
      else Some st)"

definition virtio_forwarder_add_virtio :: "env \<Rightarrow> int \<Rightarrow> nat \<Rightarrow> gstate \<Rightarrow> (int \<times> gstate) option" where
  "virtio_forwarder_add_virtio env virtionet i st =
     (if MAX_RELAYS st \<le> i then Some (-1, st)
      else if vio_state (vio (relay_of st i)) \<noteq> VIRTIO_UNINIT then Some (-1, st)
      else do {
        let pairs = e_count env (hist st) (Rte_vhost_get_vring_num virtionet) div 2;
        let st = map_vio i (\<lambda>v. v\<lparr>tx_q_rr := 0, vio_dev := virtionet, max_queue_pairs := pairs\<rparr>)
                   (did (Rte_vhost_get_vring_num virtionet) st);
        if MAX_MULTIQUEUE_PAIRS < pairs then Some (-1, st)
        else do {
          let (newnode, st) = get_guest_numa env virtionet st;
          (ok, st) \<leftarrow> guest_mempool env i newnode st;
          if \<not> ok then Some (-1, st)
          else do {
            st \<leftarrow> find_virtio2vf_cpu i st;
            let cpu = vio2vf_cpu (vio (relay_of st i));
            if \<not> (0 \<le> cpu \<and> cpu < 64) then None
            else if \<not> bit_test (worker_core_bitmap st) (nat cpu) then Some (-1, st)
            else do {
              let st = map_vio i (\<lambda>v. v\<lparr>vio_state := VIRTIO_READY\<rparr>) st;
              st \<leftarrow> flag_thread cpu st;
              st \<leftarrow> start_added_vf env i st;
              Some (0, st) } } } })"

text \<open>The polling loop of the removal, then the disconnection whether or not the workers answered.\<close>

definition virtio_forwarder_remove_virtio ::
  "env \<Rightarrow> (nat \<Rightarrow> gstate \<Rightarrow> gstate) \<Rightarrow> nat \<Rightarrow> gstate \<Rightarrow> gstate option" where
  "virtio_forwarder_remove_virtio env sched i st =
     (if MAX_RELAYS st \<le> i then Some st
      else if vio_state (vio (relay_of st i)) \<noteq> VIRTIO_READY then Some st
      else do {
        let st = map_vio i (\<lambda>v. v\<lparr>vio_state := VIRTIO_REMOVING1\<rparr>) st;
        let released = (\<lambda>st. vio_state (vio (relay_of st i)) = VIRTIO_UNINIT);
        let st = wait_until released sched 20 st;
        let tmpidx = vio2vf_cpu (vio (relay_of st i));
        let st = map_vio i (\<lambda>v. v\<lparr>vio2vf_cpu := -1, tx_q_bitmap := 0, rx_q_bitmap := 0\<rparr>) st;
        st \<leftarrow> flag_thread tmpidx st;
        if dpdk_state (dpdk (relay_of st i)) = DPDK_READY
        then do {
          let st = snd (call_rc env (Rte_eth_dev_stop (dpdk_port (dpdk (relay_of st i)))) st);
          let st = map_dpdk i (\<lambda>d. d\<lparr>dpdk_state := DPDK_ADDED\<rparr>) st;
          flag_thread (vf2vio_cpu (dpdk (relay_of st i))) st }
        else Some (map_vio i (\<lambda>v. v\<lparr>mempool := None\<rparr>)
                     (did (Rte_mempool_free (mempool (vio (relay_of st i)))) st)) })"

definition remove_relay :: "env \<Rightarrow> (nat \<Rightarrow> gstate \<Rightarrow> gstate) \<Rightarrow> nat \<Rightarrow> gstate \<Rightarrow> gstate option" where
  "remove_relay env sched i st = do {
     st \<leftarrow> virtio_forwarder_remove_virtio env sched i st;
     let d = dpdk (relay_of st i);
     if dpdk_state d = DPDK_READY \<or> dpdk_state d = DPDK_ADDED
     then map_option snd (virtio_forwarder_remove_vf env sched (pci_dbdf d) i st)
     else Some st }"

primrec remove_relays :: "env \<Rightarrow> (nat \<Rightarrow> gstate \<Rightarrow> gstate) \<Rightarrow> nat list \<Rightarrow> gstate \<Rightarrow> gstate option" where
  "remove_relays env sched [] st = Some st"
| "remove_relays env sched (i # is) st = do { st \<leftarrow> remove_relay env sched i st; remove_relays env sched is st }"

definition virtio_forwarders_remove_all :: "env \<Rightarrow> (nat \<Rightarrow> gstate \<Rightarrow> gstate) \<Rightarrow> gstate \<Rightarrow> gstate option" where
  "virtio_forwarders_remove_all env sched st = remove_relays env sched [0..<MAX_RELAYS st] st"

subsection \<open>Start-up and shutdown\<close>

definition null_mbuf :: mbuf where
  "null_mbuf = \<lparr>m_ptr = 0, pkt_len = 0, fdir_id = 0, m_mem = []\<rparr>"

text \<open>A relay after \<open>memset\<close>, and as \<open>virtio_forwarders_initialize\<close> leaves it.\<close>

definition init_relay :: "nat \<Rightarrow> int \<Rightarrow> bool \<Rightarrow> relay" where
  "init_relay w socket_id jumbo =
     \<lparr>relay_id = w,
      vio = \<lparr>vio2vf_cpu = -1, max_queue_pairs = 0, rx_q_bitmap = 0, tx_q_bitmap = 0, rx_q_active = 0,
             rx_q_lut = replicate MAX_MULTIQUEUE_PAIRS 0, tx_q_rr = 0, pow2queues = False, vio_state = VIRTIO_UNINIT,
             vio_dev = 0, mempool = None, mempool_socket_id = socket_id, tx_pkts = replicate BURST_LEN null_mbuf,
             tx_pkts_avail = 0, tx_pkts_used = 0, vio_sl = False, lm_pending = False\<rparr>,
      dpdk = \<lparr>vf2vio_cpu = -1, dpdk_state = DPDK_UNINIT, is_bond = False, num_slaves = 0, dpdk_port = 0,
              pci_dbdf = [], rx_pkts = replicate BURST_LEN null_mbuf, rx_pkts_avail = 0, rx_pkts_used = 0,
              dpdk_sl = False\<rparr>,
      stats = zero_stats, use_jumbo = jumbo\<rparr>"

text \<open>The NUMA node of the CPU configured for a relay; the warnings about the two configured CPUs
  read the entries of both.\<close>

definition relay_node :: "gstate \<Rightarrow> nat \<Rightarrow> int option" where
  "relay_node st w = do {
     c \<leftarrow> array_get (conf_relay_cpus (g_conf st)) w;
     _ \<leftarrow> (if conf_vf2vio_cpu c \<noteq> -1 \<and> conf_vio2vf_cpu c \<noteq> -1 \<and> conf_vf2vio_cpu c \<noteq> conf_vio2vf_cpu c
           then array_get_int (cpus (cpuinfo st)) (conf_vf2vio_cpu c)
           else Some (cpus (cpuinfo st) ! 0));
     if conf_vio2vf_cpu c \<noteq> -1
     then map_option (\<lambda>d. int (numanode d)) (array_get_int (cpus (cpuinfo st)) (conf_vio2vf_cpu c))
     else Some SOCKET_ID_ANY }"

primrec init_relays :: "gstate \<Rightarrow> nat list \<Rightarrow> relay list option" where
  "init_relays st [] = Some []"
| "init_relays st (w # ws) = do {
     node \<leftarrow> relay_node st w;
     rs \<leftarrow> init_relays st ws;
     Some (init_relay w node (conf_use_jumbo (g_conf st)) # rs) }"

definition zero_thread :: worker_thread where
  "zero_thread = \<lparr>w_cpu = 0, initialized = False, running = False, must_stop = False, need_update = False, active_relays = 0\<rparr>"

definition launch_worker :: "nat \<Rightarrow> gstate \<Rightarrow> gstate" where
  "launch_worker cpu st =
     worker_start cpu
       (st\<lparr>worker_threads := (worker_threads st)[cpu := (worker_threads st ! cpu)\<lparr>w_cpu := int cpu, initialized := True\<rparr>]\<rparr>)"

primrec init_static_vfs :: "env \<Rightarrow> static_relay_entry list \<Rightarrow> gstate \<Rightarrow> gstate option" where
  "init_static_vfs env [] st = Some st"
| "init_static_vfs env (e # es) st = do {
     (_, st) \<leftarrow> virtio_forwarder_add_vf env (static_pci_dbdf e) (nat (static_virtio_id e mod 2 ^ 32)) st;
     init_static_vfs env es st }"

text \<open>\<open>lcores\<close> are the worker cores of the EAL.\<close>

definition virtio_forwarders_initialize :: "env \<Rightarrow> nat list \<Rightarrow> gstate \<Rightarrow> (int \<times> gstate) option" where
  "virtio_forwarders_initialize env lcores st = do {
     rs \<leftarrow> init_relays st [0..<MAX_RELAYS st];
     let st = st\<lparr>virtio_vf_relays := rs, worker_threads := replicate MAX_CPUS zero_thread,
                 worker_core_bitmap := conf_worker_core_bitmap (g_conf st)\<rparr>;
     let st = fold launch_worker lcores st;
     st \<leftarrow> init_static_vfs env (static_relays (g_conf st)) st;
     Some (0, st) }"

definition stop_worker :: "nat \<Rightarrow> gstate \<Rightarrow> gstate" where
  "stop_worker cpu st =
     (if bit_test (worker_core_bitmap st) cpu \<and> initialized (worker_threads st ! cpu) \<and> running (worker_threads st ! cpu)
      then st\<lparr>worker_threads := (worker_threads st)[cpu := (worker_threads st ! cpu)\<lparr>must_stop := True\<rparr>]\<rparr>
      else st)"

definition virtio_forwarders_shutdown :: "gstate \<Rightarrow> gstate" where
  "virtio_forwarders_shutdown st = fold stop_worker [0..<MAX_CPUS] st"

subsection \<open>Queries\<close>

definition get_eal_core_map :: "gstate \<Rightarrow> 64 word" where
  "get_eal_core_map st = worker_core_bitmap st"

definition virtio_get_free_relay_id :: "string option list \<Rightarrow> gstate \<Rightarrow> int" where
  "virtio_get_free_relay_id socket_map st =
     (case find (\<lambda>i. vio_state (vio (relay_of st i)) = VIRTIO_UNINIT \<and> dpdk_state (dpdk (relay_of st i)) = DPDK_UNINIT \<and>
                     socket_map ! i = None) [0..<MAX_RELAYS st]
      of None \<Rightarrow> -1 | Some i \<Rightarrow> int i)"

definition virtio_relay_has_device :: "gstate \<Rightarrow> nat \<Rightarrow> string \<Rightarrow> bool" where
  "virtio_relay_has_device st i dev =
     (if MAX_RELAYS st \<le> i then False else pci_dbdf_equal dev (pci_dbdf (dpdk (relay_of st i))))"

definition virtio_set_lm_pending :: "int \<Rightarrow> gstate \<Rightarrow> gstate option" where
  "virtio_set_lm_pending i st =
     (if int (MAX_RELAYS st) \<le> i then Some st
      else if i < 0 then None
      else Some (map_vio (nat i) (\<lambda>v. v\<lparr>lm_pending := True\<rparr>) st))"

subsection \<open>What the operations leave alone\<close>

named_theorems logs_intros \<open>functions that only make library calls\<close>

text \<open>\<open>logs st st'\<close>: only library calls were made, none of which moves packets.\<close>

definition logs :: "gstate \<Rightarrow> gstate \<Rightarrow> bool" where
  "logs st st' \<longleftrightarrow> (\<exists>cs. st' = st\<lparr>hist := hist st @ map Did cs\<rparr>)"

lemma logs_refl [logs_intros]: "logs st st"
  unfolding logs_def by (rule exI [of _ "[]"]) simp

lemma logs_trans: "logs st st' \<Longrightarrow> logs st' st'' \<Longrightarrow> logs st st''"
  by (auto simp: logs_def simp flip: map_append)

lemma logs_did_step [logs_intros]: "logs st st' \<Longrightarrow> logs st (did c st')"
  unfolding logs_def did_def by (elim exE, rule exI [of _ "cs @ [c]" for cs]) simp

lemma logs_did [logs_intros]: "logs st (did c st)"
  by (rule logs_did_step [OF logs_refl])

lemma logs_call [logs_intros]:
  "logs st (snd (call_rc env c st))" "logs st (snd (snd (call_info env p st)))" "logs st (snd (call_pool env c st))"
  by (simp_all add: call_rc_def call_info_def call_pool_def logs_did)

lemma logs_sel:
  assumes "logs st st'"
  shows "virtio_vf_relays st' = virtio_vf_relays st" "worker_threads st' = worker_threads st" "g_conf st' = g_conf st"
    "worker_core_bitmap st' = worker_core_bitmap st" "cpuinfo st' = cpuinfo st"
    "relay_ifname_map st' = relay_ifname_map st"
  using assms by (auto simp: logs_def)

lemma logs_stop_close_remove [logs_intros]: "logs st (snd (stop_close_remove_dev env p info st))"
  by (auto simp: stop_close_remove_dev_def call_rc_def intro: logs_intros)

lemma logs_cleanup [logs_intros]: "logs st (snd (cleanup_eth_dev env p st))"
  using logs_call(2) [of st env p] logs_stop_close_remove logs_trans
  by (force simp: cleanup_eth_dev_def case_prod_beta)

lemma logs_start [logs_intros]: "logs st (snd (start_eth_dev env p st))"
  by (simp add: start_eth_dev_def logs_call)

lemma logs_alloc_mempool [logs_intros]: "logs st (snd (alloc_mempool env i n k st))"
  by (auto simp: alloc_mempool_def call_pool_def Let_def intro: logs_intros)

lemma logs_cleanup_devs [logs_intros]: "logs st (cleanup_eth_devs env ps st)"
  by (induction ps arbitrary: st) (auto intro: logs_intros logs_trans)

lemma logs_remove_slaves [logs_intros]: "logs st (remove_slaves env b ps st)"
  by (induction ps arbitrary: st) (auto intro: logs_intros logs_trans)

lemma logs_slave_in_use [logs_intros]: "logs st (snd (slave_in_use env ss st))"
proof (induction ss arbitrary: st)
  case Nil
  then show ?case by (simp add: logs_refl)
next
  case (Cons s ss)
  show ?case
    using Cons.IH [of "snd (call_rc env (Rte_eth_dev_get_port_by_name s) st)"]
      logs_call(1) [of st env "Rte_eth_dev_get_port_by_name s"]
    by (auto simp: case_prod_beta intro: logs_trans)
qed

lemma logs_reconfigure [logs_intros]: "logs st (snd (reconfigure_queues env i p st))"
  by (auto simp: reconfigure_queues_def call_rc_def call_info_def Let_def intro: logs_intros)

lemma logs_setup_queues [logs_intros]: "logs st (snd (setup_queues env i p st))"
  by (auto simp: setup_queues_def call_rc_def call_info_def Let_def intro: logs_intros)

text \<open>
  \<open>prepares i st st'\<close>: besides library calls, at most a memory pool was given to relay \<open>i\<close>,
  which had none.
\<close>

definition prepares :: "nat \<Rightarrow> gstate \<Rightarrow> gstate \<Rightarrow> bool" where
  "prepares i st st' \<longleftrightarrow>
     (\<exists>d m. st' = (map_vio i (\<lambda>v. v\<lparr>mempool := m\<rparr>) st)\<lparr>hist := hist st @ d\<rparr> \<and>
       (mempool (vio (relay_of st i)) \<noteq> None \<longrightarrow> m = mempool (vio (relay_of st i))))"

lemma map_vio_same [simp]: "i < MAX_RELAYS st \<Longrightarrow> map_vio i (\<lambda>v. v\<lparr>mempool := mempool (vio (relay_of st i))\<rparr>) st = st"
  by (simp add: map_vio_def put_relay_def)

lemma logs_prepares: "i < MAX_RELAYS st \<Longrightarrow> logs st st' \<Longrightarrow> prepares i st st'"
  unfolding logs_def prepares_def by (auto intro!: exI [of _ "mempool (vio (relay_of st i))"])

lemma prepares_trans:
  assumes "i < MAX_RELAYS st" "prepares i st st'" "prepares i st' st''"
  shows "prepares i st st''"
proof -
  obtain d m where 1: "st' = (map_vio i (\<lambda>v. v\<lparr>mempool := m\<rparr>) st)\<lparr>hist := hist st @ d\<rparr>"
    "mempool (vio (relay_of st i)) \<noteq> None \<longrightarrow> m = mempool (vio (relay_of st i))"
    using assms(2) by (auto simp: prepares_def)
  obtain d' m' where 2: "st'' = (map_vio i (\<lambda>v. v\<lparr>mempool := m'\<rparr>) st')\<lparr>hist := hist st' @ d'\<rparr>"
    "mempool (vio (relay_of st' i)) \<noteq> None \<longrightarrow> m' = mempool (vio (relay_of st' i))"
    using assms(3) by (auto simp: prepares_def)
  have "st'' = (map_vio i (\<lambda>v. v\<lparr>mempool := m'\<rparr>) st)\<lparr>hist := hist st @ d @ d'\<rparr>"
    using assms(1) by (simp add: 2(1) 1(1) map_vio_def put_relay_def)
  moreover have "mempool (vio (relay_of st i)) \<noteq> None \<longrightarrow> m' = mempool (vio (relay_of st i))"
    using 1 2(2) assms(1) by (simp add: map_vio_def put_relay_def)
  ultimately show ?thesis unfolding prepares_def by blast
qed

lemma prepares_relays: "prepares i st st' \<Longrightarrow> MAX_RELAYS st' = MAX_RELAYS st"
  by (auto simp: prepares_def map_vio_def put_relay_def)

lemma ensure_mempool_prepares:
  assumes "i < MAX_RELAYS st"
  shows "prepares i st (snd (ensure_mempool env i st))"
    "fst (ensure_mempool env i st) \<Longrightarrow> mempool (vio (relay_of (snd (ensure_mempool env i st)) i)) \<noteq> None"
proof -
  obtain p st1 where a: "alloc_mempool env (relay_id (relay_of st i)) (mempool_socket_id (vio (relay_of st i)))
      (NUM_PKTMBUF_POOL - 1) st = (p, st1)"
    by fastforce
  have l: "logs st st1" using logs_alloc_mempool a by (metis snd_conv)
  then obtain d where d: "st1 = st\<lparr>hist := hist st @ d\<rparr>" by (auto simp: logs_def)
  have given: "prepares i st (map_vio i (\<lambda>v. v\<lparr>mempool := Some x\<rparr>) st1)" if "mempool (vio (relay_of st i)) = None" for x
    unfolding prepares_def
    by (rule exI [of _ d], rule exI [of _ "Some x"]) (simp add: that d map_vio_def put_relay_def)
  have "prepares i st st1" by (rule logs_prepares [OF assms l])
  then show "prepares i st (snd (ensure_mempool env i st))"
    using given logs_prepares [OF assms logs_refl]
    unfolding ensure_mempool_def a Let_def by (auto split: option.splits)
  show "fst (ensure_mempool env i st) \<Longrightarrow> mempool (vio (relay_of (snd (ensure_mempool env i st)) i)) \<noteq> None"
    using assms unfolding ensure_mempool_def a Let_def
    by (auto simp: d map_vio_def put_relay_def split: if_splits option.splits)
qed

lemma dev_queue_configure_prepares:
  assumes "i < MAX_RELAYS st" "dev_queue_configure env p i b st = (err, st')"
  shows "prepares i st st'" "err = 0 \<Longrightarrow> mempool (vio (relay_of st' i)) \<noteq> None"
proof -
  define st1 where "st1 = snd (snd (call_info env p st))"
  define info where "info = fst (snd (call_info env p st))"
  define jumbo where "jumbo = use_jumbo (relay_of st1 i)"
  define st2 where "st2 = snd (call_rc env (Rte_eth_dev_configure p 1 1 (port_conf env (g_conf st1) jumbo info)) st1)"
  define st3 where "st3 = snd (if b then (0, st2)
    else call_rc env (Rte_eth_dev_set_mtu p (if jumbo then JUMBO_IP_MTU else DEFAULT_IP_MTU)) st2)"
  define st4 where "st4 = snd (ensure_mempool env i st3)"
  define st5 where "st5 = snd (setup_queues env i p st4)"
  have l: "logs st st1" "logs st1 st2" "logs st2 st3" "logs st4 st5"
    unfolding st1_def st2_def st3_def st5_def by (auto intro: logs_intros)
  have l3: "logs st st3" "logs st st2" using l by (blast intro: logs_trans)+
  have r3: "i < MAX_RELAYS st3" using logs_sel(1) [OF l3(1)] assms(1) by simp
  have p3: "prepares i st st3" by (rule logs_prepares [OF assms(1) l3(1)])
  have p4: "prepares i st st4"
    unfolding st4_def by (rule prepares_trans [OF assms(1) p3 ensure_mempool_prepares(1) [OF r3]])
  have r4: "i < MAX_RELAYS st4" using prepares_relays [OF p4] assms(1) by simp
  have p5: "prepares i st st5" by (rule prepares_trans [OF assms(1) p4 logs_prepares [OF r4 l(4)]])
  have cases: "st' = st1 \<or> st' = st2 \<or> st' = st3 \<or> st' = st4 \<or> st' = st5"
    "err = 0 \<Longrightarrow> st' = st5 \<and> fst (ensure_mempool env i st3)"
    using assms(2) unfolding dev_queue_configure_def Let_def case_prod_beta st1_def [symmetric] info_def [symmetric]
      jumbo_def [symmetric] st2_def [symmetric] st3_def [symmetric] st4_def [symmetric]
    by (auto simp: st5_def split: if_splits)
  show "prepares i st st'"
    using cases(1) p3 p4 p5 logs_prepares [OF assms(1) l(1)] logs_prepares [OF assms(1) l3(2)] by blast
  show "mempool (vio (relay_of st' i)) \<noteq> None" if "err = 0"
    using cases(2) [OF that] ensure_mempool_prepares(2) [OF r3, of env] logs_sel(1) [OF l(4)]
    by (simp add: st4_def)
qed

lemma init_vf_prepares:
  assumes "i < MAX_RELAYS st" "init_vf env dbdf i p0 st = (err, p, st')"
  shows "prepares i st st'"
proof -
  define st1 where "st1 = snd (call_rc env (Rte_dev_probe dbdf) st)"
  define st2 where "st2 = did (Rte_eth_matching_dev dbdf) st1"
  have l: "logs st st1" "logs st1 st2" unfolding st1_def st2_def by (auto intro: logs_intros)
  then have l2: "logs st st2" by (rule logs_trans)
  have r2: "i < MAX_RELAYS st2" using logs_sel(1) [OF l2] assms(1) by simp
  have p2: "prepares i st st2" by (rule logs_prepares [OF assms(1) l2])
  have dq: "prepares i st st''" if "dev_queue_configure env q i False st2 = (e, st3)" "logs st3 st''" for q e st3 st''
  proof -
    have p3: "prepares i st st3"
      by (rule prepares_trans [OF assms(1) p2 dev_queue_configure_prepares(1) [OF r2 that(1)]])
    have "i < MAX_RELAYS st3" using prepares_relays [OF p3] assms(1) by simp
    then show ?thesis using prepares_trans [OF assms(1) p3 logs_prepares [OF _ that(2)]] by blast
  qed
  have fail: "logs st3 (snd (cleanup_eth_dev env q (did Rte_eth_iterator_cleanup st3)))"
    and good: "logs st3 (did Rte_eth_iterator_cleanup (did (Rte_eth_promiscuous_enable q) st3))" for q st3
    by (rule logs_trans [OF logs_did logs_cleanup], rule logs_trans [OF logs_did logs_did])
  show ?thesis
  proof (cases "fst (call_rc env (Rte_dev_probe dbdf) st) \<noteq> 0 \<or> e_port env (hist st1) (Rte_eth_matching_dev dbdf) = None")
    case True
    then show ?thesis
      using assms(2) p2 logs_prepares [OF assms(1) l(1)]
      by (auto simp: init_vf_def Let_def case_prod_beta st1_def st2_def split: if_splits)
  next
    case False
    then obtain q where q: "e_port env (hist st1) (Rte_eth_matching_dev dbdf) = Some q" by auto
    obtain e st3 where c: "dev_queue_configure env q i False st2 = (e, st3)" by fastforce
    have "st' = (if e \<noteq> 0 then snd (cleanup_eth_dev env q (did Rte_eth_iterator_cleanup st3))
        else did Rte_eth_iterator_cleanup (did (Rte_eth_promiscuous_enable q) st3))"
      using assms(2) False q c by (auto simp: init_vf_def Let_def case_prod_beta st1_def st2_def split: if_splits)
    then show ?thesis using dq [OF c fail] dq [OF c good] by (auto split: if_splits)
  qed
qed

text \<open>Only update requests were made to threads.\<close>

definition flagged :: "worker_thread list \<Rightarrow> worker_thread list \<Rightarrow> bool" where
  "flagged ts ts' \<longleftrightarrow> list_all2 (\<lambda>t t'. t' = t \<or> t' = t\<lparr>need_update := True\<rparr>) ts ts'"

lemma flagged_refl [simp]: "flagged ts ts"
  by (simp add: flagged_def list_all2_refl)

lemma flagged_trans:
  assumes "flagged ts ts'" "flagged ts' ts''"
  shows "flagged ts ts''"
  unfolding flagged_def by (rule list_all2_trans [OF _ assms [unfolded flagged_def]]) auto

lemma flagged_length: "flagged ts ts' \<Longrightarrow> length ts' = length ts"
  by (auto simp: flagged_def list_all2_lengthD)

lemma flag_thread_effect:
  assumes "flag_thread c st = Some st'"
  shows "st' = st\<lparr>worker_threads := worker_threads st'\<rparr>" "flagged (worker_threads st) (worker_threads st')"
    "0 \<le> c" "nat c < length (worker_threads st)" "need_update (worker_threads st' ! nat c)"
  using assms
  by (auto simp: flag_thread_def signal_update_def flagged_def list_all2_conv_all_nth nth_list_update split: if_splits)

lemma find_vf2virtio_cpu_effect:
  assumes "i < MAX_RELAYS st" "find_vf2virtio_cpu i st = Some st'"
  obtains c ts where "st' = (map_dpdk i (\<lambda>d. d\<lparr>vf2vio_cpu := c\<rparr>) st)\<lparr>worker_threads := ts\<rparr>"
    "c \<noteq> -1" "flagged (worker_threads st) ts"
proof -
  obtain conf where conf: "array_get (conf_relay_cpus (g_conf st)) (relay_id (relay_of st i)) = Some conf"
    using assms(2) by (auto simp: find_vf2virtio_cpu_def bind_Some_iff)
  show ?thesis
  proof (cases "conf_vf2vio_cpu conf \<noteq> -1")
    case True
    then show ?thesis
      using assms(2) conf by (intro that [where c = "conf_vf2vio_cpu conf" and ts = "worker_threads st"])
        (auto simp: find_vf2virtio_cpu_def map_dpdk_def put_relay_def)
  next
    case False
    obtain st1 where 1: "(if vf2vio_cpu (dpdk (relay_of st i)) \<noteq> -1
        then do { st \<leftarrow> flag_thread (vf2vio_cpu (dpdk (relay_of st i))) st;
                  Some (map_dpdk i (\<lambda>d. d\<lparr>vf2vio_cpu := -1\<rparr>) st) }
        else Some st) = Some st1"
      and 2: "naive_get_idlest_worker st1 (mempool_socket_id (vio (relay_of st1 i))) \<bind>
        (\<lambda>c. if 0 \<le> c then Some (map_dpdk i (\<lambda>d. d\<lparr>vf2vio_cpu := c\<rparr>) st1) else None) = Some st'"
      using assms(2) conf False by (auto simp: find_vf2virtio_cpu_def bind_Some_iff simp del: if_split split: if_splits)
    obtain c where c: "0 \<le> c" "st' = map_dpdk i (\<lambda>d. d\<lparr>vf2vio_cpu := c\<rparr>) st1"
      using 2 by (auto simp: bind_Some_iff split: if_splits)
    have "st' = (map_dpdk i (\<lambda>d. d\<lparr>vf2vio_cpu := c\<rparr>) st)\<lparr>worker_threads := worker_threads st1\<rparr> \<and>
        flagged (worker_threads st) (worker_threads st1)"
      unfolding c(2) using 1 assms(1)
      by (auto simp: flag_thread_def signal_update_def bind_Some_iff map_dpdk_def put_relay_def flagged_def
          list_all2_conv_all_nth nth_list_update split: if_splits)
    then show ?thesis using that c(1) by simp
  qed
qed

lemma find_virtio2vf_cpu_effect:
  assumes "i < MAX_RELAYS st" "find_virtio2vf_cpu i st = Some st'"
  obtains c ts where "st' = (map_vio i (\<lambda>v. v\<lparr>vio2vf_cpu := c\<rparr>) st)\<lparr>worker_threads := ts\<rparr>"
    "c \<noteq> -1" "flagged (worker_threads st) ts"
proof -
  obtain conf where conf: "array_get (conf_relay_cpus (g_conf st)) (relay_id (relay_of st i)) = Some conf"
    using assms(2) by (auto simp: find_virtio2vf_cpu_def bind_Some_iff)
  show ?thesis
  proof (cases "conf_vio2vf_cpu conf \<noteq> -1")
    case True
    then show ?thesis
      using assms(2) conf by (intro that [where c = "conf_vio2vf_cpu conf" and ts = "worker_threads st"])
        (auto simp: find_virtio2vf_cpu_def map_vio_def put_relay_def)
  next
    case False
    obtain st1 where 1: "(if vio2vf_cpu (vio (relay_of st i)) \<noteq> -1
        then do { st \<leftarrow> flag_thread (vio2vf_cpu (vio (relay_of st i))) st;
                  Some (map_vio i (\<lambda>v. v\<lparr>vio2vf_cpu := -1\<rparr>) st) }
        else Some st) = Some st1"
      and 2: "naive_get_idlest_worker st1 (mempool_socket_id (vio (relay_of st1 i))) \<bind>
        (\<lambda>c. if 0 \<le> c then Some (map_vio i (\<lambda>v. v\<lparr>vio2vf_cpu := c\<rparr>) st1) else None) = Some st'"
      using assms(2) conf False by (auto simp: find_virtio2vf_cpu_def bind_Some_iff simp del: if_split split: if_splits)
    obtain c where c: "0 \<le> c" "st' = map_vio i (\<lambda>v. v\<lparr>vio2vf_cpu := c\<rparr>) st1"
      using 2 by (auto simp: bind_Some_iff split: if_splits)
    have "st' = (map_vio i (\<lambda>v. v\<lparr>vio2vf_cpu := c\<rparr>) st)\<lparr>worker_threads := worker_threads st1\<rparr> \<and>
        flagged (worker_threads st) (worker_threads st1)"
      unfolding c(2) using 1 assms(1)
      by (auto simp: flag_thread_def signal_update_def bind_Some_iff map_vio_def put_relay_def flagged_def
          list_all2_conv_all_nth nth_list_update split: if_splits)
    then show ?thesis using that c(1) by simp
  qed
qed

lemma configure_effect:
  assumes "i < MAX_RELAYS st" "configure_dev_with_virtio env dbdf p i b n st = Some (err, st')"
  shows "err \<noteq> 0 \<Longrightarrow> logs st st'"
    and "err = 0 \<Longrightarrow> \<exists>c ts d. st' = (put_relay i ((relay_of st i)\<lparr>
           vio := (vio (relay_of st i))\<lparr>lm_pending := False\<rparr>,
           dpdk := (dpdk (relay_of st i))\<lparr>dpdk_port := p, pci_dbdf := strlcpy dbdf 20, vf2vio_cpu := c,
             dpdk_state := (if vio_state (vio (relay_of st i)) = VIRTIO_READY then DPDK_READY else DPDK_ADDED),
             is_bond := b, num_slaves := n\<rparr>\<rparr>) st)\<lparr>worker_threads := ts, hist := hist st @ d\<rparr> \<and>
         0 \<le> c \<and> flagged (worker_threads st) ts \<and> nat c < length ts \<and> need_update (ts ! nat c)"
proof -
  let ?ready = "vio_state (vio (relay_of st i)) = VIRTIO_READY"
  define e1 where "e1 = (if ?ready then start_eth_dev env p st else (0, snd (call_rc env (Rte_eth_dev_stop p) st)))"
  have l: "logs st (snd e1)" unfolding e1_def by (auto intro: logs_intros)
  then obtain d where d: "snd e1 = st\<lparr>hist := hist st @ d\<rparr>" by (auto simp: logs_def)
  define st2 where "st2 = map_dpdk i (\<lambda>d. d\<lparr>dpdk_port := p, pci_dbdf := strlcpy dbdf 20\<rparr>)
    (map_vio i (\<lambda>v. v\<lparr>lm_pending := False\<rparr>) (snd e1))"
  have eq: "configure_dev_with_virtio env dbdf p i b n st =
    (if fst e1 \<noteq> 0 then Some (1, snd e1)
     else find_vf2virtio_cpu i st2 \<bind> (\<lambda>st.
       let st = map_dpdk i (\<lambda>d. d\<lparr>dpdk_state := (if ?ready then DPDK_READY else DPDK_ADDED), is_bond := b, num_slaves := n\<rparr>) st
       in flag_thread (vf2vio_cpu (dpdk (relay_of st i))) st \<bind> (\<lambda>st. Some (0, st))))"
    unfolding configure_dev_with_virtio_def Let_def e1_def [symmetric] case_prod_beta st2_def ..
  show "logs st st'" if "err \<noteq> 0"
    using assms(2) l that unfolding eq by (auto simp: bind_Some_iff Let_def split: if_splits)
  assume "err = 0"
  then obtain st3 where 3: "find_vf2virtio_cpu i st2 = Some st3"
    and 4: "flag_thread (vf2vio_cpu (dpdk (relay_of (map_dpdk i (\<lambda>d. d\<lparr>dpdk_state := (if ?ready then DPDK_READY else DPDK_ADDED),
        is_bond := b, num_slaves := n\<rparr>) st3) i))) (map_dpdk i (\<lambda>d. d\<lparr>dpdk_state := (if ?ready then DPDK_READY else DPDK_ADDED),
        is_bond := b, num_slaves := n\<rparr>) st3) = Some st'"
    using assms(2) unfolding eq by (auto simp: bind_Some_iff Let_def simp del: if_split split: if_split_asm)
  have i2: "i < MAX_RELAYS st2" using assms(1) d by (simp add: st2_def map_dpdk_def map_vio_def put_relay_def)
  obtain c ts where c: "st3 = (map_dpdk i (\<lambda>d. d\<lparr>vf2vio_cpu := c\<rparr>) st2)\<lparr>worker_threads := ts\<rparr>"
    "flagged (worker_threads st2) ts"
    using find_vf2virtio_cpu_effect [OF i2 3] by blast
  note f = flag_thread_effect [OF 4]
  have ts: "flagged (worker_threads st) (worker_threads st')"
    using c f(2) by (auto simp: c(1) st2_def d map_dpdk_def map_vio_def put_relay_def intro: flagged_trans)
  have st': "st' = (put_relay i ((relay_of st i)\<lparr>
           vio := (vio (relay_of st i))\<lparr>lm_pending := False\<rparr>,
           dpdk := (dpdk (relay_of st i))\<lparr>dpdk_port := p, pci_dbdf := strlcpy dbdf 20, vf2vio_cpu := c,
             dpdk_state := (if ?ready then DPDK_READY else DPDK_ADDED),
             is_bond := b, num_slaves := n\<rparr>\<rparr>) st)\<lparr>worker_threads := worker_threads st', hist := hist st @ d\<rparr>"
    by (subst f(1)) (use assms(1) in \<open>simp add: c(1) st2_def d map_dpdk_def map_vio_def put_relay_def\<close>)
  have "0 \<le> c" "nat c < length (worker_threads st')" "need_update (worker_threads st' ! nat c)"
    using f(3-5) assms(1) flagged_length [OF f(2)]
    by (simp_all add: c(1) st2_def d map_dpdk_def map_vio_def put_relay_def)
  then show "\<exists>c ts d. st' = (put_relay i ((relay_of st i)\<lparr>
           vio := (vio (relay_of st i))\<lparr>lm_pending := False\<rparr>,
           dpdk := (dpdk (relay_of st i))\<lparr>dpdk_port := p, pci_dbdf := strlcpy dbdf 20, vf2vio_cpu := c,
             dpdk_state := (if ?ready then DPDK_READY else DPDK_ADDED),
             is_bond := b, num_slaves := n\<rparr>\<rparr>) st)\<lparr>worker_threads := ts, hist := hist st @ d\<rparr> \<and>
         0 \<le> c \<and> flagged (worker_threads st) ts \<and> nat c < length ts \<and> need_update (ts ! nat c)"
    using st' ts by blast
qed

end
