(* ===== verification/Control.thy ===== *)
theory Control
  imports Device
begin

text \<open>
  What the control path guarantees: the outcome of adding and removing VFs and bonds and of
  connecting and disconnecting virtual machines, on success and on every failure, and how
  removal and the worker threads work together.
\<close>

subsection \<open>Adding a VF\<close>

lemma prepares_relay:
  assumes "i < MAX_RELAYS st" "prepares i st st'"
  shows "dpdk (relay_of st' i) = dpdk (relay_of st i)" "vio_state (vio (relay_of st' i)) = vio_state (vio (relay_of st i))"
    "relay_id (relay_of st' i) = relay_id (relay_of st i)" "j \<noteq> i \<Longrightarrow> relay_of st' j = relay_of st j"
    "worker_threads st' = worker_threads st" "MAX_RELAYS st' = MAX_RELAYS st" "g_conf st' = g_conf st"
  using assms by (auto simp: prepares_def map_vio_def put_relay_def)

text \<open>The parts of the outcome of an operation that adds a device to relay \<open>i\<close>.\<close>

definition added :: "nat \<Rightarrow> string \<Rightarrow> bool \<Rightarrow> gstate \<Rightarrow> gstate \<Rightarrow> bool" where
  "added i name bond st st' \<longleftrightarrow>
     (let d = dpdk (relay_of st' i) in
      dpdk_state d = (if vio_state (vio (relay_of st i)) = VIRTIO_READY then DPDK_READY else DPDK_ADDED) \<and>
      pci_dbdf d = strlcpy name 20 \<and> is_bond d = bond \<and>
      0 \<le> vf2vio_cpu d \<and> nat (vf2vio_cpu d) < length (worker_threads st') \<and>
      need_update (worker_threads st' ! nat (vf2vio_cpu d))) \<and>
     vio_state (vio (relay_of st' i)) = vio_state (vio (relay_of st i)) \<and>
     relay_id (relay_of st' i) = relay_id (relay_of st i) \<and>
     MAX_RELAYS st' = MAX_RELAYS st \<and> (\<forall>j. j \<noteq> i \<longrightarrow> relay_of st' j = relay_of st j)"

definition untouched :: "nat \<Rightarrow> gstate \<Rightarrow> gstate \<Rightarrow> bool" where
  "untouched i st st' \<longleftrightarrow>
     dpdk (relay_of st' i) = dpdk (relay_of st i) \<and>
     vio_state (vio (relay_of st' i)) = vio_state (vio (relay_of st i)) \<and>
     worker_threads st' = worker_threads st \<and> MAX_RELAYS st' = MAX_RELAYS st \<and>
     (\<forall>j. j \<noteq> i \<longrightarrow> relay_of st' j = relay_of st j)"

lemma prepares_untouched: "i < MAX_RELAYS st \<Longrightarrow> prepares i st st' \<Longrightarrow> untouched i st st'"
  using prepares_relay [of i st st'] by (simp add: untouched_def)

lemma untouched_trans: "untouched i st st' \<Longrightarrow> untouched i st' st'' \<Longrightarrow> untouched i st st''"
  by (simp add: untouched_def)

lemma logs_untouched: "logs st st' \<Longrightarrow> untouched i st st'"
  using logs_sel [of st st'] by (simp add: untouched_def)

lemma configure_added:
  assumes "i < MAX_RELAYS st" "configure_dev_with_virtio env name p i b n st = Some (0, st')"
  shows "added i name b st st'"
proof -
  obtain c ts d where "st' = (put_relay i ((relay_of st i)\<lparr>
           vio := (vio (relay_of st i))\<lparr>lm_pending := False\<rparr>,
           dpdk := (dpdk (relay_of st i))\<lparr>dpdk_port := p, pci_dbdf := strlcpy name 20, vf2vio_cpu := c,
             dpdk_state := (if vio_state (vio (relay_of st i)) = VIRTIO_READY then DPDK_READY else DPDK_ADDED),
             is_bond := b, num_slaves := n\<rparr>\<rparr>) st)\<lparr>worker_threads := ts, hist := hist st @ d\<rparr>"
    "0 \<le> c" "flagged (worker_threads st) ts" "nat c < length ts" "need_update (ts ! nat c)"
    using configure_effect(2) [OF assms] by blast
  then show ?thesis using assms(1) by (simp add: added_def put_relay_def)
qed

lemma added_after:
  "untouched i st st1 \<Longrightarrow> relay_id (relay_of st1 i) = relay_id (relay_of st i) \<Longrightarrow> added i name b st1 st' \<Longrightarrow>
     added i name b st st'"
  by (simp add: untouched_def added_def)

lemma add_vf2_effect:
  assumes "i < MAX_RELAYS st" "dpdk_state (dpdk (relay_of st i)) = DPDK_UNINIT"
    "virtio_forwarder_add_vf2 env dbdf i c st = Some (err, st')"
  shows "if err = 0 then added i dbdf False st st' else untouched i st st'"
proof -
  obtain e p st1 where 1: "init_vf env dbdf i 0 st = (e, p, st1)" by (cases "init_vf env dbdf i 0 st") auto
  note pr = init_vf_prepares [OF assms(1) 1]
  note u1 = prepares_untouched [OF assms(1) pr]
  have i1: "i < MAX_RELAYS st1" using prepares_relay(6) [OF assms(1) pr] assms(1) by simp
  show ?thesis
  proof (cases "e = 0")
    case False
    then have "err = e" "st' = st1" using assms 1 by (simp_all add: virtio_forwarder_add_vf2_def)
    then show ?thesis using False u1 by simp
  next
    case True
    obtain st2 where 2: "configure_dev_with_virtio env dbdf p i False 0 st1 = Some (err, st2)"
      "st' = (if err \<noteq> 0 then snd (cleanup_eth_dev env p st2) else st2)"
      using assms 1 True by (auto simp: virtio_forwarder_add_vf2_def bind_Some_iff split: if_splits)
    show ?thesis
    proof (cases "err = 0")
      case True
      then show ?thesis
        using configure_added [OF i1] 2 added_after [OF u1 prepares_relay(3) [OF assms(1) pr]] by simp
    next
      case False
      then have "logs st1 st2" using configure_effect(1) [OF i1 2(1)] by simp
      then have "untouched i st1 st'" using 2(2) False logs_untouched logs_cleanup logs_trans by (metis (full_types))
      then show ?thesis using False untouched_trans [OF u1] by simp
    qed
  qed
qed

text \<open>C14: Adding a VF to a free relay either succeeds, and then the relay has the device, is
  ready if its virtual machine is connected and waiting otherwise, and the worker assigned
  to it has been told; or it returns an error, and then the relay, all other relays and the
  workers are as before (only a memory pool may have been given to the relay).\<close>

theorem add_vf2_outcome:
  assumes "i < MAX_RELAYS st" "dpdk_state (dpdk (relay_of st i)) = DPDK_UNINIT"
    "virtio_forwarder_add_vf2 env dbdf i c st = Some (err, st')"
  shows "if err = 0 then added i dbdf False st st' else untouched i st st'"
  by (rule add_vf2_effect [OF assms])

text \<open>The machine with fixed CPUs for its relay, on a library whose calls all succeed.\<close>

definition demo_fixed :: "relay \<Rightarrow> gstate" where
  "demo_fixed r = (demo_state r)\<lparr>g_conf := demo_conf\<lparr>conf_relay_cpus := [\<lparr>conf_vf2vio_cpu = 2, conf_vio2vf_cpu = 1\<rparr>]\<rparr>\<rparr>"

lemma demo_fixed_sel [simp]:
  "virtio_vf_relays (demo_fixed r) = [r]" "worker_threads (demo_fixed r) = demo_threads"
  "conf_relay_cpus (g_conf (demo_fixed r)) = [\<lparr>conf_vf2vio_cpu = 2, conf_vio2vf_cpu = 1\<rparr>]"
  "worker_core_bitmap (demo_fixed r) = 6"
  by (simp_all add: demo_fixed_def)

lemma demo_rc [simp]: "rc demo_env st c = 0" "e_port demo_env h c = Some 5" "e_pool demo_env h c = Some 1"
  by (simp_all add: rc_def demo_env_def)

lemma demo_relay_id: "relay_id (demo_one vs ds) = 0" "mempool (vio (demo_one vs ds)) = Some 1"
  "vio_state (vio (demo_one vs ds)) = vs" "dpdk_state (dpdk (demo_one vs ds)) = ds"
  by (simp_all add: demo_one_def demo_relay_def demo_vio_def)

lemma demo_init_vf:
  assumes "i < MAX_RELAYS st" "mempool (vio (relay_of st i)) \<noteq> None"
  shows "\<exists>st'. init_vf demo_env dbdf i p0 st = (0, 5, st') \<and> logs st st'"
  using assms
  by (auto simp: init_vf_def dev_queue_configure_def ensure_mempool_def setup_queues_def call_rc_def call_info_def
      Let_def logs_sel [OF logs_did] intro!: logs_intros)

lemma demo_configure:
  assumes "logs (demo_fixed r) st" "relay_id r = 0"
  shows "\<exists>st'. configure_dev_with_virtio demo_env dbdf p 0 b n st = Some (0, st')"
proof -
  obtain d where "st = (demo_fixed r)\<lparr>hist := hist (demo_fixed r) @ d\<rparr>" using assms(1) by (auto simp: logs_def)
  then show ?thesis
    using assms(2)
    by (cases "vio_state (vio r) = VIRTIO_READY")
      (simp_all add: configure_dev_with_virtio_def start_eth_dev_def call_rc_def did_def map_vio_def map_dpdk_def
        put_relay_def find_vf2virtio_cpu_def array_get_def flag_thread_def Let_def)
qed

lemma demo_add_vf:
  "\<exists>st'. virtio_forwarder_add_vf2 demo_env dbdf 0 c (demo_fixed (demo_one vs DPDK_UNINIT)) = Some (0, st')"
proof -
  let ?st = "demo_fixed (demo_one vs DPDK_UNINIT)"
  obtain st1 where 1: "init_vf demo_env dbdf 0 0 ?st = (0, 5, st1)" "logs ?st st1"
    using demo_init_vf [of 0 ?st] by (auto simp: demo_relay_id)
  obtain st2 where "configure_dev_with_virtio demo_env dbdf 5 0 False 0 st1 = Some (0, st2)"
    using demo_configure [OF 1(2) demo_relay_id(1)] by blast
  then show ?thesis using 1(1) by (simp add: virtio_forwarder_add_vf2_def demo_relay_id)
qed

theorem add_vf2_outcome_witness:
  "\<exists>st'. virtio_forwarder_add_vf2 demo_env ''0000:05:08.1'' 0 False (demo_fixed (demo_one VIRTIO_READY DPDK_UNINIT)) = Some (0, st') \<and>
    dpdk_state (dpdk (relay_of st' 0)) = DPDK_READY"
proof -
  let ?st = "demo_fixed (demo_one VIRTIO_READY DPDK_UNINIT)"
  obtain st' where e: "virtio_forwarder_add_vf2 demo_env ''0000:05:08.1'' 0 False ?st = Some (0, st')"
    using demo_add_vf by blast
  have "0 < MAX_RELAYS ?st" "dpdk_state (dpdk (relay_of ?st 0)) = DPDK_UNINIT" by (simp_all add: demo_relay_id)
  from add_vf2_outcome [OF this e] have "dpdk_state (dpdk (relay_of st' 0)) = DPDK_READY"
    by (simp add: added_def Let_def demo_relay_id)
  then show ?thesis using e by blast
qed

text \<open>After a VF with an address of at most 19 characters has been added, adding it again
  conditionally does nothing and reports success, while an unconditional add is refused with
  error 8.\<close>

theorem add_vf2_again:
  assumes "i < MAX_RELAYS st" "dpdk_state (dpdk (relay_of st i)) = DPDK_UNINIT" "relay_id (relay_of st i) = i"
    "length dbdf < 20" "virtio_forwarder_add_vf2 env dbdf i c st = Some (0, st')"
  shows "virtio_forwarder_add_vf2 env' dbdf i True st' = Some (0, st') \<and>
    virtio_forwarder_add_vf2 env' dbdf i False st' = Some (8, st')"
  using add_vf2_effect [OF assms(1,2,5)] assms(1,3,4)
  by (auto simp: added_def Let_def virtio_forwarder_add_vf2_def conditional_add_ok_def pci_dbdf_equal_def)

theorem add_vf2_again_witness:
  "\<exists>st'. virtio_forwarder_add_vf2 demo_env ''0000:05:08.1'' 0 False (demo_fixed (demo_one VIRTIO_READY DPDK_UNINIT)) = Some (0, st') \<and>
    virtio_forwarder_add_vf2 demo_env ''0000:05:08.1'' 0 True st' = Some (0, st')"
proof -
  let ?st = "demo_fixed (demo_one VIRTIO_READY DPDK_UNINIT)"
  obtain st' where e: "virtio_forwarder_add_vf2 demo_env ''0000:05:08.1'' 0 False ?st = Some (0, st')"
    using demo_add_vf by blast
  have "0 < MAX_RELAYS ?st" "dpdk_state (dpdk (relay_of ?st 0)) = DPDK_UNINIT" "relay_id (relay_of ?st 0) = 0"
    "length ''0000:05:08.1'' < 20"
    by (simp_all add: demo_relay_id)
  from add_vf2_again [OF this e] e show ?thesis by blast
qed

subsection \<open>Bonds\<close>

lemma swap_mempool_relays:
  "swap_mempool i p n st = Some st' \<Longrightarrow> MAX_RELAYS st' = MAX_RELAYS st"
  by (auto simp: swap_mempool_def Let_def map_vio_def put_relay_def did_def split: if_splits)

lemma migrate_mempool_relays:
  assumes "migrate_mempool env i node n st = Some (err, st')"
  shows "MAX_RELAYS st' = MAX_RELAYS st"
proof -
  obtain p st1 where a: "alloc_mempool env (relay_id (relay_of st i)) node n st = (p, st1)" by fastforce
  have m1: "MAX_RELAYS st1 = MAX_RELAYS st" using logs_alloc_mempool logs_sel(1) a by (metis snd_conv)
  show ?thesis
  proof (cases p)
    case None
    then show ?thesis using assms a m1 by (simp add: migrate_mempool_def)
  next
    case (Some q)
    let ?d = "dpdk (relay_of st1 i)"
    let ?port = "dpdk_port (dpdk (relay_of st i)) mod 256"
    define st2 where "st2 = (if dpdk_state ?d = DPDK_ADDED then snd (call_rc env (Rte_eth_dev_stop ?port) st1) else st1)"
    have m2: "MAX_RELAYS st2 = MAX_RELAYS st1" by (simp add: st2_def call_rc_def did_def)
    obtain st3 where 3: "swap_mempool i q node st2 = Some st3"
      "st' = (if dpdk_state ?d = DPDK_ADDED then snd (reconfigure_queues env i ?port st3) else st3)"
      using assms a Some by (auto simp: migrate_mempool_def Let_def st2_def bind_Some_iff split: if_splits)
    then show ?thesis
      using swap_mempool_relays [OF 3(1)] m1 m2 logs_sel(1) [OF logs_reconfigure] by simp
  qed
qed

lemma init_slaves_relays:
  "init_slaves env b i ss k ids st = Some (ok, ids', st') \<Longrightarrow> i < MAX_RELAYS st \<Longrightarrow> MAX_RELAYS st' = MAX_RELAYS st"
proof (induction ss arbitrary: k ids st)
  case Nil
  then show ?case by simp
next
  case (Cons s ss)
  obtain p0 where p0: "array_get ids k = Some p0" using Cons.prems(1) by (auto simp: bind_Some_iff)
  obtain e p st1 where 1: "init_vf env s i p0 st = (e, p, st1)" by (cases "init_vf env s i p0 st") auto
  have m: "MAX_RELAYS st1 = MAX_RELAYS st" by (rule prepares_relays [OF init_vf_prepares [OF Cons.prems(2) 1]])
  have m2: "MAX_RELAYS (did c st1) = MAX_RELAYS st1" for c by (simp add: did_def)
  show ?case
    using Cons.prems p0 1 m m2 Cons.IH [of "Suc k" "ids[k := p]" "did (Rte_eth_bond_slave_add b p) st1"]
    by (auto simp: Let_def split: if_splits)
qed

lemma bond_add_effect:
  assumes "virtio_forwarder_bond_add env g ss name mode i st = Some (0, st')"
  obtains st1 p where "i < MAX_RELAYS st1" "configure_dev_with_virtio env name p i True (length ss) st1 = Some (0, st')"
proof -
  have i: "i < MAX_RELAYS st" using assms by (auto simp: virtio_forwarder_bond_add_def split: if_splits)
  define sock where "sock = mempool_socket_id (vio (relay_of st i))"
  define node where "node = (if sock = SOCKET_ID_ANY then 0 else sock)"
  obtain e1 st1 where 1: "call_rc env (Rte_eth_bond_create name mode node) st = (e1, st1)" by fastforce
  obtain u st2 where 2: "slave_in_use env ss st1 = (u, st2)" by fastforce
  have m2: "MAX_RELAYS st2 = MAX_RELAYS st"
    using logs_sel(1) [OF logs_trans [OF logs_call(1) [of st env "Rte_eth_bond_create name mode node"]
          logs_slave_in_use [of "snd (call_rc env (Rte_eth_bond_create name mode node) st)" env ss]]] 1 2
    by simp
  obtain e3 st3 where 3: "migrate_mempool env i node (sub_u32 (length ss * NUM_PKTMBUF_POOL) 1) st2 = Some (e3, st3)"
    using assms i 1 2 unfolding virtio_forwarder_bond_add_def Let_def sock_def [symmetric] node_def [symmetric]
    by (auto simp: bind_Some_iff split: if_splits)
  have i3: "i < MAX_RELAYS st3" using migrate_mempool_relays [OF 3] m2 i by simp
  obtain e4 st4 where 4: "dev_queue_configure env (nat e1) i True st3 = (e4, st4)" by fastforce
  have i4: "i < MAX_RELAYS st4"
    using prepares_relays [OF dev_queue_configure_prepares(1) [OF i3 4]] i3 by simp
  obtain ok ids st5 where 5: "init_slaves env (nat e1) i ss 0 g st4 = Some (ok, ids, st5)"
    "configure_dev_with_virtio env name (nat e1) i True (length ss) st5 = Some (0, st')"
    using assms i 1 2 3 4 unfolding virtio_forwarder_bond_add_def Let_def sock_def [symmetric] node_def [symmetric]
    by (auto simp: bind_Some_iff split: if_splits)
  have "i < MAX_RELAYS st5" using init_slaves_relays [OF 5(1) i4] i4 by simp
  then show ?thesis using that 5(2) by blast
qed

text \<open>A bond (or VF) whose name has 20 characters or more cannot be removed by that name: the
  relay keeps only the first 19 characters, and the comparison on removal fails with error 3.\<close>

theorem bond_long_name_stuck:
  assumes "virtio_forwarder_bond_add env g ss name mode i st = Some (0, st')" "20 \<le> length name"
  shows "virtio_forwarder_remove_vf2 env' sched name i c st' = Some (3, st')"
proof -
  obtain st1 p where 1: "i < MAX_RELAYS st1"
    "configure_dev_with_virtio env name p i True (length ss) st1 = Some (0, st')"
    using bond_add_effect [OF assms(1)] by blast
  have a: "added i name True st1 st'" by (rule configure_added [OF 1])
  have "length (take 19 name) \<noteq> length name" using assms(2) by simp
  then have "name \<noteq> take 19 name" by metis
  then show ?thesis
    using a 1(1)
    by (auto simp: added_def Let_def virtio_forwarder_remove_vf2_def pci_dbdf_equal_def strlcpy_def split: if_splits)
qed

text \<open>A library on which no slave is attached yet.\<close>

definition demo_bond_env :: env where
  "demo_bond_env = demo_env\<lparr>e_rc := \<lambda>h c. case c of Rte_eth_dev_get_port_by_name s \<Rightarrow> -1 | _ \<Rightarrow> 0\<rparr>"

lemma demo_bond_rc [simp]:
  "rc demo_bond_env st c = (case c of Rte_eth_dev_get_port_by_name s \<Rightarrow> -1 | _ \<Rightarrow> 0)"
  "e_port demo_bond_env h c = Some 5" "e_pool demo_bond_env h c = Some 1"
  by (simp_all add: rc_def demo_bond_env_def demo_env_def)

abbreviation demo_fx :: "relay \<Rightarrow> hist \<Rightarrow> gstate" where
  "demo_fx r h \<equiv> (demo_fixed r)\<lparr>hist := h\<rparr>"

lemma demo_fx_put [simp]:
  "put_relay 0 r' (demo_fx r h) = demo_fx r' h" "did c (demo_fx r h) = demo_fx r (h @ [Did c])"
  by (simp_all add: put_relay_def did_def demo_fixed_def demo_state_def)

lemma demo_fx_logs: "logs (demo_fx r h) st \<Longrightarrow> \<exists>h'. st = demo_fx r h'"
  by (auto simp: logs_def)

lemma demo_bond_configure:
  assumes "mempool (vio r) \<noteq> None"
  shows "\<exists>h'. dev_queue_configure demo_bond_env p 0 b (demo_fx r h) = (0, demo_fx r h')"
  using assms by (auto simp: dev_queue_configure_def ensure_mempool_def setup_queues_def call_rc_def call_info_def Let_def)

lemma demo_bond_init_vf:
  assumes "mempool (vio r) \<noteq> None"
  shows "\<exists>h'. init_vf demo_bond_env dbdf 0 p0 (demo_fx r h) = (0, 5, demo_fx r h')"
proof -
  let ?h = "h @ [Did (Rte_dev_probe dbdf)] @ [Did (Rte_eth_matching_dev dbdf)]"
  obtain h' where "dev_queue_configure demo_bond_env 5 0 False (demo_fx r ?h) = (0, demo_fx r h')"
    using demo_bond_configure [OF assms] by blast
  then show ?thesis by (auto simp: init_vf_def call_rc_def Let_def)
qed

lemma demo_bond_migrate:
  assumes "dpdk_state (dpdk r) = DPDK_UNINIT" "rx_pkts_avail (dpdk r) = 0" "\<not> vio_sl (vio r)" "\<not> dpdk_sl (dpdk r)"
  shows "\<exists>h'. migrate_mempool demo_bond_env 0 node n (demo_fx r h) =
    Some (0, demo_fx (r\<lparr>vio := (vio r)\<lparr>mempool := Some 1, mempool_socket_id := node\<rparr>\<rparr>) h')"
proof -
  obtain h1 where "alloc_mempool demo_bond_env (relay_id r) node n (demo_fx r h) = (Some 1, demo_fx r h1)"
    by (auto simp: alloc_mempool_def call_pool_def Let_def)
  then show ?thesis using assms by (auto simp: migrate_mempool_def swap_mempool_def map_vio_def Let_def)
qed

lemma demo_bond_add:
  "\<exists>st'. virtio_forwarder_bond_add demo_bond_env [0, 0] [s] name 1 0 (demo_fixed (init_relay 0 (-1) False)) = Some (0, st')"
proof -
  define r where "r = init_relay 0 (-1) False"
  define r' where "r' = r\<lparr>vio := (vio r)\<lparr>mempool := Some 1, mempool_socket_id := 0\<rparr>\<rparr>"
  have sel: "dpdk_state (dpdk r) = DPDK_UNINIT" "rx_pkts_avail (dpdk r) = 0" "\<not> vio_sl (vio r)" "\<not> dpdk_sl (dpdk r)"
    "mempool_socket_id (vio r) = SOCKET_ID_ANY" "relay_id r' = 0"
    by (simp_all add: r_def r'_def init_relay_def SOCKET_ID_ANY_def)
  have pool: "mempool (vio r') \<noteq> None" by (simp add: r'_def)
  have eta: "demo_fixed r = demo_fx r []" by (simp add: demo_fixed_def demo_state_def)
  let ?h1 = "[Did (Rte_eth_bond_create name 1 0)] @ [Did (Rte_eth_dev_get_port_by_name s)]"
  obtain h2 where 2: "migrate_mempool demo_bond_env 0 0 (sub_u32 NUM_PKTMBUF_POOL 1) (demo_fx r ?h1) = Some (0, demo_fx r' h2)"
    using demo_bond_migrate [OF sel(1-4)] unfolding r'_def by blast
  obtain h3 where 3: "dev_queue_configure demo_bond_env 0 0 True (demo_fx r' h2) = (0, demo_fx r' h3)"
    using demo_bond_configure [OF pool] by blast
  obtain h4 where 4: "init_vf demo_bond_env s 0 0 (demo_fx r' h3) = (0, 5, demo_fx r' h4)"
    using demo_bond_init_vf [OF pool] by blast
  obtain st' where 5: "configure_dev_with_virtio demo_bond_env name 0 0 True 1 (demo_fx r' (h4 @ [Did (Rte_eth_bond_slave_add 0 5)])) = Some (0, st')"
    using sel(6)
    by (auto simp: configure_dev_with_virtio_def start_eth_dev_def call_rc_def map_vio_def map_dpdk_def
        find_vf2virtio_cpu_def array_get_def flag_thread_def Let_def r'_def r_def init_relay_def)
  show ?thesis
    unfolding r_def [symmetric]
    by (subst eta) (use 2 3 4 5 sel in \<open>simp add: virtio_forwarder_bond_add_def call_rc_def array_get_def Let_def\<close>)
qed

theorem bond_long_name_stuck_witness:
  "\<exists>st'. virtio_forwarder_bond_add demo_bond_env [0, 0] [''0000:05:08.1''] ''net_bonding_for_relay_0'' 1 0
      (demo_fixed (init_relay 0 (-1) False)) = Some (0, st') \<and>
    virtio_forwarder_remove_vf2 demo_bond_env (\<lambda>n st. st) ''net_bonding_for_relay_0'' 0 False st' = Some (3, st')"
proof -
  obtain st' where e: "virtio_forwarder_bond_add demo_bond_env [0, 0] [''0000:05:08.1''] ''net_bonding_for_relay_0'' 1 0
      (demo_fixed (init_relay 0 (-1) False)) = Some (0, st')"
    using demo_bond_add by blast
  have "20 \<le> length ''net_bonding_for_relay_0''" by simp
  from bond_long_name_stuck [OF e this] e show ?thesis by blast
qed

subsection \<open>Removing a VF or a bond\<close>

text \<open>What the other threads leave alone while the control path sleeps: the number of relays and
  of threads, and the wiring of the relay.\<close>

definition others_keep :: "(nat \<Rightarrow> gstate \<Rightarrow> gstate) \<Rightarrow> nat \<Rightarrow> bool" where
  "others_keep sched i \<longleftrightarrow>
     (\<forall>n st. MAX_RELAYS (sched n st) = MAX_RELAYS st \<and>
        length (worker_threads (sched n st)) = length (worker_threads st) \<and>
        wiring (relay_of (sched n st) i) = wiring (relay_of st i))"

lemma wait_until_keeps:
  assumes "others_keep sched i"
  shows "MAX_RELAYS (wait_until P sched n st) = MAX_RELAYS st \<and>
    length (worker_threads (wait_until P sched n st)) = length (worker_threads st) \<and>
    wiring (relay_of (wait_until P sched n st) i) = wiring (relay_of st i)"
proof (induction n arbitrary: st)
  case 0
  then show ?case by simp
next
  case (Suc n)
  then show ?case using assms by (simp add: others_keep_def)
qed

lemma stop_vm2vf_thread_effect:
  assumes "others_keep sched i" "i < MAX_RELAYS st" "0 \<le> vf2vio_cpu (dpdk (relay_of st i))"
    "stop_vm2vf_thread sched i st = (err, st')"
  shows "err = (if dpdk_state (dpdk (relay_of st' i)) = DPDK_UNINIT then 0 else 5)"
    "wiring (relay_of st' i) = wiring (relay_of st i)" "MAX_RELAYS st' = MAX_RELAYS st"
proof -
  let ?st1 = "map_dpdk i (\<lambda>d. d\<lparr>dpdk_state := DPDK_REMOVING1\<rparr>) st"
  have st': "st' = wait_until (\<lambda>st. dpdk_state (dpdk (relay_of st i)) = DPDK_UNINIT) sched 20 ?st1"
    and err: "err = (if dpdk_state (dpdk (relay_of st' i)) = DPDK_UNINIT then 0 else 5)"
    using assms(3,4) by (auto simp: stop_vm2vf_thread_def Let_def simp del: wait_until.simps)
  have w: "wiring (relay_of ?st1 i) = wiring (relay_of st i)" "MAX_RELAYS ?st1 = MAX_RELAYS st"
    using assms(2) by (simp_all add: map_dpdk_def wiring_def)
  show "err = (if dpdk_state (dpdk (relay_of st' i)) = DPDK_UNINIT then 0 else 5)" by (rule err)
  show "wiring (relay_of st' i) = wiring (relay_of st i)" "MAX_RELAYS st' = MAX_RELAYS st"
    using wait_until_keeps [OF assms(1), of "\<lambda>st. dpdk_state (dpdk (relay_of st i)) = DPDK_UNINIT" 20 ?st1] w
    unfolding st' by simp_all
qed

lemma detach_slaves_logs: "detach_slaves env i st = Some (err, st') \<Longrightarrow> logs st st'"
  by (auto simp: detach_slaves_def Let_def call_rc_def logs_refl split: if_splits
      intro!: logs_intros intro: logs_trans [OF logs_did logs_trans [OF logs_remove_slaves logs_cleanup_devs]])

text \<open>The device-specific part of \<open>detach_device\<close> only makes library calls.\<close>

lemma detach_calls_logs:
  assumes "detach_calls env i p st = Some (err, st')"
  shows "logs st st'"
proof (cases "is_bond (dpdk (relay_of st i))")
  case False
  then show ?thesis using assms logs_cleanup [of st env p] by (simp add: detach_calls_def)
next
  case True
  then obtain e st1 where 1: "detach_slaves env i st = Some (e, st1)" and
    2: "st' = snd (call_rc env (Rte_eth_bond_free (pci_dbdf (dpdk (relay_of (snd (call_rc env (Rte_eth_dev_close p)
      (snd (call_rc env (Rte_eth_dev_stop p) st1)))) i)))) (snd (call_rc env (Rte_eth_dev_close p)
      (snd (call_rc env (Rte_eth_dev_stop p) st1)))))"
    using assms by (auto simp: detach_calls_def bind_Some_iff Let_def)
  show ?thesis unfolding 2
    by (rule logs_trans [OF detach_slaves_logs [OF 1] logs_trans [OF logs_call(1) logs_trans [OF logs_call(1) logs_call(1)]]])
qed

lemma flag_thread_relays:
  "flag_thread c st = Some st' \<Longrightarrow> virtio_vf_relays st' = virtio_vf_relays st"
  by (auto simp: flag_thread_def signal_update_def split: if_splits)

lemma detach_device_effect:
  assumes "others_keep sched i" "i < MAX_RELAYS st" "0 \<le> vf2vio_cpu (dpdk (relay_of st i))"
    "detach_device env sched i st = Some (err, st')"
  shows "err \<in> {0, 2, 5}" "err = 5 \<longleftrightarrow> dpdk_state (dpdk (relay_of st' i)) \<noteq> DPDK_UNINIT"
    "err \<noteq> 5 \<Longrightarrow> vf2vio_cpu (dpdk (relay_of st' i)) = -1"
    "err = 0 \<Longrightarrow> pci_dbdf (dpdk (relay_of st' i)) = [] \<and> \<not> is_bond (dpdk (relay_of st' i)) \<and>
       (vio_state (vio (relay_of st' i)) = VIRTIO_UNINIT \<longrightarrow> mempool (vio (relay_of st' i)) = None)"
proof -
  let ?p = "dpdk_port (dpdk (relay_of st i))"
  obtain e1 st1 where 1: "stop_vm2vf_thread sched i st = (e1, st1)" by fastforce
  note s = stop_vm2vf_thread_effect [OF assms(1-3) 1]
  have i1: "i < MAX_RELAYS st1" using s(3) assms(2) by simp
  define st2 where "st2 = map_dpdk i (\<lambda>d. d\<lparr>vf2vio_cpu := -1\<rparr>) st1"
  have d2: "dpdk_state (dpdk (relay_of st2 i)) = dpdk_state (dpdk (relay_of st1 i))"
    "vf2vio_cpu (dpdk (relay_of st2 i)) = -1" "i < MAX_RELAYS st2"
    using i1 by (simp_all add: st2_def map_dpdk_def)
  have "err \<in> {0, 2, 5} \<and> (err = 5 \<longleftrightarrow> dpdk_state (dpdk (relay_of st' i)) \<noteq> DPDK_UNINIT) \<and>
    (err \<noteq> 5 \<longrightarrow> vf2vio_cpu (dpdk (relay_of st' i)) = -1) \<and>
    (err = 0 \<longrightarrow> pci_dbdf (dpdk (relay_of st' i)) = [] \<and> \<not> is_bond (dpdk (relay_of st' i)) \<and>
       (vio_state (vio (relay_of st' i)) = VIRTIO_UNINIT \<longrightarrow> mempool (vio (relay_of st' i)) = None))"
  proof (cases "e1 = 0")
    case False
    then show ?thesis using assms(4) 1 s(1) by (auto simp: detach_device_def split: if_splits)
  next
    case True
    then have un: "dpdk_state (dpdk (relay_of st1 i)) = DPDK_UNINIT" using s(1) by (auto split: if_splits)
    obtain st3 e4 st4 where 3: "flag_thread (vf2vio_cpu (dpdk (relay_of st1 i))) st2 = Some st3"
      and 4: "detach_calls env i ?p st3 = Some (e4, st4)"
      and 5: "(err, st') = (if e4 \<noteq> 0 then (2, st4) else (0, forget_device i st4))"
      using assms(4) True by (auto simp: detach_device_def 1 st2_def bind_Some_iff split: if_splits)
    have "virtio_vf_relays st4 = virtio_vf_relays st2"
      using logs_sel(1) [OF detach_calls_logs [OF 4]] flag_thread_relays [OF 3] by simp
    then have r4: "relay_of st4 i = relay_of st2 i" "i < MAX_RELAYS st4" using d2(3) by simp_all
    then show ?thesis using 5 un d2
      by (auto simp: forget_device_def Let_def map_dpdk_def map_vio_def did_def put_relay_def split: if_splits)
  qed
  then show "err \<in> {0, 2, 5}" "err = 5 \<longleftrightarrow> dpdk_state (dpdk (relay_of st' i)) \<noteq> DPDK_UNINIT"
    "err \<noteq> 5 \<Longrightarrow> vf2vio_cpu (dpdk (relay_of st' i)) = -1"
    "err = 0 \<Longrightarrow> pci_dbdf (dpdk (relay_of st' i)) = [] \<and> \<not> is_bond (dpdk (relay_of st' i)) \<and>
       (vio_state (vio (relay_of st' i)) = VIRTIO_UNINIT \<longrightarrow> mempool (vio (relay_of st' i)) = None)"
    by blast+
qed


text \<open>Workers that keep the wiring.\<close>

lemma locked_wiring:
  "locked_vm2vf env w st = Some (b, st') \<Longrightarrow> w < MAX_RELAYS st \<Longrightarrow> wiring (relay_of st' i) = wiring (relay_of st i)"
  "locked_vf2vm env w st = Some (b, st') \<Longrightarrow> w < MAX_RELAYS st \<Longrightarrow> wiring (relay_of st' i) = wiring (relay_of st i)"
proof -
  have lock: "wiring (r\<lparr>vio := (vio r)\<lparr>vio_sl := l\<rparr>\<rparr>) = wiring r" "wiring (r\<lparr>dpdk := (dpdk r)\<lparr>dpdk_sl := l\<rparr>\<rparr>) = wiring r"
    for r l by (simp_all add: wiring_def)
  assume w: "w < MAX_RELAYS st"
  show "wiring (relay_of st' i) = wiring (relay_of st i)" if l: "locked_vm2vf env w st = Some (b, st')"
  proof (cases "i = w \<and> \<not> vio_sl (vio (relay_of st w))")
    case True
    show ?thesis
    proof (rule locked_vm2vf_relay [OF l w conjunct2 [OF True]])
      fix r h
      assume rd: "relay_vm2vf_traffic env ((relay_of st w)\<lparr>vio := (vio (relay_of st w))\<lparr>vio_sl := True\<rparr>\<rparr>) (hist st) = Some (b, r, h)"
        and r: "relay_of st' w = r\<lparr>vio := (vio r)\<lparr>vio_sl := False\<rparr>\<rparr>"
      show ?thesis using relay_vm2vf_traffic_state(3) [OF rd] True by (simp add: r lock)
    qed
  next
    case False
    then show ?thesis using locked_frame(1) [OF l] l by (auto simp: locked_vm2vf_def rte_spinlock_trylock_def)
  qed
  show "wiring (relay_of st' i) = wiring (relay_of st i)" if l: "locked_vf2vm env w st = Some (b, st')"
  proof (cases "i = w \<and> \<not> dpdk_sl (dpdk (relay_of st w))")
    case True
    show ?thesis
    proof (rule locked_vf2vm_relay [OF l w conjunct2 [OF True]])
      fix r h
      assume rd: "relay_vf2vm_traffic env ((relay_of st w)\<lparr>dpdk := (dpdk (relay_of st w))\<lparr>dpdk_sl := True\<rparr>\<rparr>) (hist st) = Some (b, r, h)"
        and r: "relay_of st' w = r\<lparr>dpdk := (dpdk r)\<lparr>dpdk_sl := False\<rparr>\<rparr>"
      show ?thesis using relay_vf2vm_traffic_state(3) [OF rd] True by (simp add: r lock)
    qed
  next
    case False
    then show ?thesis using locked_frame(2) [OF l] l by (auto simp: locked_vf2vm_def rte_spinlock_trylock_def)
  qed
qed

lemma service_relay_wiring:
  assumes "service_relay env cpu w (p, st) = Some (p', st')"
  shows "wiring (relay_of st' i) = wiring (relay_of st i)"
  using assms
proof (rule service_relayE)
  fix b1 st1 b2
  assume w: "w < MAX_RELAYS st"
    and 1: "(if vio2vf_cpu (vio (relay_of st w)) = cpu then locked_vm2vf env w st else Some (0, st)) = Some (b1, st1)"
    and 2: "(if vf2vio_cpu (dpdk (relay_of st1 w)) = cpu then locked_vf2vm env w st1 else Some (0, st1)) = Some (b2, st')"
  have "wiring (relay_of st1 i) = wiring (relay_of st i)" "MAX_RELAYS st1 = MAX_RELAYS st"
    using 1 locked_wiring(1) [OF _ w] locked_frame(1) by (auto split: if_splits)
  then show ?thesis using 2 w locked_wiring(2) [of env w st1] by (auto split: if_splits)
qed

lemma worker_iteration_keeps:
  assumes "worker_iteration env cpu st = Some (p, st')"
  shows "MAX_RELAYS st' = MAX_RELAYS st \<and> length (worker_threads st') = length (worker_threads st) \<and>
    wiring (relay_of st' i) = wiring (relay_of st i)"
proof -
  have run: "wiring (relay_of st' i) = wiring (relay_of st i)" if "service_relays env c ws (p, st) = Some (p', st')"
    for c ws p p' st st'
    using that
  proof (induction ws arbitrary: p st)
    case Nil
    then show ?case by simp
  next
    case (Cons w ws)
    then obtain a st1 where "service_relay env c w (p, st) = Some (a, st1)" "service_relays env c ws (a, st1) = Some (p', st')"
      by (auto simp: bind_Some_iff)
    then show ?case using Cons.IH service_relay_wiring [of env c w p st a st1 i] by simp
  qed
  obtain st1 where 1: "(if need_update (worker_threads st ! cpu) then update_thread cpu st else Some st) = Some st1"
    and 2: "service_relays env (w_cpu (worker_threads st ! cpu))
      (scan_bits (active_relays (worker_threads st ! cpu))) (False, st1) = Some (p, st')"
    using assms by (auto simp: worker_iteration_def Let_def bind_Some_iff)
  have "virtio_vf_relays st1 = virtio_vf_relays st" "length (worker_threads st1) = length (worker_threads st)"
    using 1 update_thread_frame by (auto split: if_splits)
  then show ?thesis using run [OF 2] service_relays_frame [OF 2] by simp
qed

text \<open>While the control path sleeps, the thread of each direction runs one iteration.\<close>

definition workers_sched :: "env \<Rightarrow> nat \<Rightarrow> nat \<Rightarrow> nat \<Rightarrow> gstate \<Rightarrow> gstate" where
  "workers_sched env ca cb n st =
     (case worker_iteration env ca st of
        None \<Rightarrow> st
      | Some (_, st1) \<Rightarrow> (case worker_iteration env cb st1 of None \<Rightarrow> st1 | Some (_, st2) \<Rightarrow> st2))"

lemma workers_sched_keep: "others_keep (workers_sched env ca cb) i"
proof -
  have "MAX_RELAYS (workers_sched env ca cb n st) = MAX_RELAYS st \<and>
      length (worker_threads (workers_sched env ca cb n st)) = length (worker_threads st) \<and>
      wiring (relay_of (workers_sched env ca cb n st) i) = wiring (relay_of st i)" for n st
    using worker_iteration_keeps [of env ca st _ _ i] worker_iteration_keeps [of env cb _ _ _ i]
    by (auto simp: workers_sched_def split: option.splits)
  then show ?thesis by (simp add: others_keep_def)
qed

lemma wait_until_first:
  assumes "P (sched n st)"
  shows "wait_until P sched (Suc n) st = (if P st then st else sched n st)"
  using assms by (cases n) simp_all

lemma stop_workers:
  assumes "i < MAX_RELAYS st" "assigned st i c1 c2" "0 \<le> vf2vio_cpu (dpdk (relay_of st i))"
    "worker_iteration env c2 (map_dpdk i (\<lambda>d. d\<lparr>dpdk_state := DPDK_REMOVING1\<rparr>) st) = Some (p1, st1)"
    "worker_iteration env c1 st1 = Some (p2, st2)"
  shows "stop_vm2vf_thread (workers_sched env c2 c1) i st = (0, st2) \<and>
    tx_pkts_avail (vio (relay_of st2 i)) = 0 \<and> rx_pkts_avail (dpdk (relay_of st2 i)) = 0"
proof -
  let ?st = "map_dpdk i (\<lambda>d. d\<lparr>dpdk_state := DPDK_REMOVING1\<rparr>) st"
  let ?P = "\<lambda>st. dpdk_state (dpdk (relay_of st i)) = DPDK_UNINIT"
  have a: "assigned ?st i c1 c2" using assms(1,2) by (simp add: assigned_def map_dpdk_def)
  have s: "dpdk_state (dpdk (relay_of ?st i)) = DPDK_REMOVING1" using assms(1) by (simp add: map_dpdk_def)
  note r = vf_removal [OF a s assms(4,5)]
  have w: "workers_sched env c2 c1 n ?st = st2" for n using assms(4,5) by (simp add: workers_sched_def)
  have "wait_until ?P (workers_sched env c2 c1) (Suc 19) ?st = st2"
    using wait_until_first [of ?P "workers_sched env c2 c1" 19 ?st] w r s by simp
  moreover have "Suc 19 = 20" by simp
  ultimately have "wait_until ?P (workers_sched env c2 c1) 20 ?st = st2" by metis
  then show ?thesis using assms(3) r by (simp add: stop_vm2vf_thread_def Let_def)
qed

lemma demo_removing: "map_dpdk 0 (\<lambda>d. d\<lparr>dpdk_state := s\<rparr>) (demo_state (demo_one vs ds)) = demo_state (demo_one vs s)"
  by (simp add: map_dpdk_def put_relay_def demo_state_def demo_one_def)

lemma demo_removal_runs:
  "\<exists>p1 st1 p2 r2 h2. worker_iteration demo_env 2 (demo_state (demo_one vs DPDK_REMOVING1)) = Some (p1, st1) \<and>
     worker_iteration demo_env 1 st1 = Some (p2, demo_at r2 h2) \<and> demo_like r2"
proof -
  obtain p1 r1 h1 where 1: "worker_iteration demo_env 2 (demo_at (demo_one vs DPDK_REMOVING1) []) = Some (p1, demo_at r1 h1)" "demo_like r1"
    using demo_like_iteration2 [OF demo_one_like] by blast
  obtain p2 r2 h2 where "worker_iteration demo_env 1 (demo_at r1 h1) = Some (p2, demo_at r2 h2)" "demo_like r2"
    using demo_like_iteration1 [OF 1(2)] by blast
  then show ?thesis using 1(1) unfolding demo_at_Nil by blast
qed

lemma demo_one_cpu: "0 \<le> vf2vio_cpu (dpdk (relay_of (demo_state (demo_one vs ds)) 0))"
  using demo_like_cpus(2) [OF demo_one_like, of vs ds] by simp

lemma demo_stop:
  "\<exists>r2 h2. stop_vm2vf_thread (workers_sched demo_env 2 1) 0 (demo_state (demo_one vs DPDK_READY)) = (0, demo_at r2 h2) \<and> demo_like r2"
proof -
  let ?st = "demo_state (demo_one vs DPDK_READY)"
  obtain p1 st1 p2 r2 h2 where e: "worker_iteration demo_env 2 (demo_state (demo_one vs DPDK_REMOVING1)) = Some (p1, st1)"
    "worker_iteration demo_env 1 st1 = Some (p2, demo_at r2 h2)" "demo_like r2"
    using demo_removal_runs by blast
  have "0 < MAX_RELAYS ?st" by simp
  from stop_workers [OF this demo_assigned demo_one_cpu _ e(2)] e(1,3)
  show ?thesis unfolding demo_removing by blast
qed

lemma demo_remove_vf:
  "\<exists>err st'. virtio_forwarder_remove_vf2 demo_env (workers_sched demo_env 2 1) (pci_dbdf (dpdk (demo_one vs DPDK_READY))) 0 c
     (demo_state (demo_one vs DPDK_READY)) = Some (err, st')"
proof -
  obtain r2 h2 where 2: "stop_vm2vf_thread (workers_sched demo_env 2 1) 0 (demo_state (demo_one vs DPDK_READY)) = (0, demo_at r2 h2)"
    "demo_like r2"
    using demo_stop by blast
  have w: "wiring r2 = wiring (demo_relay 1 1 [demo_pkt 8 0])" using 2(2) by (simp add: demo_like_def)
  have bond: "\<not> is_bond (dpdk r2)"
    using arg_cong [OF w, of "\<lambda>r. is_bond (dpdk r)"] by (simp add: wiring_def demo_relay_def demo_dpdk_def)
  have "vf2vio_cpu (dpdk r2) = 2" by (rule demo_like_cpus(2) [OF 2(2)])
  then show ?thesis
    using 2(1) bond
    by (simp add: virtio_forwarder_remove_vf2_def pci_dbdf_equal_def Let_def demo_relay_id detach_device_def
        map_dpdk_def put_relay_def flag_thread_def signal_update_def detach_calls_def case_prod_beta)
qed


text \<open>Removal and workers together: with a worker for each direction of the relay running, the
  request to remove a VF is answered during the first sleep, \<open>stop_vm2vf_thread\<close> succeeds,
  and no packet is left in the relay.\<close>

theorem stop_with_workers:
  assumes "i < MAX_RELAYS st" "assigned st i c1 c2" "0 \<le> vf2vio_cpu (dpdk (relay_of st i))"
    "worker_iteration env c2 (map_dpdk i (\<lambda>d. d\<lparr>dpdk_state := DPDK_REMOVING1\<rparr>) st) = Some (p1, st1)"
    "worker_iteration env c1 st1 = Some (p2, st2)"
  shows "stop_vm2vf_thread (workers_sched env c2 c1) i st = (0, st2) \<and>
    tx_pkts_avail (vio (relay_of st2 i)) = 0 \<and> rx_pkts_avail (dpdk (relay_of st2 i)) = 0"
  by (rule stop_workers [OF assms])

theorem stop_with_workers_witness:
  "\<exists>st2. stop_vm2vf_thread (workers_sched demo_env 2 1) 0 (demo_state (demo_one VIRTIO_READY DPDK_READY)) = (0, st2) \<and>
    rx_pkts_avail (dpdk (relay_of st2 0)) = 0"
proof -
  let ?st = "demo_state (demo_one VIRTIO_READY DPDK_READY)"
  obtain p1 st1 p2 r2 h2 where e: "worker_iteration demo_env 2 (demo_state (demo_one VIRTIO_READY DPDK_REMOVING1)) = Some (p1, st1)"
    "worker_iteration demo_env 1 st1 = Some (p2, demo_at r2 h2)"
    using demo_removal_runs by blast
  have "0 < MAX_RELAYS ?st" by simp
  from stop_with_workers [OF this demo_assigned demo_one_cpu _ e(2)] e(1)
  show ?thesis unfolding demo_removing by blast
qed

end
