(* ===== verification/Connect.thy ===== *)
theory Connect
  imports Control
begin

text \<open>
  Connecting and disconnecting virtual machines: the outcome of
  \<open>virtio_forwarder_add_virtio\<close> and \<open>virtio_forwarder_remove_virtio\<close>, the life of the memory
  pool of a relay, and the initial state.
\<close>

subsection \<open>Memory pools\<close>

text \<open>Besides library calls, at most the memory pool of relay \<open>i\<close> and its node changed; a relay
  with a pool keeps having one.\<close>

definition repools :: "nat \<Rightarrow> gstate \<Rightarrow> gstate \<Rightarrow> bool" where
  "repools i st st' \<longleftrightarrow>
     (\<exists>d m n. st' = (map_vio i (\<lambda>v. v\<lparr>mempool := m, mempool_socket_id := n\<rparr>) st)\<lparr>hist := hist st @ d\<rparr> \<and>
       (mempool (vio (relay_of st i)) \<noteq> None \<longrightarrow> m \<noteq> None))"

lemma repools_logs:
  assumes "i < MAX_RELAYS st" "logs st st'"
  shows "repools i st st'"
proof -
  obtain d where "st' = st\<lparr>hist := hist st @ d\<rparr>" using assms(2) by (auto simp: logs_def)
  then show ?thesis
    unfolding repools_def using assms(1)
    by (intro exI [of _ d] exI [of _ "mempool (vio (relay_of st i))"] exI [of _ "mempool_socket_id (vio (relay_of st i))"])
      (simp add: map_vio_def put_relay_def)
qed

lemma repools_trans:
  assumes "i < MAX_RELAYS st" "repools i st st'" "repools i st' st''"
  shows "repools i st st''"
proof -
  obtain d m n where 1: "st' = (map_vio i (\<lambda>v. v\<lparr>mempool := m, mempool_socket_id := n\<rparr>) st)\<lparr>hist := hist st @ d\<rparr>"
    "mempool (vio (relay_of st i)) \<noteq> None \<longrightarrow> m \<noteq> None"
    using assms(2) by (auto simp: repools_def)
  obtain d' m' n' where 2: "st'' = (map_vio i (\<lambda>v. v\<lparr>mempool := m', mempool_socket_id := n'\<rparr>) st')\<lparr>hist := hist st' @ d'\<rparr>"
    "mempool (vio (relay_of st' i)) \<noteq> None \<longrightarrow> m' \<noteq> None"
    using assms(3) by (auto simp: repools_def)
  have "st'' = (map_vio i (\<lambda>v. v\<lparr>mempool := m', mempool_socket_id := n'\<rparr>) st)\<lparr>hist := hist st @ d @ d'\<rparr>"
    using assms(1) by (simp add: 2(1) 1(1) map_vio_def put_relay_def)
  moreover have "mempool (vio (relay_of st i)) \<noteq> None \<longrightarrow> m' \<noteq> None"
    using 1 2(2) assms(1) by (simp add: map_vio_def put_relay_def)
  ultimately show ?thesis unfolding repools_def by blast
qed

lemma repools_relay:
  assumes "i < MAX_RELAYS st" "repools i st st'"
  shows "dpdk (relay_of st' i) = dpdk (relay_of st i)" "vio_state (vio (relay_of st' i)) = vio_state (vio (relay_of st i))"
    "tx_q_rr (vio (relay_of st' i)) = tx_q_rr (vio (relay_of st i))"
    "max_queue_pairs (vio (relay_of st' i)) = max_queue_pairs (vio (relay_of st i))"
    "mempool (vio (relay_of st i)) \<noteq> None \<Longrightarrow> mempool (vio (relay_of st' i)) \<noteq> None"
    "MAX_RELAYS st' = MAX_RELAYS st" "worker_core_bitmap st' = worker_core_bitmap st"
  using assms by (auto simp: repools_def map_vio_def put_relay_def)

lemma swap_mempool_repools:
  assumes "i < MAX_RELAYS st" "swap_mempool i p n st = Some st'"
  shows "repools i st st'"
proof -
  define m where "m = mempool (vio (relay_of st i))"
  define d where "d = (if m \<noteq> None then [Did (Rte_mempool_free m)] else [])"
  have "st' = (map_vio i (\<lambda>v. v\<lparr>mempool := Some p, mempool_socket_id := n\<rparr>) st)\<lparr>hist := hist st @ d\<rparr>"
    using assms by (auto simp: swap_mempool_def Let_def m_def d_def did_def map_vio_def put_relay_def split: if_splits)
  then show ?thesis unfolding repools_def by blast
qed

lemma migrate_mempool_repools:
  assumes "i < MAX_RELAYS st" "migrate_mempool env i node n st = Some (err, st')"
  shows "repools i st st'"
proof -
  obtain p st1 where a: "alloc_mempool env (relay_id (relay_of st i)) node n st = (p, st1)" by fastforce
  have l1: "logs st st1" using logs_alloc_mempool a by (metis snd_conv)
  note r1 = repools_logs [OF assms(1) l1]
  show ?thesis
  proof (cases p)
    case None
    then show ?thesis using assms a r1 by (simp add: migrate_mempool_def)
  next
    case (Some q)
    let ?d = "dpdk (relay_of st1 i)"
    let ?port = "dpdk_port (dpdk (relay_of st i)) mod 256"
    define st2 where "st2 = (if dpdk_state ?d = DPDK_ADDED then snd (call_rc env (Rte_eth_dev_stop ?port) st1) else st1)"
    have l2: "logs st st2" unfolding st2_def by (auto intro: logs_trans [OF l1] logs_intros l1)
    have i2: "i < MAX_RELAYS st2" using logs_sel(1) [OF l2] assms(1) by simp
    obtain st3 where 3: "swap_mempool i q node st2 = Some st3"
      "st' = (if dpdk_state ?d = DPDK_ADDED then snd (reconfigure_queues env i ?port st3) else st3)"
      using assms a Some by (auto simp: migrate_mempool_def Let_def st2_def bind_Some_iff split: if_splits)
    have r3: "repools i st st3"
      by (rule repools_trans [OF assms(1) repools_logs [OF assms(1) l2] swap_mempool_repools [OF i2 3(1)]])
    have i3: "i < MAX_RELAYS st3" using repools_relay(6) [OF assms(1) r3] assms(1) by simp
    have "logs st3 st'" using 3(2) by (auto intro: logs_intros)
    then show ?thesis using repools_trans [OF assms(1) r3 repools_logs [OF i3]] by blast
  qed
qed

lemma alloc_then_set_repools:
  assumes "i < MAX_RELAYS st" "logs st st1"
  shows "repools i st (map_vio i (\<lambda>v. v\<lparr>mempool := Some p, mempool_socket_id := n\<rparr>) st1)"
proof -
  obtain d where "st1 = st\<lparr>hist := hist st @ d\<rparr>" using assms(2) by (auto simp: logs_def)
  then have "map_vio i (\<lambda>v. v\<lparr>mempool := Some p, mempool_socket_id := n\<rparr>) st1 =
      (map_vio i (\<lambda>v. v\<lparr>mempool := Some p, mempool_socket_id := n\<rparr>) st)\<lparr>hist := hist st @ d\<rparr>"
    by (simp add: map_vio_def put_relay_def)
  then show ?thesis unfolding repools_def by blast
qed

lemma guest_mempool_repools:
  assumes "i < MAX_RELAYS st" "guest_mempool env i node st = Some (ok, st')"
  shows "repools i st st'" "ok \<Longrightarrow> mempool (vio (relay_of st' i)) \<noteq> None"
proof -
  let ?m = "mempool (vio (relay_of st i))"
  obtain p1 st1 where a1: "alloc_mempool env (relay_id (relay_of st i)) node (NUM_PKTMBUF_POOL - 1) st = (p1, st1)" by fastforce
  obtain p2 st2 where a2: "alloc_mempool env (relay_id (relay_of st i)) SOCKET_ID_ANY (NUM_PKTMBUF_POOL - 1) st1 = (p2, st2)" by fastforce
  have l1: "logs st st1" using logs_alloc_mempool a1 by (metis snd_conv)
  have l2: "logs st st2" using logs_trans [OF l1] logs_alloc_mempool a2 by (metis snd_conv)
  have m: "MAX_RELAYS st1 = MAX_RELAYS st" "MAX_RELAYS st2 = MAX_RELAYS st" using logs_sel(1) l1 l2 by simp_all
  have "repools i st st' \<and> (ok \<longrightarrow> mempool (vio (relay_of st' i)) \<noteq> None)"
  proof (cases "?m = None")
    case True
    note e = assms(2) [unfolded guest_mempool_def Let_def a1 a2 prod.case]
    show ?thesis
    proof (cases p1)
      case None
      then show ?thesis
        using e True assms(1) m repools_logs [OF assms(1) l2] alloc_then_set_repools [OF assms(1) l2]
        by (cases p2) (auto simp: map_vio_def)
    next
      case (Some p)
      then show ?thesis
        using e True assms(1) m alloc_then_set_repools [OF assms(1) l1] by (auto simp: map_vio_def)
    qed
  next
    case False
    show ?thesis
    proof (cases "mempool_socket_id (vio (relay_of st i)) \<noteq> node \<and> node \<noteq> SOCKET_ID_ANY")
      case True
      then obtain n e where "migrate_mempool env i node n st = Some (e, st')"
        using assms(2) False by (auto simp: guest_mempool_def Let_def bind_Some_iff simp del: One_nat_def)
      note r = migrate_mempool_repools [OF assms(1) this]
      show ?thesis using r repools_relay(5) [OF assms(1) r] False by blast
    next
      case no: False
      then have "st' = st" using assms(2) False by (auto simp: guest_mempool_def Let_def)
      then show ?thesis using False repools_logs [OF assms(1) logs_refl] by simp
    qed
  qed
  then show "repools i st st'" "ok \<Longrightarrow> mempool (vio (relay_of st' i)) \<noteq> None" by blast+
qed

subsection \<open>Connecting\<close>

lemma lm_pending_ex: "\<exists>b. v = v\<lparr>lm_pending := b\<rparr>"
  by (rule exI [of _ "lm_pending v"]) simp

lemma start_added_vf_effect:
  assumes "i < MAX_RELAYS st" "start_added_vf env i st = Some st'"
  shows "\<exists>b. vio (relay_of st' i) = (vio (relay_of st i))\<lparr>lm_pending := b\<rparr>" "flagged (worker_threads st) (worker_threads st')"
    "dpdk_state (dpdk (relay_of st' i)) = dpdk_state (dpdk (relay_of st i)) \<or>
     dpdk_state (dpdk (relay_of st i)) = DPDK_ADDED \<and> dpdk_state (dpdk (relay_of st' i)) = DPDK_READY"
    "worker_core_bitmap st' = worker_core_bitmap st"
proof -
  have "(\<exists>b. vio (relay_of st' i) = (vio (relay_of st i))\<lparr>lm_pending := b\<rparr>) \<and> flagged (worker_threads st) (worker_threads st') \<and>
    (dpdk_state (dpdk (relay_of st' i)) = dpdk_state (dpdk (relay_of st i)) \<or>
     dpdk_state (dpdk (relay_of st i)) = DPDK_ADDED \<and> dpdk_state (dpdk (relay_of st' i)) = DPDK_READY) \<and>
    worker_core_bitmap st' = worker_core_bitmap st"
  proof (cases "dpdk_state (dpdk (relay_of st i)) = DPDK_ADDED")
    case False
    then have "st' = st" using assms(2) by (simp add: start_added_vf_def)
    then show ?thesis using lm_pending_ex [of "vio (relay_of st i)"] by simp
  next
    case True
    then obtain st1 where 1: "find_vf2virtio_cpu i st = Some st1"
      using assms(2) by (auto simp: start_added_vf_def bind_Some_iff)
    obtain c ts where c: "st1 = (map_dpdk i (\<lambda>d. d\<lparr>vf2vio_cpu := c\<rparr>) st)\<lparr>worker_threads := ts\<rparr>" "flagged (worker_threads st) ts"
      using find_vf2virtio_cpu_effect [OF assms(1) 1] by blast
    obtain e st2 where 2: "start_eth_dev env (dpdk_port (dpdk (relay_of st1 i))) st1 = (e, st2)" by fastforce
    obtain d where d: "st2 = st1\<lparr>hist := hist st1 @ d\<rparr>" using logs_start 2 unfolding logs_def by (metis snd_conv)
    show ?thesis
    proof (cases "e = 0")
      case False
      then have "st' = st2" using assms(2) True 1 2 by (simp add: start_added_vf_def)
      then have "vio (relay_of st' i) = vio (relay_of st i)" "worker_threads st' = ts"
        "dpdk_state (dpdk (relay_of st' i)) = dpdk_state (dpdk (relay_of st i))" "worker_core_bitmap st' = worker_core_bitmap st"
        using assms(1) by (simp_all add: d c(1) map_dpdk_def put_relay_def)
      then show ?thesis using c(2) lm_pending_ex [of "vio (relay_of st i)"] by simp
    next
      case ok: True
      define st3 where "st3 = map_dpdk i (\<lambda>d. d\<lparr>dpdk_state := DPDK_READY\<rparr>) (map_vio i (\<lambda>v. v\<lparr>lm_pending := False\<rparr>) st2)"
      have 3: "flag_thread (vf2vio_cpu (dpdk (relay_of st3 i))) st3 = Some st'"
        using assms(2) True 1 2 ok by (simp add: start_added_vf_def st3_def Let_def)
      note f = flag_thread_effect [OF 3]
      have "relay_of st' i = relay_of st3 i" "worker_core_bitmap st' = worker_core_bitmap st3"
        by (subst f(1), simp)+
      moreover have "flagged (worker_threads st) (worker_threads st')"
        using f(2) c(2) by (auto simp: st3_def d c(1) map_dpdk_def map_vio_def intro: flagged_trans)
      ultimately show ?thesis
        using assms(1) True by (auto simp: st3_def d c(1) map_dpdk_def map_vio_def put_relay_def)
    qed
  qed
  then show "\<exists>b. vio (relay_of st' i) = (vio (relay_of st i))\<lparr>lm_pending := b\<rparr>" "flagged (worker_threads st) (worker_threads st')"
    "dpdk_state (dpdk (relay_of st' i)) = dpdk_state (dpdk (relay_of st i)) \<or>
     dpdk_state (dpdk (relay_of st i)) = DPDK_ADDED \<and> dpdk_state (dpdk (relay_of st' i)) = DPDK_READY"
    "worker_core_bitmap st' = worker_core_bitmap st"
    by blast+
qed

text \<open>The outcome of connecting a virtual machine to relay \<open>i\<close>.\<close>

definition connected :: "nat \<Rightarrow> gstate \<Rightarrow> gstate \<Rightarrow> bool" where
  "connected i st st' \<longleftrightarrow>
     (let v = vio (relay_of st' i) in
      vio_state v = VIRTIO_READY \<and> mempool v \<noteq> None \<and> tx_q_rr v = 0 \<and> max_queue_pairs v \<le> MAX_MULTIQUEUE_PAIRS \<and>
      0 \<le> vio2vf_cpu v \<and> bit_test (worker_core_bitmap st') (nat (vio2vf_cpu v)) \<and>
      need_update (worker_threads st' ! nat (vio2vf_cpu v))) \<and>
     (dpdk_state (dpdk (relay_of st' i)) = dpdk_state (dpdk (relay_of st i)) \<or>
      dpdk_state (dpdk (relay_of st i)) = DPDK_ADDED \<and> dpdk_state (dpdk (relay_of st' i)) = DPDK_READY)"

lemma flagged_need_update:
  "flagged ts ts' \<Longrightarrow> k < length ts \<Longrightarrow> need_update (ts ! k) \<Longrightarrow> need_update (ts' ! k)"
  by (fastforce simp: flagged_def list_all2_conv_all_nth)

text \<open>The last part of \<open>virtio_forwarder_add_virtio\<close>, once the relay has a memory pool.\<close>

lemma add_virtio_tail:
  assumes "i < MAX_RELAYS st" "mempool (vio (relay_of st i)) \<noteq> None" "tx_q_rr (vio (relay_of st i)) = 0"
    "max_queue_pairs (vio (relay_of st i)) \<le> MAX_MULTIQUEUE_PAIRS" "vio_state (vio (relay_of st i)) = VIRTIO_UNINIT"
    "find_virtio2vf_cpu i st = Some st1" "cpu = vio2vf_cpu (vio (relay_of st1 i))"
  shows "\<not> bit_test (worker_core_bitmap st1) (nat cpu) \<Longrightarrow> vio_state (vio (relay_of st1 i)) = VIRTIO_UNINIT"
    and "bit_test (worker_core_bitmap st1) (nat cpu) \<Longrightarrow> 0 \<le> cpu \<Longrightarrow>
      flag_thread cpu (map_vio i (\<lambda>v. v\<lparr>vio_state := VIRTIO_READY\<rparr>) st1) = Some st2 \<Longrightarrow>
      start_added_vf env i st2 = Some st' \<Longrightarrow> connected i st st'"
proof -
  obtain c ts where c: "st1 = (map_vio i (\<lambda>v. v\<lparr>vio2vf_cpu := c\<rparr>) st)\<lparr>worker_threads := ts\<rparr>"
    using find_virtio2vf_cpu_effect [OF assms(1,6)] by blast
  have cpu: "cpu = c" using assms(1,7) by (simp add: c map_vio_def)
  show "vio_state (vio (relay_of st1 i)) = VIRTIO_UNINIT" using assms(1,5) by (simp add: c map_vio_def)
  assume b: "bit_test (worker_core_bitmap st1) (nat cpu)" "0 \<le> cpu"
    and 2: "flag_thread cpu (map_vio i (\<lambda>v. v\<lparr>vio_state := VIRTIO_READY\<rparr>) st1) = Some st2"
    and 3: "start_added_vf env i st2 = Some st'"
  note f = flag_thread_effect [OF 2]
  have r2: "relay_of st2 i = relay_of (map_vio i (\<lambda>v. v\<lparr>vio_state := VIRTIO_READY\<rparr>) st1) i"
    "MAX_RELAYS st2 = MAX_RELAYS st" "worker_core_bitmap st2 = worker_core_bitmap st1"
    by (subst f(1), simp add: c map_vio_def put_relay_def)+
  have i2: "i < MAX_RELAYS st2" using r2(2) assms(1) by simp
  note e = start_added_vf_effect [OF i2 3]
  have len: "nat cpu < length (worker_threads st2)"
    using f(4) flagged_length [OF f(2)] by simp
  have "need_update (worker_threads st' ! nat cpu)" by (rule flagged_need_update [OF e(2) len f(5)])
  then show "connected i st st'"
    using e(1,3,4) r2 b assms(1-4) cpu by (auto simp: connected_def Let_def c map_vio_def)
qed

lemma add_virtio_effect:
  assumes "i < MAX_RELAYS st" "vio_state (vio (relay_of st i)) = VIRTIO_UNINIT"
    "virtio_forwarder_add_virtio env dev i st = Some (err, st')"
  shows "err = 0 \<and> connected i st st' \<or> err = -1 \<and> vio_state (vio (relay_of st' i)) = VIRTIO_UNINIT"
proof -
  define pairs where "pairs = e_count env (hist st) (Rte_vhost_get_vring_num dev) div 2"
  define st1 where "st1 = map_vio i (\<lambda>v. v\<lparr>tx_q_rr := 0, vio_dev := dev, max_queue_pairs := pairs\<rparr>) (did (Rte_vhost_get_vring_num dev) st)"
  have r1: "vio_state (vio (relay_of st1 i)) = VIRTIO_UNINIT" "tx_q_rr (vio (relay_of st1 i)) = 0"
    "max_queue_pairs (vio (relay_of st1 i)) = pairs" "i < MAX_RELAYS st1"
    "dpdk (relay_of st1 i) = dpdk (relay_of st i)"
    using assms(1,2) by (simp_all add: st1_def map_vio_def did_def)
  obtain node st2 where 2: "get_guest_numa env dev st1 = (node, st2)" by fastforce
  have l2: "logs st1 st2" using 2 logs_call(1) [of st1 env "Rte_vhost_get_numa_node dev"]
    by (auto simp: get_guest_numa_def case_prod_beta)
  have rs: "virtio_vf_relays st2 = virtio_vf_relays st1" by (rule logs_sel(1) [OF l2])
  note eq = assms(3) [unfolded virtio_forwarder_add_virtio_def Let_def pairs_def [symmetric] st1_def [symmetric] 2 prod.case]
  show ?thesis
  proof (cases "MAX_MULTIQUEUE_PAIRS < pairs")
    case True
    then show ?thesis using eq assms(1,2) r1(1) by simp
  next
    case False
    obtain ok st3 where 3: "guest_mempool env i node st2 = Some (ok, st3)"
      using eq assms(1,2) False by (auto simp: bind_Some_iff)
    have i2: "i < MAX_RELAYS st2" using r1(4) rs by simp
    note g = guest_mempool_repools [OF i2 3]
    note r3 = repools_relay [OF i2 g(1)]
    show ?thesis
    proof (cases ok)
      case not_ok: False
      then show ?thesis using eq assms(1,2) False 3 r1(1) r3(2) rs by simp
    next
      case True
      obtain st4 where 4: "find_virtio2vf_cpu i st3 = Some st4"
        using eq assms(1,2) False 3 True by (auto simp: bind_Some_iff)
      have i3: "i < MAX_RELAYS st3" using r3(6) i2 by simp
      have pre: "mempool (vio (relay_of st3 i)) \<noteq> None" "tx_q_rr (vio (relay_of st3 i)) = 0"
        "max_queue_pairs (vio (relay_of st3 i)) \<le> MAX_MULTIQUEUE_PAIRS" "vio_state (vio (relay_of st3 i)) = VIRTIO_UNINIT"
        using g(2) True r3 r1 rs False by simp_all
      note t = add_virtio_tail [OF i3 pre 4 refl]
      have "connected i st3 s \<Longrightarrow> connected i st s" for s
        using r3(1) r1(5) rs by (simp add: connected_def)
      then show ?thesis
        using eq assms(1,2) False 3 True 4 t
        by (auto simp: bind_Some_iff split: if_splits)
    qed
  qed
qed


lemma demo_pairs: "e_count demo_env h (Rte_vhost_get_vring_num d) = 0"
  by (simp add: demo_env_def)

lemma demo_guest_mempool:
  assumes "mempool (vio r) = None"
  shows "\<exists>h'. guest_mempool demo_env 0 node (demo_fx r h) =
    Some (True, demo_fx (r\<lparr>vio := (vio r)\<lparr>mempool := Some 1, mempool_socket_id := node\<rparr>\<rparr>) h')"
  using assms by (auto simp: guest_mempool_def alloc_mempool_def call_pool_def map_vio_def Let_def)

lemma demo_find_virtio2vf_cpu:
  "relay_id r = 0 \<Longrightarrow> find_virtio2vf_cpu 0 (demo_fx r h) = Some (demo_fx (r\<lparr>vio := (vio r)\<lparr>vio2vf_cpu := 1\<rparr>\<rparr>) h)"
  by (simp add: find_virtio2vf_cpu_def array_get_def map_vio_def)

lemma demo_connect:
  assumes "vio_state (vio r) = VIRTIO_UNINIT" "mempool (vio r) = None" "relay_id r = 0" "dpdk_state (dpdk r) = DPDK_UNINIT"
  shows "\<exists>st'. virtio_forwarder_add_virtio demo_env 3 0 (demo_fx r []) = Some (0, st')"
proof -
  define r1 where "r1 = r\<lparr>vio := (vio r)\<lparr>tx_q_rr := 0, vio_dev := 3, max_queue_pairs := 0\<rparr>\<rparr>"
  define r2 where "r2 = r1\<lparr>vio := (vio r1)\<lparr>mempool := Some 1, mempool_socket_id := 0\<rparr>\<rparr>"
  define r3 where "r3 = r2\<lparr>vio := (vio r2)\<lparr>vio2vf_cpu := 1, vio_state := VIRTIO_READY\<rparr>\<rparr>"
  have r1: "mempool (vio r1) = None" "relay_id r2 = 0" "dpdk_state (dpdk r3) = DPDK_UNINIT"
    using assms by (simp_all add: r1_def r2_def r3_def)
  obtain h where g: "guest_mempool demo_env 0 0 (demo_fx r1 [Did (Rte_vhost_get_vring_num 3), Did (Rte_vhost_get_numa_node 3)]) =
      Some (True, demo_fx r2 h)"
    using demo_guest_mempool [OF r1(1), of 0] unfolding r2_def by blast
  have e: "map_vio 0 (\<lambda>v. v\<lparr>tx_q_rr := 0, vio_dev := 3, max_queue_pairs := 0\<rparr>) (demo_fx r k) = demo_fx r1 k" for k
    by (simp add: map_vio_def r1_def)
  have rdy: "map_vio 0 (\<lambda>v. v\<lparr>vio_state := VIRTIO_READY\<rparr>) (demo_fx (r2\<lparr>vio := (vio r2)\<lparr>vio2vf_cpu := 1\<rparr>\<rparr>) h) = demo_fx r3 h"
    by (simp add: map_vio_def r3_def)
  obtain st4 where f: "flag_thread 1 (demo_fx r3 h) = Some st4" "virtio_vf_relays st4 = [r3]"
    by (simp add: flag_thread_def signal_update_def)
  have "start_added_vf demo_env 0 st4 = Some st4" using f(2) r1(3) by (simp add: start_added_vf_def)
  moreover have "bit (6 :: 64 word) 1" by simp
  ultimately show ?thesis
    using assms(1) g f(1)
    by (simp add: virtio_forwarder_add_virtio_def demo_pairs e get_guest_numa_def call_rc_def Let_def
        demo_find_virtio2vf_cpu [OF r1(2)] rdy bit_test_eq)
qed


subsection \<open>Disconnecting\<close>

lemma remove_virtio_effect:
  assumes "i < MAX_RELAYS st" "others_keep sched i" "vio_state (vio (relay_of st i)) = VIRTIO_READY"
    "virtio_forwarder_remove_virtio env sched i st = Some st'"
    "w = wait_until (\<lambda>st. vio_state (vio (relay_of st i)) = VIRTIO_UNINIT) sched 20
           (map_vio i (\<lambda>v. v\<lparr>vio_state := VIRTIO_REMOVING1\<rparr>) st)"
  shows "vio2vf_cpu (vio (relay_of st' i)) = -1 \<and> tx_q_bitmap (vio (relay_of st' i)) = 0 \<and> rx_q_bitmap (vio (relay_of st' i)) = 0 \<and>
    vio_state (vio (relay_of st' i)) = vio_state (vio (relay_of w i)) \<and>
    (if dpdk_state (dpdk (relay_of w i)) = DPDK_READY
     then dpdk_state (dpdk (relay_of st' i)) = DPDK_ADDED \<and> mempool (vio (relay_of st' i)) = mempool (vio (relay_of st i)) \<and>
       Did (Rte_eth_dev_stop (dpdk_port (dpdk (relay_of st i)))) \<in> set (hist st')
     else dpdk_state (dpdk (relay_of st' i)) = dpdk_state (dpdk (relay_of w i)) \<and> mempool (vio (relay_of st' i)) = None \<and>
       Did (Rte_mempool_free (mempool (vio (relay_of st i)))) \<in> set (hist st'))"
proof -
  have k: "MAX_RELAYS w = MAX_RELAYS st" "wiring (relay_of w i) = wiring (relay_of st i)"
    using wait_until_keeps [OF assms(2), of "\<lambda>st. vio_state (vio (relay_of st i)) = VIRTIO_UNINIT" 20
        "map_vio i (\<lambda>v. v\<lparr>vio_state := VIRTIO_REMOVING1\<rparr>) st"] assms(1)
    unfolding assms(5) [symmetric] by (auto simp: map_vio_def wiring_def)
  define st1 where "st1 = map_vio i (\<lambda>v. v\<lparr>vio2vf_cpu := -1, tx_q_bitmap := 0, rx_q_bitmap := 0\<rparr>) w"
  obtain st2 where 2: "flag_thread (vio2vf_cpu (vio (relay_of w i))) st1 = Some st2"
    and 3: "(if dpdk_state (dpdk (relay_of st2 i)) = DPDK_READY
        then let st = snd (call_rc env (Rte_eth_dev_stop (dpdk_port (dpdk (relay_of st2 i)))) st2);
                 st = map_dpdk i (\<lambda>d. d\<lparr>dpdk_state := DPDK_ADDED\<rparr>) st
             in flag_thread (vf2vio_cpu (dpdk (relay_of st i))) st
        else Some (map_vio i (\<lambda>v. v\<lparr>mempool := None\<rparr>)
                     (did (Rte_mempool_free (mempool (vio (relay_of st2 i)))) st2))) = Some st'"
    using assms(1,3,4) unfolding virtio_forwarder_remove_virtio_def Let_def assms(5) [symmetric] st1_def
    by (auto simp: bind_Some_iff simp del: if_split split: if_split_asm)
  have r2: "relay_of st2 i = relay_of st1 i" "MAX_RELAYS st2 = MAX_RELAYS w"
    by (simp_all add: flag_thread_relays [OF 2] st1_def map_vio_def)
  have r1: "relay_of st1 i = (relay_of w i)\<lparr>vio := (vio (relay_of w i))\<lparr>vio2vf_cpu := -1, tx_q_bitmap := 0, rx_q_bitmap := 0\<rparr>\<rparr>"
    using assms(1) k(1) by (simp add: st1_def map_vio_def)
  note p = wiringD(10,12) [OF k(2)]
  show ?thesis
  proof (cases "dpdk_state (dpdk (relay_of w i)) = DPDK_READY")
    case True
    define st3 where "st3 = map_dpdk i (\<lambda>d. d\<lparr>dpdk_state := DPDK_ADDED\<rparr>)
      (snd (call_rc env (Rte_eth_dev_stop (dpdk_port (dpdk (relay_of st2 i)))) st2))"
    obtain c where "flag_thread c st3 = Some st'"
      using 3 True by (auto simp: r2 r1 st3_def Let_def)
    then have "virtio_vf_relays st' = virtio_vf_relays st3" "hist st' = hist st3"
      by (auto simp: flag_thread_def signal_update_def split: if_splits)
    then show ?thesis
      using True assms(1) k(1) p by (simp add: st3_def map_dpdk_def call_rc_def did_def r1 r2 put_relay_def)
  next
    case False
    then show ?thesis
      using 3 assms(1) k(1) p by (auto simp: map_vio_def did_def r1 r2 put_relay_def)
  qed
qed

lemma remove_virtio_polls:
  assumes "i < MAX_RELAYS st" "assigned st i c1 c2"
    "worker_iteration env c1 (map_vio i (\<lambda>v. v\<lparr>vio_state := VIRTIO_REMOVING1\<rparr>) st) = Some (p1, st1)"
    "worker_iteration env c2 st1 = Some (p2, st2)"
  shows "wait_until (\<lambda>st. vio_state (vio (relay_of st i)) = VIRTIO_UNINIT) (workers_sched env c1 c2) 20
           (map_vio i (\<lambda>v. v\<lparr>vio_state := VIRTIO_REMOVING1\<rparr>) st) = st2"
    "vio_state (vio (relay_of st2 i)) = VIRTIO_UNINIT"
proof -
  let ?st = "map_vio i (\<lambda>v. v\<lparr>vio_state := VIRTIO_REMOVING1\<rparr>) st"
  let ?P = "\<lambda>st. vio_state (vio (relay_of st i)) = VIRTIO_UNINIT"
  have a: "assigned ?st i c1 c2" using assms(1,2) by (simp add: assigned_def map_vio_def)
  have s: "vio_state (vio (relay_of ?st i)) = VIRTIO_REMOVING1" using assms(1) by (simp add: map_vio_def)
  show r: "vio_state (vio (relay_of st2 i)) = VIRTIO_UNINIT" using virtio_removal [OF a s assms(3,4)] by simp
  have w: "workers_sched env c1 c2 n ?st = st2" for n using assms(3,4) by (simp add: workers_sched_def)
  have "wait_until ?P (workers_sched env c1 c2) (Suc 19) ?st = st2"
    using wait_until_first [of ?P "workers_sched env c1 c2" 19 ?st] w r s by simp
  moreover have "Suc 19 = 20" by simp
  ultimately show "wait_until ?P (workers_sched env c1 c2) 20 ?st = st2" by metis
qed


lemma demo_disconnects:
  assumes "demo_like r2"
  shows "\<exists>st'. (do { st \<leftarrow> flag_thread (vio2vf_cpu (vio (relay_of (demo_at r2 h2) 0)))
           (map_vio 0 (\<lambda>v. v\<lparr>vio2vf_cpu := -1, tx_q_bitmap := 0, rx_q_bitmap := 0\<rparr>) (demo_at r2 h2));
         if dpdk_state (dpdk (relay_of st 0)) = DPDK_READY
         then let st = map_dpdk 0 (\<lambda>d. d\<lparr>dpdk_state := DPDK_ADDED\<rparr>)
                         (snd (call_rc demo_env (Rte_eth_dev_stop (dpdk_port (dpdk (relay_of st 0)))) st))
              in flag_thread (vf2vio_cpu (dpdk (relay_of st 0))) st
         else Some (map_vio 0 (\<lambda>v. v\<lparr>mempool := None\<rparr>)
                     (did (Rte_mempool_free (mempool (vio (relay_of st 0)))) st)) }) = Some st'"
  using demo_like_cpus(1,2) [OF assms]
  by (simp add: flag_thread_def signal_update_def map_vio_def map_dpdk_def put_relay_def call_rc_def did_def)

lemma demo_asks: "map_vio 0 (\<lambda>v. v\<lparr>vio_state := s\<rparr>) (demo_state (demo_one vs ds)) = demo_state (demo_one s ds)"
  by (simp add: map_vio_def put_relay_def demo_state_def demo_one_def)


text \<open>A VF that was added but could not be started when its virtual machine connected stays
  configured with the memory pool of the relay; disconnecting the virtual machine frees that
  pool all the same, while the VF remains added.\<close>

theorem remove_virtio_frees_pool_in_use:
  assumes "i < MAX_RELAYS st" "others_keep sched i" "vio_state (vio (relay_of st i)) = VIRTIO_READY"
    "virtio_forwarder_remove_virtio env sched i st = Some st'"
    "dpdk_state (dpdk (relay_of (wait_until (\<lambda>st. vio_state (vio (relay_of st i)) = VIRTIO_UNINIT) sched 20
           (map_vio i (\<lambda>v. v\<lparr>vio_state := VIRTIO_REMOVING1\<rparr>) st)) i)) = DPDK_ADDED"
  shows "dpdk_state (dpdk (relay_of st' i)) = DPDK_ADDED \<and> mempool (vio (relay_of st' i)) = None \<and>
    Did (Rte_mempool_free (mempool (vio (relay_of st i)))) \<in> set (hist st')"
  using remove_virtio_effect [OF assms(1-4) refl] assms(5) by simp

lemma wait_until_idle: "wait_until P (\<lambda>n st. st) n st = st"
  by (induction n) simp_all

theorem remove_virtio_frees_pool_in_use_witness:
  "\<exists>st'. virtio_forwarder_remove_virtio demo_env (\<lambda>n st. st) 0 (demo_state (demo_one VIRTIO_READY DPDK_ADDED)) = Some st' \<and>
    dpdk_state (dpdk (relay_of st' 0)) = DPDK_ADDED \<and> mempool (vio (relay_of st' 0)) = None \<and>
    Did (Rte_mempool_free (Some 1)) \<in> set (hist st')"
proof -
  let ?st = "demo_state (demo_one VIRTIO_READY DPDK_ADDED)"
  have i: "0 < MAX_RELAYS ?st" and v: "vio_state (vio (relay_of ?st 0)) = VIRTIO_READY"
    and m: "mempool (vio (relay_of ?st 0)) = Some 1" by (simp_all add: demo_relay_id)
  have k: "others_keep (\<lambda>n st. st) 0" by (simp add: others_keep_def)
  obtain st' where e: "virtio_forwarder_remove_virtio demo_env (\<lambda>n st. st) 0 ?st = Some st'"
    using demo_disconnects [OF demo_one_like [of VIRTIO_REMOVING1 DPDK_ADDED], of "[]"] i v
    unfolding virtio_forwarder_remove_virtio_def Let_def wait_until_idle demo_asks demo_at_Nil by auto
  show ?thesis
    using remove_virtio_frees_pool_in_use [OF i k v e] e unfolding wait_until_idle demo_asks m
    by (simp add: demo_relay_id)
qed

end
