(* ===== verification/Lifecycle.thy ===== *)
theory Lifecycle
  imports Connect
begin

text \<open>
  Start-up and shutdown of the forwarder (\<open>virtio_worker.c\<close>): what
  \<open>virtio_forwarders_initialize\<close> establishes, which threads \<open>virtio_forwarders_shutdown\<close>
  stops, and the choice of a free relay.
\<close>

subsection \<open>The initial relays\<close>

lemma init_relays_Some:
  assumes "init_relays st ws = Some rs"
  shows "length rs = length ws \<and>
    (\<forall>i<length ws. \<exists>node. relay_node st (ws ! i) = Some node \<and> rs ! i = init_relay (ws ! i) node (conf_use_jumbo (g_conf st)))"
  using assms
proof (induction ws arbitrary: rs)
  case Nil
  then show ?case by simp
next
  case (Cons w ws)
  then obtain node rs' where "relay_node st w = Some node" "init_relays st ws = Some rs'"
    "rs = init_relay w node (conf_use_jumbo (g_conf st)) # rs'"
    by (auto simp: bind_Some_iff)
  with Cons.IH show ?case by (auto simp: nth_Cons split: nat.split)
qed

lemma init_relay_sel [simp]:
  "relay_id (init_relay w n j) = w" "vio_state (vio (init_relay w n j)) = VIRTIO_UNINIT"
  "dpdk_state (dpdk (init_relay w n j)) = DPDK_UNINIT" "mempool (vio (init_relay w n j)) = None"
  "held (init_relay w n j) = []" "vio2vf_cpu (vio (init_relay w n j)) = -1" "vf2vio_cpu (dpdk (init_relay w n j)) = -1"
  by (simp_all add: init_relay_def held_def vio_held_def dpdk_held_def)

lemma init_relay_ok: "stage_ok (init_relay w n j)" "vring_range (vio (init_relay w n j))"
  by (simp_all add: init_relay_def stage_ok_def tx_ok_def rx_ok_def vring_range_def)

text \<open>A relay as start-up leaves it.\<close>

definition pristine :: "nat \<Rightarrow> relay \<Rightarrow> bool" where
  "pristine i r \<longleftrightarrow> relay_id r = i \<and> stage_ok r \<and> vring_range (vio r) \<and> held r = [] \<and>
     vio_state (vio r) = VIRTIO_UNINIT \<and> dpdk_state (dpdk r) = DPDK_UNINIT \<and> mempool (vio r) = None \<and>
     vio2vf_cpu (vio r) = -1 \<and> vf2vio_cpu (dpdk r) = -1"

subsection \<open>Launching and stopping the threads\<close>

text \<open>Folding an update of single threads over distinct CPUs.\<close>

lemma fold_threads:
  assumes "distinct cs" "\<forall>c\<in>set cs. c < length (worker_threads st)"
    "\<And>c st. op c st = st\<lparr>worker_threads := (worker_threads st)[c := f c (worker_threads st ! c)]\<rparr>"
  shows "fold op cs st = st\<lparr>worker_threads := map (\<lambda>c. if c \<in> set cs then f c (worker_threads st ! c) else worker_threads st ! c)
     [0..<length (worker_threads st)]\<rparr>"
  using assms(1,2)
proof (induction cs arbitrary: st)
  case Nil
  then show ?case by (simp add: map_nth)
next
  case (Cons c cs)
  let ?st = "st\<lparr>worker_threads := (worker_threads st)[c := f c (worker_threads st ! c)]\<rparr>"
  have "fold op (c # cs) st = fold op cs ?st" by (simp add: assms(3))
  also have "\<dots> = ?st\<lparr>worker_threads := map (\<lambda>k. if k \<in> set cs then f k (worker_threads ?st ! k) else worker_threads ?st ! k)
     [0..<length (worker_threads ?st)]\<rparr>"
    using Cons.prems by (intro Cons.IH) simp_all
  finally show ?case using Cons.prems by (auto simp: nth_list_update intro!: map_cong)
qed

lemma launch_workers:
  assumes "distinct cs" "\<forall>c\<in>set cs. c < length (worker_threads st)"
  shows "fold launch_worker cs st = st\<lparr>worker_threads := map (\<lambda>c. if c \<in> set cs
     then (worker_threads st ! c)\<lparr>w_cpu := int c, initialized := True, running := True, must_stop := False\<rparr>
     else worker_threads st ! c) [0..<length (worker_threads st)]\<rparr>"
proof -
  let ?op = "\<lambda>c st. st\<lparr>worker_threads := (worker_threads st)[c :=
    (worker_threads st ! c)\<lparr>w_cpu := int c, initialized := True, running := True, must_stop := False\<rparr>]\<rparr>"
  have "fold launch_worker cs st = fold ?op cs st" using assms(2)
  proof (induction cs arbitrary: st)
    case Nil
    then show ?case by simp
  next
    case (Cons c cs)
    have "launch_worker c st = ?op c st" using Cons.prems by (simp add: launch_worker_def worker_start_def)
    then show ?case using Cons.IH [of "?op c st"] Cons.prems by simp
  qed
  also have "\<dots> = st\<lparr>worker_threads := map (\<lambda>c. if c \<in> set cs
     then (worker_threads st ! c)\<lparr>w_cpu := int c, initialized := True, running := True, must_stop := False\<rparr>
     else worker_threads st ! c) [0..<length (worker_threads st)]\<rparr>"
    by (rule fold_threads [OF assms refl])
  finally show ?thesis .
qed

text \<open>C18: With no static relays configured, start-up leaves every relay pristine: numbered by its
  position, both sides free, staging arrays empty and of the right length, no pool and no
  CPU. Exactly the worker cores of the EAL have a running thread, which knows its CPU.\<close>

theorem initialize_outcome:
  assumes "static_relays (g_conf st) = []" "distinct lcores" "\<forall>c\<in>set lcores. c < MAX_CPUS"
    "virtio_forwarders_initialize env lcores st = Some (err, st')"
  shows "err = 0 \<and> MAX_RELAYS st' = MAX_RELAYS st \<and> (\<forall>i<MAX_RELAYS st'. pristine i (relay_of st' i)) \<and>
    worker_core_bitmap st' = conf_worker_core_bitmap (g_conf st) \<and> length (worker_threads st') = MAX_CPUS \<and>
    (\<forall>c<MAX_CPUS. let t = worker_threads st' ! c in
       (running t \<longleftrightarrow> c \<in> set lcores) \<and> (initialized t \<longleftrightarrow> c \<in> set lcores) \<and> \<not> must_stop t \<and> (running t \<longrightarrow> w_cpu t = int c))"
proof -
  obtain rs where rs: "init_relays st [0..<MAX_RELAYS st] = Some rs"
    using assms(4) by (auto simp: virtio_forwarders_initialize_def bind_Some_iff)
  define st1 where "st1 = st\<lparr>virtio_vf_relays := rs, worker_threads := replicate MAX_CPUS zero_thread,
     worker_core_bitmap := conf_worker_core_bitmap (g_conf st)\<rparr>"
  have cs: "\<forall>c\<in>set lcores. c < length (worker_threads st1)" using assms(3) by (simp add: st1_def)
  define st2 where "st2 = fold launch_worker lcores st1"
  note l = st2_def [unfolded launch_workers [OF assms(2) cs]]
  have "static_relays (g_conf st2) = []" using assms(1) by (simp add: l st1_def)
  then have st': "err = 0" "st' = st2"
    using assms(4) [unfolded virtio_forwarders_initialize_def rs bind.bind_lunit Let_def st1_def [symmetric] st2_def [symmetric]]
    by simp_all
  have "pristine i (rs ! i)" if i: "i < MAX_RELAYS st" for i
  proof -
    have "\<exists>node. rs ! i = init_relay i node (conf_use_jumbo (g_conf st))" using init_relays_Some [OF rs] i by auto
    then obtain node where r: "rs ! i = init_relay i node (conf_use_jumbo (g_conf st))" ..
    show ?thesis unfolding r pristine_def by (simp add: init_relay_ok)
  qed
  then show ?thesis
    using init_relays_Some [OF rs] st' by (simp add: l st1_def Let_def zero_thread_def)
qed

definition demo_start :: gstate where
  "demo_start = demo_fixed (demo_one VIRTIO_READY DPDK_READY)"

lemma demo_initialize: "\<exists>st'. virtio_forwarders_initialize demo_env [1, 2] demo_start = Some (0, st')"
proof -
  have c: "conf_relay_cpus (g_conf demo_start) = [\<lparr>conf_vf2vio_cpu = 2, conf_vio2vf_cpu = 1\<rparr>]"
    "static_relays (g_conf demo_start) = []" "MAX_RELAYS demo_start = 1"
    by (simp_all add: demo_start_def demo_fixed_def demo_conf_def demo_state_def)
  have "array_get_int (cpus (cpuinfo demo_start)) 2 \<noteq> None" "array_get_int (cpus (cpuinfo demo_start)) 1 \<noteq> None"
    by (simp_all add: demo_start_def demo_fixed_def demo_state_def array_get_int_def demo_cpuinfo_def array_get_def)
  then obtain a b where "array_get_int (cpus (cpuinfo demo_start)) 2 = Some a" "array_get_int (cpus (cpuinfo demo_start)) 1 = Some b"
    by auto
  with c show ?thesis
    by (simp add: virtio_forwarders_initialize_def relay_node_def array_get_def launch_worker_def worker_start_def)
qed

theorem initialize_outcome_witness:
  "\<exists>st'. virtio_forwarders_initialize demo_env [1, 2] demo_start = Some (0, st') \<and> pristine 0 (relay_of st' 0) \<and>
    running (worker_threads st' ! 1) \<and> \<not> running (worker_threads st' ! 3)"
proof -
  obtain st' where e: "virtio_forwarders_initialize demo_env [1, 2] demo_start = Some (0, st')" using demo_initialize by blast
  have h: "static_relays (g_conf demo_start) = []" "distinct [1, 2 :: nat]" "\<forall>c\<in>set [1, 2]. c < MAX_CPUS" "0 < MAX_RELAYS demo_start"
    by (simp_all add: demo_start_def demo_fixed_def demo_conf_def demo_state_def MAX_CPUS_def)
  note o = initialize_outcome [OF h(1-3) e]
  have c: "1 < MAX_CPUS" "3 < MAX_CPUS" by (simp_all add: MAX_CPUS_def)
  have "running (worker_threads st' ! 1)" "\<not> running (worker_threads st' ! 3)"
    using o c by (auto simp: Let_def)
  then show ?thesis using o h(4) e by auto
qed

text \<open>Shutdown asks exactly the running, initialised threads of the worker bitmap to stop and
  touches nothing else.\<close>

theorem shutdown_stops_running:
  assumes "length (worker_threads st) = MAX_CPUS"
  shows "virtio_forwarders_shutdown st = st\<lparr>worker_threads := map (\<lambda>c. let t = worker_threads st ! c in
     if bit_test (worker_core_bitmap st) c \<and> initialized t \<and> running t then t\<lparr>must_stop := True\<rparr> else t) [0..<MAX_CPUS]\<rparr>"
proof -
  let ?f = "\<lambda>c t. if bit_test (worker_core_bitmap st) c \<and> initialized t \<and> running t then t\<lparr>must_stop := True\<rparr> else t"
  let ?op = "\<lambda>c st. st\<lparr>worker_threads := (worker_threads st)[c := ?f c (worker_threads st ! c)]\<rparr>"
  have "fold stop_worker cs s = fold ?op cs s" if "worker_core_bitmap s = worker_core_bitmap st" for cs s
    using that
  proof (induction cs arbitrary: s)
    case Nil
    then show ?case by simp
  next
    case (Cons c cs)
    have "stop_worker c s = ?op c s" using Cons.prems by (simp add: stop_worker_def)
    then show ?case using Cons.IH [of "?op c s"] Cons.prems by simp
  qed
  moreover have "fold ?op [0..<MAX_CPUS] st = st\<lparr>worker_threads := map (\<lambda>c. if c \<in> set [0..<MAX_CPUS]
      then ?f c (worker_threads st ! c) else worker_threads st ! c) [0..<length (worker_threads st)]\<rparr>"
    by (rule fold_threads) (simp_all add: assms)
  ultimately show ?thesis by (simp add: virtio_forwarders_shutdown_def assms Let_def cong: map_cong)
qed

theorem shutdown_stops_running_witness:
  "must_stop (worker_threads (virtio_forwarders_shutdown (demo_state (demo_one VIRTIO_READY DPDK_READY))) ! 1) \<and>
   \<not> must_stop (worker_threads (virtio_forwarders_shutdown (demo_state (demo_one VIRTIO_READY DPDK_READY))) ! 3)"
proof -
  have l: "length (worker_threads (demo_state (demo_one VIRTIO_READY DPDK_READY))) = MAX_CPUS" by (simp add: MAX_CPUS_def)
  have b: "bit (6 :: 64 word) 1" "\<not> bit (6 :: 64 word) 3" by simp_all
  show ?thesis unfolding shutdown_stops_running [OF l]
    using b by (simp add: Let_def MAX_CPUS_def bit_test_eq demo_thread_nth demo_thread_def)
qed

subsection \<open>Choosing a free relay\<close>

text \<open>Free on both sides and without a socket.\<close>

definition relay_free :: "string option list \<Rightarrow> gstate \<Rightarrow> nat \<Rightarrow> bool" where
  "relay_free m st k \<longleftrightarrow>
     vio_state (vio (relay_of st k)) = VIRTIO_UNINIT \<and> dpdk_state (dpdk (relay_of st k)) = DPDK_UNINIT \<and> m ! k = None"

text \<open>The relay chosen for a new pair of socket and device is the lowest one that is free on
  both sides and has no socket; -1 means that there is none.\<close>

theorem free_relay_is_least:
  "(case virtio_get_free_relay_id m st of
      i \<Rightarrow> if 0 \<le> i
        then nat i < MAX_RELAYS st \<and> relay_free m st (nat i) \<and> list_all (\<lambda>k. \<not> relay_free m st k) [0..<nat i]
        else i = -1 \<and> list_all (\<lambda>k. \<not> relay_free m st k) [0..<MAX_RELAYS st])"
proof -
  have id: "virtio_get_free_relay_id m st = (case find (relay_free m st) [0..<MAX_RELAYS st] of None \<Rightarrow> -1 | Some i \<Rightarrow> int i)"
    unfolding virtio_get_free_relay_id_def relay_free_def [abs_def] ..
  show ?thesis
  proof (cases "find (relay_free m st) [0..<MAX_RELAYS st]")
    case None
    then have "\<forall>k<MAX_RELAYS st. \<not> relay_free m st k" by (auto simp: find_None_iff)
    then show ?thesis by (simp add: id None list_all_iff)
  next
    case (Some i)
    then have "i < MAX_RELAYS st" "relay_free m st i" "\<forall>j<i. \<not> relay_free m st j"
      by (auto simp: find_Some_iff)
    then show ?thesis using Some by (auto simp: id list_all_iff)
  qed
qed

end
