(* ===== verification/Frame.thy ===== *)
theory Frame
  imports Lifecycle
begin

text \<open>
  What the relay code leaves alone. Worker threads and the operations on relays change only
  the relays, the flags of the threads and the history of library calls; the configuration,
  the sockets and the counters of the last query belong to the components above.
\<close>

subsection \<open>What the workers leave to the control path\<close>

text \<open>Workers change relays, threads and the packets on the wire; configuration, sockets and the
  counters of the last query stay.\<close>

definition control_part :: "gstate \<Rightarrow> gstate" where
  "control_part st = st\<lparr>virtio_vf_relays := [], worker_threads := [], hist := []\<rparr>"

lemma control_partD:
  assumes "control_part st' = control_part st"
  shows "relay_prev_counters st' = relay_prev_counters st" "relay_ifname_map st' = relay_ifname_map st"
    "g_conf st' = g_conf st" "worker_core_bitmap st' = worker_core_bitmap st"
  using arg_cong [OF assms, of relay_prev_counters] arg_cong [OF assms, of relay_ifname_map] arg_cong [OF assms, of g_conf]
    arg_cong [OF assms, of worker_core_bitmap]
  by (simp_all add: control_part_def)

lemma control_part_updates [simp]:
  "control_part (put_relay i r st) = control_part st" "control_part (did c st) = control_part st"
  "control_part (st\<lparr>hist := h\<rparr>) = control_part st" "control_part (st\<lparr>worker_threads := ts\<rparr>) = control_part st"
  by (simp_all add: control_part_def put_relay_def did_def)

lemma locked_control:
  "locked_vm2vf env w st = Some (b, st') \<Longrightarrow> control_part st' = control_part st"
  "locked_vf2vm env w st = Some (b, st') \<Longrightarrow> control_part st' = control_part st"
  by (auto simp: locked_vm2vf_def locked_vf2vm_def rte_spinlock_trylock_def Let_def bind_Some_iff split: if_splits)

lemma service_relays_control:
  "service_relays env cpu ws (p, st) = Some (p', st') \<Longrightarrow> control_part st' = control_part st"
proof (induction ws arbitrary: p st)
  case Nil
  then show ?case by simp
next
  case (Cons w ws)
  then obtain a st1 where s: "service_relay env cpu w (p, st) = Some (a, st1)" "service_relays env cpu ws (a, st1) = Some (p', st')"
    by (auto simp: bind_Some_iff)
  from s(1) have "control_part st1 = control_part st"
    by (rule service_relayE) (auto dest!: locked_control split: if_splits)
  then show ?case using Cons.IH [OF s(2)] by simp
qed

lemma worker_step_control:
  assumes "worker_step env st st'"
  shows "control_part st' = control_part st"
  using assms
proof (cases rule: worker_step.cases)
  case (Iterate cpu processed)
  have u: "update_thread cpu s = Some s' \<Longrightarrow> control_part s' = control_part s" for s s'
    by (auto simp: update_thread_def Let_def bind_Some_iff)
  from Iterate(4) show ?thesis
    by (auto simp: worker_iteration_def Let_def bind_Some_iff dest!: service_relays_control u split: if_splits)
next
  case (Stop cpu)
  then show ?thesis by (simp add: worker_end_def)
qed

interpretation control_run: step_system "worker_step env" "\<lambda>st. True" "\<lambda>st st'. control_part st' = control_part st"
  by unfold_locales (auto dest: worker_step_control)

lemma worker_run_control: "(worker_step env)\<^sup>*\<^sup>* st st' \<Longrightarrow> control_part st' = control_part st"
  using control_run.run_rel by blast

subsection \<open>Operations of the control path\<close>

text \<open>The fields of a relay that hold packets and queues. Only the workers and the changes of a
  vring write them; a disconnection clears the bitmaps of queues.\<close>

definition vio_data :: "relay_virtio \<Rightarrow> mbuf list \<times> nat \<times> nat \<times> 64 word \<times> 64 word \<times> nat list" where
  "vio_data v = (tx_pkts v, tx_pkts_avail v, tx_pkts_used v, rx_q_bitmap v, tx_q_bitmap v, rx_q_lut v)"

definition dpdk_data :: "relay_dpdk \<Rightarrow> mbuf list \<times> nat \<times> nat" where
  "dpdk_data d = (rx_pkts d, rx_pkts_avail d, rx_pkts_used d)"

text \<open>What the other threads do while the control path sleeps stays in a relation.\<close>

definition sched_in :: "(gstate \<Rightarrow> gstate \<Rightarrow> bool) \<Rightarrow> (nat \<Rightarrow> gstate \<Rightarrow> gstate) \<Rightarrow> bool" where
  "sched_in R sched \<longleftrightarrow> (\<forall>n st. R st (sched n st))"

text \<open>
  A relation between states that does not see calls of the library, flags of threads and the
  control fields of relays relates the states before and after every operation of the control
  path. The relation \<open>keeps\<close> below and the ledger of packets are instances.
\<close>

named_theorems frame_dests \<open>operations of the control path stay in the relation\<close>

locale control_frame =
  fixes R :: "gstate \<Rightarrow> gstate \<Rightarrow> bool"
  assumes R_refl [simp]: "R st st"
    and R_trans [trans]: "R st st' \<Longrightarrow> R st' st'' \<Longrightarrow> R st st''"
    and R_did [simp]: "R st (did c st') = R st st'" "R (did c st) st' = R st st'"
    and R_threads [simp]: "R st (st'\<lparr>worker_threads := ts\<rparr>) = R st st'" "R (st\<lparr>worker_threads := ts\<rparr>) st' = R st st'"
    and R_vio: "(\<And>v. vio_data (f v) = vio_data v) \<Longrightarrow> R st (map_vio i f st') = R st st'"
      "(\<And>v. vio_data (f v) = vio_data v) \<Longrightarrow> R (map_vio i f st) st' = R st st'"
    and R_dpdk: "(\<And>d. dpdk_data (g d) = dpdk_data d) \<Longrightarrow> R st (map_dpdk i g st') = R st st'"
      "(\<And>d. dpdk_data (g d) = dpdk_data d) \<Longrightarrow> R (map_dpdk i g st) st' = R st st'"
    and R_clear: "R st st' \<Longrightarrow> R st (map_vio i (\<lambda>v. v\<lparr>vio2vf_cpu := cpu, tx_q_bitmap := 0, rx_q_bitmap := 0\<rparr>) st')"
begin

text \<open>The condition on updates is decided by unfolding the data fields.\<close>

lemmas R_maps [simp] = R_vio [unfolded vio_data_def] R_dpdk [unfolded dpdk_data_def]

lemma R_calls: "R st (st'\<lparr>hist := hist st' @ map Did cs\<rparr>) = R st st'" "R (st\<lparr>hist := hist st @ map Did cs\<rparr>) st' = R st st'"
proof (induction cs rule: rev_induct)
  case (snoc c cs)
  have "s\<lparr>hist := hist s @ map Did (cs @ [c])\<rparr> = did c (s\<lparr>hist := hist s @ map Did cs\<rparr>)" for s :: gstate
    by (simp add: did_def)
  then show "R st (st'\<lparr>hist := hist st' @ map Did (cs @ [c])\<rparr>) = R st st'"
    "R (st\<lparr>hist := hist st @ map Did (cs @ [c])\<rparr>) st' = R st st'"
    using snoc by simp_all
qed simp_all

lemma logs_R_iff: "logs s s' \<Longrightarrow> R st s' = R st s" "logs s s' \<Longrightarrow> R s' st = R s st"
  by (auto simp: logs_def R_calls)

lemma logs_R: "logs st st' \<Longrightarrow> R st st'"
  by (simp add: logs_R_iff)

lemmas R_library [simp] =
  logs_R_iff [OF logs_call(1)] logs_R_iff [OF logs_call(2)] logs_R_iff [OF logs_call(3)]
  logs_R_iff [OF logs_cleanup] logs_R_iff [OF logs_start] logs_R_iff [OF logs_alloc_mempool]
  logs_R_iff [OF logs_cleanup_devs] logs_R_iff [OF logs_remove_slaves] logs_R_iff [OF logs_slave_in_use]
  logs_R_iff [OF logs_reconfigure] logs_R_iff [OF logs_setup_queues]

lemma flag_thread_R [frame_dests]: "flag_thread c st = Some st' \<Longrightarrow> R st st'"
  by (auto simp: flag_thread_def signal_update_def split: if_splits)

lemma find_cpu_R [frame_dests]:
  "find_vf2virtio_cpu i st = Some st' \<Longrightarrow> R st st'" "find_virtio2vf_cpu i st = Some st' \<Longrightarrow> R st st'"
  by (auto simp: find_vf2virtio_cpu_def find_virtio2vf_cpu_def bind_Some_iff dest: flag_thread_R split: if_splits)

lemma configure_R [frame_dests]:
  "configure_dev_with_virtio env dbdf p i b n st = Some (err, st') \<Longrightarrow> R st st'"
  by (auto simp: configure_dev_with_virtio_def Let_def case_prod_beta bind_Some_iff split: if_splits
      dest!: frame_dests intro: R_trans)

lemma ensure_mempool_R [simp]: "R st (snd (ensure_mempool env i st))"
  by (auto simp: ensure_mempool_def Let_def case_prod_beta split: option.splits)

lemma dev_queue_configure_R [simp]: "R st (snd (dev_queue_configure env p i b st))"
  using R_trans [OF _ ensure_mempool_R]
  by (auto simp: dev_queue_configure_def Let_def case_prod_beta)

lemma init_vf_R: "init_vf env dbdf i p0 st = (err, p, st') \<Longrightarrow> R st st'"
  using R_trans [OF _ dev_queue_configure_R]
  by (auto simp: init_vf_def Let_def case_prod_beta split: option.splits if_splits)

lemma add_vf2_R [frame_dests]:
  "virtio_forwarder_add_vf2 env dbdf i c st = Some (err, st') \<Longrightarrow> R st st'"
  by (auto simp: virtio_forwarder_add_vf2_def bind_Some_iff split: if_splits prod.splits dest!: init_vf_R frame_dests
      intro: R_trans)

lemma swap_mempool_R [frame_dests]: "swap_mempool i p n st = Some st' \<Longrightarrow> R st st'"
  by (auto simp: swap_mempool_def Let_def split: if_splits)

lemma migrate_mempool_R [frame_dests]: "migrate_mempool env i node n st = Some (err, st') \<Longrightarrow> R st st'"
  by (auto simp: migrate_mempool_def Let_def case_prod_beta bind_Some_iff split: option.splits if_splits
      dest!: frame_dests) (metis R_library logs_R_iff(1) logs_reconfigure snd_conv)+

lemma init_slaves_R [frame_dests]: "init_slaves env b i ss k ids st = Some (ok, ids', st') \<Longrightarrow> R st st'"
proof (induction ss arbitrary: k ids st)
  case Nil
  then show ?case by simp
next
  case (Cons s ss)
  obtain p0 err p st1 where 1: "array_get ids k = Some p0" "init_vf env s i p0 st = (err, p, st1)"
    using Cons.prems by (auto simp: bind_Some_iff) (metis prod_cases3)
  show ?case
    using Cons.prems 1 Cons.IH [of "Suc k" "ids[k := p]" "did (Rte_eth_bond_slave_add b p) st1"] init_vf_R [OF 1(2)]
    by (auto simp: Let_def split: if_splits intro: R_trans)
qed

lemma bond_add_R [frame_dests]:
  assumes "virtio_forwarder_bond_add env g ss name mode i st = Some (err, st')"
  shows "R st st'"
proof -
  have d: "R s s' \<Longrightarrow> R s (snd (dev_queue_configure env p i b s'))" for s s' p b
    by (rule R_trans [OF _ dev_queue_configure_R])
  show ?thesis
    using assms
    by (auto simp: virtio_forwarder_bond_add_def Let_def case_prod_beta bind_Some_iff split: if_splits
        dest!: frame_dests) (metis d R_trans prod.collapse)+
qed

lemma wait_until_R: "sched_in R sched \<Longrightarrow> R st (wait_until P sched n st)"
  by (induction n arbitrary: st) (auto simp: sched_in_def intro: R_trans)

lemma stop_vm2vf_thread_R:
  "sched_in R sched \<Longrightarrow> stop_vm2vf_thread sched i st = (err, st') \<Longrightarrow> R st st'"
  using wait_until_R [of sched "map_dpdk i (\<lambda>d. d\<lparr>dpdk_state := DPDK_REMOVING1\<rparr>) st"]
  by (auto simp: stop_vm2vf_thread_def Let_def simp del: wait_until.simps split: if_splits)

lemma detach_calls_R: "detach_calls env i p st = Some (err, st') \<Longrightarrow> R st st'"
  by (rule logs_R [OF detach_calls_logs])

lemma forget_device_R [simp]: "R st (forget_device i st') = R st st'"
  by (simp add: forget_device_def Let_def)

lemma remove_vf2_R:
  assumes "sched_in R sched" "virtio_forwarder_remove_vf2 env sched dbdf i c st = Some (err, st')"
  shows "R st st'"
proof -
  have "R st st'" if d: "detach_device env sched i st = Some (err, st')"
  proof -
    obtain e st1 where 1: "stop_vm2vf_thread sched i st = (e, st1)" by fastforce
    show ?thesis
      using d stop_vm2vf_thread_R [OF assms(1) 1]
      by (auto simp: detach_device_def 1 bind_Some_iff split: if_splits dest!: flag_thread_R detach_calls_R)
        (meson R_trans)+
  qed
  then show ?thesis
    using assms(2) by (auto simp: virtio_forwarder_remove_vf2_def Let_def split: if_splits)
qed

lemma guest_mempool_R: "guest_mempool env i node st = Some (ok, st') \<Longrightarrow> R st st'"
  by (auto simp: guest_mempool_def Let_def case_prod_beta bind_Some_iff split: option.splits if_splits dest!: migrate_mempool_R)

lemma start_added_vf_R: "start_added_vf env i st = Some st' \<Longrightarrow> R st st'"
  by (auto simp: start_added_vf_def Let_def case_prod_beta bind_Some_iff split: if_splits dest!: frame_dests intro: R_trans)

lemma add_virtio_R: "virtio_forwarder_add_virtio env dev i st = Some (err, st') \<Longrightarrow> R st st'"
  by (auto simp: virtio_forwarder_add_virtio_def Let_def get_guest_numa_def case_prod_beta bind_Some_iff split: if_splits
      dest!: frame_dests guest_mempool_R start_added_vf_R) (meson R_trans)+

lemma remove_virtio_R:
  assumes "sched_in R sched" "virtio_forwarder_remove_virtio env sched i st = Some st'"
  shows "R st st'"
proof -
  have w: "R st (map_vio i (\<lambda>v. v\<lparr>vio2vf_cpu := c, tx_q_bitmap := 0, rx_q_bitmap := 0\<rparr>)
      (wait_until P sched n (map_vio i (\<lambda>v. v\<lparr>vio_state := s\<rparr>) st)))" for P n s c
    using R_clear [OF wait_until_R [OF assms(1), of "map_vio i (\<lambda>v. v\<lparr>vio_state := s\<rparr>) st"]] by simp
  show ?thesis
    using assms(2)
    by (auto simp: virtio_forwarder_remove_virtio_def Let_def bind_Some_iff simp del: wait_until.simps split: if_splits
        dest!: flag_thread_R) (rule R_trans [OF w], (erule (1) R_trans | assumption))+
qed

lemma remove_relays_R:
  assumes "sched_in R sched"
  shows "remove_relays env sched is st = Some st' \<Longrightarrow> R st st'"
proof (induction "is" arbitrary: st)
  case Nil
  then show ?case by simp
next
  case (Cons i "is")
  then obtain st1 where 1: "remove_relay env sched i st = Some st1" "remove_relays env sched is st1 = Some st'"
    by (auto simp: bind_Some_iff)
  have "R st st1"
    using 1(1) by (auto simp: remove_relay_def virtio_forwarder_remove_vf_def Let_def bind_Some_iff split: if_splits
        dest!: remove_virtio_R [OF assms] remove_vf2_R [OF assms] intro: R_trans)
  then show ?case using Cons.IH [OF 1(2)] by (rule R_trans)
qed

lemma init_static_vfs_R: "init_static_vfs env es st = Some st' \<Longrightarrow> R st st'"
  by (induction es arbitrary: st)
    (auto simp: bind_Some_iff virtio_forwarder_add_vf_def dest!: frame_dests intro: R_trans)

lemma launch_workers_R: "R st (fold launch_worker cs st)"
proof (induction cs arbitrary: st)
  case Nil
  then show ?case by simp
next
  case (Cons c cs)
  have "R st (launch_worker c st)" by (simp add: launch_worker_def worker_start_def)
  then show ?case using R_trans [OF _ Cons.IH] by simp
qed

lemma move_R: "move_virtio2vf i cpu st = Some st' \<Longrightarrow> R st st'" "move_vf2virtio i cpu st = Some st' \<Longrightarrow> R st st'"
  by (auto simp: move_virtio2vf_def move_vf2virtio_def bind_Some_iff Let_def dest!: flag_thread_R
      intro: R_trans split: if_splits)

lemma migrate_R: "migrate_relay_cpus n a b st = Some (e, st') \<Longrightarrow> R st st'"
  by (auto simp: migrate_relay_cpus_def bind_Some_iff dest!: move_R intro: R_trans split: if_splits)

end

text \<open>Relations that do not see the counters of the last query, and the table of sockets, either.\<close>

locale query_frame = control_frame +
  assumes R_prev [simp]: "R st (st'\<lparr>relay_prev_counters := p\<rparr>) = R st st'" "R (st\<lparr>relay_prev_counters := p\<rparr>) st' = R st st'"

locale system_frame = query_frame +
  assumes R_table [simp]: "R st (st'\<lparr>relay_ifname_map := m\<rparr>) = R st st'" "R (st\<lparr>relay_ifname_map := m\<rparr>) st' = R st st'"

subsection \<open>What the operations on relays leave to the components above\<close>

definition keeps :: "gstate \<Rightarrow> gstate \<Rightarrow> bool" where
  "keeps st st' \<longleftrightarrow> control_part st' = control_part st \<and> MAX_RELAYS st' = MAX_RELAYS st"

lemma keeps_updates [simp]:
  "keeps st (put_relay i r st') = keeps st st'" "keeps st (did c st') = keeps st st'"
  "keeps st (map_vio i f st') = keeps st st'" "keeps st (map_dpdk i g st') = keeps st st'"
  "keeps st (st'\<lparr>worker_threads := ts\<rparr>) = keeps st st'" "keeps st (st'\<lparr>hist := h\<rparr>) = keeps st st'"
  by (simp_all add: keeps_def map_vio_def map_dpdk_def) (simp_all add: put_relay_def did_def)

lemma keeps_updates_left [simp]:
  "keeps (put_relay i r st) st' = keeps st st'" "keeps (did c st) st' = keeps st st'"
  "keeps (map_vio i f st) st' = keeps st st'" "keeps (map_dpdk i g st) st' = keeps st st'"
  "keeps (st\<lparr>worker_threads := ts\<rparr>) st' = keeps st st'" "keeps (st\<lparr>hist := h\<rparr>) st' = keeps st st'"
  by (simp_all add: keeps_def map_vio_def map_dpdk_def) (simp_all add: put_relay_def did_def)

interpretation keeps_frame: control_frame keeps
  by unfold_locales (simp_all, simp_all add: keeps_def)

lemmas keeps_trans [trans] = keeps_frame.R_trans

lemmas logs_keeps = keeps_frame.logs_R

lemmas flag_thread_keeps = keeps_frame.flag_thread_R
lemmas add_vf2_keeps = keeps_frame.add_vf2_R
lemmas bond_add_keeps = keeps_frame.bond_add_R
lemmas remove_vf2_keeps = keeps_frame.remove_vf2_R
lemmas add_virtio_keeps = keeps_frame.add_virtio_R
lemmas remove_virtio_keeps = keeps_frame.remove_virtio_R
lemmas migrate_keeps = keeps_frame.migrate_R

lemmas keeps_dests = flag_thread_keeps keeps_frame.find_cpu_R keeps_frame.configure_R add_vf2_keeps
  keeps_frame.swap_mempool_R keeps_frame.migrate_mempool_R keeps_frame.init_slaves_R bond_add_keeps

abbreviation sched_keeps :: "(nat \<Rightarrow> gstate \<Rightarrow> gstate) \<Rightarrow> bool" where
  "sched_keeps \<equiv> sched_in keeps"

lemma workers_sched_keeps: "sched_keeps (workers_sched env ca cb)"
proof -
  have it: "keeps s s'" if w: "worker_iteration env c s = Some (p, s')" for c s p s'
  proof -
    have u: "update_thread c t = Some t' \<Longrightarrow> control_part t' = control_part t" for t t'
      by (auto simp: update_thread_def Let_def bind_Some_iff)
    have "control_part s' = control_part s"
      using w by (auto simp: worker_iteration_def Let_def bind_Some_iff dest!: service_relays_control u split: if_splits)
    then show ?thesis using worker_iteration_keeps [OF w] by (simp add: keeps_def)
  qed
  show ?thesis
    by (auto simp: sched_in_def workers_sched_def split: option.splits dest!: it intro: keeps_trans)
qed

text \<open>Start-up sets the worker bitmap besides.\<close>

lemma initialize_keeps:
  assumes "virtio_forwarders_initialize env lcores st = Some (err, st')"
  shows "err = 0" "keeps (st\<lparr>worker_core_bitmap := conf_worker_core_bitmap (g_conf st)\<rparr>) st'"
proof -
  obtain rs where rs: "init_relays st [0..<MAX_RELAYS st] = Some rs"
    using assms by (auto simp: virtio_forwarders_initialize_def bind_Some_iff)
  define st1 where "st1 = st\<lparr>virtio_vf_relays := rs, worker_threads := replicate MAX_CPUS zero_thread,
     worker_core_bitmap := conf_worker_core_bitmap (g_conf st)\<rparr>"
  have 1: "keeps (st\<lparr>worker_core_bitmap := conf_worker_core_bitmap (g_conf st)\<rparr>) st1"
    using init_relays_Some [OF rs] by (simp add: keeps_def control_part_def st1_def)
  define st2 where "st2 = fold launch_worker lcores st1"
  have 2: "init_static_vfs env (static_relays (g_conf st2)) st2 = Some st'" "err = 0"
    using assms unfolding virtio_forwarders_initialize_def rs bind.bind_lunit Let_def st1_def [symmetric] st2_def [symmetric]
    by (auto simp: bind_Some_iff)
  show "err = 0" by (rule 2(2))
  show "keeps (st\<lparr>worker_core_bitmap := conf_worker_core_bitmap (g_conf st)\<rparr>) st'"
    using keeps_trans [OF keeps_trans [OF 1 keeps_frame.launch_workers_R [of st1 lcores]]
      keeps_frame.init_static_vfs_R [OF 2(1) [unfolded st2_def]]]
    by simp
qed

end
