(* ===== verification/Vhostuser.thy ===== *)
theory Vhostuser
  imports Frame
begin

text \<open>
  The vhost-user side (\<open>virtio_vhostuser.c\<close>, \<open>ugid.c\<close>): the map from relays to sockets, the
  names of the default sockets, the callbacks of the vhost library, registration of
  sockets, start and stop, and the operations on pairs of a socket and a device.

  The state is the part \<open>relay_ifname_map\<close>, \<open>vhost_socket_name_prefix\<close>,
  \<open>vhost_socket_name_suffix\<close>, \<open>mk_default_sockets\<close> and \<open>g_conf\<close> of the global state. \<open>None\<close>
  is undefined behaviour of the source, as in the other theories.
\<close>

subsection \<open>Names of sockets\<close>

definition is_digit :: "char \<Rightarrow> bool" where
  "is_digit c \<longleftrightarrow> 48 \<le> (of_char c :: nat) \<and> (of_char c :: nat) \<le> 57"

definition digit_value :: "char \<Rightarrow> nat" where
  "digit_value c = of_char c - 48"

definition is_space :: "char \<Rightarrow> bool" where
  "is_space c \<longleftrightarrow> (of_char c :: nat) = 32 \<or> 9 \<le> (of_char c :: nat) \<and> (of_char c :: nat) \<le> 13"

text \<open>The number a string starts with; outside the range of \<open>int\<close>, \<open>atoi\<close> is undefined.\<close>

definition number :: "string \<Rightarrow> nat" where
  "number s = foldl (\<lambda>n c. 10 * n + digit_value c) 0 (takeWhile is_digit s)"

definition atoi :: "string \<Rightarrow> int option" where
  "atoi s =
     (let s = dropWhile is_space s;
          v = (case s of c # cs \<Rightarrow> if of_char c = (45 :: nat) then - int (number cs)
                                   else if of_char c = (43 :: nat) then int (number cs) else int (number s)
               | [] \<Rightarrow> 0)
      in if - (2 ^ 31) \<le> v \<and> v < 2 ^ 31 then Some v else None)"

definition virtio_vhostuser_id_to_name :: "gstate \<Rightarrow> nat \<Rightarrow> nat \<Rightarrow> string" where
  "virtio_vhostuser_id_to_name st i namesz =
     strlcpy (vhost_socket_name_prefix st @ dec i @ vhost_socket_name_suffix st) namesz"

definition virtio_vhostuser_name_to_id :: "gstate \<Rightarrow> string \<Rightarrow> int option" where
  "virtio_vhostuser_name_to_id st name =
     (let prefix = vhost_socket_name_prefix st; suffix = vhost_socket_name_suffix st;
          namelen = length name; prefixlen = length prefix; suffixlen = length suffix in
      if namelen < prefixlen + suffixlen + 1 then Some (-1)
      else if take prefixlen name \<noteq> prefix then Some (-1)
      else if suffixlen \<noteq> 0 \<and> drop (namelen - suffixlen) name \<noteq> suffix then Some (-1)
      else let spn = length (takeWhile is_digit (drop prefixlen name)) in
        if namelen < prefixlen + spn then Some (-1)
        else do {
          v \<leftarrow> atoi (drop prefixlen name);
          let i = v mod 2 ^ 32;
          Some (if i < int (MAX_RELAYS st) then i else -1) })"

primrec find_sock :: "string option list \<Rightarrow> nat \<Rightarrow> string \<Rightarrow> int" where
  "find_sock [] i path = -1"
| "find_sock (n # ns) i path = (if n = Some path then int i else find_sock ns (Suc i) path)"

definition get_relay_for_sock :: "gstate \<Rightarrow> string \<Rightarrow> int" where
  "get_relay_for_sock st path = find_sock (relay_ifname_map st) 0 path"

subsection \<open>Callbacks of the vhost library\<close>

definition get_ifname :: "env \<Rightarrow> int \<Rightarrow> gstate \<Rightarrow> string \<times> gstate" where
  "get_ifname env vid st = (e_name env (hist st) (Rte_vhost_get_ifname vid), did (Rte_vhost_get_ifname vid) st)"

primrec disable_notifications :: "int \<Rightarrow> nat list \<Rightarrow> gstate \<Rightarrow> gstate" where
  "disable_notifications vid [] st = st"
| "disable_notifications vid (q # qs) st =
     disable_notifications vid qs
       (did (Rte_vhost_enable_guest_notification vid (q * 2 + 1) 0)
         (did (Rte_vhost_enable_guest_notification vid (q * 2) 0) st))"

definition virtio_vhostuser_new_device_cb :: "env \<Rightarrow> int \<Rightarrow> gstate \<Rightarrow> (int \<times> gstate) option" where
  "virtio_vhostuser_new_device_cb env vid st = do {
     let num_vring_pairs = e_count env (hist st) (Rte_vhost_get_vring_num vid) div 2;
     let st = did (Rte_vhost_get_vring_num vid) st;
     let (ifname, st) = get_ifname env vid st;
     let st = disable_notifications vid [0..<num_vring_pairs] st;
     let i = get_relay_for_sock st ifname;
     if i < 0 then Some (-1, st)
     else do {
       (err, st) \<leftarrow> virtio_forwarder_add_virtio env vid (nat i) st;
       Some (if err = 0 then 0 else -1, st) } }"

definition virtio_vhostuser_destroy_device_cb ::
  "env \<Rightarrow> (nat \<Rightarrow> gstate \<Rightarrow> gstate) \<Rightarrow> int \<Rightarrow> gstate \<Rightarrow> gstate option" where
  "virtio_vhostuser_destroy_device_cb env sched vid st =
     (let (str, st) = get_ifname env vid st; i = get_relay_for_sock st str in
      if i < 0 then Some st else virtio_forwarder_remove_virtio env sched (nat i) st)"

definition virtio_vhostuser_vring_state_change_cb ::
  "env \<Rightarrow> int \<Rightarrow> nat \<Rightarrow> int \<Rightarrow> gstate \<Rightarrow> (int \<times> gstate) option" where
  "virtio_vhostuser_vring_state_change_cb env vid queue_id enable st = do {
     let (ifname, st) = get_ifname env vid st;
     let i = get_relay_for_sock st ifname;
     if i < 0 then Some (-1, st)
     else do {
       st \<leftarrow> virtio_forwarder_vring_state_change (nat i) queue_id enable st;
       Some (0, st) } }"

text \<open>\<open>need_log\<close> is the macro \<open>RTE_VHOST_NEED_LOG\<close> of the vhost library.\<close>

definition virtio_vhostuser_features_changed_cb ::
  "env \<Rightarrow> (64 word \<Rightarrow> bool) \<Rightarrow> int \<Rightarrow> 64 word \<Rightarrow> gstate \<Rightarrow> (int \<times> gstate) option" where
  "virtio_vhostuser_features_changed_cb env need_log vid features st = do {
     let (ifname, st) = get_ifname env vid st;
     let i = get_relay_for_sock st ifname;
     if i < 0 then Some (-1, st)
     else if need_log features
     then do { st \<leftarrow> virtio_set_lm_pending i st; Some (0, st) }
     else Some (0, st) }"

definition virtio_vhostuser_new_connection_cb :: "env \<Rightarrow> int \<Rightarrow> gstate \<Rightarrow> int \<times> gstate" where
  "virtio_vhostuser_new_connection_cb env vid st = (0, snd (get_ifname env vid st))"

definition virtio_vhostuser_destroy_connection_cb :: "env \<Rightarrow> int \<Rightarrow> gstate \<Rightarrow> gstate" where
  "virtio_vhostuser_destroy_connection_cb env vid st = snd (get_ifname env vid st)"

subsection \<open>Users and groups\<close>

definition lookup_id :: "env \<Rightarrow> call \<Rightarrow> gstate \<Rightarrow> int \<times> int option \<times> gstate" where
  "lookup_id env c st =
     (let r = rc env st c; res = e_ids env (hist st) c; st = did c st in
      case res of None \<Rightarrow> (if r = 0 then -2 else r, None, st) | Some u \<Rightarrow> (r, Some u, st))"

definition get_uid :: "env \<Rightarrow> string \<Rightarrow> int \<Rightarrow> gstate \<Rightarrow> int \<times> int \<times> gstate" where
  "get_uid env uname uid st =
     (let (r, found, st) = lookup_id env (Getpwnam uname) st
      in (r, case found of None \<Rightarrow> uid | Some u \<Rightarrow> u, st))"

definition get_gid :: "env \<Rightarrow> string \<Rightarrow> int \<Rightarrow> gstate \<Rightarrow> int \<times> int \<times> gstate" where
  "get_gid env gname gid st =
     (let (r, found, st) = lookup_id env (Getgrnam gname) st
      in (r, case found of None \<Rightarrow> gid | Some u \<Rightarrow> u, st))"

subsection \<open>Default sockets\<close>

text \<open>Position of the first occurrence, as \<open>strstr\<close>.\<close>

primrec strstr :: "string \<Rightarrow> string \<Rightarrow> nat option" where
  "strstr [] p = (if p = [] then Some 0 else None)"
| "strstr (c # cs) p = (if take (length p) (c # cs) = p then Some 0 else map_option Suc (strstr cs p))"

text \<open>The socket directory: it exists, or is created; the second component tells that it was.\<close>

definition ensure_directory :: "env \<Rightarrow> string \<Rightarrow> gstate \<Rightarrow> bool \<times> bool \<times> gstate" where
  "ensure_directory env path st =
     (let kind = e_file env (hist st) (Stat path); st = did (Stat path) st in
      if kind \<noteq> NoFile then (kind = Directory, False, st)
      else let (err, st) = call_rc env (Mkdir path) st in (err = 0, True, st))"

text \<open>The template must contain one \<open>%u\<close> and no slash.\<close>

definition template_position :: "string \<Rightarrow> nat option" where
  "template_position name =
     (case strstr name ''%u'' of
        None \<Rightarrow> None
      | Some k \<Rightarrow> if strstr (drop (k + 1) name) ''%u'' \<noteq> None then None
                  else if CHR ''/'' \<in> set name then None else Some k)"

text \<open>The socket path has at most 127 characters, the size of its buffer in the configuration.\<close>

definition split_template :: "nat \<Rightarrow> gstate \<Rightarrow> (int \<times> gstate) option" where
  "split_template k st =
     (let name = socket_name (g_conf st); path = socket_path (g_conf st); rest = drop (k + 2) name in
      if 128 < length path + 1 then None
      else let st = st\<lparr>vhost_socket_name_prefix := strlcpy (path @ ''/'' @ take k name) 128\<rparr> in
        if rest \<noteq> []
        then let st = st\<lparr>vhost_socket_name_suffix := strlcpy rest 128\<rparr>
             in Some (if is_digit (hd rest) then 1 else 0, st)
        else Some (0, st\<lparr>vhost_socket_name_suffix := []\<rparr>))"

definition owner_ids :: "env \<Rightarrow> gstate \<Rightarrow> (int \<times> int) option \<times> gstate" where
  "owner_ids env st =
     (let conf = g_conf st;
          (r, uid, st) = (if vhost_username conf \<noteq> [] then get_uid env (vhost_username conf) (e_uid env) st else (0, e_uid env, st)) in
      if r \<noteq> 0 then (None, st)
      else let (r, gid, st) = (if vhost_groupname conf \<noteq> [] then get_gid env (vhost_groupname conf) (e_gid env) st else (0, e_gid env, st)) in
        if r \<noteq> 0 then (None, st) else (Some (uid, gid), st))"

definition prep_default_sockets :: "env \<Rightarrow> gstate \<Rightarrow> (int \<times> gstate) option" where
  "prep_default_sockets env st =
     (let (ok, created_path, st) = ensure_directory env (socket_path (g_conf st)) st in
      if \<not> ok then Some (1, st)
      else case template_position (socket_name (g_conf st)) of
        None \<Rightarrow> Some (1, st)
      | Some k \<Rightarrow> do {
          (err, st) \<leftarrow> split_template k st;
          if err \<noteq> 0 then Some (1, st)
          else do {
            let (ids, st) = owner_ids env st;
            case ids of
              None \<Rightarrow> Some (-1, st)
            | Some (uid, gid) \<Rightarrow>
                Some (0, if (uid \<noteq> e_uid env \<or> gid \<noteq> e_gid env) \<and> created_path
                         then did (Chown (socket_path (g_conf st)) uid gid) st else st) } })"

subsection \<open>Registering sockets\<close>

text \<open>A stale socket file is deleted when the forwarder is the server.\<close>

definition clear_stale :: "env \<Rightarrow> string \<Rightarrow> gstate \<Rightarrow> bool \<times> gstate" where
  "clear_stale env path st =
     (if vhost_client (g_conf st) then (True, st)
      else let kind = e_file env (hist st) (Stat path); st = did (Stat path) st in
        if kind = NoFile then (True, st)
        else if kind = Socket then let (err, st) = call_rc env (Unlink path) st in (err = 0, st)
        else (False, st))"

text \<open>Feature bits of \<open>linux/virtio_net.h\<close>.\<close>

definition disable_features :: "string \<Rightarrow> gstate \<Rightarrow> gstate" where
  "disable_features path st =
     (let conf = g_conf st;
          off = (\<lambda>b st. did (Rte_vhost_driver_disable_features path (2 ^ b)) st);
          st = (if \<not> use_rx_mrgbuf conf then off (15 :: nat) st else st);
          st = off 18 st
      in if \<not> enable_tso conf then off 12 (off 11 st) else st)"

text \<open>The owner of a socket file; failures of the lookups are ignored here.\<close>

definition own_socket :: "env \<Rightarrow> string \<Rightarrow> gstate \<Rightarrow> int \<times> gstate" where
  "own_socket env path st =
     (let (_, uid, st) = get_uid env (vhost_username (g_conf st)) (e_uid env) st;
          (_, gid, st) = get_gid env (vhost_groupname (g_conf st)) (e_gid env) st in
      if \<not> vhost_client (g_conf st) \<and> (uid \<noteq> e_uid env \<or> gid \<noteq> e_gid env)
      then let (err, st) = call_rc env (Chown path uid gid) st in (if err \<noteq> 0 then -1 else 0, st)
      else (0, st))"

definition register_relay_socket :: "env \<Rightarrow> string \<Rightarrow> nat \<Rightarrow> gstate \<Rightarrow> (int \<times> gstate) option" where
  "register_relay_socket env path i st = do {
     let (ok, st) = clear_stale env path st;
     if \<not> ok then Some (-1, st)
     else do {
       used \<leftarrow> array_get (relay_ifname_map st) i;
       if used \<noteq> None then Some (-1, st)
       else do {
         let (err, st) = call_rc env (Rte_vhost_driver_register path (if vhost_client (g_conf st) then 1 else 0)) st;
         if err \<noteq> 0 then Some (-1, st)
         else do {
           let st = did (Rte_vhost_driver_callback_register path) (disable_features path st);
           let (err, st) = call_rc env (Rte_vhost_driver_start path) st;
           if err \<noteq> 0 then Some (-1, st)
           else Some (own_socket env path (st\<lparr>relay_ifname_map := (relay_ifname_map st)[i := Some path]\<rparr>)) } } } }"

definition deregister_socket :: "env \<Rightarrow> string \<Rightarrow> gstate \<Rightarrow> int \<times> gstate" where
  "deregister_socket env path st =
     (let (err, st) = call_rc env (Rte_vhost_driver_unregister path) st; i = get_relay_for_sock st path in
      if i < 0 then (1, st)
      else (err, st\<lparr>relay_ifname_map := (relay_ifname_map st)[nat i := None]\<rparr>))"

subsection \<open>Start and stop\<close>

primrec register_defaults :: "env \<Rightarrow> nat list \<Rightarrow> gstate \<Rightarrow> (int \<times> gstate) option" where
  "register_defaults env [] st = Some (0, st)"
| "register_defaults env (i # is) st = do {
     (err, st) \<leftarrow> register_relay_socket env (virtio_vhostuser_id_to_name st i 266) i st;
     if err \<noteq> 0 then Some (err, st) else register_defaults env is st }"

definition virtio_vhostuser_start ::
  "env \<Rightarrow> nat list \<Rightarrow> virtio_vhostuser_conf \<Rightarrow> bool \<Rightarrow> gstate \<Rightarrow> (int \<times> gstate) option" where
  "virtio_vhostuser_start env lcores conf create_sockets st = do {
     let st = st\<lparr>mk_default_sockets := create_sockets, relay_ifname_map := replicate (MAX_RELAYS st) None, g_conf := conf\<rparr>;
     (err, st) \<leftarrow> (if mk_default_sockets st then prep_default_sockets env st else Some (0, st));
     if err \<noteq> 0 then Some (err, st)
     else do {
       (err, st) \<leftarrow> virtio_forwarders_initialize env lcores st;
       if err \<noteq> 0 then Some (-1, st)
       else if mk_default_sockets st then register_defaults env [0..<MAX_RELAYS st] st else Some (0, st) } }"

primrec deregister_all :: "env \<Rightarrow> nat list \<Rightarrow> gstate \<Rightarrow> gstate" where
  "deregister_all env [] st = st"
| "deregister_all env (i # is) st =
     deregister_all env is
       (case relay_ifname_map st ! i of None \<Rightarrow> st | Some path \<Rightarrow> snd (deregister_socket env path st))"

definition virtio_vhostuser_stop :: "env \<Rightarrow> (nat \<Rightarrow> gstate \<Rightarrow> gstate) \<Rightarrow> gstate \<Rightarrow> gstate option" where
  "virtio_vhostuser_stop env sched st = do {
     st \<leftarrow> virtio_forwarders_remove_all env sched st;
     Some (virtio_forwarders_shutdown (deregister_all env [0..<MAX_RELAYS st] st)) }"

subsection \<open>Pairs of a socket and a device\<close>

text \<open>
  A null pointer is \<open>None\<close>; a bond without a name is undefined, and so is a removal by
  device of a relay that has no socket. \<open>garbage\<close> is as for \<open>virtio_forwarder_bond_add\<close>.
\<close>

definition add_device ::
  "env \<Rightarrow> port list \<Rightarrow> string list \<Rightarrow> string option \<Rightarrow> nat \<Rightarrow> bool \<Rightarrow> nat \<Rightarrow> gstate \<Rightarrow> (int \<times> gstate) option" where
  "add_device env garbage slave_dbdfs name mode conditional rid st =
     (if length slave_dbdfs = 1
      then do {
        (err, st) \<leftarrow> virtio_forwarder_add_vf2 env (hd slave_dbdfs) rid conditional st;
        Some (if err \<noteq> 0 then 3 else 0, st) }
      else do {
        n \<leftarrow> name;
        (err, st) \<leftarrow> virtio_forwarder_bond_add env garbage slave_dbdfs n mode rid st;
        Some (if err \<noteq> 0 then 4 else 0, st) })"

text \<open>\<open>rte_eth_dev_get_port_by_name\<close> fails on a null pointer; \<open>-EEXIST\<close> is -17.\<close>

definition device_attached :: "env \<Rightarrow> string option \<Rightarrow> gstate \<Rightarrow> bool \<times> gstate" where
  "device_attached env dev st =
     (case dev of None \<Rightarrow> (False, st)
      | Some d \<Rightarrow> let (err, st) = call_rc env (Rte_eth_dev_get_port_by_name d) st in (err = 0, st))"

definition virtio_add_sock_dev_pair ::
  "env \<Rightarrow> (nat \<Rightarrow> gstate \<Rightarrow> gstate) \<Rightarrow> port list \<Rightarrow> string option \<Rightarrow> string list \<Rightarrow> string option \<Rightarrow> nat \<Rightarrow> bool \<Rightarrow>
   gstate \<Rightarrow> (int \<times> gstate) option" where
  "virtio_add_sock_dev_pair env sched garbage vhost_path slave_dbdfs name mode conditional st =
     (case vhost_path of
        None \<Rightarrow> Some (-1, st)
      | Some path \<Rightarrow> do {
          let dev = (if length slave_dbdfs = 1 then Some (hd slave_dbdfs) else name);
          let (attached, st) = device_attached env dev st;
          if attached then Some (-17, st)
          else if 0 \<le> get_relay_for_sock st path then Some (1, st)
          else do {
            let rid = virtio_get_free_relay_id (relay_ifname_map st) st;
            if rid < 0 then Some (2, st)
            else do {
              (err, st) \<leftarrow> add_device env garbage slave_dbdfs name mode conditional (nat rid) st;
              if err \<noteq> 0 then Some (err, st)
              else do {
                (err, st) \<leftarrow> register_relay_socket env path (nat rid) st;
                if err = 0 then Some (0, st)
                else do {
                  d \<leftarrow> dev;
                  (_, st) \<leftarrow> virtio_forwarder_remove_vf2 env sched d (nat rid) conditional st;
                  Some (5, snd (deregister_socket env path st)) } } } } })"

text \<open>\<open>EINVAL\<close> is 22, \<open>ENOENT\<close> is 2.\<close>

definition virtio_query_pci :: "string option \<Rightarrow> gstate \<Rightarrow> int \<times> string option" where
  "virtio_query_pci vhost_path st =
     (case vhost_path of
        None \<Rightarrow> (22, None)
      | Some path \<Rightarrow>
          let rid = get_relay_for_sock st path in
          if rid < 0 then (2, None)
          else case get_relay_from_id st (nat rid) of
            None \<Rightarrow> (2, None)
          | Some i \<Rightarrow> (0, Some (pci_dbdf (dpdk (relay_of st i)))))"

text \<open>The relay and socket that a removal is about.\<close>

definition removal_target :: "string option \<Rightarrow> string \<Rightarrow> gstate \<Rightarrow> (nat \<times> string option) option" where
  "removal_target vhost_path dev st =
     (case vhost_path of
        Some path \<Rightarrow> let i = get_relay_for_sock st path in if i < 0 then None else Some (nat i, Some path)
      | None \<Rightarrow> map_option (\<lambda>i. (i, relay_ifname_map st ! i))
          (find (\<lambda>i. pci_dbdf (dpdk (relay_of st i)) = dev) [0..<MAX_RELAYS st]))"

text \<open>
  \<open>dev\<close> is a buffer of \<open>cap\<close> bytes: when it is empty the name of the relay's device is
  copied into it.
\<close>

definition virtio_remove_sock_dev_pair ::
  "env \<Rightarrow> (nat \<Rightarrow> gstate \<Rightarrow> gstate) \<Rightarrow> string option \<Rightarrow> string \<Rightarrow> nat \<Rightarrow> bool \<Rightarrow> gstate \<Rightarrow> (int \<times> gstate) option" where
  "virtio_remove_sock_dev_pair env sched vhost_path dev cap conditional st =
     (if vhost_path = None \<and> dev = [] then Some (-1, st)
      else case removal_target vhost_path dev st of
        None \<Rightarrow> Some (1, st)
      | Some (i, path) \<Rightarrow>
          let dbdf = pci_dbdf (dpdk (relay_of st i)) in
          if dev = [] \<and> cap \<le> length dbdf then None
          else if dev \<noteq> [] \<and> \<not> virtio_relay_has_device st i dev then Some (2, st)
          else do {
            let dev = (if dev = [] then dbdf else dev);
            st \<leftarrow> virtio_forwarder_remove_virtio env sched i st;
            path \<leftarrow> path;
            let (err, st) = deregister_socket env path st;
            if err \<noteq> 0 then Some (3, st)
            else do {
              (err, st) \<leftarrow> virtio_forwarder_remove_vf2 env sched dev i conditional st;
              Some (if err \<noteq> 0 then 4 else 0, st) } })"

end
