(* ===== verification/Sockets.thy ===== *)
theory Sockets
  imports Vhostuser
begin

text \<open>
  What the vhost-user side guarantees: the table of sockets is a finite map from socket paths
  to relays (\<open>socket_table\<close>), the names of the default sockets can be read back, start-up
  routes every default socket to its relay, callbacks reach the relay of their socket, and
  the operations on pairs of a socket and a device keep the table one-to-one.
\<close>

subsection \<open>The table of sockets\<close>

text \<open>No path occurs twice.\<close>

definition one_relay_each :: "nat \<Rightarrow> (nat \<Rightarrow> string option) \<Rightarrow> bool" where
  "one_relay_each n slot \<longleftrightarrow> (\<forall>i<n. \<forall>j<n. slot i = slot j \<longrightarrow> slot i \<noteq> None \<longrightarrow> i = j)"

text \<open>A table of slots searched by path, and the finite map it stands for.\<close>

locale socket_table =
  fixes slots :: "'m \<Rightarrow> nat"
    and slot :: "'m \<Rightarrow> nat \<Rightarrow> string option"
    and find_path :: "'m \<Rightarrow> string \<Rightarrow> int"
    and set_slot :: "nat \<Rightarrow> string option \<Rightarrow> 'm \<Rightarrow> 'm"
    and route :: "'m \<Rightarrow> string \<Rightarrow> nat option"
  assumes find_found: "0 \<le> find_path m p \<Longrightarrow> nat (find_path m p) < slots m \<and> slot m (nat (find_path m p)) = Some p"
    and find_missing: "find_path m p < 0 \<Longrightarrow> i < slots m \<Longrightarrow> slot m i \<noteq> Some p"
    and slot_set: "i < slots m \<Longrightarrow> slot (set_slot i v m) j = (if j = i then v else slot m j)"
    and slots_set: "slots (set_slot i v m) = slots m"
    and route_find: "route m p = (if find_path m p < 0 then None else Some (nat (find_path m p)))"
begin

lemma found:
  assumes "one_relay_each (slots m) (slot m)" "i < slots m" "slot m i = Some p"
  shows "find_path m p = int i"
proof -
  have "0 \<le> find_path m p" using find_missing [of m p i] assms(2,3) by (meson not_le)
  moreover from this have "nat (find_path m p) = i"
    using find_found [of m p] assms by (auto simp: one_relay_each_def)
  ultimately show ?thesis by simp
qed

lemma route_iff:
  assumes "one_relay_each (slots m) (slot m)"
  shows "route m p = Some i \<longleftrightarrow> i < slots m \<and> slot m i = Some p"
  using found [OF assms, of i p] find_found [of m p] by (auto simp: route_find)

lemma register:
  assumes "one_relay_each (slots m) (slot m)" "i < slots m" "slot m i = None" "route m p = None"
  shows "one_relay_each (slots m) (slot (set_slot i (Some p) m))" "route (set_slot i (Some p) m) = (route m)(p \<mapsto> i)"
proof -
  let ?m = "set_slot i (Some p) m"
  have free: "slot m j \<noteq> Some p" if "j < slots m" for j
    using find_missing [of m p j] that assms(4) by (auto simp: route_find split: if_splits)
  have sl: "slot ?m j = (if j = i then Some p else slot m j)" for j by (rule slot_set [OF assms(2)])
  have "j = k" if "j < slots m" "k < slots m" "slot ?m j = slot ?m k" "slot ?m j \<noteq> None" for j k
    using that assms(1) free [of j] free [of k] by (auto simp: sl one_relay_each_def split: if_splits)
  then show one: "one_relay_each (slots m) (slot ?m)" by (auto simp: one_relay_each_def)
  note r = route_iff [OF one [folded slots_set [of i "Some p" m]], unfolded slots_set]
  have "route ?m q = ((route m)(p \<mapsto> i)) q" for q
  proof (cases "route ?m q")
    case None
    then have "\<forall>j< slots m. slot ?m j \<noteq> Some q" using r [of q] by auto
    then have "q \<noteq> p" "\<forall>j< slots m. slot m j \<noteq> Some q" using assms(2,3) sl by (auto split: if_splits)
    then show ?thesis using None route_iff [OF assms(1), of q] by (cases "route m q") auto
  next
    case (Some j)
    then have "j < slots m" "slot ?m j = Some q" using r by auto
    then show ?thesis using Some sl [of j] route_iff [OF assms(1), of q j] free [of j] assms(2)
      by (auto split: if_splits)
  qed
  then show "route ?m = (route m)(p \<mapsto> i)" by blast
qed

lemma release:
  assumes "one_relay_each (slots m) (slot m)" "route m p = Some i"
  shows "one_relay_each (slots m) (slot (set_slot i None m))" "route (set_slot i None m) = (route m)(p := None)"
proof -
  let ?m = "set_slot i None m"
  have i: "i < slots m" "slot m i = Some p" using route_iff [OF assms(1)] assms(2) by auto
  have sl: "slot ?m j = (if j = i then None else slot m j)" for j by (rule slot_set [OF i(1)])
  show one: "one_relay_each (slots m) (slot ?m)"
    using assms(1) by (auto simp: one_relay_each_def sl)
  note r = route_iff [OF one [folded slots_set [of i None m]], unfolded slots_set]
  have "route ?m q = ((route m)(p := None)) q" for q
  proof (cases "route ?m q")
    case None
    then have n: "\<forall>j< slots m. j \<noteq> i \<longrightarrow> slot m j \<noteq> Some q" using r [of q] by (metis sl option.distinct(1))
    have "q = p" if "route m q = Some j" for j
      using that n route_iff [OF assms(1), of q j] i(2) by (cases "j = i") auto
    then show ?thesis using None by (cases "route m q") auto
  next
    case (Some j)
    then have "j < slots m" "slot ?m j = Some q" using r by auto
    then have "j \<noteq> i" "slot m j = Some q" using sl by (auto split: if_splits)
    then have "q \<noteq> p" using assms(1) i \<open>j < slots m\<close> by (auto simp: one_relay_each_def)
    then show ?thesis using Some route_iff [OF assms(1), of q j] \<open>j < slots m\<close> \<open>slot m j = Some q\<close> by simp
  qed
  then show "route ?m = (route m)(p := None)" by blast
qed

end

lemma find_sock_found: "0 \<le> find_sock m k p \<Longrightarrow> \<exists>i<length m. m ! i = Some p \<and> find_sock m k p = int (k + i)"
proof (induction m arbitrary: k)
  case (Cons n ns)
  then show ?case by (cases "n = Some p") (fastforce split: if_splits)+
qed simp

lemma find_sock_missing: "find_sock m k p < 0 \<Longrightarrow> find_sock m k p = -1 \<and> Some p \<notin> set m"
  by (induction m arbitrary: k) (auto split: if_splits)

text \<open>The relay a path leads to.\<close>

definition sock_route :: "string option list \<Rightarrow> string \<Rightarrow> nat option" where
  "sock_route m p = (if find_sock m 0 p < 0 then None else Some (nat (find_sock m 0 p)))"

interpretation sockets: socket_table length "\<lambda>m i. m ! i" "\<lambda>m p. find_sock m 0 p" "\<lambda>i v m. m[i := v]" sock_route
proof unfold_locales
  fix m p
  show "0 \<le> find_sock m 0 p \<Longrightarrow> nat (find_sock m 0 p) < length m \<and> m ! nat (find_sock m 0 p) = Some p"
    using find_sock_found [of m 0 p] by auto
next
  fix m :: "string option list" and p i
  show "find_sock m 0 p < 0 \<Longrightarrow> i < length m \<Longrightarrow> m ! i \<noteq> Some p"
    using find_sock_missing [of m 0 p] by (metis nth_mem)
qed (simp_all add: sock_route_def)

text \<open>The table of a state is one-to-one and has a slot for each relay.\<close>

definition sockets_ok :: "gstate \<Rightarrow> bool" where
  "sockets_ok st \<longleftrightarrow> length (relay_ifname_map st) = MAX_RELAYS st \<and>
     one_relay_each (MAX_RELAYS st) (\<lambda>i. relay_ifname_map st ! i)"

lemma sockets_okD:
  assumes "sockets_ok st"
  shows "length (relay_ifname_map st) = MAX_RELAYS st" "one_relay_each (length (relay_ifname_map st)) (\<lambda>i. relay_ifname_map st ! i)"
  using assms by (simp_all add: sockets_ok_def)

lemma keepsD:
  assumes "keeps st st'"
  shows "relay_ifname_map st' = relay_ifname_map st" "g_conf st' = g_conf st" "MAX_RELAYS st' = MAX_RELAYS st"
  using assms control_partD(2,3) [of st' st] unfolding keeps_def by blast+

lemma sockets_ok_keeps: "keeps st st' \<Longrightarrow> sockets_ok st' = sockets_ok st"
  using keepsD(1,3) [of st st'] by (simp add: sockets_ok_def)

subsection \<open>Reading names back\<close>

lemma digit_simps [simp]: "d < 10 \<Longrightarrow> is_digit (digit d)" "d < 10 \<Longrightarrow> digit_value (digit d) = d"
  by (simp_all add: is_digit_def digit_value_def digit_def)

lemma dec_digits: "c \<in> set (dec n) \<Longrightarrow> is_digit c"
proof (induction n rule: dec.induct)
  case (1 n)
  then show ?case by (subst (asm) dec.simps) (auto split: if_splits)
qed

lemma dec_value: "foldl (\<lambda>n c. 10 * n + digit_value c) a (dec n) = a * 10 ^ length (dec n) + n"
proof (induction n arbitrary: a rule: dec.induct)
  case (1 n)
  show ?case
  proof (cases "n < 10")
    case True
    then show ?thesis by (simp add: dec.simps [of n])
  next
    case False
    then have "dec n = dec (n div 10) @ [digit (n mod 10)]" by (subst dec.simps) simp
    then show ?thesis using 1 False by (simp add: algebra_simps)
  qed
qed

lemma dec_ne [simp]: "dec n \<noteq> []"
  by (subst dec.simps) simp

lemma length_dec: "0 < k \<Longrightarrow> n < 10 ^ k \<Longrightarrow> length (dec n) \<le> k"
proof (induction k arbitrary: n)
  case (Suc k)
  show ?case
  proof (cases "n < 10")
    case False
    then have "length (dec (n div 10)) \<le> k" using Suc by (cases k) (auto simp: less_mult_imp_div_less)
    then show ?thesis using False by (subst dec.simps) simp
  qed (subst dec.simps, simp)
qed simp

text \<open>A suffix that does not start with a digit, as \<open>prep_default_sockets\<close> requires.\<close>

definition no_digit_first :: "string \<Rightarrow> bool" where
  "no_digit_first s \<longleftrightarrow> s = [] \<or> \<not> is_digit (hd s)"

lemma takeWhile_dec: "no_digit_first s \<Longrightarrow> takeWhile is_digit (dec n @ s) = dec n"
proof -
  assume "no_digit_first s"
  then have "takeWhile is_digit s = []" by (cases s) (auto simp: no_digit_first_def)
  then show ?thesis using dec_digits by (simp add: takeWhile_append2)
qed

lemma number_dec: "no_digit_first s \<Longrightarrow> number (dec n @ s) = n"
  using dec_value [of 0 n] by (simp add: number_def takeWhile_dec)

lemma is_digit_no_space: "is_digit c \<Longrightarrow> \<not> is_space c \<and> of_char c \<noteq> (45 :: nat) \<and> of_char c \<noteq> (43 :: nat)"
  by (auto simp: is_digit_def is_space_def)

lemma atoi_dec:
  assumes "no_digit_first s" "n < 2 ^ 31"
  shows "atoi (dec n @ s) = Some (int n)"
proof -
  obtain c cs where c: "dec n = c # cs" by (cases "dec n") auto
  note d = is_digit_no_space [OF dec_digits [of c n]]
  have "dropWhile is_space (dec n @ s) = dec n @ s" using c d by simp
  then show ?thesis using c d number_dec [OF assms(1), of n] assms(2) by (simp add: atoi_def)
qed

text \<open>Prefix and suffix as start-up leaves them.\<close>

definition names_ok :: "gstate \<Rightarrow> bool" where
  "names_ok st \<longleftrightarrow> length (vhost_socket_name_prefix st) < 128 \<and> length (vhost_socket_name_suffix st) < 128 \<and>
     no_digit_first (vhost_socket_name_suffix st)"

lemma id_to_name_fits:
  assumes "names_ok st" "i < 10 ^ 10"
  shows "virtio_vhostuser_id_to_name st i 266 = vhost_socket_name_prefix st @ dec i @ vhost_socket_name_suffix st"
  using assms length_dec [of 10 i] by (simp add: virtio_vhostuser_id_to_name_def names_ok_def)

lemma id_to_name_inj:
  assumes "names_ok st" "i < 10 ^ 10" "j < 10 ^ 10"
    "virtio_vhostuser_id_to_name st i 266 = virtio_vhostuser_id_to_name st j 266"
  shows "i = j"
proof -
  have "dec i @ vhost_socket_name_suffix st = dec j @ vhost_socket_name_suffix st"
    using assms(4) unfolding id_to_name_fits [OF assms(1,2)] id_to_name_fits [OF assms(1,3)] by simp
  then show ?thesis
    using number_dec [of "vhost_socket_name_suffix st"] assms(1) by (metis names_ok_def)
qed

text \<open>The name of a default socket can be read back: parsing the name of relay \<open>i\<close> yields
  \<open>i\<close>.\<close>

theorem socket_name_roundtrip:
  assumes "names_ok st" "i < MAX_RELAYS st" "MAX_RELAYS st \<le> 2 ^ 31"
  shows "virtio_vhostuser_name_to_id st (virtio_vhostuser_id_to_name st i 266) = Some (int i)"
proof -
  have i: "i < 2 ^ 31" "i < 10 ^ 10" using assms(2,3) by simp_all
  let ?p = "vhost_socket_name_prefix st" and ?s = "vhost_socket_name_suffix st"
  have s: "no_digit_first ?s" using assms(1) by (simp add: names_ok_def)
  have "0 < length (dec i)" by simp
  moreover have "length (takeWhile is_digit (dec i @ ?s)) \<le> length (dec i @ ?s)" by (rule length_takeWhile_le)
  ultimately show ?thesis
    using atoi_dec [OF s i(1)] assms(2) i(1)
    unfolding virtio_vhostuser_name_to_id_def id_to_name_fits [OF assms(1) i(2)]
    by (simp add: Let_def)
qed

subsection \<open>Registering and releasing sockets\<close>

lemma logs_clear_stale [logs_intros]: "logs st (snd (clear_stale env p st))"
  by (auto simp: clear_stale_def Let_def call_rc_def case_prod_beta intro: logs_intros logs_trans [OF logs_did logs_did])

lemma logs_disable_features: "logs st (disable_features p st)"
  by (auto simp: disable_features_def Let_def intro!: logs_intros)

lemma logs_lookup: "get_uid env u d st = (r, x, st') \<Longrightarrow> logs st st'" "get_gid env u d st = (r, x, st') \<Longrightarrow> logs st st'"
  by (auto simp: get_uid_def get_gid_def lookup_id_def Let_def split: option.splits intro!: logs_intros)

lemma logs_own_socket [logs_intros]: "logs st (snd (own_socket env p st))"
proof -
  obtain r1 u st1 r2 g st2 where 1: "get_uid env (vhost_username (g_conf st)) (e_uid env) st = (r1, u, st1)"
    "get_gid env (vhost_groupname (g_conf st1)) (e_gid env) st1 = (r2, g, st2)"
    by (metis prod_cases3)
  have "logs st st2" by (rule logs_trans [OF logs_lookup(1) [OF 1(1)] logs_lookup(2) [OF 1(2)]])
  moreover have "logs st2 (snd (own_socket env p st))"
    by (auto simp: own_socket_def 1 case_prod_beta Let_def intro: logs_intros)
  ultimately show ?thesis by (rule logs_trans)
qed

text \<open>Setting slot \<open>i\<close> of the table, and library calls.\<close>

definition sets_slot :: "nat \<Rightarrow> string option \<Rightarrow> gstate \<Rightarrow> gstate \<Rightarrow> bool" where
  "sets_slot i v st st' \<longleftrightarrow> logs (st\<lparr>relay_ifname_map := (relay_ifname_map st)[i := v]\<rparr>) st'"

lemma sets_slot_logs: "logs st st1 \<Longrightarrow> sets_slot i v st1 st' \<Longrightarrow> sets_slot i v st st'"
  by (auto simp: sets_slot_def logs_def simp flip: map_append)

lemma sets_slot_sel:
  assumes "sets_slot i v st st'"
  shows "relay_ifname_map st' = (relay_ifname_map st)[i := v]" "virtio_vf_relays st' = virtio_vf_relays st"
    "vhost_socket_name_prefix st' = vhost_socket_name_prefix st" "vhost_socket_name_suffix st' = vhost_socket_name_suffix st"
    "g_conf st' = g_conf st"
  using assms by (auto simp: sets_slot_def logs_def)

lemma logs_names:
  "logs st st' \<Longrightarrow> relay_ifname_map st' = relay_ifname_map st \<and> virtio_vf_relays st' = virtio_vf_relays st \<and>
    vhost_socket_name_prefix st' = vhost_socket_name_prefix st \<and> vhost_socket_name_suffix st' = vhost_socket_name_suffix st"
  by (auto simp: logs_def)

lemma register_effect:
  assumes "register_relay_socket env path i st = Some (err, st')"
  shows "err \<noteq> 0 \<and> logs st st' \<or> i < length (relay_ifname_map st) \<and> relay_ifname_map st ! i = None \<and> sets_slot i (Some path) st st'"
proof -
  obtain ok st1 where 1: "clear_stale env path st = (ok, st1)" by fastforce
  have l1: "logs st st1" using logs_clear_stale [of st env path] 1 by simp
  obtain e2 st2 where 2: "call_rc env (Rte_vhost_driver_register path (if vhost_client (g_conf st1) then 1 else 0)) st1 = (e2, st2)" by fastforce
  have l2: "logs st st2" using logs_trans [OF l1] logs_call(1) 2 by (metis snd_conv)
  define st3 where "st3 = did (Rte_vhost_driver_callback_register path) (disable_features path st2)"
  have l3: "logs st st3" unfolding st3_def by (rule logs_trans [OF l2 logs_trans [OF logs_disable_features logs_did]])
  obtain e4 st4 where 4: "call_rc env (Rte_vhost_driver_start path) st3 = (e4, st4)" by fastforce
  have l4: "logs st st4" using logs_trans [OF l3] logs_call(1) 4 by (metis snd_conv)
  have own: "sets_slot i (Some path) st (snd (own_socket env path (st4\<lparr>relay_ifname_map := (relay_ifname_map st4)[i := Some path]\<rparr>)))"
    by (rule sets_slot_logs [OF l4]) (simp add: sets_slot_def logs_own_socket)
  note eq = assms [unfolded register_relay_socket_def 1 Let_def prod.case 2 st3_def [symmetric] 4]
  have m1: "relay_ifname_map st1 = relay_ifname_map st" using logs_names [OF l1] by simp
  show ?thesis
  proof (cases "err \<noteq> 0 \<and> logs st st'")
    case False
    then have "ok" using eq l1 by (auto split: if_splits)
    moreover from this have "array_get (relay_ifname_map st1) i = Some None \<and> e2 = 0 \<and> e4 = 0"
      using eq False l1 l2 l4 by (auto simp: bind_Some_iff split: if_splits)
    ultimately show ?thesis
      using eq own m1 by (auto simp: array_get_def split: if_splits)
  qed simp
qed

lemma deregister_effect:
  assumes "deregister_socket env path st = (err, st')"
  shows "case sock_route (relay_ifname_map st) path of None \<Rightarrow> err = 1 \<and> logs st st' | Some i \<Rightarrow> sets_slot i None st st'"
  using assms
  by (auto simp: deregister_socket_def Let_def call_rc_def did_def sock_route_def get_relay_for_sock_def sets_slot_def logs_def
      split: if_splits intro!: exI [of _ "[Rte_vhost_driver_unregister path]"])

lemma registers:
  assumes "sockets_ok st" "sock_route (relay_ifname_map st) path = None" "i < length (relay_ifname_map st)"
    "relay_ifname_map st ! i = None" "sets_slot i (Some path) st st'"
  shows "sockets_ok st'" "sock_route (relay_ifname_map st') = (sock_route (relay_ifname_map st))(path \<mapsto> i)"
  using sockets.register [OF sockets_okD(2) [OF assms(1)] assms(3,4,2)] sets_slot_sel [OF assms(5)] assms(1)
  by (simp_all add: sockets_ok_def)

lemma releases:
  assumes "sockets_ok st" "deregister_socket env path st = (err, st')"
  shows "sockets_ok st' \<and> sock_route (relay_ifname_map st') = (sock_route (relay_ifname_map st))(path := None)"
proof (cases "sock_route (relay_ifname_map st) path")
  case None
  then have "logs st st'" using deregister_effect [OF assms(2)] by simp
  then show ?thesis using assms(1) None logs_names [of st st'] by (auto simp: sockets_ok_def)
next
  case (Some i)
  then have "sets_slot i None st st'" using deregister_effect [OF assms(2)] by simp
  then show ?thesis
    using sockets.release [OF sockets_okD(2) [OF assms(1)] Some] sets_slot_sel [of i None st st'] assms(1)
    by (simp add: sockets_ok_def)
qed

lemma route_None: "sock_route (relay_ifname_map st) path = None \<longleftrightarrow> get_relay_for_sock st path = -1"
  using find_sock_missing [of "relay_ifname_map st" 0 path] by (auto simp: sock_route_def get_relay_for_sock_def)

lemma register_refines:
  assumes "sockets_ok st" "get_relay_for_sock st path = -1" "register_relay_socket env path i st = Some (err, st')"
  shows "sockets_ok st'"
    "err \<noteq> 0 \<and> relay_ifname_map st' = relay_ifname_map st \<or>
     sock_route (relay_ifname_map st') = (sock_route (relay_ifname_map st))(path \<mapsto> i)"
  using register_effect [OF assms(3)] registers [OF assms(1) route_None [THEN iffD2, OF assms(2)], of i st']
    logs_names [of st st'] assms(1)
  by (auto simp: sockets_ok_def)

text \<open>C20: The table of sockets refines a finite map from paths to relays: registering an unused
  path for a relay adds the path to the map, deregistering removes it, and the table stays
  one-to-one. A failed registration leaves the map as it was, or (when only the ownership
  of the file could not be set) with the path added.\<close>

theorem socket_table_refines_map:
  assumes "sockets_ok st" "get_relay_for_sock st path = -1" "register_relay_socket env path i st = Some (err, st1)"
    "deregister_socket env path' st1 = (err', st2)"
  shows "sockets_ok st1 \<and> sockets_ok st2 \<and>
    sock_route (relay_ifname_map st1) \<in> {sock_route (relay_ifname_map st), (sock_route (relay_ifname_map st))(path \<mapsto> i)} \<and>
    (err = 0 \<longrightarrow> sock_route (relay_ifname_map st1) = (sock_route (relay_ifname_map st))(path \<mapsto> i)) \<and>
    sock_route (relay_ifname_map st2) = (sock_route (relay_ifname_map st1))(path' := None)"
  using register_refines [OF assms(1-3)] releases [OF _ assms(4)] by auto

subsection \<open>Start-up\<close>

lemma names_ok_logs: "logs st st' \<Longrightarrow> names_ok st' = names_ok st"
  using logs_names [of st st'] by (simp add: names_ok_def)

lemma split_template_names:
  assumes "split_template k st = Some (0, st')"
  shows "names_ok st'" "relay_ifname_map st' = relay_ifname_map st" "MAX_RELAYS st' = MAX_RELAYS st"
    "mk_default_sockets st' = mk_default_sockets st"
proof -
  have "0 < (128 :: nat)" by simp
  note len = length_strlcpy [OF this]
  have hd: "hd (strlcpy r 128) = hd r" if "r \<noteq> []" for r
    using that by (cases r) (auto simp: strlcpy_def)
  show "names_ok st'" "relay_ifname_map st' = relay_ifname_map st" "MAX_RELAYS st' = MAX_RELAYS st"
    "mk_default_sockets st' = mk_default_sockets st"
    using assms len hd by (auto simp: split_template_def Let_def names_ok_def no_digit_first_def split: if_splits)
qed

lemma owner_ids_logs: "logs st (snd (owner_ids env st))"
proof -
  define a where "a = (if vhost_username (g_conf st) \<noteq> [] then get_uid env (vhost_username (g_conf st)) (e_uid env) st
    else (0, e_uid env, st))"
  obtain r u st1 where 1: "a = (r, u, st1)" by (cases a)
  define b where "b = (if vhost_groupname (g_conf st) \<noteq> [] then get_gid env (vhost_groupname (g_conf st)) (e_gid env) st1
    else (0, e_gid env, st1))"
  obtain r2 g st2 where 2: "b = (r2, g, st2)" by (cases b)
  have l1: "logs st st1" using 1 logs_lookup(1) by (auto simp: a_def logs_refl split: if_splits)
  have l2: "logs st1 st2" using 2 logs_lookup(2) by (auto simp: b_def logs_refl split: if_splits)
  show ?thesis
    unfolding owner_ids_def Let_def a_def [symmetric] 1 prod.case b_def [symmetric] 2
    using l1 logs_trans [OF l1 l2] by (simp split: if_splits)
qed

lemma prep_default_names:
  assumes "prep_default_sockets env st = Some (0, st')"
  shows "names_ok st'" "relay_ifname_map st' = relay_ifname_map st" "MAX_RELAYS st' = MAX_RELAYS st"
    "mk_default_sockets st' = mk_default_sockets st"
proof -
  obtain ok c st1 where 1: "ensure_directory env (socket_path (g_conf st)) st = (ok, c, st1)" by (metis prod_cases3)
  have l1: "logs st st1" using 1 by (auto simp: ensure_directory_def Let_def call_rc_def split: if_splits intro!: logs_intros)
  obtain k e st2 where 2: "split_template k st1 = Some (e, st2)" "e = 0"
    and 3: "(case fst (owner_ids env st2) of None \<Rightarrow> Some (-1, snd (owner_ids env st2))
      | Some (u, g) \<Rightarrow> Some (0, if (u \<noteq> e_uid env \<or> g \<noteq> e_gid env) \<and> c
          then did (Chown (socket_path (g_conf (snd (owner_ids env st2)))) u g) (snd (owner_ids env st2))
          else snd (owner_ids env st2))) = Some (0, st')"
    using assms by (auto simp: prep_default_sockets_def 1 bind_Some_iff case_prod_beta split: if_splits option.splits)
  have "st' = snd (owner_ids env st2) \<or> (\<exists>c. st' = did c (snd (owner_ids env st2)))"
    using 3 by (auto split: option.splits if_splits)
  then have l3: "logs st2 st'"
    using owner_ids_logs [of st2 env] by (auto intro: logs_trans [OF _ logs_did])
  note n = split_template_names [OF 2(1) [unfolded 2(2)]]
  show "names_ok st'" using names_ok_logs [OF l3] n(1) by simp
  show "relay_ifname_map st' = relay_ifname_map st" "MAX_RELAYS st' = MAX_RELAYS st" "mk_default_sockets st' = mk_default_sockets st"
    using n(2-4) l1 l3 by (auto simp: logs_def)
qed

lemma register_defaults_slots:
  assumes "register_defaults env is st = Some (0, st')"
  shows "relay_ifname_map st' = fold (\<lambda>i m. m[i := Some (virtio_vhostuser_id_to_name st i 266)]) is (relay_ifname_map st) \<and>
    virtio_vf_relays st' = virtio_vf_relays st \<and> vhost_socket_name_prefix st' = vhost_socket_name_prefix st \<and>
    vhost_socket_name_suffix st' = vhost_socket_name_suffix st"
  using assms
proof (induction "is" arbitrary: st)
  case Nil
  then show ?case by simp
next
  case (Cons i "is")
  let ?n = "virtio_vhostuser_id_to_name st i 266"
  obtain st1 where 1: "register_relay_socket env ?n i st = Some (0, st1)" "register_defaults env is st1 = Some (0, st')"
    using Cons.prems by (auto simp: bind_Some_iff split: if_splits)
  have s: "sets_slot i (Some ?n) st st1" using register_effect [OF 1(1)] by simp
  note sel = sets_slot_sel [OF s]
  have "virtio_vhostuser_id_to_name st1 = virtio_vhostuser_id_to_name st"
    by (simp add: fun_eq_iff virtio_vhostuser_id_to_name_def sel)
  then show ?case using Cons.IH [OF 1(2)] sel by simp
qed

lemma fold_slots:
  "length m = n \<Longrightarrow> k \<le> n \<Longrightarrow> fold (\<lambda>i m. m[i := f i]) [0..<k] m = map f [0..<k] @ drop k m"
proof (induction k)
  case (Suc k)
  then show ?case by (simp add: list_update_append Cons_nth_drop_Suc [symmetric])
qed simp

lemma start_routes:
  assumes "virtio_vhostuser_start env lcores conf True st = Some (0, st')" "MAX_RELAYS st \<le> 10 ^ 10"
  shows "MAX_RELAYS st' = MAX_RELAYS st \<and> sockets_ok st' \<and> names_ok st' \<and>
    (\<forall>i<MAX_RELAYS st'. get_relay_for_sock st' (virtio_vhostuser_id_to_name st' i 266) = int i)"
proof -
  define st0 where "st0 = st\<lparr>mk_default_sockets := True, relay_ifname_map := replicate (MAX_RELAYS st) None, g_conf := conf\<rparr>"
  obtain st1 where 1: "prep_default_sockets env st0 = Some (0, st1)"
    and r1: "virtio_forwarders_initialize env lcores st1 \<bind> (\<lambda>(err, st). if err \<noteq> 0 then Some (-1, st)
       else if mk_default_sockets st then register_defaults env [0..<MAX_RELAYS st] st else Some (0, st)) = Some (0, st')"
    using assms(1) unfolding virtio_vhostuser_start_def Let_def st0_def [symmetric]
    by (auto simp: bind_Some_iff st0_def split: if_splits)
  note n1 = prep_default_names [OF 1]
  obtain e st2 where 2: "virtio_forwarders_initialize env lcores st1 = Some (e, st2)" using r1 by (auto simp: bind_Some_iff)
  note i2 = initialize_keeps [OF 2]
  have k: "keeps (st1\<lparr>worker_core_bitmap := conf_worker_core_bitmap (g_conf st1)\<rparr>) st2" by (rule i2(2))
  then have c: "control_part st2 = control_part (st1\<lparr>worker_core_bitmap := conf_worker_core_bitmap (g_conf st1)\<rparr>)"
    by (simp add: keeps_def)
  have sel: "mk_default_sockets st2 = True" "vhost_socket_name_prefix st2 = vhost_socket_name_prefix st1"
    "vhost_socket_name_suffix st2 = vhost_socket_name_suffix st1" "relay_ifname_map st2 = relay_ifname_map st1"
    using arg_cong [OF c, of mk_default_sockets] arg_cong [OF c, of vhost_socket_name_prefix]
      arg_cong [OF c, of vhost_socket_name_suffix] arg_cong [OF c, of relay_ifname_map] n1(4)
    by (simp_all add: control_part_def st0_def)
  have m2: "MAX_RELAYS st2 = MAX_RELAYS st" using keepsD(3) [OF k] n1(3) by (simp add: st0_def)
  have 3: "register_defaults env [0..<MAX_RELAYS st2] st2 = Some (0, st')"
    using r1 2 i2(1) sel(1) by simp
  note d = register_defaults_slots [OF 3]
  have nm: "virtio_vhostuser_id_to_name st' = virtio_vhostuser_id_to_name st2"
    using d by (simp add: fun_eq_iff virtio_vhostuser_id_to_name_def)
  have map: "relay_ifname_map st' = map (\<lambda>i. Some (virtio_vhostuser_id_to_name st' i 266)) [0..<MAX_RELAYS st']"
    using d fold_slots [of "relay_ifname_map st2" "MAX_RELAYS st2" "MAX_RELAYS st2"] n1(2) m2 sel(4) nm by (simp add: st0_def)
  have ok: "names_ok st'" using n1(1) d sel by (simp add: names_ok_def)
  have m: "MAX_RELAYS st' = MAX_RELAYS st" using d m2 by simp
  have "one_relay_each (MAX_RELAYS st') (\<lambda>i. relay_ifname_map st' ! i)"
    using id_to_name_inj [OF ok] assms(2) by (auto simp: one_relay_each_def map m)
  then have s: "sockets_ok st'" by (simp add: sockets_ok_def map)
  then show ?thesis
    using sockets.found [OF sockets_okD(2) [OF s]] ok m by (auto simp: get_relay_for_sock_def map)
qed

text \<open>C21: After a successful start with default sockets, every relay has its socket, the table is
  one-to-one, and the path of each default socket leads to its relay.\<close>

theorem start_routes_default_sockets:
  assumes "virtio_vhostuser_start env lcores conf True st = Some (0, st')" "MAX_RELAYS st \<le> 10 ^ 10"
  shows "MAX_RELAYS st' = MAX_RELAYS st \<and> sockets_ok st' \<and> names_ok st' \<and>
    (\<forall>i<MAX_RELAYS st'. get_relay_for_sock st' (virtio_vhostuser_id_to_name st' i 266) = int i)"
  by (rule start_routes [OF assms])

subsection \<open>Callbacks\<close>

lemma logs_disable_notifications: "logs st (disable_notifications vid qs st)"
  by (induction qs arbitrary: st) (auto intro: logs_refl logs_trans [OF logs_trans [OF logs_did logs_did]])

lemma connected_logs: "logs st st1 \<Longrightarrow> connected i st1 st' = connected i st st'"
  using logs_sel(1) [of st st1] by (simp add: connected_def)

text \<open>The work of the callback for a new device: library calls, then the connection of the relay
  whose socket the device came in on.\<close>

lemma new_device_cb_effect:
  assumes "virtio_vhostuser_new_device_cb env vid st = Some (err, st')"
    "path = e_name env (hist st @ [Did (Rte_vhost_get_vring_num vid)]) (Rte_vhost_get_ifname vid)"
  shows "\<exists>st1. logs st st1 \<and> (case sock_route (relay_ifname_map st) path of
      None \<Rightarrow> err = -1 \<and> st' = st1
    | Some i \<Rightarrow> \<exists>e. virtio_forwarder_add_virtio env vid i st1 = Some (e, st') \<and> err = (if e = 0 then 0 else -1))"
proof -
  define pairs where "pairs = e_count env (hist st) (Rte_vhost_get_vring_num vid) div 2"
  define st0 where "st0 = did (Rte_vhost_get_ifname vid) (did (Rte_vhost_get_vring_num vid) st)"
  define st1 where "st1 = disable_notifications vid [0..<pairs] st0"
  have l: "logs st st1" unfolding st1_def st0_def
    by (rule logs_trans [OF logs_trans [OF logs_did logs_did] logs_disable_notifications])
  have m: "relay_ifname_map st1 = relay_ifname_map st" using logs_names [OF l] by simp
  have n: "get_ifname env vid (did (Rte_vhost_get_vring_num vid) st) = (path, st0)"
    by (simp add: get_ifname_def st0_def assms(2) did_def)
  note eq = assms(1) [unfolded virtio_vhostuser_new_device_cb_def Let_def pairs_def [symmetric] n prod.case st1_def [symmetric]]
  show ?thesis
    using eq l m by (intro exI [of _ st1]) (auto simp: sock_route_def get_relay_for_sock_def bind_Some_iff split: if_splits)
qed

text \<open>C22: A virtual machine that connects to a registered socket is connected to the relay the
  socket was registered for, or refused with -1 and that relay stays free.\<close>

theorem new_device_reaches_relay:
  assumes "sockets_ok st" "i < MAX_RELAYS st" "vio_state (vio (relay_of st i)) = VIRTIO_UNINIT"
    "relay_ifname_map st ! i = Some (e_name env (hist st @ [Did (Rte_vhost_get_vring_num vid)]) (Rte_vhost_get_ifname vid))"
    "virtio_vhostuser_new_device_cb env vid st = Some (err, st')"
  shows "err = 0 \<and> connected i st st' \<or> err = -1 \<and> vio_state (vio (relay_of st' i)) = VIRTIO_UNINIT"
proof -
  let ?path = "e_name env (hist st @ [Did (Rte_vhost_get_vring_num vid)]) (Rte_vhost_get_ifname vid)"
  have i: "i < length (relay_ifname_map st)" using assms(1,2) by (simp add: sockets_ok_def)
  have r: "sock_route (relay_ifname_map st) ?path = Some i"
    using sockets.route_iff [OF sockets_okD(2) [OF assms(1)], of ?path i] i assms(4) by simp
  obtain st1 e where 1: "logs st st1" "virtio_forwarder_add_virtio env vid i st1 = Some (e, st')" "err = (if e = 0 then 0 else -1)"
    using new_device_cb_effect [OF assms(5) refl] r by auto
  have s: "virtio_vf_relays st1 = virtio_vf_relays st" by (rule logs_sel(1) [OF 1(1)])
  have "e = 0 \<and> connected i st1 st' \<or> e = -1 \<and> vio_state (vio (relay_of st' i)) = VIRTIO_UNINIT"
    by (rule add_virtio_effect [OF _ _ 1(2)]) (simp_all add: s assms(2,3))
  then show ?thesis using 1(3) connected_logs [OF 1(1)] by auto
qed

subsection \<open>Pairs of a socket and a device\<close>

lemma add_device_effect:
  assumes "add_device env g ss name mode c i st = Some (0, st')" "i < MAX_RELAYS st" "dpdk_state (dpdk (relay_of st i)) = DPDK_UNINIT"
  shows "\<exists>dev. (if length ss = 1 then Some (hd ss) else name) = Some dev \<and>
    pci_dbdf (dpdk (relay_of st' i)) = strlcpy dev 20 \<and> dpdk_state (dpdk (relay_of st' i)) \<in> {DPDK_ADDED, DPDK_READY}"
proof (cases "length ss = 1")
  case True
  then have "virtio_forwarder_add_vf2 env (hd ss) i c st = Some (0, st')"
    using assms(1) by (auto simp: add_device_def bind_Some_iff split: if_splits)
  from add_vf2_effect [OF assms(2,3) this] show ?thesis using True by (simp add: added_def Let_def)
next
  case False
  then obtain n where n: "name = Some n" "virtio_forwarder_bond_add env g ss n mode i st = Some (0, st')"
    using assms(1) by (auto simp: add_device_def bind_Some_iff split: if_splits)
  obtain st1 p where "i < MAX_RELAYS st1" "configure_dev_with_virtio env n p i True (length ss) st1 = Some (0, st')"
    using bond_add_effect [OF n(2)] by blast
  from configure_added [OF this] show ?thesis using False n(1) by (simp add: added_def Let_def)
qed

lemma add_device_keeps: "add_device env g ss name mode c i st = Some (err, st') \<Longrightarrow> keeps st st'"
  by (auto simp: add_device_def bind_Some_iff dest!: keeps_dests split: if_splits)

lemma free_relay_free:
  assumes "0 \<le> virtio_get_free_relay_id m st"
  shows "nat (virtio_get_free_relay_id m st) < MAX_RELAYS st \<and> relay_free m st (nat (virtio_get_free_relay_id m st))"
  using assms
  by (auto simp: virtio_get_free_relay_id_def relay_free_def find_Some_iff split: option.splits) (auto simp: find_None_iff)

lemma device_attached_logs: "logs st (snd (device_attached env dev st))"
  by (auto simp: device_attached_def case_prod_beta intro: logs_intros split: option.splits)

text \<open>The last part: the socket is registered, or the device is removed again.\<close>

lemma register_or_undo:
  assumes "sockets_ok st" "get_relay_for_sock st path = -1" "sched_keeps sched"
    "do {
       (err, st) \<leftarrow> register_relay_socket env path i st;
       if err = 0 then Some (0, st)
       else do {
         d \<leftarrow> dev;
         (_, st) \<leftarrow> virtio_forwarder_remove_vf2 env sched d i c st;
         Some (5, snd (deregister_socket env path st)) } } = Some (err :: int, st')"
  shows "sockets_ok st' \<and>
    (if err = 0
     then sock_route (relay_ifname_map st') = (sock_route (relay_ifname_map st))(path \<mapsto> i) \<and> virtio_vf_relays st' = virtio_vf_relays st
     else sock_route (relay_ifname_map st') = sock_route (relay_ifname_map st))"
proof -
  obtain e3 st3 where 3: "register_relay_socket env path i st = Some (e3, st3)" using assms(4) by (auto simp: bind_Some_iff)
  note r3 = register_refines [OF assms(1,2) 3]
  show ?thesis
  proof (cases "e3 = 0")
    case True
    then have "st' = st3" "err = 0" using assms(4) 3 by auto
    then show ?thesis using r3 register_effect [OF 3] True sets_slot_sel(2) by auto
  next
    case False
    obtain d e4 st4 where 4: "virtio_forwarder_remove_vf2 env sched d i c st3 = Some (e4, st4)"
      and 5: "err = 5" "st' = snd (deregister_socket env path st4)"
      using assms(4) 3 False by (auto simp: bind_Some_iff)
    note k4 = remove_vf2_keeps [OF assms(3) 4]
    have ok4: "sockets_ok st4" "relay_ifname_map st4 = relay_ifname_map st3"
      using sockets_ok_keeps [OF k4] r3(1) keepsD(1) [OF k4] by simp_all
    obtain e5 where "deregister_socket env path st4 = (e5, st')" using 5(2) by (cases "deregister_socket env path st4") simp
    note rel = releases [OF ok4(1) this]
    have "sock_route (relay_ifname_map st) path = None" using route_None assms(2) by blast
    then show ?thesis using rel 5(1) r3(2) ok4(2) by (auto simp: fun_eq_iff)
  qed
qed

lemma add_pair_effect:
  assumes "sockets_ok st" "sched_keeps sched"
    "virtio_add_sock_dev_pair env sched g (Some path) ss name mode c st = Some (err, st')"
  shows "sockets_ok st' \<and>
    (if err = 0
     then \<exists>i dev. i < MAX_RELAYS st \<and> relay_free (relay_ifname_map st) st i \<and>
       (if length ss = 1 then Some (hd ss) else name) = Some dev \<and>
       sock_route (relay_ifname_map st') = (sock_route (relay_ifname_map st))(path \<mapsto> i) \<and>
       pci_dbdf (dpdk (relay_of st' i)) = strlcpy dev 20 \<and> dpdk_state (dpdk (relay_of st' i)) \<in> {DPDK_ADDED, DPDK_READY}
     else sock_route (relay_ifname_map st') = sock_route (relay_ifname_map st))"
proof -
  define dev where "dev = (if length ss = 1 then Some (hd ss) else name)"
  define st1 where "st1 = snd (device_attached env dev st)"
  have l1: "logs st st1" unfolding st1_def by (rule device_attached_logs)
  have s1: "virtio_vf_relays st1 = virtio_vf_relays st" "relay_ifname_map st1 = relay_ifname_map st" using logs_names [OF l1] by simp_all
  have ok1: "sockets_ok st1" using assms(1) by (simp add: sockets_ok_def s1)
  define j where "j = virtio_get_free_relay_id (relay_ifname_map st1) st1"
  have fj: "relay_free (relay_ifname_map st1) st1 k = relay_free (relay_ifname_map st) st k" for k
    by (simp add: relay_free_def s1)
  note eq = assms(3) [unfolded virtio_add_sock_dev_pair_def option.case Let_def dev_def [symmetric] case_prod_beta
      st1_def [symmetric] j_def [symmetric]]
  show ?thesis
  proof (cases "fst (device_attached env dev st) \<or> 0 \<le> get_relay_for_sock st1 path \<or> j < 0")
    case True
    then have "st' = st1" "err \<noteq> 0" using eq by (auto split: if_splits)
    then show ?thesis using ok1 s1 by simp
  next
    case False
    then have p1: "get_relay_for_sock st1 path = -1"
      using find_sock_missing [of "relay_ifname_map st1" 0 path] by (auto simp: get_relay_for_sock_def)
    have fr: "nat j < MAX_RELAYS st1" "relay_free (relay_ifname_map st1) st1 (nat j)"
      using free_relay_free [of "relay_ifname_map st1" st1] False by (simp_all add: j_def)
    obtain e2 st2 where 2: "add_device env g ss name mode c (nat j) st1 = Some (e2, st2)"
      using eq False by (auto simp: bind_Some_iff)
    note k2 = add_device_keeps [OF 2]
    have m2: "relay_ifname_map st2 = relay_ifname_map st" using keepsD(1) [OF k2] s1 by simp
    have ok2: "sockets_ok st2" "get_relay_for_sock st2 path = -1"
      using sockets_ok_keeps [OF k2] ok1 p1 m2 s1 by (simp_all add: get_relay_for_sock_def)
    show ?thesis
    proof (cases "e2 = 0")
      case no: False
      then have "st' = st2" "err = e2" using eq False 2 by auto
      then show ?thesis using no ok2 m2 by simp
    next
      case e2: True
      have dpdk: "dpdk_state (dpdk (relay_of st1 (nat j))) = DPDK_UNINIT" using fr(2) by (simp add: relay_free_def)
      note dv = add_device_effect [OF 2 [unfolded e2] fr(1) dpdk, folded dev_def]
      have "sockets_ok st' \<and> (if err = 0
          then sock_route (relay_ifname_map st') = (sock_route (relay_ifname_map st2))(path \<mapsto> nat j) \<and> virtio_vf_relays st' = virtio_vf_relays st2
          else sock_route (relay_ifname_map st') = sock_route (relay_ifname_map st2))"
        by (rule register_or_undo [OF ok2 assms(2), where env = env and dev = dev and c = c]) (use eq False 2 e2 in \<open>simp add: case_prod_unfold cong: if_cong\<close>)
      then show ?thesis using dv fr m2 s1 fj dev_def by (auto intro!: exI [of _ "nat j"] split: if_splits)
    qed
  qed
qed

text \<open>C23: Adding a pair of a socket and a device: on success an unused relay has been given both,
  and the path now leads to it; on every error the map from paths to relays is as before. The
  table stays one-to-one.\<close>

theorem add_pair_outcome:
  assumes "sockets_ok st" "sched_keeps sched"
    "virtio_add_sock_dev_pair env sched g (Some path) ss name mode c st = Some (err, st')"
  shows "sockets_ok st' \<and>
    (if err = 0
     then \<exists>i dev. i < MAX_RELAYS st \<and> relay_free (relay_ifname_map st) st i \<and>
       (if length ss = 1 then Some (hd ss) else name) = Some dev \<and>
       sock_route (relay_ifname_map st') = (sock_route (relay_ifname_map st))(path \<mapsto> i) \<and>
       pci_dbdf (dpdk (relay_of st' i)) = strlcpy dev 20 \<and> dpdk_state (dpdk (relay_of st' i)) \<in> {DPDK_ADDED, DPDK_READY}
     else sock_route (relay_ifname_map st') = sock_route (relay_ifname_map st))"
  by (rule add_pair_effect [OF assms])

lemma remove_pair_effect:
  assumes "sockets_ok st" "sched_keeps sched"
    "virtio_remove_sock_dev_pair env sched vhost_path dev cap c st = Some (err, st')"
  shows "sockets_ok st' \<and>
    (if err \<in> {-1, 1, 2} then st' = st
     else \<exists>i path. removal_target vhost_path dev st = Some (i, Some path) \<and>
       sock_route (relay_ifname_map st') = (sock_route (relay_ifname_map st))(path := None))"
proof (cases "err \<in> {-1, 1, 2}")
  case True
  then have "st' = st"
    using assms(3)
    by (auto simp: virtio_remove_sock_dev_pair_def Let_def bind_Some_iff case_prod_beta split: if_splits option.splits prod.splits)
  then show ?thesis using True assms(1) by simp
next
  case False
  then obtain i po where t: "removal_target vhost_path dev st = Some (i, po)"
    using assms(3) by (auto simp: virtio_remove_sock_dev_pair_def split: if_splits option.splits)
  define d where "d = (if dev = [] then pci_dbdf (dpdk (relay_of st i)) else dev)"
  define rest where "rest = (\<lambda>path st. let (err, st) = deregister_socket env path st in if err \<noteq> 0 then Some (3 :: int, st)
    else virtio_forwarder_remove_vf2 env sched d i c st \<bind> (\<lambda>(err, st). Some (if err \<noteq> 0 then 4 else 0, st)))"
  have "virtio_forwarder_remove_virtio env sched i st \<bind> (\<lambda>st. po \<bind> (\<lambda>path. rest path st)) = Some (err, st')"
    using assms(3) False unfolding virtio_remove_sock_dev_pair_def t option.case prod.case Let_def [of "pci_dbdf _"] d_def rest_def
    by (simp split: if_split_asm)
  then obtain path st1 where po: "po = Some path" and 1: "virtio_forwarder_remove_virtio env sched i st = Some st1"
    and 2: "rest path st1 = Some (err, st')"
    by (auto simp: bind_Some_iff)
  note k1 = remove_virtio_keeps [OF assms(2) 1]
  obtain e st2 where d2: "deregister_socket env path st1 = (e, st2)" by fastforce
  note r2 = releases [OF _ d2]
  have ok1: "sockets_ok st1" using sockets_ok_keeps [OF k1] assms(1) by simp
  have k3: "keeps st2 st'"
    using 2 d2 by (auto simp: rest_def bind_Some_iff split: if_splits dest!: remove_vf2_keeps [OF assms(2)])
  show ?thesis
    using False t po r2 [OF ok1] keepsD(1) [OF k1] keepsD(1) [OF k3] sockets_ok_keeps [OF k3] by auto
qed

text \<open>C24: Removing a pair: refusals (no argument, unknown socket or device, wrong device) change
  nothing; in every other outcome, failed removals included, the path of the relay is free again
  and all other paths lead where they led before.\<close>

theorem remove_pair_outcome:
  assumes "sockets_ok st" "sched_keeps sched"
    "virtio_remove_sock_dev_pair env sched vhost_path dev cap c st = Some (err, st')"
  shows "sockets_ok st' \<and>
    (if err \<in> {-1, 1, 2} then st' = st
     else \<exists>i path. removal_target vhost_path dev st = Some (i, Some path) \<and>
       sock_route (relay_ifname_map st') = (sock_route (relay_ifname_map st))(path := None))"
  by (rule remove_pair_effect [OF assms])

subsection \<open>The statements on a small machine\<close>

lemma demo_sockets [simp]:
  "relay_ifname_map (demo_fixed r) = [None]" "vhost_socket_name_prefix (demo_fixed r) = ''/tmp/vf/virtio-forwarder''"
  "vhost_socket_name_suffix (demo_fixed r) = ''.sock''" "vhost_client (g_conf (demo_fixed r)) = False"
  "e_uid demo_env = 0" "e_gid demo_env = 0" "e_ids demo_env h c = None" "e_file demo_env h c = NoFile"
  by (simp_all add: demo_fixed_def demo_state_def demo_conf_def demo_env_def)

lemma demo_sockets_ok: "sockets_ok (demo_fixed r)" "names_ok (demo_fixed r)"
  by (simp_all add: sockets_ok_def one_relay_each_def names_ok_def no_digit_first_def is_digit_def)

theorem socket_name_roundtrip_witness:
  "virtio_vhostuser_name_to_id (demo_fixed (demo_one VIRTIO_READY DPDK_READY))
     (virtio_vhostuser_id_to_name (demo_fixed (demo_one VIRTIO_READY DPDK_READY)) 0 266) = Some 0"
  using socket_name_roundtrip [OF demo_sockets_ok(2) [of "demo_one VIRTIO_READY DPDK_READY"], of 0] by simp

lemma demo_register:
  assumes "vhost_client (g_conf st) = False" "relay_ifname_map st = [None]"
  shows "\<exists>st'. register_relay_socket demo_env path 0 st = Some (0, st')"
  using assms
  by (simp add: register_relay_socket_def clear_stale_def call_rc_def Let_def array_get_def did_def disable_features_def
      own_socket_def get_uid_def get_gid_def lookup_id_def)

theorem socket_table_refines_map_witness:
  "\<exists>st1 err' st2. register_relay_socket demo_env ''/tmp/a'' 0 (demo_fixed (demo_one VIRTIO_READY DPDK_READY)) = Some (0, st1) \<and>
    deregister_socket demo_env ''/tmp/a'' st1 = (err', st2) \<and> sock_route (relay_ifname_map st2) ''/tmp/a'' = None"
proof -
  let ?st = "demo_fixed (demo_one VIRTIO_READY DPDK_READY)"
  have free: "get_relay_for_sock ?st ''/tmp/a'' = -1" by (simp add: get_relay_for_sock_def)
  obtain st1 where 1: "register_relay_socket demo_env ''/tmp/a'' 0 ?st = Some (0, st1)"
    using demo_register [of ?st] by auto
  obtain e st2 where 2: "deregister_socket demo_env ''/tmp/a'' st1 = (e, st2)" by fastforce
  show ?thesis using socket_table_refines_map [OF demo_sockets_ok(1) free 1 2] 1 2 by auto
qed

lemma demo_template: "template_position (socket_name demo_conf) = Some 16" "socket_path demo_conf = ''/tmp/vf''"
  by (simp_all add: demo_conf_def template_position_def)

lemma demo_conf_sel: "vhost_username demo_conf = []" "vhost_groupname demo_conf = []" "vhost_client demo_conf = False"
  "static_relays demo_conf = []" "conf_relay_cpus demo_conf = [\<lparr>conf_vf2vio_cpu = -1, conf_vio2vf_cpu = -1\<rparr>]"
  "drop 18 (socket_name demo_conf) = ''.sock''"
  by (simp_all add: demo_conf_def)

lemma demo_prep:
  assumes "g_conf st = demo_conf"
  shows "\<exists>st'. prep_default_sockets demo_env st = Some (0, st') \<and> g_conf st' = demo_conf"
proof -
  have d: "\<not> is_digit (CHR ''.'')" by (simp add: is_digit_def)
  show ?thesis
    using assms d
    by (simp add: prep_default_sockets_def ensure_directory_def Let_def call_rc_def did_def demo_template split_template_def
        demo_conf_sel owner_ids_def)
qed

lemma demo_start_sockets: "\<exists>st'. virtio_vhostuser_start demo_env [1, 2] demo_conf True (demo_state r) = Some (0, st')"
proof -
  let ?st0 = "(demo_state r)\<lparr>mk_default_sockets := True, relay_ifname_map := replicate (MAX_RELAYS (demo_state r)) None, g_conf := demo_conf\<rparr>"
  obtain st1 where 1: "prep_default_sockets demo_env ?st0 = Some (0, st1)" "g_conf st1 = demo_conf"
    using demo_prep [of ?st0] by auto
  note n = prep_default_names [OF 1(1)]
  define st1' where "st1' = fold launch_worker [1, 2] (st1\<lparr>virtio_vf_relays := [init_relay 0 (-1) (conf_use_jumbo demo_conf)],
    worker_threads := replicate MAX_CPUS zero_thread, worker_core_bitmap := conf_worker_core_bitmap demo_conf\<rparr>)"
  have g: "g_conf st1' = demo_conf" by (simp add: st1'_def launch_worker_def worker_start_def 1(2))
  have rs: "init_relays st1 [0..<MAX_RELAYS st1] = Some [init_relay 0 (-1) (conf_use_jumbo demo_conf)]"
    using n(3) by (simp add: relay_node_def array_get_def 1(2) demo_conf_sel SOCKET_ID_ANY_def)
  have 2: "virtio_forwarders_initialize demo_env [1, 2] st1 = Some (0, st1')"
    unfolding virtio_forwarders_initialize_def rs bind.bind_lunit Let_def 1(2) st1'_def [symmetric]
    by (simp add: g demo_conf_sel)
  have k: "relay_ifname_map st1' = [None]" "MAX_RELAYS st1' = 1" "mk_default_sockets st1'"
    using n by (simp_all add: st1'_def launch_worker_def worker_start_def)
  obtain st3 where "register_relay_socket demo_env (virtio_vhostuser_id_to_name st1' 0 266) 0 st1' = Some (0, st3)"
    using demo_register [OF _ k(1)] g demo_conf_sel(3) by auto
  then show ?thesis
    using 1(1) 2 k by (simp add: virtio_vhostuser_start_def)
qed

theorem start_routes_default_sockets_witness:
  "\<exists>st'. virtio_vhostuser_start demo_env [1, 2] demo_conf True (demo_state (demo_one VIRTIO_READY DPDK_READY)) = Some (0, st') \<and>
    get_relay_for_sock st' (virtio_vhostuser_id_to_name st' 0 266) = 0"
proof -
  let ?st = "demo_state (demo_one VIRTIO_READY DPDK_READY)"
  obtain st' where e: "virtio_vhostuser_start demo_env [1, 2] demo_conf True ?st = Some (0, st')"
    using demo_start_sockets by blast
  have "MAX_RELAYS ?st \<le> 10 ^ 10" "0 < MAX_RELAYS ?st" by simp_all
  then show ?thesis using start_routes_default_sockets [OF e] e by auto
qed

text \<open>A relay without device or pool, with its CPU configured, can always be connected or refused.\<close>

lemma add_virtio_defined:
  assumes "i < MAX_RELAYS st" "vio_state (vio (relay_of st i)) = VIRTIO_UNINIT" "mempool (vio (relay_of st i)) = None"
    "dpdk_state (dpdk (relay_of st i)) = DPDK_UNINIT" "array_get (conf_relay_cpus (g_conf st)) (relay_id (relay_of st i)) = Some c"
    "0 \<le> conf_vio2vf_cpu c" "conf_vio2vf_cpu c < 64" "length (worker_threads st) = 64"
  shows "\<exists>err st'. virtio_forwarder_add_virtio env vid i st = Some (err, st')"
proof -
  define pairs where "pairs = e_count env (hist st) (Rte_vhost_get_vring_num vid) div 2"
  define st1 where "st1 = map_vio i (\<lambda>v. v\<lparr>tx_q_rr := 0, vio_dev := vid, max_queue_pairs := pairs\<rparr>) (did (Rte_vhost_get_vring_num vid) st)"
  obtain node st2 where 2: "get_guest_numa env vid st1 = (node, st2)" by fastforce
  have l2: "logs st1 st2" using 2 logs_call(1) [of st1 env "Rte_vhost_get_numa_node vid"]
    by (auto simp: get_guest_numa_def case_prod_beta)
  have r1: "dpdk (relay_of st1 i) = dpdk (relay_of st i)" "mempool (vio (relay_of st1 i)) = None" "i < MAX_RELAYS st1"
    "relay_id (relay_of st1 i) = relay_id (relay_of st i)" "g_conf st1 = g_conf st" "worker_threads st1 = worker_threads st"
    using assms(1,3) by (simp_all add: st1_def map_vio_def did_def put_relay_def)
  have r2: "dpdk (relay_of st2 i) = dpdk (relay_of st i)" "mempool (vio (relay_of st2 i)) = None" "i < MAX_RELAYS st2"
    "relay_id (relay_of st2 i) = relay_id (relay_of st i)" "g_conf st2 = g_conf st" "worker_threads st2 = worker_threads st"
    using r1 logs_sel [OF l2] by simp_all
  obtain ok st3 where 3: "guest_mempool env i node st2 = Some (ok, st3)"
  proof -
    have "guest_mempool env i node st2 \<noteq> None"
      using r2(2) by (auto simp: guest_mempool_def Let_def case_prod_beta split: option.split)
    then show ?thesis using that by auto
  qed
  have "\<exists>d m n. st3 = (map_vio i (\<lambda>v. v\<lparr>mempool := m, mempool_socket_id := n\<rparr>) st2)\<lparr>hist := hist st2 @ d\<rparr>"
    using guest_mempool_repools(1) [OF r2(3) 3] by (auto simp: repools_def)
  then have r3: "dpdk (relay_of st3 i) = dpdk (relay_of st i)" "relay_id (relay_of st3 i) = relay_id (relay_of st i)"
    "g_conf st3 = g_conf st" "length (worker_threads st3) = 64" "i < MAX_RELAYS st3"
    using r2 assms(8) by (auto simp: map_vio_def put_relay_def)
  define st4 where "st4 = map_vio i (\<lambda>v. v\<lparr>vio2vf_cpu := conf_vio2vf_cpu c\<rparr>) st3"
  have 4: "find_virtio2vf_cpu i st3 = Some st4"
    using assms(5,6) r3 by (simp add: find_virtio2vf_cpu_def st4_def)
  define st5 where "st5 = map_vio i (\<lambda>v. v\<lparr>vio_state := VIRTIO_READY\<rparr>) st4"
  have r5: "length (worker_threads st5) = 64" "dpdk_state (dpdk (relay_of st5 i)) = DPDK_UNINIT" "vio2vf_cpu (vio (relay_of st4 i)) = conf_vio2vf_cpu c"
    using r3 assms(4) by (simp_all add: st5_def st4_def map_vio_def put_relay_def)
  have 6: "flag_thread (conf_vio2vf_cpu c) st5 = Some (signal_update (nat (conf_vio2vf_cpu c)) st5)"
    using assms(6,7) r5(1) by (simp add: flag_thread_def)
  have "start_added_vf env i (signal_update k st5) = Some (signal_update k st5)" for k
    using r5(2) by (simp add: start_added_vf_def signal_update_def)
  then show ?thesis
    using assms(1,2,6,7) 2 3 4 6 r5(3) unfolding virtio_forwarder_add_virtio_def Let_def pairs_def [symmetric] st1_def [symmetric]
    by (cases ok) (auto simp: st5_def)
qed

definition demo_named_env :: env where
  "demo_named_env = demo_env\<lparr>e_name := \<lambda>h c. ''/tmp/a''\<rparr>"

definition demo_registered :: gstate where
  "demo_registered = (demo_fixed (init_relay 0 (-1) False))\<lparr>relay_ifname_map := [Some ''/tmp/a'']\<rparr>"

lemma demo_registered_sel [simp]:
  "virtio_vf_relays demo_registered = [init_relay 0 (-1) False]" "relay_ifname_map demo_registered = [Some ''/tmp/a'']"
  "worker_threads demo_registered = demo_threads"
  "conf_relay_cpus (g_conf demo_registered) = [\<lparr>conf_vf2vio_cpu = 2, conf_vio2vf_cpu = 1\<rparr>]"
  "e_name demo_named_env h c = ''/tmp/a''"
  by (simp_all add: demo_registered_def demo_named_env_def)

lemma demo_registered_ok: "sockets_ok demo_registered"
  by (simp add: sockets_ok_def one_relay_each_def)

theorem new_device_reaches_relay_witness:
  "\<exists>err st'. virtio_vhostuser_new_device_cb demo_named_env 3 demo_registered = Some (err, st') \<and>
    (err = 0 \<and> connected 0 demo_registered st' \<or> err = -1 \<and> vio_state (vio (relay_of st' 0)) = VIRTIO_UNINIT)"
proof -
  define pairs where "pairs = e_count demo_named_env (hist demo_registered) (Rte_vhost_get_vring_num 3) div 2"
  define st1 where "st1 = disable_notifications 3 [0..<pairs] (did (Rte_vhost_get_ifname 3) (did (Rte_vhost_get_vring_num 3) demo_registered))"
  have l: "logs demo_registered st1" unfolding st1_def
    by (rule logs_trans [OF logs_trans [OF logs_did logs_did] logs_disable_notifications])
  have s: "virtio_vf_relays st1 = [init_relay 0 (-1) False]" "worker_threads st1 = demo_threads" "relay_ifname_map st1 = [Some ''/tmp/a'']"
    "conf_relay_cpus (g_conf st1) = [\<lparr>conf_vf2vio_cpu = 2, conf_vio2vf_cpu = 1\<rparr>]"
    using logs_sel [OF l] by simp_all
  obtain e st' where "virtio_forwarder_add_virtio demo_named_env 3 0 st1 = Some (e, st')"
    using add_virtio_defined [of 0 st1 _ demo_named_env 3] by (auto simp: s array_get_def)
  then have "virtio_vhostuser_new_device_cb demo_named_env 3 demo_registered = Some (if e = 0 then 0 else -1, st')"
    using s(3) by (simp add: virtio_vhostuser_new_device_cb_def get_ifname_def Let_def pairs_def [symmetric] st1_def [symmetric]
        get_relay_for_sock_def)
  then obtain err where e: "virtio_vhostuser_new_device_cb demo_named_env 3 demo_registered = Some (err, st')" by blast
  have i: "0 < MAX_RELAYS demo_registered" "vio_state (vio (relay_of demo_registered 0)) = VIRTIO_UNINIT"
    "relay_ifname_map demo_registered ! 0 = Some (e_name demo_named_env (hist demo_registered @ [Did (Rte_vhost_get_vring_num 3)]) (Rte_vhost_get_ifname 3))"
    by simp_all
  show ?thesis using new_device_reaches_relay [OF demo_registered_ok i e] e by blast
qed

theorem remove_pair_outcome_witness:
  "\<exists>st'. virtio_remove_sock_dev_pair demo_env (\<lambda>n st. st) (Some ''/tmp/a'') [] 64 True demo_registered = Some (0, st') \<and>
    sock_route (relay_ifname_map st') ''/tmp/a'' = None"
proof -
  have t: "removal_target (Some ''/tmp/a'') [] demo_registered = Some (0, Some ''/tmp/a'')"
    by (simp add: removal_target_def get_relay_for_sock_def)
  have p: "pci_dbdf (dpdk (init_relay 0 (-1) False)) = []" by (simp add: init_relay_def)
  obtain st' where e: "virtio_remove_sock_dev_pair demo_env (\<lambda>n st. st) (Some ''/tmp/a'') [] 64 True demo_registered = Some (0, st')"
    by (simp add: virtio_remove_sock_dev_pair_def t p virtio_forwarder_remove_virtio_def deregister_socket_def call_rc_def did_def
        get_relay_for_sock_def virtio_forwarder_remove_vf2_def)
  have "sched_keeps (\<lambda>n st. st)" by (simp add: sched_in_def)
  from remove_pair_outcome [OF demo_registered_ok this e] e t show ?thesis by auto
qed

lemma demo_bond_sockets [simp]:
  "e_uid demo_bond_env = 0" "e_gid demo_bond_env = 0" "e_ids demo_bond_env h c = None" "e_file demo_bond_env h c = NoFile"
  by (simp_all add: demo_bond_env_def)

lemma demo_bond_register:
  assumes "vhost_client (g_conf st) = False" "relay_ifname_map st = [None]"
  shows "\<exists>st'. register_relay_socket demo_bond_env path 0 st = Some (0, st')"
  using assms
  by (simp add: register_relay_socket_def clear_stale_def call_rc_def Let_def array_get_def did_def disable_features_def
      own_socket_def get_uid_def get_gid_def lookup_id_def)

theorem add_pair_outcome_witness:
  "\<exists>st' i. virtio_add_sock_dev_pair demo_bond_env (\<lambda>n st. st) [0, 0] (Some ''/tmp/a'') [''0000:05:08.1''] None 0 True
      (demo_fx (demo_one VIRTIO_UNINIT DPDK_UNINIT) []) = Some (0, st') \<and>
    sock_route (relay_ifname_map st') = (sock_route [None])(''/tmp/a'' \<mapsto> i)"
proof -
  let ?r = "demo_one VIRTIO_UNINIT DPDK_UNINIT" and ?dev = "''0000:05:08.1''"
  let ?st = "demo_fx ?r []" and ?h = "[Did (Rte_eth_dev_get_port_by_name ''0000:05:08.1'')]"
  have ok: "sockets_ok ?st" by (simp add: sockets_ok_def one_relay_each_def)
  have k: "sched_keeps (\<lambda>n st. st)" by (simp add: sched_in_def)
  have pool: "mempool (vio ?r) \<noteq> None" by (simp add: demo_relay_id)
  obtain h1 where 1: "init_vf demo_bond_env ?dev 0 0 (demo_fx ?r ?h) = (0, 5, demo_fx ?r h1)"
    using demo_bond_init_vf [OF pool] by blast
  obtain st2 where 2: "configure_dev_with_virtio demo_bond_env ?dev 5 0 False 0 (demo_fx ?r h1) = Some (0, st2)"
    by (simp add: configure_dev_with_virtio_def start_eth_dev_def call_rc_def map_vio_def map_dpdk_def
        find_vf2virtio_cpu_def array_get_def flag_thread_def Let_def demo_relay_id)
  have v: "virtio_forwarder_add_vf2 demo_bond_env ?dev 0 True (demo_fx ?r ?h) = Some (0, st2)"
    using 1 2 by (simp add: virtio_forwarder_add_vf2_def demo_relay_id)
  have g: "relay_ifname_map st2 = [None]" "vhost_client (g_conf st2) = False"
    using keepsD(1,2) [OF add_vf2_keeps [OF v]] by simp_all
  obtain st3 where "register_relay_socket demo_bond_env ''/tmp/a'' 0 st2 = Some (0, st3)"
    using demo_bond_register [OF g(2,1)] by blast
  moreover have "device_attached demo_bond_env (Some ?dev) ?st = (False, demo_fx ?r ?h)"
    by (simp add: device_attached_def call_rc_def)
  moreover have "virtio_get_free_relay_id [None] (demo_fx ?r ?h) = 0"
    by (simp add: virtio_get_free_relay_id_def demo_relay_id)
  ultimately have e: "virtio_add_sock_dev_pair demo_bond_env (\<lambda>n st. st) [0, 0] (Some ''/tmp/a'') [?dev] None 0 True ?st = Some (0, st3)"
    using v by (simp add: virtio_add_sock_dev_pair_def add_device_def get_relay_for_sock_def)
  from add_pair_outcome [OF ok k e] obtain i where "sock_route (relay_ifname_map st3) = (sock_route [None])(''/tmp/a'' \<mapsto> i)"
    by auto
  then show ?thesis using e by blast
qed

end
