(* ===== verification/PortControl.thy ===== *)
theory PortControl
  imports Sockets
begin

text \<open>
  The ZeroMQ port control service (\<open>zmq_port_control.c\<close>): requests to add and remove VFs,
  bonds and pairs of sockets and devices, and to query the device of a socket.

  The code that protoc generates is a parameter, as in \<open>Stats\<close>: a function that unpacks a
  request and one that packs a response. \<open>None\<close> is a failed assertion or an access outside
  an array, as everywhere.
\<close>

subsection \<open>Messages\<close>

datatype port_op = OP_ADD | OP_REMOVE | OP_ADD_SOCK | OP_REMOVE_SOCK | OP_QUERY_PCI | OP_OTHER int

record PciAddress =
  pci_domain :: "32 word"
  pci_bus :: "32 word"
  pci_slot :: "32 word"
  pci_function :: "32 word"

record PortControlRequest =
  pc_op :: port_op
  pc_pci_addrs :: "PciAddress list"
  pc_virtio_id :: "nat option"
  pc_conditional :: "bool option"
  pc_name :: "string option"
  pc_mode :: "nat option"
  pc_vhost_path :: "string option"

datatype port_status = PORT_ERROR | PORT_OK

record PortControlResponse =
  pr_status :: port_status
  pr_error_code :: "int option"
  pr_error_code_source :: "string option"
  pr_query_string :: "string option"

subsection \<open>Messages as strings\<close>

fun hex_digit :: "nat \<Rightarrow> char" where
  "hex_digit d = (if d < 10 then char_of (48 + d) else char_of (55 + d))"

fun hex :: "nat \<Rightarrow> string" where
  "hex n = (if n < 16 then [hex_digit n] else hex (n div 16) @ [hex_digit (n mod 16)])"

declare hex.simps [simp del]
declare hex_digit.simps [simp del]

text \<open>\<open>%0wX\<close>\<close>

definition hex_pad :: "nat \<Rightarrow> 32 word \<Rightarrow> string" where
  "hex_pad w n = replicate (w - length (hex (unat n))) (CHR ''0'') @ hex (unat n)"

definition PciAddress_to_str :: "PciAddress \<Rightarrow> nat \<Rightarrow> string" where
  "PciAddress_to_str a len =
     strlcpy (hex_pad 4 (pci_domain a) @ '':'' @ hex_pad 2 (pci_bus a) @ '':'' @ hex_pad 2 (pci_slot a) @ ''.'' @
              hex_pad 1 (pci_function a)) len"

fun Op_to_str :: "port_op \<Rightarrow> string" where
  "Op_to_str OP_ADD = ''ADD''"
| "Op_to_str OP_REMOVE = ''REMOVE''"
| "Op_to_str OP_ADD_SOCK = ''Virtioforwarder__PortControlRequest__Op(2)''"
| "Op_to_str OP_REMOVE_SOCK = ''Virtioforwarder__PortControlRequest__Op(3)''"
| "Op_to_str OP_QUERY_PCI = ''Virtioforwarder__PortControlRequest__Op(4)''"
| "Op_to_str (OP_OTHER i) = ''Virtioforwarder__PortControlRequest__Op('' @ (if i < 0 then ''-'' @ dec (nat (- i)) else dec (nat i)) @ '')''"

text \<open>
  The addresses in the log: a buffer of 13 bytes for each of 8 addresses, in which address \<open>i\<close>
  takes 12 characters and a space, and the terminating zero goes to position \<open>13 * i + 13\<close>.
  With no address the buffer is uninitialised and its contents are \<open>garbage\<close>.
\<close>

primrec write_addrs :: "PciAddress list \<Rightarrow> nat \<Rightarrow> string \<Rightarrow> string option" where
  "write_addrs [] i s = Some s"
| "write_addrs (a # as) i s =
     (if (1 + 12) * MAX_NUM_BOND_SLAVES \<le> 13 * i + 13 then None
      else write_addrs as (Suc i) (s @ PciAddress_to_str a 13 @ '' ''))"

definition PortControlRequest_to_str :: "string \<Rightarrow> PortControlRequest \<Rightarrow> string option" where
  "PortControlRequest_to_str garbage pc = do {
     addrs \<leftarrow> (if pc_pci_addrs pc = [] then Some garbage else write_addrs (pc_pci_addrs pc) 0 []);
     Some (strlcpy (''[op='' @ Op_to_str (pc_op pc) @ '', num_VFs='' @ dec (length (pc_pci_addrs pc)) @ '', pci_addrs=<'' @ addrs @
       ''>, virtio_id='' @ dec (case pc_virtio_id pc of None \<Rightarrow> 0 | Some v \<Rightarrow> v) @ '']'') (128 + (1 + 12) * MAX_NUM_BOND_SLAVES)) }"

subsection \<open>Handling a request\<close>

definition validate_PortControlRequest :: "PortControlRequest \<Rightarrow> bool" where
  "validate_PortControlRequest pc =
     (let n = length (pc_pci_addrs pc) in
      if pc_name pc \<noteq> None \<and> (pc_op pc = OP_ADD \<or> pc_op pc = OP_ADD_SOCK) \<and> n < 2 then False
      else if pc_name pc = None \<and> 1 < n then False
      else if (pc_op pc = OP_REMOVE \<or> pc_op pc = OP_REMOVE_SOCK) \<and> pc_name pc = None \<and> 1 < n then False
      else if (pc_op pc = OP_ADD \<or> pc_op pc = OP_REMOVE) \<and> pc_virtio_id pc = None then False
      else if pc_op pc = OP_QUERY_PCI \<and> pc_vhost_path pc = None then False
      else True)"

definition set_error_code :: "PortControlResponse \<Rightarrow> string \<Rightarrow> int \<Rightarrow> PortControlResponse option" where
  "set_error_code r src code =
     (if code = 0 then Some (r\<lparr>pr_status := PORT_OK\<rparr>)
      else if pr_status r \<noteq> PORT_ERROR then None
      else Some (r\<lparr>pr_error_code_source := Some src, pr_error_code := Some code\<rparr>))"

record port_control_req_buffer =
  dbdf_addrs :: "string list"
  b_virtio_id :: nat
  b_name :: "string option"
  b_mode :: nat
  b_vhost_path :: "string option"

text \<open>Running an operation and recording its result.\<close>

definition respond ::
  "PortControlResponse \<Rightarrow> string \<Rightarrow> (int \<times> gstate) option \<Rightarrow> (PortControlResponse \<times> gstate) option" where
  "respond r src result = do { (code, st) \<leftarrow> result; r \<leftarrow> set_error_code r src code; Some (r, st) }"

definition port_control_handle_add_socket ::
  "env \<Rightarrow> (nat \<Rightarrow> gstate \<Rightarrow> gstate) \<Rightarrow> port list \<Rightarrow> PortControlResponse \<Rightarrow> port_control_req_buffer \<Rightarrow> nat \<Rightarrow> bool \<Rightarrow>
   gstate \<Rightarrow> (PortControlResponse \<times> gstate) option" where
  "port_control_handle_add_socket env sched ids r cfg num_devices conditional st =
     respond r ''virtio_add_sock_dev_pair()''
       (virtio_add_sock_dev_pair env sched ids (b_vhost_path cfg) (take num_devices (dbdf_addrs cfg)) (b_name cfg) (b_mode cfg) conditional st)"

text \<open>The buffer of the device name is the first of the addresses, of 64 bytes, or the name of the
  request, as long as it is.\<close>

definition port_control_handle_remove_socket ::
  "env \<Rightarrow> (nat \<Rightarrow> gstate \<Rightarrow> gstate) \<Rightarrow> PortControlResponse \<Rightarrow> port_control_req_buffer \<Rightarrow> string option \<Rightarrow> bool \<Rightarrow>
   gstate \<Rightarrow> (PortControlResponse \<times> gstate) option" where
  "port_control_handle_remove_socket env sched r cfg name conditional st =
     respond r ''virtio_remove_sock_dev_pair()''
       (case name of
          None \<Rightarrow> virtio_remove_sock_dev_pair env sched (b_vhost_path cfg) (dbdf_addrs cfg ! 0) 64 conditional st
        | Some n \<Rightarrow> virtio_remove_sock_dev_pair env sched (b_vhost_path cfg) n (length n + 1) conditional st)"

definition port_control_handle_query_pci ::
  "PortControlResponse \<Rightarrow> port_control_req_buffer \<Rightarrow> gstate \<Rightarrow> (PortControlResponse \<times> gstate) option" where
  "port_control_handle_query_pci r cfg st =
     (let (code, dbdf) = virtio_query_pci (b_vhost_path cfg) st
      in respond (if dbdf \<noteq> None then r\<lparr>pr_query_string := dbdf\<rparr> else r) ''virtio_query_pci()'' (Some (code, st)))"

definition port_control_handle_add ::
  "env \<Rightarrow> port list \<Rightarrow> PortControlResponse \<Rightarrow> port_control_req_buffer \<Rightarrow> nat \<Rightarrow> bool \<Rightarrow>
   gstate \<Rightarrow> (PortControlResponse \<times> gstate) option" where
  "port_control_handle_add env ids r cfg num_devices conditional st =
     (if num_devices = 1
      then respond r ''virtio_forwarder_add_vf2()''
             (virtio_forwarder_add_vf2 env (dbdf_addrs cfg ! 0) (b_virtio_id cfg) conditional st)
      else if 1 < num_devices
      then respond r ''virtio_forwarder_bond_add()''
             (case b_name cfg of None \<Rightarrow> None
              | Some n \<Rightarrow> virtio_forwarder_bond_add env ids (take num_devices (dbdf_addrs cfg)) n (b_mode cfg) (b_virtio_id cfg) st)
      else Some (r, st))"

definition port_control_handle_remove ::
  "env \<Rightarrow> (nat \<Rightarrow> gstate \<Rightarrow> gstate) \<Rightarrow> PortControlResponse \<Rightarrow> port_control_req_buffer \<Rightarrow> string option \<Rightarrow> bool \<Rightarrow>
   gstate \<Rightarrow> (PortControlResponse \<times> gstate) option" where
  "port_control_handle_remove env sched r cfg name conditional st =
     respond r ''virtio_forwarder_remove_vf2()''
       (virtio_forwarder_remove_vf2 env sched (case name of None \<Rightarrow> dbdf_addrs cfg ! 0 | Some n \<Rightarrow> n) (b_virtio_id cfg) conditional st)"

text \<open>The buffer filled from the request; there is room for 8 addresses.\<close>

definition fill_buffer :: "env \<Rightarrow> PortControlRequest \<Rightarrow> port_control_req_buffer option" where
  "fill_buffer env pc =
     (if MAX_NUM_BOND_SLAVES < length (pc_pci_addrs pc) then None
      else Some
        \<lparr>dbdf_addrs = map (\<lambda>a. PciAddress_to_str a 64) (pc_pci_addrs pc) @
           replicate (MAX_NUM_BOND_SLAVES - length (pc_pci_addrs pc)) [],
         b_virtio_id = (case pc_virtio_id pc of
             Some v \<Rightarrow> if pc_op pc \<noteq> OP_ADD_SOCK \<and> pc_op pc \<noteq> OP_REMOVE_SOCK then v else 0 | None \<Rightarrow> 0),
         b_name = pc_name pc,
         b_mode = (if pc_name pc = None then 0
                   else case pc_mode pc of Some md \<Rightarrow> md mod 256 | None \<Rightarrow> BONDING_MODE_ACTIVE_BACKUP (e_consts env)),
         b_vhost_path = pc_vhost_path pc\<rparr>)"

text \<open>\<open>ids\<close> and \<open>garbage\<close> are the contents of uninitialised arrays on the stack.\<close>

definition answer_PortControlRequest ::
  "env \<Rightarrow> (nat \<Rightarrow> gstate \<Rightarrow> gstate) \<Rightarrow> port list \<Rightarrow> string \<Rightarrow> PortControlRequest option \<Rightarrow> gstate \<Rightarrow>
   (PortControlResponse \<times> gstate) option" where
  "answer_PortControlRequest env sched ids garbage request st =
     (let r = \<lparr>pr_status = PORT_ERROR, pr_error_code = None, pr_error_code_source = None, pr_query_string = None\<rparr> in
      case request of
        None \<Rightarrow> Some (r, st)
      | Some pc \<Rightarrow>
          if \<not> validate_PortControlRequest pc then Some (r, st)
          else do {
            _ \<leftarrow> PortControlRequest_to_str garbage pc;
            b \<leftarrow> fill_buffer env pc;
            let conditional = (case pc_conditional pc of Some c \<Rightarrow> c | None \<Rightarrow> True);
            let n = length (pc_pci_addrs pc);
            let name = (if n = 1 then None else pc_name pc);
            case pc_op pc of
              OP_ADD \<Rightarrow> port_control_handle_add env ids r b n conditional st
            | OP_REMOVE \<Rightarrow> port_control_handle_remove env sched r b name conditional st
            | OP_ADD_SOCK \<Rightarrow> port_control_handle_add_socket env sched ids r b n conditional st
            | OP_REMOVE_SOCK \<Rightarrow> port_control_handle_remove_socket env sched r b name conditional st
            | OP_QUERY_PCI \<Rightarrow> port_control_handle_query_pci r b st
            | OP_OTHER i \<Rightarrow> Some (r, st) })"

definition handle_PortControlRequest ::
  "(string \<Rightarrow> PortControlRequest option) \<Rightarrow> (PortControlResponse \<Rightarrow> string) \<Rightarrow> env \<Rightarrow> (nat \<Rightarrow> gstate \<Rightarrow> gstate) \<Rightarrow> port list \<Rightarrow>
   string \<Rightarrow> string \<Rightarrow> nat \<Rightarrow> gstate \<Rightarrow> (string \<times> gstate) option" where
  "handle_PortControlRequest unpack pack env sched ids garbage request_buffer cb_response_buffer st = do {
     (response, st) \<leftarrow> answer_PortControlRequest env sched ids garbage (unpack request_buffer) st;
     if length (pack response) \<le> cb_response_buffer then Some (pack response, st) else None }"

subsection \<open>Addresses as strings\<close>

text \<open>Neither separator is a hexadecimal digit.\<close>

definition is_hex :: "char \<Rightarrow> bool" where
  "is_hex c \<longleftrightarrow> of_char c \<noteq> (58 :: nat) \<and> of_char c \<noteq> (46 :: nat)"

definition hex_value :: "char \<Rightarrow> nat" where
  "hex_value c = (if of_char c < (58 :: nat) then of_char c - 48 else of_char c - 55)"

lemma hex_digit_simps [simp]:
  assumes "d < 16"
  shows "is_hex (hex_digit d)" "hex_value (hex_digit d) = d"
  using assms by (auto simp: hex_digit.simps is_hex_def hex_value_def)

lemma hex_digits: "c \<in> set (hex n) \<Longrightarrow> is_hex c"
proof (induction n rule: hex.induct)
  case (1 n)
  then show ?case by (subst (asm) (2) hex.simps) (auto split: if_splits)
qed

lemma hex_read: "foldl (\<lambda>n c. 16 * n + hex_value c) 0 (hex n) = n"
proof (induction n rule: hex.induct)
  case (1 n)
  then show ?case by (subst hex.simps) (auto split: if_splits)
qed

lemma length_hex: "0 < k \<Longrightarrow> n < 16 ^ k \<Longrightarrow> length (hex n) \<le> k"
proof (induction n arbitrary: k rule: hex.induct)
  case (1 n)
  show ?case
  proof (cases "n < 16")
    case True then show ?thesis using 1(2) by (simp add: hex.simps)
  next
    case False
    then obtain j where j: "k = Suc j" "0 < j" using 1(2,3) by (cases k; cases "k - 1") auto
    have "n div 16 < 16 ^ j" using 1(3) j(1) by (simp add: less_mult_imp_div_less)
    then have "length (hex (n div 16)) \<le> j" using 1(1) False j(2) by blast
    then show ?thesis using False j(1) by (subst hex.simps) simp
  qed
qed

lemma hex_pad_digits: "c \<in> set (hex_pad w n) \<Longrightarrow> is_hex c"
  by (auto simp: hex_pad_def is_hex_def dest: hex_digits)

lemma foldl_zeros: "foldl (\<lambda>n c. 16 * n + hex_value c) 0 (replicate k (CHR ''0'')) = 0"
  by (induction k) (simp_all add: hex_value_def)

lemma hex_pad_read: "foldl (\<lambda>n c. 16 * n + hex_value c) 0 (hex_pad w n) = unat n"
  by (simp add: hex_pad_def foldl_zeros hex_read)

lemma hex_pad_inj: "hex_pad w n = hex_pad w n' \<longleftrightarrow> n = n'"
  by (metis hex_pad_read word_unat_eq_iff)

lemma length_hex_pad: "w \<le> 8 \<Longrightarrow> length (hex_pad w n) \<le> 8"
proof -
  have "unat n < 16 ^ 8" using unsigned_less [of n] by simp
  then have "length (hex (unat n)) \<le> 8" by (rule length_hex [rotated]) simp
  then show "w \<le> 8 \<Longrightarrow> length (hex_pad w n) \<le> 8" by (simp add: hex_pad_def)
qed

lemma split_at_separator:
  assumes "\<forall>c\<in>set s. is_hex c" "\<forall>c\<in>set s'. is_hex c" "\<not> is_hex x" "s @ x # t = s' @ x # t'"
  shows "s = s' \<and> t = t'"
proof -
  have "takeWhile is_hex (s @ x # t) = s" "takeWhile is_hex (s' @ x # t') = s'"
    using assms(1-3) by simp_all
  then show ?thesis using assms(4) by simp
qed

lemma PciAddress_to_str_fits:
  "PciAddress_to_str a 64 = hex_pad 4 (pci_domain a) @ CHR '':'' # hex_pad 2 (pci_bus a) @ CHR '':'' # hex_pad 2 (pci_slot a) @
     CHR ''.'' # hex_pad 1 (pci_function a)"
  using length_hex_pad [of 4 "pci_domain a"] length_hex_pad [of 2 "pci_bus a"] length_hex_pad [of 2 "pci_slot a"]
    length_hex_pad [of 1 "pci_function a"]
  by (simp add: PciAddress_to_str_def)

text \<open>Different PCI addresses are named by different strings: the buffer of 64 bytes never truncates
  the text of an address, whatever its four numbers are, and the text determines them.\<close>

theorem pci_address_strings_distinct: "PciAddress_to_str a 64 = PciAddress_to_str b 64 \<longleftrightarrow> a = b"
proof
  assume eq: "PciAddress_to_str a 64 = PciAddress_to_str b 64"
  have sep: "\<not> is_hex (CHR '':'')" "\<not> is_hex (CHR ''.'')" by (simp_all add: is_hex_def)
  note split = split_at_separator [of "hex_pad _ _" "hex_pad _ _", rotated 2, OF sep(1)]
    split_at_separator [of "hex_pad _ _" "hex_pad _ _", rotated 2, OF sep(2)]
  have "pci_domain a = pci_domain b \<and> pci_bus a = pci_bus b \<and> pci_slot a = pci_slot b \<and> pci_function a = pci_function b"
    using eq unfolding PciAddress_to_str_fits
    by (auto simp: hex_pad_inj dest!: split intro: hex_pad_digits)
  then show "a = b" by (cases a; cases b) simp
qed simp

subsection \<open>What an answer means\<close>

text \<open>The device a request is about: its single address, or the name of a bond.\<close>

definition requested_device :: "PortControlRequest \<Rightarrow> string option" where
  "requested_device pc =
     (if length (pc_pci_addrs pc) = 1 then Some (PciAddress_to_str (hd (pc_pci_addrs pc)) 64) else pc_name pc)"

text \<open>The effect a successful answer promises, for each operation.\<close>

definition port_op_done ::
  "(nat \<Rightarrow> gstate \<Rightarrow> gstate) \<Rightarrow> PortControlRequest \<Rightarrow> PortControlResponse \<Rightarrow> gstate \<Rightarrow> gstate \<Rightarrow> bool" where
  "port_op_done sched pc r st st' \<longleftrightarrow>
     (let route = sock_route (relay_ifname_map st); route' = sock_route (relay_ifname_map st') in
      case pc_op pc of
        OP_ADD \<Rightarrow> route' = route \<and> (\<exists>i dev. pc_virtio_id pc = Some i \<and> i < MAX_RELAYS st \<and> requested_device pc = Some dev \<and>
          pci_dbdf (dpdk (relay_of st' i)) \<in> {dev, strlcpy dev 20} \<and> dpdk_state (dpdk (relay_of st' i)) \<in> {DPDK_ADDED, DPDK_READY})
      | OP_REMOVE \<Rightarrow> route' = route \<and> (\<exists>i. pc_virtio_id pc = Some i \<and> i < MAX_RELAYS st \<and>
          (others_keep sched i \<and> 0 \<le> vf2vio_cpu (dpdk (relay_of st i)) \<longrightarrow>
             dpdk_state (dpdk (relay_of st' i)) \<notin> {DPDK_ADDED, DPDK_READY}))
      | OP_ADD_SOCK \<Rightarrow> (\<exists>path i dev. pc_vhost_path pc = Some path \<and> i < MAX_RELAYS st \<and> relay_free (relay_ifname_map st) st i \<and>
          requested_device pc = Some dev \<and> route' = route(path \<mapsto> i) \<and>
          pci_dbdf (dpdk (relay_of st' i)) = strlcpy dev 20 \<and> dpdk_state (dpdk (relay_of st' i)) \<in> {DPDK_ADDED, DPDK_READY})
      | OP_REMOVE_SOCK \<Rightarrow> (\<exists>dev path i. removal_target (pc_vhost_path pc) dev st = Some (i, Some path) \<and>
          dev = (case requested_device pc of None \<Rightarrow> [] | Some d \<Rightarrow> d) \<and> route' = route(path := None))
      | OP_QUERY_PCI \<Rightarrow> st' = st \<and> (\<exists>path i. pc_vhost_path pc = Some path \<and> route path = Some i \<and>
          pr_query_string r = Some (pci_dbdf (dpdk (relay_of st i))))
      | OP_OTHER n \<Rightarrow> False)"

lemma respond_Some:
  assumes "respond r src result = Some (r', st')" "pr_status r = PORT_ERROR" "pr_error_code r = None"
  obtains code where "result = Some (code, st')" "pr_query_string r' = pr_query_string r"
    "(pr_status r' = PORT_OK) = (code = 0)" "pr_error_code r' = (if code = 0 then None else Some code)"
    "code \<noteq> 0 \<Longrightarrow> pr_error_code_source r' = Some src"
proof -
  obtain code where 1: "result = Some (code, st')" "set_error_code r src code = Some r'"
    using assms(1) by (auto simp: respond_def bind_Some_iff)
  then show ?thesis using that [of code] assms(2,3)
    by (cases "code = 0") (auto simp: set_error_code_def split: if_splits)
qed

lemma add_vf2_done:
  assumes "virtio_forwarder_add_vf2 env dev i c st = Some (0, st')"
  shows "i < MAX_RELAYS st \<and> pci_dbdf (dpdk (relay_of st' i)) \<in> {dev, strlcpy dev 20} \<and>
    dpdk_state (dpdk (relay_of st' i)) \<in> {DPDK_ADDED, DPDK_READY}"
proof (cases "dpdk_state (dpdk (relay_of st i)) = DPDK_UNINIT")
  case True
  have i: "i < MAX_RELAYS st" using assms by (auto simp: virtio_forwarder_add_vf2_def split: if_splits)
  from add_vf2_effect [OF i True assms] i show ?thesis by (simp add: added_def Let_def)
next
  case False
  then show ?thesis using assms
    by (auto simp: virtio_forwarder_add_vf2_def conditional_add_ok_def pci_dbdf_equal_def split: if_splits)
qed

lemma bond_add_done:
  assumes "virtio_forwarder_bond_add env g ss n mode i st = Some (0, st')"
  shows "i < MAX_RELAYS st \<and> pci_dbdf (dpdk (relay_of st' i)) = strlcpy n 20 \<and>
    dpdk_state (dpdk (relay_of st' i)) \<in> {DPDK_ADDED, DPDK_READY}"
proof -
  have i: "i < MAX_RELAYS st" using assms by (auto simp: virtio_forwarder_bond_add_def split: if_splits)
  obtain st1 p where "i < MAX_RELAYS st1" "configure_dev_with_virtio env n p i True (length ss) st1 = Some (0, st')"
    using bond_add_effect [OF assms] by blast
  from configure_added [OF this] i show ?thesis by (simp add: added_def Let_def)
qed

lemma remove_vf2_done:
  assumes "virtio_forwarder_remove_vf2 env sched dev i c st = Some (0, st')"
  shows "i < MAX_RELAYS st \<and> (others_keep sched i \<and> 0 \<le> vf2vio_cpu (dpdk (relay_of st i)) \<longrightarrow>
    dpdk_state (dpdk (relay_of st' i)) \<notin> {DPDK_ADDED, DPDK_READY})"
proof -
  have i: "i < MAX_RELAYS st" using assms by (auto simp: virtio_forwarder_remove_vf2_def split: if_splits)
  have "dpdk_state (dpdk (relay_of st' i)) \<notin> {DPDK_ADDED, DPDK_READY}"
    if k: "others_keep sched i" "0 \<le> vf2vio_cpu (dpdk (relay_of st i))"
  proof (cases "dpdk_state (dpdk (relay_of st i)) \<in> {DPDK_ADDED, DPDK_READY}")
    case True
    then have "detach_device env sched i st = Some (0, st')"
      using assms i by (auto simp: virtio_forwarder_remove_vf2_def Let_def split: if_splits)
    from detach_device_effect(2) [OF k(1) i k(2) this] show ?thesis by simp
  next
    case False
    then show ?thesis using assms i by (auto simp: virtio_forwarder_remove_vf2_def Let_def split: if_splits)
  qed
  then show ?thesis using i by blast
qed

lemma query_pci_done:
  assumes "sockets_ok st" "virtio_query_pci vp st = (code, q)"
  shows "code = 0 \<Longrightarrow> \<exists>path i. vp = Some path \<and> sock_route (relay_ifname_map st) path = Some i \<and>
    q = Some (pci_dbdf (dpdk (relay_of st i)))"
  using assms
  by (auto simp: virtio_query_pci_def Let_def sock_route_def get_relay_for_sock_def get_relay_from_id_def split: option.splits if_splits)


text \<open>The contract of a handler: its answer reports what the operation did.\<close>

definition reports ::
  "(nat \<Rightarrow> gstate \<Rightarrow> gstate) \<Rightarrow> PortControlRequest \<Rightarrow> gstate \<Rightarrow> PortControlResponse \<times> gstate \<Rightarrow> bool" where
  "reports sched pc st res \<longleftrightarrow>
     (case res of (r, st') \<Rightarrow> sockets_ok st' \<and>
       (case pr_status r of
          PORT_OK \<Rightarrow> pr_error_code r = None \<and> port_op_done sched pc r st st'
        | PORT_ERROR \<Rightarrow> (case pr_error_code r of
            None \<Rightarrow> st' = st \<and> pr_error_code_source r = None
          | Some code \<Rightarrow> code \<noteq> 0 \<and> pr_error_code_source r \<noteq> None)))"

lemma respond_reports:
  assumes "respond r src result = Some (r', st')" "pr_status r = PORT_ERROR" "pr_error_code r = None"
    "\<And>code. result = Some (code, st') \<Longrightarrow> sockets_ok st'"
    "\<And>r'. result = Some (0, st') \<Longrightarrow> pr_query_string r' = pr_query_string r \<Longrightarrow> port_op_done sched pc r' st st'"
  shows "reports sched pc st (r', st')"
proof -
  obtain code where c: "result = Some (code, st')" "pr_query_string r' = pr_query_string r"
    "(pr_status r' = PORT_OK) = (code = 0)" "pr_error_code r' = (if code = 0 then None else Some code)"
    "code \<noteq> 0 \<Longrightarrow> pr_error_code_source r' = Some src"
    by (rule respond_Some [OF assms(1-3)]) blast
  then have "sockets_ok st'" using assms(4) by blast
  then show ?thesis
    using c assms(5) by (cases "code = 0"; cases "pr_status r'") (auto simp: reports_def)
qed

lemma sockets_ok_dests:
  assumes "keeps st st'" "sockets_ok st"
  shows "sockets_ok st'" "sock_route (relay_ifname_map st') = sock_route (relay_ifname_map st)"
  using sockets_ok_keeps [OF assms(1)] keepsD(1) [OF assms(1)] assms(2) by simp_all

lemma respond_keeps_reports:
  assumes "respond r src result = Some (r', st')" "pr_status r = PORT_ERROR" "pr_error_code r = None" "sockets_ok st"
    "\<And>code. result = Some (code, st') \<Longrightarrow> keeps st st'"
    "\<And>r'. result = Some (0, st') \<Longrightarrow> sock_route (relay_ifname_map st') = sock_route (relay_ifname_map st) \<Longrightarrow>
       pr_query_string r' = pr_query_string r \<Longrightarrow> port_op_done sched pc r' st st'"
  shows "reports sched pc st (r', st')"
  by (rule respond_reports [OF assms(1-3)]) (use assms(4-6) sockets_ok_dests [of st st'] in blast)+

lemma fill_buffer_Some:
  assumes "fill_buffer env pc = Some b"
  shows "take (length (pc_pci_addrs pc)) (dbdf_addrs b) = map (\<lambda>a. PciAddress_to_str a 64) (pc_pci_addrs pc)"
    "length (pc_pci_addrs pc) = 1 \<Longrightarrow> dbdf_addrs b ! 0 = PciAddress_to_str (hd (pc_pci_addrs pc)) 64"
    "pc_pci_addrs pc = [] \<Longrightarrow> dbdf_addrs b ! 0 = []"
    "b_name b = pc_name pc" "b_vhost_path b = pc_vhost_path pc"
    "pc_op pc = OP_ADD \<or> pc_op pc = OP_REMOVE \<Longrightarrow> pc_virtio_id pc = Some v \<Longrightarrow> b_virtio_id b = v"
  using assms
  by (auto simp: fill_buffer_def MAX_NUM_BOND_SLAVES_def length_Suc_conv split: if_splits)

abbreviation error_response :: PortControlResponse where
  "error_response \<equiv> \<lparr>pr_status = PORT_ERROR, pr_error_code = None, pr_error_code_source = None, pr_query_string = None\<rparr>"

lemma add_reports:
  assumes "sockets_ok st" "pc_op pc = OP_ADD" "pc_virtio_id pc = Some v" "fill_buffer env pc = Some b"
    "port_control_handle_add env ids error_response b (length (pc_pci_addrs pc)) c st = Some (r, st')"
  shows "reports sched pc st (r, st')"
proof -
  let ?n = "length (pc_pci_addrs pc)"
  have v: "b_virtio_id b = v" using fill_buffer_Some(6) [OF assms(4)] assms(2,3) by blast
  consider "?n = 0" | "?n = 1" | "1 < ?n" by linarith
  then show ?thesis
  proof cases
    case 1
    then show ?thesis using assms(1,5) by (auto simp: port_control_handle_add_def reports_def)
  next
    case 2
    have "respond error_response ''virtio_forwarder_add_vf2()''
        (virtio_forwarder_add_vf2 env (PciAddress_to_str (hd (pc_pci_addrs pc)) 64) v c st) = Some (r, st')"
      using assms(5) 2 fill_buffer_Some(2) [OF assms(4) 2] v by (simp add: port_control_handle_add_def)
    then show ?thesis
      by (rule respond_keeps_reports)
        (use 2 assms(1-3) in \<open>auto simp: port_op_done_def Let_def requested_device_def dest: add_vf2_keeps add_vf2_done\<close>)
  next
    case 3
    obtain ss mode where "respond error_response ''virtio_forwarder_bond_add()''
        (case pc_name pc of None \<Rightarrow> None | Some n \<Rightarrow> virtio_forwarder_bond_add env ids ss n mode v st) = Some (r, st')"
      using assms(5) 3 fill_buffer_Some(4) [OF assms(4)] v by (auto simp: port_control_handle_add_def)
    then show ?thesis
      by (rule respond_keeps_reports)
        (use 3 assms(1-3) in \<open>auto simp: port_op_done_def Let_def requested_device_def dest: bond_add_keeps bond_add_done split: option.splits\<close>)
  qed
qed


lemma remove_reports:
  assumes "sockets_ok st" "sched_keeps sched" "pc_op pc = OP_REMOVE" "pc_virtio_id pc = Some v" "fill_buffer env pc = Some b"
    "port_control_handle_remove env sched error_response b name c st = Some (r, st')"
  shows "reports sched pc st (r, st')"
proof -
  have v: "b_virtio_id b = v" using fill_buffer_Some(6) [OF assms(5)] assms(3,4) by blast
  obtain dev where "respond error_response ''virtio_forwarder_remove_vf2()'' (virtio_forwarder_remove_vf2 env sched dev v c st) = Some (r, st')"
    using assms(6) v by (auto simp: port_control_handle_remove_def)
  then show ?thesis
    by (rule respond_keeps_reports)
      (use assms(1-4) in \<open>auto simp: port_op_done_def Let_def dest: remove_vf2_keeps remove_vf2_done\<close>)
qed

lemma add_socket_reports:
  assumes "sockets_ok st" "sched_keeps sched" "pc_op pc = OP_ADD_SOCK" "fill_buffer env pc = Some b"
    "port_control_handle_add_socket env sched ids error_response b (length (pc_pci_addrs pc)) c st = Some (r, st')"
  shows "reports sched pc st (r, st')"
proof -
  let ?ss = "map (\<lambda>a. PciAddress_to_str a 64) (pc_pci_addrs pc)"
  have dev: "(if length ?ss = 1 then Some (hd ?ss) else pc_name pc) = requested_device pc"
    by (auto simp: requested_device_def length_Suc_conv)
  have e: "respond error_response ''virtio_add_sock_dev_pair()''
      (virtio_add_sock_dev_pair env sched ids (pc_vhost_path pc) ?ss (pc_name pc) (b_mode b) c st) = Some (r, st')"
    using assms(5) fill_buffer_Some(1,4,5) [OF assms(4)] by (simp add: port_control_handle_add_socket_def)
  show ?thesis
  proof (cases "pc_vhost_path pc")
    case None
    show ?thesis
      by (rule respond_reports [OF e]) (use assms(1) None in \<open>auto simp: virtio_add_sock_dev_pair_def\<close>)
  next
    case (Some path)
    note eff = add_pair_effect [OF assms(1,2), of env ids path ?ss "pc_name pc" "b_mode b" c _ st', unfolded dev]
    show ?thesis
      by (rule respond_reports [OF e])
        (use assms(3) Some eff in \<open>auto simp: port_op_done_def Let_def split: if_splits\<close>)
  qed
qed

lemma remove_socket_reports:
  assumes "sockets_ok st" "sched_keeps sched" "pc_op pc = OP_REMOVE_SOCK" "validate_PortControlRequest pc" "fill_buffer env pc = Some b"
    "port_control_handle_remove_socket env sched error_response b (if length (pc_pci_addrs pc) = 1 then None else pc_name pc) c st = Some (r, st')"
  shows "reports sched pc st (r, st')"
proof -
  let ?dev = "case requested_device pc of None \<Rightarrow> [] | Some d \<Rightarrow> d"
  have n: "pc_name pc = None \<Longrightarrow> length (pc_pci_addrs pc) = 0 \<or> length (pc_pci_addrs pc) = 1"
    using assms(4) by (cases "pc_pci_addrs pc") (auto simp: validate_PortControlRequest_def Let_def split: if_splits)
  obtain cap where e: "respond error_response ''virtio_remove_sock_dev_pair()''
      (virtio_remove_sock_dev_pair env sched (pc_vhost_path pc) ?dev cap c st) = Some (r, st')"
    using assms(6) n fill_buffer_Some(2,3,5) [OF assms(5)]
    by (cases "length (pc_pci_addrs pc) = 1"; cases "pc_name pc")
      (auto simp: port_control_handle_remove_socket_def requested_device_def)
  note eff = remove_pair_effect [OF assms(1,2), of env "pc_vhost_path pc" ?dev cap c _ st']
  show ?thesis
    by (rule respond_reports [OF e]) (use assms(3) eff in \<open>auto simp: port_op_done_def Let_def\<close>)
qed

lemma query_pci_reports:
  assumes "sockets_ok st" "pc_op pc = OP_QUERY_PCI" "fill_buffer env pc = Some b"
    "port_control_handle_query_pci error_response b st = Some (r, st')"
  shows "reports sched pc st (r, st')"
proof -
  obtain code q where q: "virtio_query_pci (pc_vhost_path pc) st = (code, q)" by fastforce
  have "respond (error_response\<lparr>pr_query_string := q\<rparr>) ''virtio_query_pci()'' (Some (code, st)) = Some (r, st')"
    using assms(4) q fill_buffer_Some(5) [OF assms(3)] by (auto simp: port_control_handle_query_pci_def split: if_splits)
  then show ?thesis
    by (rule respond_reports) (use assms(1,2) query_pci_done [OF assms(1) q] in \<open>auto simp: port_op_done_def Let_def\<close>)
qed

lemma error_reports: "sockets_ok st \<Longrightarrow> reports sched pc st (error_response, st)"
  by (simp add: reports_def)

lemma port_control_reports:
  assumes "sockets_ok st" "sched_keeps sched"
    "answer_PortControlRequest env sched ids garbage (Some pc) st = Some (r, st')"
  shows "reports sched pc st (r, st') \<and> (\<not> validate_PortControlRequest pc \<longrightarrow> r = error_response \<and> st' = st)"
proof (cases "validate_PortControlRequest pc")
  case False
  then show ?thesis using assms(1,3) error_reports by (simp add: answer_PortControlRequest_def)
next
  case True
  obtain b where b: "fill_buffer env pc = Some b"
    using assms(3) True by (auto simp: answer_PortControlRequest_def Let_def bind_Some_iff)
  have v: "\<exists>v. pc_virtio_id pc = Some v" if "pc_op pc = OP_ADD \<or> pc_op pc = OP_REMOVE"
    using True that by (auto simp: validate_PortControlRequest_def Let_def split: if_splits)
  have "reports sched pc st (r, st')"
    using assms(3) True b v error_reports [OF assms(1)]
    by (cases "pc_op pc")
      (auto simp: answer_PortControlRequest_def bind_Some_iff Let_def
        intro: add_reports [OF assms(1) _ _ b] remove_reports [OF assms(1,2) _ _ b] add_socket_reports [OF assms(1,2) _ b]
          remove_socket_reports [OF assms(1,2) _ True b] query_pci_reports [OF assms(1) _ b])
  then show ?thesis using True by blast
qed

text \<open>C25: Every answer of the port control service is truthful. Success is reported only for a valid
  request whose operation has had its effect: the relay asked for has the device, or no device
  any more; the socket leads to a relay that was free and has the device, or leads nowhere any
  more; the device of the socket's relay is returned. A failure carries a nonzero code and the
  name of the failing function, or nothing has changed at all. The socket table stays one-to-one
  either way.\<close>

theorem port_control_truthful:
  assumes "sockets_ok st" "sched_keeps sched"
    "answer_PortControlRequest env sched ids garbage (Some pc) st = Some (r, st')"
  shows "reports sched pc st (r, st') \<and> (\<not> validate_PortControlRequest pc \<longrightarrow> r = error_response \<and> st' = st)"
  by (rule port_control_reports [OF assms])


subsection \<open>Requests that overflow a buffer\<close>

lemma write_addrs_None: "write_addrs as i s = None \<longleftrightarrow> as \<noteq> [] \<and> 8 \<le> i + length as"
proof (induction as arbitrary: i s)
  case (Cons a as)
  have "write_addrs (a # as) i s = None \<longleftrightarrow> 8 \<le> Suc i \<or> write_addrs as (Suc i) (s @ PciAddress_to_str a 13 @ '' '') = None"
    by (simp add: MAX_NUM_BOND_SLAVES_def)
  then show ?case unfolding Cons.IH by auto
qed simp

text \<open>C26: The number of addresses is not among the fields that are validated: every valid request
  with eight addresses or more overflows, with exactly eight already while it is logged
  (the terminating zero of the list goes one byte past its buffer), with at most seven the log
  line fits.\<close>

theorem port_control_address_limit:
  assumes "validate_PortControlRequest pc"
  shows "if MAX_NUM_BOND_SLAVES \<le> length (pc_pci_addrs pc)
    then answer_PortControlRequest env sched ids garbage (Some pc) st = None
    else PortControlRequest_to_str garbage pc \<noteq> None \<and> fill_buffer env pc \<noteq> None"
  using assms write_addrs_None [of "pc_pci_addrs pc" 0 "[]"]
  by (auto simp: answer_PortControlRequest_def PortControlRequest_to_str_def fill_buffer_def MAX_NUM_BOND_SLAVES_def
      bind_eq_None_conv Let_def)

text \<open>A valid request to remove a socket that carries an empty name overflows the heap: the name
  of the relay's device is copied over the empty name of the request.\<close>

theorem port_control_empty_name:
  assumes "validate_PortControlRequest pc" "pc_op pc = OP_REMOVE_SOCK" "pc_name pc = Some []" "pc_vhost_path pc = Some path"
    "length (pc_pci_addrs pc) \<noteq> 1"
    "sock_route (relay_ifname_map st) path = Some i" "pci_dbdf (dpdk (relay_of st i)) \<noteq> []"
  shows "answer_PortControlRequest env sched ids garbage (Some pc) st = None"
proof -
  have "removal_target (Some path) [] st = Some (i, Some path)"
    using assms(6) by (auto simp: removal_target_def get_relay_for_sock_def sock_route_def Let_def split: if_splits)
  then have "virtio_remove_sock_dev_pair env sched (Some path) [] 1 c st = None" for c
    using assms(7) by (auto simp: virtio_remove_sock_dev_pair_def Let_def Suc_le_eq)
  then have "port_control_handle_remove_socket env sched r b (Some []) c st = None" if "b_vhost_path b = Some path" for r b c
    using that by (simp add: port_control_handle_remove_socket_def respond_def)
  then show ?thesis
    using assms fill_buffer_Some(5) [of env pc]
    by (cases "fill_buffer env pc") (auto simp: answer_PortControlRequest_def Let_def bind_eq_None_conv)
qed

subsection \<open>Examples\<close>

definition demo_request :: "port_op \<Rightarrow> PciAddress list \<Rightarrow> string option \<Rightarrow> PortControlRequest" where
  "demo_request op as name = \<lparr>pc_op = op, pc_pci_addrs = as, pc_virtio_id = None, pc_conditional = None, pc_name = name,
     pc_mode = None, pc_vhost_path = Some ''/tmp/a''\<rparr>"

theorem port_control_truthful_witness:
  "\<exists>r. answer_PortControlRequest demo_env (\<lambda>n st. st) [] [] (Some (demo_request OP_QUERY_PCI [] None)) demo_registered =
      Some (r, demo_registered) \<and>
    port_op_done (\<lambda>n st. st) (demo_request OP_QUERY_PCI [] None) r demo_registered demo_registered"
proof -
  let ?pc = "demo_request OP_QUERY_PCI [] None"
  have k: "sched_keeps (\<lambda>n st. st)" by (simp add: sched_in_def)
  obtain r where e: "answer_PortControlRequest demo_env (\<lambda>n st. st) [] [] (Some ?pc) demo_registered = Some (r, demo_registered)"
    and ok: "pr_status r = PORT_OK"
    by (auto simp: answer_PortControlRequest_def demo_request_def validate_PortControlRequest_def PortControlRequest_to_str_def
        fill_buffer_def port_control_handle_query_pci_def virtio_query_pci_def get_relay_for_sock_def get_relay_from_id_def
        respond_def set_error_code_def Let_def)
  from port_control_truthful [OF demo_registered_ok k e] ok show ?thesis using e by (auto simp: reports_def)
qed

theorem port_control_address_limit_witness:
  "answer_PortControlRequest demo_env (\<lambda>n st. st) [] [] (Some (demo_request OP_ADD_SOCK
     (replicate 8 \<lparr>pci_domain = 0, pci_bus = 5, pci_slot = 8, pci_function = 1\<rparr>) (Some ''bond0''))) demo_registered = None"
proof -
  let ?pc = "demo_request OP_ADD_SOCK (replicate 8 \<lparr>pci_domain = 0, pci_bus = 5, pci_slot = 8, pci_function = 1\<rparr>) (Some ''bond0'')"
  have "validate_PortControlRequest ?pc" "MAX_NUM_BOND_SLAVES \<le> length (pc_pci_addrs ?pc)"
    by (simp_all add: demo_request_def validate_PortControlRequest_def MAX_NUM_BOND_SLAVES_def)
  then show ?thesis using port_control_address_limit [of ?pc demo_env "\<lambda>n st. st" "[]" "[]" demo_registered] by simp
qed

theorem port_control_empty_name_witness:
  "answer_PortControlRequest demo_env (\<lambda>n st. st) [] [] (Some (demo_request OP_REMOVE_SOCK [] (Some [])))
     (demo_registered\<lparr>virtio_vf_relays := [(init_relay 0 (-1) False)\<lparr>dpdk := (demo_dpdk [])\<lparr>pci_dbdf := ''0000:05:08.1''\<rparr>\<rparr>]\<rparr>) = None"
  by (rule port_control_empty_name [of _ "''/tmp/a''" _ 0])
    (simp_all add: demo_request_def validate_PortControlRequest_def sock_route_def demo_dpdk_def)

end
