(* ===== verification/CoreSched.thy ===== *)
theory CoreSched
  imports PortControl
begin

text \<open>
  The ZeroMQ services for CPU affinities: \<open>zmq_core_sched.c\<close>, which lists the worker cores and
  moves relays between them, and \<open>zmq_config.c\<close>, which lists the configured affinities. As
  before, the code that protoc generates is a parameter, and \<open>None\<close> is a failed assertion
  or an access outside an array.
\<close>

subsection \<open>Moving relays\<close>

datatype core_sched_op = OP_UPDATE | OP_GET_EAL_CORES | OP_UNKNOWN int

record RelayCPU =
  rc_relay_number :: int
  rc_vf2virtio_cpu :: int
  rc_virtio2vf_cpu :: int

record CoreSchedRequest =
  cs_op :: core_sched_op
  cs_relay_cpu_map :: "RelayCPU list"

record CoreSchedResponse =
  cs_status :: port_status
  cs_error_code :: "int option"
  cs_error_code_source :: "string option"
  cs_eal_cores :: "nat list"

fun CoreSched_Op_to_str :: "core_sched_op \<Rightarrow> string" where
  "CoreSched_Op_to_str OP_UPDATE = ''UPDATE''"
| "CoreSched_Op_to_str OP_GET_EAL_CORES = ''GET_EAL_CORES''"
| "CoreSched_Op_to_str (OP_UNKNOWN i) =
     ''Virtioforwarder__CoreSchedRequest__Op('' @ (if i < 0 then ''-'' @ dec (nat (- i)) else dec (nat i)) @ '')''"

definition CoreSchedRequest_to_str :: "CoreSchedRequest \<Rightarrow> string" where
  "CoreSchedRequest_to_str pc = strlcpy (''[op='' @ CoreSched_Op_to_str (cs_op pc) @ '']'') 128"

definition validate_CoreSchedRequest :: "CoreSchedRequest \<Rightarrow> gstate \<Rightarrow> bool" where
  "validate_CoreSchedRequest pc st \<longleftrightarrow> list_all (\<lambda>cpu. \<not> int (MAX_RELAYS st) < rc_relay_number cpu) (cs_relay_cpu_map pc)"

definition core_sched_set_error_code :: "CoreSchedResponse \<Rightarrow> string \<Rightarrow> int \<Rightarrow> CoreSchedResponse option" where
  "core_sched_set_error_code r src code =
     (if code = 0 then Some (r\<lparr>cs_status := PORT_OK\<rparr>)
      else if cs_status r \<noteq> PORT_ERROR then None
      else Some (r\<lparr>cs_error_code_source := Some src, cs_error_code := Some code\<rparr>))"

text \<open>The loop over the entries of an update.\<close>

primrec update_cpus :: "RelayCPU list \<Rightarrow> CoreSchedResponse \<Rightarrow> gstate \<Rightarrow> (CoreSchedResponse \<times> gstate) option" where
  "update_cpus [] r st = Some (r, st)"
| "update_cpus (cpu # rest) r st = do {
     (code, st) \<leftarrow> migrate_relay_cpus (rc_relay_number cpu) (rc_virtio2vf_cpu cpu) (rc_vf2virtio_cpu cpu) st;
     r \<leftarrow> core_sched_set_error_code r ''migrate_relay_cpus()'' code;
     update_cpus rest r st }"

text \<open>The loop over the bits of the worker bitmap, into a buffer of 64 entries.\<close>

function eal_cores :: "64 word \<Rightarrow> nat \<Rightarrow> nat list \<Rightarrow> nat list option" where
  "eal_cores bm i buf =
     (if bm = 0 then Some (take i buf)
      else let w = ffs bm - 1 in
        if \<not> w < 64 \<or> length buf \<le> i then None else eal_cores (bit_clear bm w) (Suc i) (buf[i := w]))"
  by pat_completeness auto
termination
proof (relation "measure (\<lambda>(bm, i, buf). length (bits_of bm))", goal_cases)
  case (2 bm i buf w)
  then obtain j js where "bits_of bm = j # js" by (cases "bits_of bm") auto
  then show ?case using 2 by (simp add: ffs_def bits_of_bit_clear_head)
qed simp

declare eal_cores.simps [simp del]

definition answer_CoreSchedRequest ::
  "nat list \<Rightarrow> CoreSchedRequest option \<Rightarrow> gstate \<Rightarrow> (CoreSchedResponse \<times> gstate) option" where
  "answer_CoreSchedRequest eal_cores_buffer request st =
     (let r = \<lparr>cs_status = PORT_ERROR, cs_error_code = None, cs_error_code_source = None, cs_eal_cores = []\<rparr> in
      case request of
        None \<Rightarrow> Some (r, st)
      | Some pc \<Rightarrow>
          if \<not> validate_CoreSchedRequest pc st then Some (r, st)
          else (case cs_op pc of
            OP_UPDATE \<Rightarrow> update_cpus (cs_relay_cpu_map pc) r st
          | OP_GET_EAL_CORES \<Rightarrow> do {
              cores \<leftarrow> eal_cores (get_eal_core_map st) 0 eal_cores_buffer;
              if cores \<noteq> [] then Some (r\<lparr>cs_eal_cores := cores, cs_status := PORT_OK\<rparr>, st)
              else do { r \<leftarrow> core_sched_set_error_code r ''worker core request'' 1; Some (r, st) } }
          | OP_UNKNOWN i \<Rightarrow> Some (r, st)))"

definition handle_CoreSchedRequest ::
  "(string \<Rightarrow> CoreSchedRequest option) \<Rightarrow> (CoreSchedResponse \<Rightarrow> string) \<Rightarrow> nat list \<Rightarrow> string \<Rightarrow> nat \<Rightarrow> gstate \<Rightarrow>
   (string \<times> gstate) option" where
  "handle_CoreSchedRequest unpack pack eal_cores_buffer request_buffer cb_response_buffer st = do {
     (response, st) \<leftarrow> answer_CoreSchedRequest eal_cores_buffer (unpack request_buffer) st;
     if length (pack response) \<le> cb_response_buffer then Some (pack response, st) else None }"

subsection \<open>Listing the configured affinities\<close>

datatype config_status = CONFIG_OK | CONFIG_EBADR

record ConfigResponse =
  cf_status :: config_status
  cf_relay_cpu_map :: "RelayCPU list"

text \<open>The pointers to the entries that have both CPUs, collected over the given relays. The array of
  pointers has \<open>n\<close> elements.\<close>

primrec relay_cpus_query :: "nat \<Rightarrow> virtio_vhostuser_conf \<Rightarrow> nat list \<Rightarrow> RelayCPU list \<Rightarrow> RelayCPU list option" where
  "relay_cpus_query n conf [] found = Some found"
| "relay_cpus_query n conf (i # is) found = do {
     c \<leftarrow> array_get (conf_relay_cpus conf) i;
     let cpu = \<lparr>rc_relay_number = int i, rc_vf2virtio_cpu = conf_vf2vio_cpu c, rc_virtio2vf_cpu = conf_vio2vf_cpu c\<rparr>;
     if rc_vf2virtio_cpu cpu \<noteq> -1 \<and> rc_virtio2vf_cpu cpu \<noteq> -1
     then if length found < n then relay_cpus_query n conf is (found @ [cpu]) else None
     else relay_cpus_query n conf is found }"

definition handle_ConfigRequest ::
  "(string \<Rightarrow> 'q option) \<Rightarrow> (ConfigResponse \<Rightarrow> string) \<Rightarrow> virtio_vhostuser_conf \<Rightarrow> string \<Rightarrow> nat \<Rightarrow> gstate \<Rightarrow> (string \<times> gstate) option" where
  "handle_ConfigRequest unpack pack conf request_buffer cb_response_buffer st = do {
     response \<leftarrow> (case unpack request_buffer of
         None \<Rightarrow> Some \<lparr>cf_status = CONFIG_EBADR, cf_relay_cpu_map = []\<rparr>
       | Some pc \<Rightarrow> do {
           entries \<leftarrow> relay_cpus_query (MAX_RELAYS st) conf [0..<MAX_RELAYS st] [];
           Some \<lparr>cf_status = CONFIG_OK, cf_relay_cpu_map = entries\<rparr> });
     if length (pack response) \<le> cb_response_buffer then Some (pack response, st) else None }"

subsection \<open>Listing the worker cores\<close>

lemma eal_cores_lists:
  assumes "i + length (bits_of bm) \<le> length buf"
  shows "eal_cores bm i buf = Some (take i buf @ bits_of bm)"
  using assms
proof (induction bm i buf rule: eal_cores.induct)
  case (1 bm i buf)
  show ?case
  proof (cases "bits_of bm")
    case Nil
    then show ?thesis by (simp add: eal_cores.simps)
  next
    case (Cons w ws)
    then have w: "ffs bm - 1 = w" "bm \<noteq> 0" "w < 64" "bits_of (bit_clear bm w) = ws" "i < length buf"
      using 1(2) bit_imp_le_length [of bm w] set_bits_of [of bm] by (auto simp: ffs_def bits_of_bit_clear_head)
    then have "eal_cores (bit_clear bm w) (Suc i) (buf[i := w]) = Some (take (Suc i) (buf[i := w]) @ ws)"
      using 1(1) [OF w(2) refl] 1(2) Cons by simp
    then show ?thesis using w Cons by (simp add: eal_cores.simps [of bm] take_Suc_conv_app_nth)
  qed
qed

text \<open>The worker cores are listed exactly, in ascending order, and the buffer of 64 entries is
  never exceeded; with no worker core the answer is an error with code 1.\<close>

theorem core_sched_lists_cores:
  assumes "validate_CoreSchedRequest pc st" "cs_op pc = OP_GET_EAL_CORES" "length buf = 64"
  shows "\<exists>r. answer_CoreSchedRequest buf (Some pc) st = Some (r, st) \<and>
    sorted (cs_eal_cores r) \<and> distinct (cs_eal_cores r) \<and> set (cs_eal_cores r) = {w. bit (worker_core_bitmap st) w} \<and>
    (cs_status r = PORT_OK \<longleftrightarrow> worker_core_bitmap st \<noteq> 0) \<and>
    (worker_core_bitmap st = 0 \<longrightarrow> cs_error_code r = Some 1)"
proof -
  have "length (bits_of (get_eal_core_map st)) \<le> 64"
    using length_filter_le [of "bit (get_eal_core_map st)" "[0..<64]"] by (simp add: bits_of_def)
  then have "eal_cores (worker_core_bitmap st) 0 buf = Some (bits_of (worker_core_bitmap st))"
    using eal_cores_lists [of 0 _ buf] assms(3) by (simp add: get_eal_core_map_def)
  then show ?thesis
    using assms(1,2) set_bits_of [of "worker_core_bitmap st"]
    by (auto simp: answer_CoreSchedRequest_def Let_def core_sched_set_error_code_def get_eal_core_map_def)
qed

subsection \<open>Updates\<close>

text \<open>The CPU that a batch of entries asks for a relay: the last entry wins.\<close>

definition wanted :: "(RelayCPU \<Rightarrow> int) \<Rightarrow> RelayCPU list \<Rightarrow> nat \<Rightarrow> int \<Rightarrow> int" where
  "wanted f cs w old = fold (\<lambda>c cpu. if rc_relay_number c = int w then f c else cpu) cs old"

text \<open>A machine whose relay \<open>w\<close> is connected on both sides and placed on two worker threads.\<close>

definition placed :: "gstate \<Rightarrow> nat \<Rightarrow> bool" where
  "placed st w \<longleftrightarrow> vio_state (vio (relay_of st w)) = VIRTIO_READY \<and>
     dpdk_state (dpdk (relay_of st w)) \<in> {DPDK_ADDED, DPDK_READY} \<and>
     vio2vf_cpu (vio (relay_of st w)) \<in> {0..<64} \<and> vf2vio_cpu (dpdk (relay_of st w)) \<in> {0..<64}"

definition cpus_ready :: "gstate \<Rightarrow> RelayCPU \<Rightarrow> bool" where
  "cpus_ready st c \<longleftrightarrow> 0 \<le> rc_relay_number c \<and> rc_relay_number c < int (MAX_RELAYS st) \<and>
     (\<forall>cpu\<in>{rc_virtio2vf_cpu c, rc_vf2virtio_cpu c}. 0 \<le> cpu \<and> cpu < 64 \<and> initialized (worker_threads st ! nat cpu))"

text \<open>The threads keep all but their update flags.\<close>

definition same_threads :: "gstate \<Rightarrow> gstate \<Rightarrow> bool" where
  "same_threads st st' \<longleftrightarrow> length (worker_threads st') = length (worker_threads st) \<and>
     worker_core_bitmap st' = worker_core_bitmap st \<and>
     (\<forall>k < length (worker_threads st). initialized (worker_threads st' ! k) = initialized (worker_threads st ! k))"

lemma same_threads_trans: "same_threads st st' \<Longrightarrow> same_threads st' st'' \<Longrightarrow> same_threads st st''"
  by (simp add: same_threads_def)

lemma flag_thread_same:
  assumes "0 \<le> c" "c < int (length (worker_threads st))"
  shows "\<exists>st'. flag_thread c st = Some st' \<and> virtio_vf_relays st' = virtio_vf_relays st \<and> same_threads st st'"
  using assms by (auto simp: flag_thread_def signal_update_def same_threads_def nth_list_update)

lemma flag_two:
  assumes "0 \<le> c" "c < int (length (worker_threads st))" "0 \<le> d" "d < int (length (worker_threads st))"
  shows "\<exists>st'. (flag_thread c st \<bind> flag_thread d) = Some st' \<and> virtio_vf_relays st' = virtio_vf_relays st \<and> same_threads st st'"
proof -
  obtain st1 where 1: "flag_thread c st = Some st1" "virtio_vf_relays st1 = virtio_vf_relays st" "same_threads st st1"
    using flag_thread_same [OF assms(1,2)] by blast
  then have "d < int (length (worker_threads st1))" using assms(4) by (simp add: same_threads_def)
  then obtain st2 where "flag_thread d st1 = Some st2" "virtio_vf_relays st2 = virtio_vf_relays st1" "same_threads st1 st2"
    using flag_thread_same [OF assms(3)] by blast
  then show ?thesis using 1 same_threads_trans by auto
qed

lemma move_virtio2vf_effect:
  assumes "w < MAX_RELAYS st" "length (worker_threads st) = 64" "vio_state (vio (relay_of st w)) = VIRTIO_READY"
    "vio2vf_cpu (vio (relay_of st w)) \<in> {0..<64}" "0 \<le> cpu" "cpu < 64" "initialized (worker_threads st ! nat cpu)"
  shows "\<exists>st'. move_virtio2vf w cpu st = Some st' \<and> same_threads st st' \<and> virtio_vf_relays st' =
    (virtio_vf_relays st)[w := (relay_of st w)\<lparr>vio := (vio (relay_of st w))\<lparr>vio2vf_cpu := cpu\<rparr>\<rparr>]"
proof (cases "vio2vf_cpu (vio (relay_of st w)) = cpu")
  case True
  then have "(relay_of st w)\<lparr>vio := (vio (relay_of st w))\<lparr>vio2vf_cpu := cpu\<rparr>\<rparr> = relay_of st w" by simp
  then show ?thesis using assms True
    by (auto simp: move_virtio2vf_def array_get_int_def array_get_def same_threads_def)
next
  case False
  let ?st1 = "map_vio w (\<lambda>v. v\<lparr>vio2vf_cpu := cpu\<rparr>) st"
  have t: "worker_threads ?st1 = worker_threads st" "same_threads st ?st1" by (simp_all add: map_vio_def put_relay_def same_threads_def)
  have "\<exists>st'. (flag_thread (vio2vf_cpu (vio (relay_of st w))) ?st1 \<bind> flag_thread cpu) = Some st' \<and>
      virtio_vf_relays st' = virtio_vf_relays ?st1 \<and> same_threads ?st1 st'"
    by (rule flag_two) (use assms(2,4-6) t(1) in auto)
  then show ?thesis using assms False same_threads_trans [OF t(2)]
    by (auto simp: move_virtio2vf_def array_get_int_def array_get_def map_vio_def put_relay_def)
qed

lemma move_vf2virtio_effect:
  assumes "w < MAX_RELAYS st" "length (worker_threads st) = 64" "dpdk_state (dpdk (relay_of st w)) \<in> {DPDK_ADDED, DPDK_READY}"
    "vf2vio_cpu (dpdk (relay_of st w)) \<in> {0..<64}" "0 \<le> cpu" "cpu < 64" "initialized (worker_threads st ! nat cpu)"
  shows "\<exists>st'. move_vf2virtio w cpu st = Some st' \<and> same_threads st st' \<and> virtio_vf_relays st' =
    (virtio_vf_relays st)[w := (relay_of st w)\<lparr>dpdk := (dpdk (relay_of st w))\<lparr>vf2vio_cpu := cpu\<rparr>\<rparr>]"
proof (cases "vf2vio_cpu (dpdk (relay_of st w)) = cpu")
  case True
  then have "(relay_of st w)\<lparr>dpdk := (dpdk (relay_of st w))\<lparr>vf2vio_cpu := cpu\<rparr>\<rparr> = relay_of st w" by simp
  then show ?thesis using assms True
    by (auto simp: move_vf2virtio_def array_get_int_def array_get_def same_threads_def)
next
  case False
  let ?st1 = "map_dpdk w (\<lambda>v. v\<lparr>vf2vio_cpu := cpu\<rparr>) st"
  have t: "worker_threads ?st1 = worker_threads st" "same_threads st ?st1" by (simp_all add: map_dpdk_def put_relay_def same_threads_def)
  have "\<exists>st'. (flag_thread (vf2vio_cpu (dpdk (relay_of st w))) ?st1 \<bind> flag_thread cpu) = Some st' \<and>
      virtio_vf_relays st' = virtio_vf_relays ?st1 \<and> same_threads ?st1 st'"
    by (rule flag_two) (use assms(2,4-6) t(1) in auto)
  then show ?thesis using assms False same_threads_trans [OF t(2)]
    by (auto simp: move_vf2virtio_def array_get_int_def array_get_def map_dpdk_def put_relay_def)
qed

text \<open>Relay \<open>w\<close> after a migration.\<close>

definition moved :: "RelayCPU \<Rightarrow> relay \<Rightarrow> relay" where
  "moved c r = r\<lparr>vio := (vio r)\<lparr>vio2vf_cpu := rc_virtio2vf_cpu c\<rparr>, dpdk := (dpdk r)\<lparr>vf2vio_cpu := rc_vf2virtio_cpu c\<rparr>\<rparr>"

lemma migrate_effect:
  assumes "cpus_ready st c" "placed st (nat (rc_relay_number c))" "length (worker_threads st) = 64" "worker_core_bitmap st \<noteq> 0"
  shows "\<exists>st'. migrate_relay_cpus (rc_relay_number c) (rc_virtio2vf_cpu c) (rc_vf2virtio_cpu c) st = Some (0, st') \<and>
    same_threads st st' \<and>
    virtio_vf_relays st' = (virtio_vf_relays st)[nat (rc_relay_number c) := moved c (relay_of st (nat (rc_relay_number c)))]"
proof -
  define w where "w = nat (rc_relay_number c)"
  have w: "w < MAX_RELAYS st" "rc_relay_number c = int w" using assms(1) by (auto simp: w_def cpus_ready_def)
  obtain st1 where 1: "move_virtio2vf w (rc_virtio2vf_cpu c) st = Some st1" "same_threads st st1"
    "virtio_vf_relays st1 = (virtio_vf_relays st)[w := (relay_of st w)\<lparr>vio := (vio (relay_of st w))\<lparr>vio2vf_cpu := rc_virtio2vf_cpu c\<rparr>\<rparr>]"
    using move_virtio2vf_effect [OF w(1) assms(3), of "rc_virtio2vf_cpu c"] assms(1,2) by (auto simp: placed_def cpus_ready_def w_def)
  have r1: "relay_of st1 w = (relay_of st w)\<lparr>vio := (vio (relay_of st w))\<lparr>vio2vf_cpu := rc_virtio2vf_cpu c\<rparr>\<rparr>"
    "w < MAX_RELAYS st1" "length (worker_threads st1) = 64" "initialized (worker_threads st1 ! nat (rc_vf2virtio_cpu c))"
    using 1(2,3) w(1) assms(1,3) by (auto simp: same_threads_def cpus_ready_def)
  obtain st2 where 2: "move_vf2virtio w (rc_vf2virtio_cpu c) st1 = Some st2" "same_threads st1 st2"
    "virtio_vf_relays st2 = (virtio_vf_relays st1)[w := (relay_of st1 w)\<lparr>dpdk := (dpdk (relay_of st1 w))\<lparr>vf2vio_cpu := rc_vf2virtio_cpu c\<rparr>\<rparr>]"
    using move_vf2virtio_effect [OF r1(2,3), of "rc_vf2virtio_cpu c"] assms(1,2) r1(1,4) by (auto simp: placed_def cpus_ready_def w_def)
  have "virtio_vf_relays st2 = (virtio_vf_relays st)[w := moved c (relay_of st w)]"
    using w(1) by (simp add: 2(3) 1(3) moved_def)
  moreover have "migrate_relay_cpus (int w) (rc_virtio2vf_cpu c) (rc_vf2virtio_cpu c) st = Some (0, st2)"
    using w(1) assms(1,4) 1(1) 2(1) by (auto simp: migrate_relay_cpus_def cpus_ready_def logical_not_def)
  ultimately show ?thesis using same_threads_trans [OF 1(2) 2(2)] unfolding w_def [symmetric] w(2) by auto
qed


definition batch_ready :: "gstate \<Rightarrow> RelayCPU list \<Rightarrow> bool" where
  "batch_ready st cs \<longleftrightarrow> list_all (\<lambda>c. cpus_ready st c \<and> placed st (nat (rc_relay_number c))) cs \<and>
     length (worker_threads st) = 64 \<and> worker_core_bitmap st \<noteq> 0"

lemma batch_ready_step:
  assumes "batch_ready st (c # cs)" "same_threads st st'"
    "virtio_vf_relays st' = (virtio_vf_relays st)[nat (rc_relay_number c) := moved c (relay_of st (nat (rc_relay_number c)))]"
  shows "batch_ready st' cs"
proof -
  have "placed st' w" if "placed st w" "w < MAX_RELAYS st" for w
    using that assms(1,3) by (cases "w = nat (rc_relay_number c)") (auto simp: placed_def moved_def batch_ready_def cpus_ready_def)
  moreover have "cpus_ready st' d" if "cpus_ready st d" for d
    using that assms by (auto simp: cpus_ready_def same_threads_def batch_ready_def)
  ultimately show ?thesis
    using assms(1,2) by (auto simp: batch_ready_def list_all_iff same_threads_def cpus_ready_def)
qed

lemma update_effect:
  assumes "batch_ready st cs"
  shows "\<exists>st'. update_cpus cs r st = Some (if cs = [] then r else r\<lparr>cs_status := PORT_OK\<rparr>, st') \<and> MAX_RELAYS st' = MAX_RELAYS st \<and>
    (\<forall>w < MAX_RELAYS st.
       vio2vf_cpu (vio (relay_of st' w)) = wanted rc_virtio2vf_cpu cs w (vio2vf_cpu (vio (relay_of st w))) \<and>
       vf2vio_cpu (dpdk (relay_of st' w)) = wanted rc_vf2virtio_cpu cs w (vf2vio_cpu (dpdk (relay_of st w))))"
  using assms
proof (induction cs arbitrary: st r)
  case Nil
  then show ?case by (simp add: wanted_def)
next
  case (Cons c cs)
  let ?i = "nat (rc_relay_number c)"
  have i: "?i < MAX_RELAYS st" "rc_relay_number c = int ?i" using Cons.prems by (auto simp: batch_ready_def cpus_ready_def)
  obtain st1 where 1: "migrate_relay_cpus (rc_relay_number c) (rc_virtio2vf_cpu c) (rc_vf2virtio_cpu c) st = Some (0, st1)"
    "same_threads st st1" "virtio_vf_relays st1 = (virtio_vf_relays st)[?i := moved c (relay_of st ?i)]"
    using migrate_effect [of st c] Cons.prems by (auto simp: batch_ready_def)
  obtain st' where 2: "update_cpus cs (r\<lparr>cs_status := PORT_OK\<rparr>) st1 = Some (r\<lparr>cs_status := PORT_OK\<rparr>, st')" "MAX_RELAYS st' = MAX_RELAYS st1"
    "\<forall>w < MAX_RELAYS st1.
       vio2vf_cpu (vio (relay_of st' w)) = wanted rc_virtio2vf_cpu cs w (vio2vf_cpu (vio (relay_of st1 w))) \<and>
       vf2vio_cpu (dpdk (relay_of st' w)) = wanted rc_vf2virtio_cpu cs w (vf2vio_cpu (dpdk (relay_of st1 w)))"
    using Cons.IH [OF batch_ready_step [OF Cons.prems 1(2,3)], of "r\<lparr>cs_status := PORT_OK\<rparr>"] by auto
  have "rc_relay_number c = int w \<longleftrightarrow> w = ?i" for w using i(2) by auto
  then have "\<forall>w < MAX_RELAYS st.
      vio2vf_cpu (vio (relay_of st' w)) = wanted rc_virtio2vf_cpu (c # cs) w (vio2vf_cpu (vio (relay_of st w))) \<and>
      vf2vio_cpu (dpdk (relay_of st' w)) = wanted rc_vf2virtio_cpu (c # cs) w (vf2vio_cpu (dpdk (relay_of st w)))"
    using 2(3) 1(3) i(1) by (auto simp: wanted_def moved_def)
  then show ?case using 1(1,3) 2(1,2) by (simp add: core_sched_set_error_code_def)
qed

text \<open>C27: An update of CPU affinities, for relays that are connected on both sides and CPUs with a
  running worker, succeeds, without failed assertion, and places both directions of every relay
  on the CPUs of the last entry that names it; relays not named stay where they are.\<close>

theorem core_sched_update_places:
  assumes "batch_ready st (cs_relay_cpu_map pc)" "cs_relay_cpu_map pc \<noteq> []" "cs_op pc = OP_UPDATE"
  shows "\<exists>r st'. answer_CoreSchedRequest buf (Some pc) st = Some (r, st') \<and> cs_status r = PORT_OK \<and>
    (\<forall>w < MAX_RELAYS st.
       vio2vf_cpu (vio (relay_of st' w)) = wanted rc_virtio2vf_cpu (cs_relay_cpu_map pc) w (vio2vf_cpu (vio (relay_of st w))) \<and>
       vf2vio_cpu (dpdk (relay_of st' w)) = wanted rc_vf2virtio_cpu (cs_relay_cpu_map pc) w (vf2vio_cpu (dpdk (relay_of st w))))"
proof -
  have "validate_CoreSchedRequest pc st"
    using assms(1) by (auto simp: validate_CoreSchedRequest_def batch_ready_def cpus_ready_def list_all_iff)
  then have "answer_CoreSchedRequest buf (Some pc) st = update_cpus (cs_relay_cpu_map pc)
      \<lparr>cs_status = PORT_ERROR, cs_error_code = None, cs_error_code_source = None, cs_eal_cores = []\<rparr> st"
    using assms(3) by (simp add: answer_CoreSchedRequest_def Let_def)
  then show ?thesis
    using update_effect [OF assms(1), of "\<lparr>cs_status = PORT_ERROR, cs_error_code = None, cs_error_code_source = None, cs_eal_cores = []\<rparr>"]
      assms(2) by auto
qed

text \<open>The validation of relay numbers is off by one and has no lower bound: a request that names
  the relay just past the last one, or a negative one, is accepted and reaches outside the array
  of relays.\<close>

theorem core_sched_bad_relay:
  assumes "cs_op pc = OP_UPDATE" "cs_relay_cpu_map pc = [c]"
    "rc_relay_number c = int (MAX_RELAYS st) \<or> rc_relay_number c < 0"
  shows "validate_CoreSchedRequest pc st \<and> answer_CoreSchedRequest buf (Some pc) st = None"
  using assms by (auto simp: validate_CoreSchedRequest_def answer_CoreSchedRequest_def Let_def migrate_relay_cpus_def)

subsection \<open>The configured affinities\<close>

definition configured :: "virtio_vhostuser_conf \<Rightarrow> nat \<Rightarrow> RelayCPU" where
  "configured conf i = \<lparr>rc_relay_number = int i, rc_vf2virtio_cpu = conf_vf2vio_cpu (conf_relay_cpus conf ! i),
     rc_virtio2vf_cpu = conf_vio2vf_cpu (conf_relay_cpus conf ! i)\<rparr>"

definition has_cpus :: "virtio_vhostuser_conf \<Rightarrow> nat \<Rightarrow> bool" where
  "has_cpus conf i \<longleftrightarrow> conf_vf2vio_cpu (conf_relay_cpus conf ! i) \<noteq> -1 \<and> conf_vio2vf_cpu (conf_relay_cpus conf ! i) \<noteq> -1"

lemma relay_cpus_query_lists:
  assumes "\<forall>i\<in>set is. i < length (conf_relay_cpus conf)" "length found + length is \<le> n"
  shows "relay_cpus_query n conf is found = Some (found @ map (configured conf) (filter (has_cpus conf) is))"
  using assms
  by (induction "is" arbitrary: found) (auto simp: array_get_def configured_def has_cpus_def Let_def)

text \<open>A configuration request is always answered, with the configured CPUs of exactly the relays
  that have both, in the order of the relays; only the size of the reply buffer is assumed.\<close>

theorem config_lists_relays:
  assumes "length (conf_relay_cpus conf) = MAX_RELAYS st" "unpack buf = Some pc"
    "r = \<lparr>cf_status = CONFIG_OK, cf_relay_cpu_map = map (configured conf) (filter (has_cpus conf) [0..<MAX_RELAYS st])\<rparr>"
    "length (pack r) \<le> cb"
  shows "handle_ConfigRequest unpack pack conf buf cb st = Some (pack r, st)"
proof -
  have "relay_cpus_query (MAX_RELAYS st) conf [0..<MAX_RELAYS st] [] = Some ([] @ map (configured conf) (filter (has_cpus conf) [0..<MAX_RELAYS st]))"
    by (rule relay_cpus_query_lists) (use assms(1) in auto)
  then show ?thesis using assms(2-4) by (simp add: handle_ConfigRequest_def)
qed


subsection \<open>Examples\<close>

theorem core_sched_lists_cores_witness:
  "\<exists>r. answer_CoreSchedRequest (replicate 64 0) (Some \<lparr>cs_op = OP_GET_EAL_CORES, cs_relay_cpu_map = []\<rparr>)
      (demo_state (demo_one VIRTIO_READY DPDK_READY)) = Some (r, demo_state (demo_one VIRTIO_READY DPDK_READY)) \<and>
    set (cs_eal_cores r) = {w. bit (6 :: 64 word) w}"
  using core_sched_lists_cores [of "\<lparr>cs_op = OP_GET_EAL_CORES, cs_relay_cpu_map = []\<rparr>"
      "demo_state (demo_one VIRTIO_READY DPDK_READY)" "replicate 64 0"]
  by (auto simp: validate_CoreSchedRequest_def)

theorem core_sched_update_places_witness:
  "\<exists>r st'. answer_CoreSchedRequest [] (Some \<lparr>cs_op = OP_UPDATE, cs_relay_cpu_map =
      [\<lparr>rc_relay_number = 0, rc_vf2virtio_cpu = 4, rc_virtio2vf_cpu = 3\<rparr>]\<rparr>) (demo_state (demo_one VIRTIO_READY DPDK_READY)) = Some (r, st') \<and>
    vio2vf_cpu (vio (relay_of st' 0)) = 3"
proof -
  let ?st = "demo_state (demo_one VIRTIO_READY DPDK_READY)"
    and ?pc = "\<lparr>cs_op = OP_UPDATE, cs_relay_cpu_map = [\<lparr>rc_relay_number = 0, rc_vf2virtio_cpu = 4, rc_virtio2vf_cpu = 3\<rparr>]\<rparr>"
  have "batch_ready ?st (cs_relay_cpu_map ?pc)"
    using demo_like_cpus(1,2) [OF demo_one_like, of VIRTIO_READY DPDK_READY]
    by (simp add: batch_ready_def cpus_ready_def placed_def demo_thread_nth demo_thread_def demo_relay_id)
  from core_sched_update_places [OF this, of "[]"] show ?thesis by (auto simp: wanted_def)
qed

theorem core_sched_bad_relay_witness:
  "answer_CoreSchedRequest [] (Some \<lparr>cs_op = OP_UPDATE, cs_relay_cpu_map =
      [\<lparr>rc_relay_number = 1, rc_vf2virtio_cpu = 1, rc_virtio2vf_cpu = 1\<rparr>]\<rparr>) (demo_state (demo_one VIRTIO_READY DPDK_READY)) = None"
  using core_sched_bad_relay [of "\<lparr>cs_op = OP_UPDATE, cs_relay_cpu_map = [\<lparr>rc_relay_number = 1, rc_vf2virtio_cpu = 1, rc_virtio2vf_cpu = 1\<rparr>]\<rparr>"
      _ "demo_state (demo_one VIRTIO_READY DPDK_READY)" "[]"] by simp

theorem config_lists_relays_witness:
  "handle_ConfigRequest (\<lambda>s. Some s) (\<lambda>r. replicate (length (cf_relay_cpu_map r)) (CHR ''x''))
     (demo_conf\<lparr>conf_relay_cpus := [\<lparr>conf_vf2vio_cpu = 2, conf_vio2vf_cpu = 1\<rparr>]\<rparr>) [] 9
     (demo_state (demo_one VIRTIO_READY DPDK_READY)) = Some (''x'', demo_state (demo_one VIRTIO_READY DPDK_READY))"
proof (rule trans)
  let ?conf = "demo_conf\<lparr>conf_relay_cpus := [\<lparr>conf_vf2vio_cpu = 2, conf_vio2vf_cpu = 1\<rparr>]\<rparr>" and ?st = "demo_state (demo_one VIRTIO_READY DPDK_READY)"
  show "handle_ConfigRequest (\<lambda>s. Some s) (\<lambda>r. replicate (length (cf_relay_cpu_map r)) (CHR ''x'')) ?conf [] 9 ?st =
      Some (replicate (length (cf_relay_cpu_map \<lparr>cf_status = CONFIG_OK,
        cf_relay_cpu_map = map (configured ?conf) (filter (has_cpus ?conf) [0..<MAX_RELAYS ?st])\<rparr>)) (CHR ''x''), ?st)"
    by (rule config_lists_relays) (simp_all add: has_cpus_def)
qed (simp add: has_cpus_def)

end
