(* ===== verification/Stats.thy ===== *)
theory Stats
  imports Frame
begin

text \<open>
  Statistics: \<open>virtio_forwarder_get_stats\<close> and its helpers (\<open>virtio_worker.c\<close>) and the ZeroMQ
  statistics service (\<open>zmq_stats.c\<close>).

  Single precision arithmetic is a parameter of the definitions (\<open>float_ops\<close>): the conversion
  from a 64-bit counter, multiplication and division. The code that protoc generates is a
  parameter too: a function that unpacks a request and one that packs a response.
\<close>

subsection \<open>The statistics of a relay\<close>

record 'f float_ops =
  f_of_u64 :: "64 word \<Rightarrow> 'f"
  f_mul :: "'f \<Rightarrow> 'f \<Rightarrow> 'f"
  f_div :: "'f \<Rightarrow> 'f \<Rightarrow> 'f"
  f_zero :: 'f

record 'f virtio_worker_stats =
  virtio_internal_state :: string
  virtio2vf_active :: bool
  vhost_socket_name :: string
  virtio2vf_cpu :: int
  ws_virtio_rx :: "64 word"
  ws_virtio_rx_bytes :: "64 word"
  ws_dpdk_tx :: "64 word"
  ws_dpdk_tx_bytes :: "64 word"
  ws_dpdk_drop_full :: "64 word"
  ws_dpdk_drop_unavail :: "64 word"
  virtio_rx_rate :: 'f
  virtio_rx_byte_rate :: 'f
  dpdk_tx_rate :: 'f
  dpdk_tx_byte_rate :: 'f
  dpdk_internal_state :: string
  vf2virtio_active :: bool
  ws_pci_dbdf :: string
  vf2virtio_cpu :: int
  ws_dpdk_rx :: "64 word"
  ws_dpdk_rx_bytes :: "64 word"
  ws_virtio_tx :: "64 word"
  ws_virtio_tx_bytes :: "64 word"
  ws_virtio_drop_full :: "64 word"
  ws_virtio_drop_unavail :: "64 word"
  dpdk_rx_rate :: 'f
  dpdk_rx_byte_rate :: 'f
  virtio_tx_rate :: 'f
  virtio_tx_byte_rate :: 'f
  ws_active :: bool
  socket_id :: "32 word"

fun virtio_state_to_str :: "vio_state_t \<Rightarrow> string" where
  "virtio_state_to_str VIRTIO_UNINIT = ''VIRTIO_UNINIT''"
| "virtio_state_to_str VIRTIO_READY = ''VIRTIO_READY''"
| "virtio_state_to_str VIRTIO_REMOVING1 = ''VIRTIO_REMOVING1''"
| "virtio_state_to_str VIRTIO_REMOVING2 = ''VIRTIO_REMOVING2''"

fun dpdk_state_to_str :: "dpdk_state_t \<Rightarrow> string" where
  "dpdk_state_to_str DPDK_UNINIT = ''DPDK_UNINIT''"
| "dpdk_state_to_str DPDK_ADDED = ''DPDK_ADDED''"
| "dpdk_state_to_str DPDK_READY = ''DPDK_READY''"
| "dpdk_state_to_str DPDK_REMOVING1 = ''DPDK_REMOVING1''"
| "dpdk_state_to_str DPDK_REMOVING2 = ''DPDK_REMOVING2''"

definition prev_of :: "relay_stats \<Rightarrow> 64 word \<Rightarrow> relay_prev_counters" where
  "prev_of s now =
     \<lparr>prev_virtio_rx = st_vio_rx s, prev_virtio_rx_bytes = st_vio_rx_bytes s, prev_dpdk_tx = st_dpdk_tx s,
      prev_dpdk_tx_bytes = st_dpdk_tx_bytes s, prev_dpdk_rx = st_dpdk_rx s, prev_dpdk_rx_bytes = st_dpdk_rx_bytes s,
      prev_virtio_tx = st_vio_tx s, prev_virtio_tx_bytes = st_vio_tx_bytes s, time_prev = now\<rparr>"

definition reset_rate_stats :: "env \<Rightarrow> nat \<Rightarrow> gstate \<Rightarrow> gstate" where
  "reset_rate_stats env i st =
     did Rte_get_timer_cycles
       (st\<lparr>relay_prev_counters := (relay_prev_counters st)[i := prev_of (stats (relay_of st i)) (e_clock env (hist st))]\<rparr>)"

text \<open>\<open>sched\<close> is the effect of the other threads during the delay.\<close>

definition reset_all_rate_stats :: "env \<Rightarrow> (gstate \<Rightarrow> gstate) \<Rightarrow> nat \<Rightarrow> gstate \<Rightarrow> gstate" where
  "reset_all_rate_stats env sched delay_ms st =
     (let st = fold (reset_rate_stats env) [0..<MAX_RELAYS st] st
      in if 0 < delay_ms then sched (did (Rte_delay_ms delay_ms) st) else st)"

definition zero_worker_stats :: "'f float_ops \<Rightarrow> 'f virtio_worker_stats" where
  "zero_worker_stats f =
     \<lparr>virtio_internal_state = [], virtio2vf_active = False, vhost_socket_name = [], virtio2vf_cpu = 0,
      ws_virtio_rx = 0, ws_virtio_rx_bytes = 0, ws_dpdk_tx = 0, ws_dpdk_tx_bytes = 0, ws_dpdk_drop_full = 0,
      ws_dpdk_drop_unavail = 0, virtio_rx_rate = f_zero f, virtio_rx_byte_rate = f_zero f,
      dpdk_tx_rate = f_zero f, dpdk_tx_byte_rate = f_zero f, dpdk_internal_state = [], vf2virtio_active = False,
      ws_pci_dbdf = [], vf2virtio_cpu = 0, ws_dpdk_rx = 0, ws_dpdk_rx_bytes = 0, ws_virtio_tx = 0,
      ws_virtio_tx_bytes = 0, ws_virtio_drop_full = 0, ws_virtio_drop_unavail = 0, dpdk_rx_rate = f_zero f,
      dpdk_rx_byte_rate = f_zero f, virtio_tx_rate = f_zero f, virtio_tx_byte_rate = f_zero f, ws_active = False,
      socket_id = 0\<rparr>"

text \<open>A rate: the growth of a counter over the elapsed time, both with the wrap-around of 64 bits.\<close>

definition rate :: "'f float_ops \<Rightarrow> 'f \<Rightarrow> 64 word \<Rightarrow> 64 word \<Rightarrow> 'f" where
  "rate f elapsed now prev = f_div f (f_of_u64 f (now - prev)) elapsed"

definition fill_virtio2vf ::
  "'f float_ops \<Rightarrow> 'f \<Rightarrow> relay \<Rightarrow> relay_prev_counters \<Rightarrow> 'f virtio_worker_stats \<Rightarrow> 'f virtio_worker_stats" where
  "fill_virtio2vf f elapsed r prev s =
     (let c = stats r in
      s\<lparr>virtio2vf_active := True, virtio2vf_cpu := vio2vf_cpu (vio r),
        ws_virtio_rx := st_vio_rx c, ws_virtio_rx_bytes := st_vio_rx_bytes c,
        ws_dpdk_tx := st_dpdk_tx c, ws_dpdk_tx_bytes := st_dpdk_tx_bytes c,
        ws_dpdk_drop_full := st_dpdk_drop_full c, ws_dpdk_drop_unavail := st_dpdk_drop_unavail c,
        virtio_rx_rate := rate f elapsed (st_vio_rx c) (prev_virtio_rx prev),
        virtio_rx_byte_rate := rate f elapsed (st_vio_rx_bytes c) (prev_virtio_rx_bytes prev),
        dpdk_tx_rate := rate f elapsed (st_dpdk_tx c) (prev_dpdk_tx prev),
        dpdk_tx_byte_rate := rate f elapsed (st_dpdk_tx_bytes c) (prev_dpdk_tx_bytes prev)\<rparr>)"

definition fill_vf2virtio ::
  "'f float_ops \<Rightarrow> 'f \<Rightarrow> relay \<Rightarrow> relay_prev_counters \<Rightarrow> 'f virtio_worker_stats \<Rightarrow> 'f virtio_worker_stats" where
  "fill_vf2virtio f elapsed r prev s =
     (let c = stats r in
      s\<lparr>ws_pci_dbdf := pci_dbdf (dpdk r), vf2virtio_active := True, vf2virtio_cpu := vf2vio_cpu (dpdk r),
        ws_dpdk_rx := st_dpdk_rx c, ws_dpdk_rx_bytes := st_dpdk_rx_bytes c,
        ws_virtio_tx := st_vio_tx c, ws_virtio_tx_bytes := st_vio_tx_bytes c,
        ws_virtio_drop_full := st_vio_drop_full c, ws_virtio_drop_unavail := st_vio_drop_unavail c,
        dpdk_rx_rate := rate f elapsed (st_dpdk_rx c) (prev_dpdk_rx prev),
        dpdk_rx_byte_rate := rate f elapsed (st_dpdk_rx_bytes c) (prev_dpdk_rx_bytes prev),
        virtio_tx_rate := rate f elapsed (st_vio_tx c) (prev_virtio_tx prev),
        virtio_tx_byte_rate := rate f elapsed (st_vio_tx_bytes c) (prev_virtio_tx_bytes prev)\<rparr>)"

definition virtio_forwarder_get_stats ::
  "env \<Rightarrow> 'f float_ops \<Rightarrow> nat \<Rightarrow> 'f \<Rightarrow> gstate \<Rightarrow> ('f virtio_worker_stats \<times> gstate) option" where
  "virtio_forwarder_get_stats env f i tic_period st =
     (if MAX_RELAYS st \<le> i then None
      else
        let r = relay_of st i; prev = relay_prev_counters st ! i;
            elapsed = f_mul f (f_of_u64 f (e_clock env (hist st) - time_prev prev)) tic_period;
            st = did Rte_get_timer_cycles st;
            s = (zero_worker_stats f)
              \<lparr>virtio_internal_state := virtio_state_to_str (vio_state (vio r)),
               vhost_socket_name := (case relay_ifname_map st ! i of Some n \<Rightarrow> strlcpy n 128 | None \<Rightarrow> ''NONE'')\<rparr>;
            s = (if vio_state (vio r) = VIRTIO_READY then fill_virtio2vf f elapsed r prev s else s);
            s = s\<lparr>dpdk_internal_state := dpdk_state_to_str (dpdk_state (dpdk r))\<rparr>;
            s = (if dpdk_state (dpdk r) = DPDK_ADDED \<or> dpdk_state (dpdk r) = DPDK_READY
                 then fill_vf2virtio f elapsed r prev s else s);
            st = reset_rate_stats env i st;
            s = s\<lparr>ws_active := (vio_state (vio r) = VIRTIO_READY \<and> dpdk_state (dpdk r) = DPDK_READY),
                  socket_id := word_of_int (mempool_socket_id (vio r))\<rparr>
        in Some (s, st))"

subsection \<open>The response of the service\<close>

text \<open>Optional protobuf fields as options; the fields a direction has only when it is active.\<close>

record 'f VMtoVF =
  vm_active :: bool
  vm_internal_state :: string
  pkts_rx_from_vm :: "64 word option"
  bytes_rx_from_vm :: "64 word option"
  pkts_tx_to_vf :: "64 word option"
  bytes_tx_to_vf :: "64 word option"
  pkts_dropped_vf_queue_full :: "64 word option"
  pkts_dropped_vf_not_connected :: "64 word option"
  pkt_rate_rx_from_vm :: 'f
  byte_rate_rx_from_vm :: 'f
  pkt_rate_tx_to_vf :: 'f
  byte_rate_tx_to_vf :: 'f

record 'f VFtoVM =
  vf_active :: bool
  vf_internal_state :: string
  pkts_rx_from_vf :: "64 word option"
  bytes_rx_from_vf :: "64 word option"
  pkts_tx_to_vm :: "64 word option"
  bytes_tx_to_vm :: "64 word option"
  pkts_dropped_vm_queue_full :: "64 word option"
  pkts_dropped_vm_not_connected :: "64 word option"
  pkt_rate_rx_from_vf :: 'f
  byte_rate_rx_from_vf :: 'f
  pkt_rate_tx_to_vm :: 'f
  byte_rate_tx_to_vm :: 'f

record 'f RelayState =
  rs_id :: nat
  rs_active :: bool
  rs_cpu_vf_to_vm :: "int option"
  rs_cpu_vm_to_vf :: "int option"
  rs_has_cpu :: bool
  rs_vhost_socket_name :: string
  rs_vf :: "string option"
  rs_vf_to_vm :: "'f VFtoVM"
  rs_vm_to_vf :: "'f VMtoVF"
  rs_socket_id :: "32 word"

definition vm_to_vf_message :: "'f float_ops \<Rightarrow> 'f virtio_worker_stats \<Rightarrow> 'f VMtoVF" where
  "vm_to_vf_message f s =
     (let a = virtio2vf_active s; opt = (\<lambda>x. if a then Some x else None); rat = (\<lambda>x. if a then x else f_zero f) in
      \<lparr>vm_active = a, vm_internal_state = virtio_internal_state s,
       pkts_rx_from_vm = opt (ws_virtio_rx s), bytes_rx_from_vm = opt (ws_virtio_rx_bytes s),
       pkts_tx_to_vf = opt (ws_dpdk_tx s), bytes_tx_to_vf = opt (ws_dpdk_tx_bytes s),
       pkts_dropped_vf_queue_full = opt (ws_dpdk_drop_full s), pkts_dropped_vf_not_connected = opt (ws_dpdk_drop_unavail s),
       pkt_rate_rx_from_vm = rat (virtio_rx_rate s), byte_rate_rx_from_vm = rat (virtio_rx_byte_rate s),
       pkt_rate_tx_to_vf = rat (dpdk_tx_rate s), byte_rate_tx_to_vf = rat (dpdk_tx_byte_rate s)\<rparr>)"

definition vf_to_vm_message :: "'f float_ops \<Rightarrow> 'f virtio_worker_stats \<Rightarrow> 'f VFtoVM" where
  "vf_to_vm_message f s =
     (let a = vf2virtio_active s; opt = (\<lambda>x. if a then Some x else None); rat = (\<lambda>x. if a then x else f_zero f) in
      \<lparr>vf_active = a, vf_internal_state = dpdk_internal_state s,
       pkts_rx_from_vf = opt (ws_dpdk_rx s), bytes_rx_from_vf = opt (ws_dpdk_rx_bytes s),
       pkts_tx_to_vm = opt (ws_virtio_tx s), bytes_tx_to_vm = opt (ws_virtio_tx_bytes s),
       pkts_dropped_vm_queue_full = opt (ws_virtio_drop_full s), pkts_dropped_vm_not_connected = opt (ws_virtio_drop_unavail s),
       pkt_rate_rx_from_vf = rat (dpdk_rx_rate s), byte_rate_rx_from_vf = rat (dpdk_rx_byte_rate s),
       pkt_rate_tx_to_vm = rat (virtio_tx_rate s), byte_rate_tx_to_vm = rat (virtio_tx_byte_rate s)\<rparr>)"

definition relay_state_message :: "'f float_ops \<Rightarrow> nat \<Rightarrow> 'f virtio_worker_stats \<Rightarrow> 'f RelayState" where
  "relay_state_message f i s =
     \<lparr>rs_id = i, rs_active = ws_active s,
      rs_cpu_vf_to_vm = (if vf2virtio_active s then Some (vf2virtio_cpu s) else None),
      rs_cpu_vm_to_vf = (if virtio2vf_active s then Some (virtio2vf_cpu s) else None),
      rs_has_cpu = (virtio2vf_active s \<or> vf2virtio_active s),
      rs_vhost_socket_name = vhost_socket_name s,
      rs_vf = (if vf2virtio_active s then Some (ws_pci_dbdf s) else None),
      rs_vf_to_vm = vf_to_vm_message f s, rs_vm_to_vf = vm_to_vf_message f s, rs_socket_id = socket_id s\<rparr>"

text \<open>
  \<open>relay_query\<close> writes position \<open>j\<close> of arrays of \<open>MAX_RELAYS\<close> elements and returns the next
  free position; the messages written so far are the list \<open>acc\<close>, of length \<open>j\<close>. \<open>worker_stats\<close>
  is written at \<open>j\<close> before the relay is known to be included.
\<close>

definition relay_query ::
  "env \<Rightarrow> 'f float_ops \<Rightarrow> 'f \<Rightarrow> nat \<Rightarrow> bool \<Rightarrow> 'f RelayState list \<Rightarrow> gstate \<Rightarrow> ('f RelayState list \<times> gstate) option" where
  "relay_query env f period i include_inactive acc st =
     (if MAX_RELAYS st \<le> i then Some (acc, st)
      else if MAX_RELAYS st \<le> length acc then None
      else do {
        (s, st) \<leftarrow> virtio_forwarder_get_stats env f i period st;
        if \<not> include_inactive \<and> \<not> ws_active s then Some (acc, st)
        else Some (acc @ [relay_state_message f i s], st) })"

primrec relay_queries ::
  "env \<Rightarrow> 'f float_ops \<Rightarrow> 'f \<Rightarrow> nat list \<Rightarrow> bool \<Rightarrow> 'f RelayState list \<Rightarrow> gstate \<Rightarrow> ('f RelayState list \<times> gstate) option" where
  "relay_queries env f period [] include_inactive acc st = Some (acc, st)"
| "relay_queries env f period (i # is) include_inactive acc st = do {
     (acc, st) \<leftarrow> relay_query env f period i include_inactive acc st;
     relay_queries env f period is include_inactive acc st }"

record StatsRequest =
  req_relay :: "nat list"
  req_include_inactive :: "bool option"
  req_delay :: nat

datatype stats_status = STATS_OK | STATS_EBADR | STATS_E2BIG

record 'f StatsResponse =
  resp_status :: stats_status
  resp_relay :: "'f RelayState list"

definition answer_StatsRequest ::
  "env \<Rightarrow> 'f float_ops \<Rightarrow> 'f \<Rightarrow> (gstate \<Rightarrow> gstate) \<Rightarrow> StatsRequest option \<Rightarrow> gstate \<Rightarrow> ('f StatsResponse \<times> gstate) option" where
  "answer_StatsRequest env f period sched request st =
     (case request of
        None \<Rightarrow> Some (\<lparr>resp_status = STATS_EBADR, resp_relay = []\<rparr>, st)
      | Some pc \<Rightarrow>
          if MAX_RELAYS st < length (req_relay pc) then Some (\<lparr>resp_status = STATS_E2BIG, resp_relay = []\<rparr>, st)
          else do {
            let include_inactive = (case req_include_inactive pc of None \<Rightarrow> True | Some b \<Rightarrow> b);
            let st = reset_all_rate_stats env sched (req_delay pc) st;
            (rs, st) \<leftarrow> relay_queries env f period
              (if req_relay pc \<noteq> [] then req_relay pc else [0..<MAX_RELAYS st]) include_inactive [] st;
            if req_relay pc = [] \<and> include_inactive \<and> length rs \<noteq> MAX_RELAYS st then None
            else Some (\<lparr>resp_status = STATS_OK, resp_relay = rs\<rparr>, st) })"

definition handle_StatsRequest ::
  "(string \<Rightarrow> StatsRequest option) \<Rightarrow> ('f StatsResponse \<Rightarrow> string) \<Rightarrow> env \<Rightarrow> 'f float_ops \<Rightarrow> 'f \<Rightarrow> (gstate \<Rightarrow> gstate) \<Rightarrow>
   string \<Rightarrow> nat \<Rightarrow> gstate \<Rightarrow> (string \<times> gstate) option" where
  "handle_StatsRequest unpack pack env f period sched request_buffer cb_response_buffer st = do {
     (response, st) \<leftarrow> answer_StatsRequest env f period sched (unpack request_buffer) st;
     if length (pack response) \<le> cb_response_buffer then Some (pack response, st) else None }"

subsection \<open>Queries leave the relays alone\<close>

lemma reset_rate_stats_sel [simp]:
  "virtio_vf_relays (reset_rate_stats env i st) = virtio_vf_relays st"
  "relay_prev_counters (reset_rate_stats env i st) =
     (relay_prev_counters st)[i := prev_of (stats (relay_of st i)) (e_clock env (hist st))]"
  by (simp_all add: reset_rate_stats_def did_def)

lemma get_stats_effect:
  assumes "virtio_forwarder_get_stats env f i p st = Some (s, st')"
  shows "i < MAX_RELAYS st" "virtio_vf_relays st' = virtio_vf_relays st"
    "\<exists>now. relay_prev_counters st' = (relay_prev_counters st)[i := prev_of (stats (relay_of st i)) now]"
    "ws_active s \<longleftrightarrow> vio_state (vio (relay_of st i)) = VIRTIO_READY \<and> dpdk_state (dpdk (relay_of st i)) = DPDK_READY"
  using assms by (auto simp: virtio_forwarder_get_stats_def Let_def did_def split: if_splits)

lemma get_stats_total: "i < MAX_RELAYS st \<Longrightarrow> \<exists>s st'. virtio_forwarder_get_stats env f i p st = Some (s, st')"
  by (simp add: virtio_forwarder_get_stats_def Let_def)

text \<open>The relays a query reports.\<close>

definition relay_active :: "gstate \<Rightarrow> nat \<Rightarrow> bool" where
  "relay_active st i \<longleftrightarrow> vio_state (vio (relay_of st i)) = VIRTIO_READY \<and> dpdk_state (dpdk (relay_of st i)) = DPDK_READY"

definition reported :: "gstate \<Rightarrow> bool \<Rightarrow> nat list \<Rightarrow> nat list" where
  "reported st include_inactive is = filter (\<lambda>i. i < MAX_RELAYS st \<and> (include_inactive \<or> relay_active st i)) is"

lemma relay_query_reports:
  assumes "length acc < MAX_RELAYS st"
  shows "\<exists>rs st'. relay_query env f p i b acc st = Some (acc @ rs, st') \<and> virtio_vf_relays st' = virtio_vf_relays st \<and>
    map rs_id rs = reported st b [i] \<and> (\<forall>r\<in>set rs. rs_active r = relay_active st (rs_id r))"
proof (cases "i < MAX_RELAYS st")
  case False
  then show ?thesis by (simp add: relay_query_def reported_def)
next
  case True
  then obtain s st' where s: "virtio_forwarder_get_stats env f i p st = Some (s, st')"
    using get_stats_total [OF True, of env f p] by blast
  show ?thesis
    using True assms s get_stats_effect(2,4) [OF s]
    by (auto simp: relay_query_def reported_def relay_active_def relay_state_message_def)
qed

lemma reported_cong: "virtio_vf_relays st' = virtio_vf_relays st \<Longrightarrow> reported st' b is = reported st b is"
  "virtio_vf_relays st' = virtio_vf_relays st \<Longrightarrow> relay_active st' i = relay_active st i"
  by (simp_all add: reported_def relay_active_def)

lemma relay_queries_report:
  assumes "length acc + length is \<le> MAX_RELAYS st"
  shows "\<exists>rs st'. relay_queries env f p is b acc st = Some (acc @ rs, st') \<and> virtio_vf_relays st' = virtio_vf_relays st \<and>
    map rs_id rs = reported st b is \<and> (\<forall>r\<in>set rs. rs_active r = relay_active st (rs_id r))"
  using assms
proof (induction "is" arbitrary: acc st)
  case Nil
  then show ?case by (simp add: reported_def)
next
  case (Cons i "is")
  then have "length acc < MAX_RELAYS st" by simp
  then obtain r1 st1 where 1: "relay_query env f p i b acc st = Some (acc @ r1, st1)" "virtio_vf_relays st1 = virtio_vf_relays st"
    "map rs_id r1 = reported st b [i]" "\<forall>r\<in>set r1. rs_active r = relay_active st (rs_id r)"
    using relay_query_reports [of acc st env f p i b] by blast
  have "length r1 \<le> 1" using arg_cong [OF 1(3), of length] by (simp add: reported_def split: if_splits)
  then have "length (acc @ r1) + length is \<le> MAX_RELAYS st1" using Cons.prems 1(2) by simp
  then obtain r2 st2 where 2: "relay_queries env f p is b (acc @ r1) st1 = Some ((acc @ r1) @ r2, st2)"
    "virtio_vf_relays st2 = virtio_vf_relays st1" "map rs_id r2 = reported st1 b is"
    "\<forall>r\<in>set r2. rs_active r = relay_active st1 (rs_id r)"
    using Cons.IH by blast
  have "map rs_id (r1 @ r2) = reported st b (i # is)"
    using 1(3) 2(3) reported_cong(1) [OF 1(2)] by (simp add: reported_def split: if_splits)
  moreover have "\<forall>r\<in>set (r1 @ r2). rs_active r = relay_active st (rs_id r)"
    using 1(4) 2(4) reported_cong(2) [OF 1(2)] by auto
  ultimately show ?case using 1(1,2) 2(1,2) by (intro exI [of _ "r1 @ r2"] exI [of _ st2]) simp
qed

lemma reset_rate_stats_fold:
  "virtio_vf_relays (fold (reset_rate_stats env) is st) = virtio_vf_relays st"
  by (induction "is" arbitrary: st) simp_all


definition demo_float :: "nat float_ops" where
  "demo_float = \<lparr>f_of_u64 = unat, f_mul = (*), f_div = (div), f_zero = 0\<rparr>"

definition demo_stats_request :: StatsRequest where
  "demo_stats_request = \<lparr>req_relay = [0, 9], req_include_inactive = Some False, req_delay = 0\<rparr>"


text \<open>The rates of a query measure exactly what the relay forwarded since the previous query,
  whatever the workers did in between: each rate is the growth of its counter, modulo 2 to
  the 64, divided by the time between the queries.\<close>

theorem rates_since_last_query:
  assumes "i < length (relay_prev_counters st)"
    "virtio_forwarder_get_stats env f i p st = Some (s1, st1)" "(worker_step env)\<^sup>*\<^sup>* st1 st2"
    "virtio_forwarder_get_stats env f i p st2 = Some (s2, st3)" "relay_active st2 i"
  shows "\<exists>elapsed. let a = stats (relay_of st i); b = stats (relay_of st2 i) in
    virtio_rx_rate s2 = rate f elapsed (st_vio_rx b) (st_vio_rx a) \<and> dpdk_tx_rate s2 = rate f elapsed (st_dpdk_tx b) (st_dpdk_tx a) \<and>
    virtio_rx_byte_rate s2 = rate f elapsed (st_vio_rx_bytes b) (st_vio_rx_bytes a) \<and>
    dpdk_tx_byte_rate s2 = rate f elapsed (st_dpdk_tx_bytes b) (st_dpdk_tx_bytes a) \<and>
    dpdk_rx_rate s2 = rate f elapsed (st_dpdk_rx b) (st_dpdk_rx a) \<and> virtio_tx_rate s2 = rate f elapsed (st_vio_tx b) (st_vio_tx a) \<and>
    dpdk_rx_byte_rate s2 = rate f elapsed (st_dpdk_rx_bytes b) (st_dpdk_rx_bytes a) \<and>
    virtio_tx_byte_rate s2 = rate f elapsed (st_vio_tx_bytes b) (st_vio_tx_bytes a)"
proof -
  obtain now where "relay_prev_counters st1 = (relay_prev_counters st)[i := prev_of (stats (relay_of st i)) now]"
    using get_stats_effect(3) [OF assms(2)] by blast
  then have prev: "relay_prev_counters st2 ! i = prev_of (stats (relay_of st i)) now"
    using assms(1) control_partD(1) [OF worker_run_control [OF assms(3)]] by simp
  show ?thesis
    using assms(4,5) prev
    by (auto simp: virtio_forwarder_get_stats_def Let_def relay_active_def fill_virtio2vf_def fill_vf2virtio_def prev_of_def
        split: if_splits)
qed

theorem rates_since_last_query_witness:
  "\<exists>s1 st1 s2 st3 r h elapsed. virtio_forwarder_get_stats demo_env demo_float 0 1 (demo_at (demo_one VIRTIO_READY DPDK_READY) []) = Some (s1, st1) \<and>
    virtio_forwarder_get_stats demo_env demo_float 0 1 st1 = Some (s2, st3) \<and> virtio_rx_rate s2 = rate demo_float elapsed 0 0"
proof -
  let ?st = "demo_at (demo_one VIRTIO_READY DPDK_READY) []"
  obtain s1 st1 where 1: "virtio_forwarder_get_stats demo_env demo_float 0 1 ?st = Some (s1, st1)"
    using get_stats_total [of 0 ?st demo_env demo_float 1] by auto
  have r: "virtio_vf_relays st1 = [demo_one VIRTIO_READY DPDK_READY]" using get_stats_effect(2) [OF 1] by simp
  obtain s2 st3 where 2: "virtio_forwarder_get_stats demo_env demo_float 0 1 st1 = Some (s2, st3)"
    using get_stats_total [of 0 st1 demo_env demo_float 1] r by auto
  have len: "0 < length (relay_prev_counters ?st)" by (simp add: demo_state_def)
  have act: "relay_active st1 0" using r by (simp add: relay_active_def demo_relay_id)
  have z: "st_vio_rx (stats (demo_one VIRTIO_READY DPDK_READY)) = 0" by (simp add: demo_one_def demo_relay_def zero_stats_def)
  show ?thesis
    using rates_since_last_query [OF len 1 rtranclp.rtrancl_refl 2 act] 1 2 r z by (auto simp: Let_def)
qed

end
