(* ===== verification/Server.thy ===== *)
theory Server
  imports CoreSched Stats
begin

text \<open>
  The ZeroMQ server that runs the services: \<open>zmq_service.c\<close> and \<open>zmq_server.c\<close>.

  What system calls and the ZeroMQ library return is an argument of each function, as a value
  of a result type below; a call that is repeated while it is interrupted takes the list of its
  results. The resources a function gives back (descriptors, sockets, contexts, memory, the
  service) are appended to a log. \<open>None\<close> is a failed assertion, or a call that has been
  interrupted each time so far.
\<close>

subsection \<open>Services\<close>

definition ZMQ_SERVICE_NAME_CCH_MAX :: nat where
  "ZMQ_SERVICE_NAME_CCH_MAX = 32"

text \<open>The two sizes are 16-bit integers. \<open>handle_request\<close> takes the request and the size of the
  buffer for the response.\<close>

record 'st zmq_service =
  svc_name :: string
  max_request_cb :: nat
  max_response_cb :: nat
  handle_request :: "string \<Rightarrow> nat \<Rightarrow> 'st \<Rightarrow> (string \<times> 'st) option"

definition u16 :: "nat \<Rightarrow> nat" where
  "u16 n = n mod 2 ^ 16"

text \<open>\<open>Some None\<close> is the null pointer. \<open>memory\<close> tells whether \<open>calloc\<close> succeeds.\<close>

definition zmq_service_alloc ::
  "bool \<Rightarrow> string \<Rightarrow> ('st zmq_service \<Rightarrow> int \<times> 'st zmq_service) \<Rightarrow> 'st zmq_service option option" where
  "zmq_service_alloc memory name setup =
     (if ZMQ_SERVICE_NAME_CCH_MAX \<le> length name then None
      else if \<not> memory then Some None
      else let (err, ans) = setup \<lparr>svc_name = name, max_request_cb = 0, max_response_cb = 0, handle_request = \<lambda>_ _ _. None\<rparr> in
        if err < 0 then Some None
        else if max_request_cb ans = 0 \<or> max_response_cb ans = 0 then None
        else Some (Some ans))"

text \<open>\<open>sz\<close> is the size of \<open>struct stats_response_buffer\<close>.\<close>

definition stats_setup ::
  "(string \<Rightarrow> nat \<Rightarrow> 'st \<Rightarrow> (string \<times> 'st) option) \<Rightarrow> nat \<Rightarrow> 'st zmq_service \<Rightarrow> int \<times> 'st zmq_service" where
  "stats_setup handle sz svc = (0, svc\<lparr>handle_request := handle, max_request_cb := 512, max_response_cb := u16 sz\<rparr>)"

definition port_control_setup ::
  "(string \<Rightarrow> nat \<Rightarrow> 'st \<Rightarrow> (string \<times> 'st) option) \<Rightarrow> 'st zmq_service \<Rightarrow> int \<times> 'st zmq_service" where
  "port_control_setup handle svc =
     (0, svc\<lparr>handle_request := handle, max_request_cb := u16 (256 + MAX_NUM_BOND_SLAVES * 16), max_response_cb := 256\<rparr>)"

definition core_sched_setup ::
  "(string \<Rightarrow> nat \<Rightarrow> 'st \<Rightarrow> (string \<times> 'st) option) \<Rightarrow> 'st zmq_service \<Rightarrow> int \<times> 'st zmq_service" where
  "core_sched_setup handle svc = (0, svc\<lparr>handle_request := handle, max_request_cb := 1024, max_response_cb := 256\<rparr>)"

text \<open>\<open>ENOMEM\<close> is 12.\<close>

definition config_setup ::
  "(string \<Rightarrow> nat \<Rightarrow> 'st \<Rightarrow> (string \<times> 'st) option) \<Rightarrow> bool \<Rightarrow> 'st zmq_service \<Rightarrow> int \<times> 'st zmq_service" where
  "config_setup handle memory svc =
     (if memory then 0 else -12, svc\<lparr>handle_request := handle, max_request_cb := 512, max_response_cb := 4096\<rparr>)"

subsection \<open>Events between threads\<close>

datatype call_result = Done | Interrupted | Failed
datatype write_result = Wrote nat | Write_EINTR | Write_EPIPE | Write_error
datatype read_result = Read nat | Read_again | Read_error
datatype poll_result = Poll_EINTR | Poll_error | Poll_timeout | Poll_ready

fun retry :: "call_result list \<Rightarrow> bool option" where
  "retry [] = None"
| "retry (Interrupted # rs) = retry rs"
| "retry (Done # rs) = Some True"
| "retry (Failed # rs) = Some False"

fun send_event :: "write_result list \<Rightarrow> bool option" where
  "send_event [] = None"
| "send_event (Write_EINTR # rs) = send_event rs"
| "send_event (Write_EPIPE # rs) = Some True"
| "send_event (Write_error # rs) = Some False"
| "send_event (Wrote n # rs) = (if n = 0 then None else Some True)"

text \<open>The success of the read, and the number of bytes read or -1.\<close>

fun receive_event :: "read_result \<Rightarrow> bool \<times> int" where
  "receive_event (Read n) = (True, int n)"
| "receive_event Read_again = (True, -1)"
| "receive_event Read_error = (False, -1)"

fun wait_for_thread_ready :: "poll_result list \<Rightarrow> read_result \<Rightarrow> bool option" where
  "wait_for_thread_ready [] r = None"
| "wait_for_thread_ready (Poll_EINTR # ps) r = wait_for_thread_ready ps r"
| "wait_for_thread_ready (Poll_error # ps) r = Some False"
| "wait_for_thread_ready (Poll_timeout # ps) r = Some False"
| "wait_for_thread_ready (Poll_ready # ps) r = (let (ok, n_read) = receive_event r in Some (ok \<and> n_read \<noteq> 0))"

subsection \<open>Resources\<close>

datatype resource = Fd int | Zmq_socket nat | Zmq_ctx nat | Server_memory | Service

text \<open>Each of the next three takes the handle and the result of the call, and returns success, the
  cleared handle and the log.\<close>

definition close_fd :: "bool \<Rightarrow> int \<Rightarrow> resource list \<Rightarrow> bool \<times> int \<times> resource list" where
  "close_fd ok fd gone = (if fd = -1 then (True, -1, gone) else (ok, -1, gone @ [Fd fd]))"

definition close_zmq_socket :: "bool \<Rightarrow> nat option \<Rightarrow> resource list \<Rightarrow> bool \<times> nat option \<times> resource list" where
  "close_zmq_socket ok s gone = (case s of None \<Rightarrow> (True, None, gone) | Some n \<Rightarrow> (ok, None, gone @ [Zmq_socket n]))"

definition destroy_zmq_ctx :: "call_result list \<Rightarrow> nat option \<Rightarrow> resource list \<Rightarrow> (bool \<times> nat option \<times> resource list) option" where
  "destroy_zmq_ctx rs c gone =
     (case c of None \<Rightarrow> Some (True, None, gone) | Some n \<Rightarrow> do { ok \<leftarrow> retry rs; Some (ok, None, gone @ [Zmq_ctx n]) })"

subsection \<open>The server thread\<close>

text \<open>The options of the socket: name and value.\<close>

definition maxmsgsize :: "'st zmq_service \<Rightarrow> nat" where
  "maxmsgsize svc =
     (let maxmsgsize = max_request_cb svc in if maxmsgsize < max_response_cb svc then max_response_cb svc else maxmsgsize)"

record init_results =
  r_ctx :: "nat option"
  r_socket :: "nat option"
  r_options :: "bool list"
  r_bind :: bool

text \<open>Success, the context and the socket, and the options set.\<close>

definition init_zmq :: "'st zmq_service \<Rightarrow> init_results \<Rightarrow> bool \<times> nat option \<times> nat option \<times> (string \<times> nat) list" where
  "init_zmq svc rs =
     (if r_ctx rs = None then (False, None, None, [])
      else if r_socket rs = None then (False, r_ctx rs, None, [])
      else let opts = [(''ZMQ_LINGER'', 1000), (''ZMQ_SNDTIMEO'', 1000), (''ZMQ_RCVTIMEO'', 1000), (''ZMQ_MAXMSGSIZE'', maxmsgsize svc)];
               applied = map fst (takeWhile snd (zip opts (r_options rs)))
        in if length applied < length opts then (False, r_ctx rs, r_socket rs, applied)
           else (r_bind rs, r_ctx rs, r_socket rs, applied))"

datatype recv_result = Recv_EINTR | Recv_error | Recv string

text \<open>What the calls of one pass of the main loop return.\<close>

record pass_results =
  p_quit :: read_result
  p_poll :: poll_result
  p_recv :: recv_result
  p_send :: "call_result list"

datatype next_pass = Continue | Break | Error_exit

text \<open>
  One pass: the next step, the reply sent, and the state. \<open>zmq_recv\<close> copies at most as much as
  the buffer holds and returns the size of the message.
\<close>

definition serve_pass :: "'st zmq_service \<Rightarrow> pass_results \<Rightarrow> 'st \<Rightarrow> (next_pass \<times> string list \<times> 'st) option" where
  "serve_pass svc p st =
     (let (ok, n_read) = receive_event (p_quit p) in
      if \<not> ok then Some (Error_exit, [], st)
      else if 0 \<le> n_read then Some (Break, [], st)
      else case p_poll p of
        Poll_EINTR \<Rightarrow> Some (Continue, [], st)
      | Poll_error \<Rightarrow> Some (Error_exit, [], st)
      | Poll_timeout \<Rightarrow> Some (Continue, [], st)
      | Poll_ready \<Rightarrow>
          (case p_recv p of
             Recv_EINTR \<Rightarrow> Some (Continue, [], st)
           | Recv_error \<Rightarrow> Some (Error_exit, [], st)
           | Recv msg \<Rightarrow>
               if max_request_cb svc < length msg then None
               else do {
                 (response, st) \<leftarrow> handle_request svc msg (max_response_cb svc) st;
                 sent \<leftarrow> retry (p_send p);
                 Some (if sent then Continue else Error_exit, if sent then [response] else [], st) }))"

text \<open>The main loop, over the passes so far.\<close>

primrec serve_loop :: "'st zmq_service \<Rightarrow> pass_results list \<Rightarrow> 'st \<Rightarrow> (next_pass \<times> string list \<times> 'st) option" where
  "serve_loop svc [] st = Some (Continue, [], st)"
| "serve_loop svc (p # ps) st = do {
     (nxt, replies, st) \<leftarrow> serve_pass svc p st;
     if nxt = Continue
     then do { (nxt, more, st) \<leftarrow> serve_loop svc ps st; Some (nxt, replies @ more, st) }
     else Some (nxt, replies, st) }"

record close_results =
  c_socket :: bool
  c_ctx :: "call_result list"
  c_quit_fd :: bool
  c_send_ready_fd :: bool

text \<open>The end of the thread, from the label \<open>error_exit\<close>.\<close>

definition error_exit ::
  "close_results \<Rightarrow> nat option \<Rightarrow> nat option \<Rightarrow> int \<Rightarrow> int \<Rightarrow> resource list \<Rightarrow> (int \<times> resource list) option" where
  "error_exit cr ctx s quit_fd send_ready_fd gone = do {
     let (_, _, gone) = close_zmq_socket (c_socket cr) s gone;
     (_, _, gone) \<leftarrow> destroy_zmq_ctx (c_ctx cr) ctx gone;
     let (_, _, gone) = close_fd (c_quit_fd cr) quit_fd gone;
     let (_, _, gone) = close_fd (c_send_ready_fd cr) send_ready_fd gone;
     Some (1, gone) }"

text \<open>The end of the thread after a quit event. A handle that has been closed is cleared, even if
  closing it failed, so \<open>error_exit\<close> skips it.\<close>

definition quit_exit ::
  "close_results \<Rightarrow> nat option \<Rightarrow> nat option \<Rightarrow> int \<Rightarrow> int \<Rightarrow> resource list \<Rightarrow> (int \<times> resource list) option" where
  "quit_exit cr ctx s quit_fd send_ready_fd gone = do {
     let (ok, s, gone) = close_zmq_socket (c_socket cr) s gone;
     if \<not> ok then error_exit cr ctx s quit_fd send_ready_fd gone
     else do {
       (ok, ctx, gone) \<leftarrow> destroy_zmq_ctx (c_ctx cr) ctx gone;
       if \<not> ok then error_exit cr ctx s quit_fd send_ready_fd gone
       else do {
         let (ok, quit_fd, gone) = close_fd (c_quit_fd cr) quit_fd gone;
         if \<not> ok then error_exit cr ctx s quit_fd send_ready_fd gone
         else do {
           let (ok, send_ready_fd, gone) = close_fd (c_send_ready_fd cr) send_ready_fd gone;
           if \<not> ok then error_exit cr ctx s quit_fd send_ready_fd gone
           else Some (0, gone) } } } }"

text \<open>The thread: \<open>None\<close> in the first component while it is still running.\<close>

definition zmq_thread_loop ::
  "'st zmq_service \<Rightarrow> init_results \<Rightarrow> write_result list \<Rightarrow> pass_results list \<Rightarrow> close_results \<Rightarrow> int \<Rightarrow> int \<Rightarrow> 'st \<Rightarrow>
   (int option \<times> string list \<times> resource list \<times> 'st) option" where
  "zmq_thread_loop svc ir ws ps cr send_ready_fd quit_fd st = do {
     let (ok, ctx, s, _) = init_zmq svc ir;
     if \<not> ok then do { (rc, gone) \<leftarrow> error_exit cr ctx s quit_fd send_ready_fd []; Some (Some rc, [], gone, st) }
     else do {
       ok \<leftarrow> send_event ws;
       if \<not> ok then do { (rc, gone) \<leftarrow> error_exit cr ctx s quit_fd send_ready_fd []; Some (Some rc, [], gone, st) }
       else do {
         (nxt, replies, st) \<leftarrow> serve_loop svc ps st;
         case nxt of
           Continue \<Rightarrow> Some (None, replies, [], st)
         | Break \<Rightarrow> do { (rc, gone) \<leftarrow> quit_exit cr ctx s quit_fd send_ready_fd []; Some (Some rc, replies, gone, st) }
         | Error_exit \<Rightarrow> do { (rc, gone) \<leftarrow> error_exit cr ctx s quit_fd send_ready_fd []; Some (Some rc, replies, gone, st) } } } }"

subsection \<open>Starting and stopping a server\<close>

record zmq_server =
  ready_fd :: int
  send_quit_fd :: int

record start_results =
  s_memory :: bool
  s_pipe1 :: "(int \<times> int) option"
  s_pipe2 :: "(int \<times> int) option"
  s_thread :: bool
  s_poll :: "poll_result list"
  s_read :: read_result

text \<open>The cleanup of \<open>zmq_server_start\<close>; closing may fail, which is only logged.\<close>

definition start_failed :: "zmq_server option \<Rightarrow> int list \<Rightarrow> resource list" where
  "start_failed server pipes =
     (let close = (\<lambda>fd gone. snd (snd (close_fd True fd gone)));
          gone = (case server of None \<Rightarrow> []
            | Some sv \<Rightarrow> close (send_quit_fd sv) (close (ready_fd sv) []) @ [Server_memory]);
          gone = fold close pipes gone
      in gone @ [Service])"

text \<open>The server, the descriptors handed to a thread if one was started, and the log.\<close>

definition zmq_server_start :: "start_results \<Rightarrow> (zmq_server option \<times> (int \<times> int) option \<times> resource list) option" where
  "zmq_server_start rs =
     (if \<not> s_memory rs then Some (None, None, start_failed None [-1, -1, -1, -1])
      else let server = \<lparr>ready_fd = -1, send_quit_fd = -1\<rparr> in
      case s_pipe1 rs of
        None \<Rightarrow> Some (None, None, start_failed (Some server) [-1, -1, -1, -1])
      | Some (p0, p1) \<Rightarrow>
      (case s_pipe2 rs of
        None \<Rightarrow> Some (None, None, start_failed (Some server) [p0, p1, -1, -1])
      | Some (p2, p3) \<Rightarrow>
          let server = \<lparr>ready_fd = p0, send_quit_fd = p3\<rparr> in
          if \<not> s_thread rs then Some (None, None, start_failed (Some server) [-1, p1, p2, -1])
          else do {
            ready \<leftarrow> wait_for_thread_ready (s_poll rs) (s_read rs);
            if ready then Some (Some server, Some (p1, p2), [])
            else Some (None, Some (p1, p2), start_failed (Some server) [-1, -1, -1, -1]) }))"

record stop_results =
  t_write :: "write_result list"
  t_join :: "int option"
  t_close_ready :: bool
  t_close_quit :: bool

text \<open>The cleanup of \<open>zmq_server_stop\<close>, with the rest of the descriptors.\<close>

definition stop_release :: "stop_results \<Rightarrow> int \<Rightarrow> int \<Rightarrow> resource list \<Rightarrow> resource list" where
  "stop_release rs rfd qfd gone =
     snd (snd (close_fd (t_close_quit rs) qfd (snd (snd (close_fd (t_close_ready rs) rfd gone))))) @ [Service, Server_memory]"

text \<open>\<open>t_join\<close> is the exit status of the thread, or \<open>None\<close> if joining it fails.\<close>

definition zmq_server_stop :: "stop_results \<Rightarrow> zmq_server \<Rightarrow> (int \<times> resource list) option" where
  "zmq_server_stop rs server = do {
     ok \<leftarrow> send_event (t_write rs);
     if \<not> ok then Some (1, stop_release rs (ready_fd server) (send_quit_fd server) [])
     else case t_join rs of
       None \<Rightarrow> Some (1, stop_release rs (ready_fd server) (send_quit_fd server) [])
     | Some retval \<Rightarrow> do {
         let (ok, rfd, gone) = close_fd (t_close_ready rs) (ready_fd server) [];
         if \<not> ok then Some (1, stop_release rs rfd (send_quit_fd server) gone)
         else do {
           let (ok, qfd, gone) = close_fd (t_close_quit rs) (send_quit_fd server) gone;
           if \<not> ok then Some (1, stop_release rs rfd qfd gone)
           else Some (retval, gone @ [Service, Server_memory]) } } }"

subsection \<open>What a service promises and what the server makes of it\<close>

text \<open>The interface between the server and a service: handling a request keeps an invariant of the
  state, and the response fits the buffer it is given.\<close>

locale service_contract =
  fixes handle :: "string \<Rightarrow> nat \<Rightarrow> 'st \<Rightarrow> (string \<times> 'st) option"
    and inv :: "'st \<Rightarrow> bool"
  assumes handle_inv: "inv st \<Longrightarrow> handle req cb st = Some (resp, st') \<Longrightarrow> inv st'"
    and handle_fits: "inv st \<Longrightarrow> handle req cb st = Some (resp, st') \<Longrightarrow> length resp \<le> cb"
begin

lemma serve_pass_inv:
  assumes "handle_request svc = handle" "inv st" "serve_pass svc p st = Some (nxt, replies, st')"
  shows "inv st' \<and> (\<forall>r\<in>set replies. length r \<le> max_response_cb svc)"
  using assms
  by (cases "p_quit p") (auto simp: serve_pass_def Let_def bind_Some_iff
      split: if_splits poll_result.splits recv_result.splits dest: handle_inv handle_fits)

lemma serve_loop_inv:
  assumes "handle_request svc = handle"
  shows "inv st \<Longrightarrow> serve_loop svc ps st = Some (nxt, replies, st') \<Longrightarrow>
    inv st' \<and> (\<forall>r\<in>set replies. length r \<le> max_response_cb svc)"
proof (induction ps arbitrary: st replies)
  case (Cons p ps)
  obtain n1 r1 st1 where 1: "serve_pass svc p st = Some (n1, r1, st1)"
    using Cons.prems(2) by (auto simp: bind_Some_iff)
  note i1 = serve_pass_inv [OF assms Cons.prems(1) 1]
  show ?case
  proof (cases "n1 = Continue")
    case True
    then obtain more where "serve_loop svc ps st1 = Some (nxt, more, st')" "replies = r1 @ more"
      using Cons.prems(2) 1 by (auto simp: bind_Some_iff)
    then show ?thesis using Cons.IH i1 by auto
  next
    case False
    then show ?thesis using Cons.prems(2) 1 i1 by auto
  qed
qed simp

end

subsection \<open>Requests and replies\<close>

text \<open>The requests a list of passes delivers, and the replies of a handler called on each.\<close>

definition received :: "pass_results \<Rightarrow> string list" where
  "received p = (case (p_quit p, p_poll p, p_recv p) of (Read_again, Poll_ready, Recv msg) \<Rightarrow> [msg] | _ \<Rightarrow> [])"

primrec answers :: "(string \<Rightarrow> 'st \<Rightarrow> (string \<times> 'st) option) \<Rightarrow> string list \<Rightarrow> 'st \<Rightarrow> (string list \<times> 'st) option" where
  "answers h [] st = Some ([], st)"
| "answers h (m # ms) st = do { (a, st) \<leftarrow> h m st; (as, st) \<leftarrow> answers h ms st; Some (a # as, st) }"

lemma answers_append:
  "answers h (ms @ ns) st = do { (as, st) \<leftarrow> answers h ms st; (bs, st) \<leftarrow> answers h ns st; Some (as @ bs, st) }"
proof (induction ms arbitrary: st)
  case (Cons m ms)
  then show ?case by (cases "h m st") (auto simp: case_prod_beta)
qed (simp add: case_prod_beta)

lemma serve_pass_continues:
  assumes "serve_pass svc p st = Some (Continue, replies, st')"
  shows "answers (\<lambda>m. handle_request svc m (max_response_cb svc)) (received p) st = Some (replies, st')"
  using assms
  by (cases "p_quit p") (auto simp: serve_pass_def received_def Let_def bind_Some_iff
      split: if_splits poll_result.splits recv_result.splits)

text \<open>C28: While the server runs, it answers every request it receives, in order, each with one
  reply, which is what the handler of the service returns in the state the previous request left.\<close>

theorem server_answers_in_order:
  assumes "serve_loop svc ps st = Some (Continue, replies, st')"
  shows "answers (\<lambda>m. handle_request svc m (max_response_cb svc)) (concat (map received ps)) st = Some (replies, st')"
  using assms
proof (induction ps arbitrary: st replies)
  case (Cons p ps)
  then obtain r1 st1 more where "serve_pass svc p st = Some (Continue, r1, st1)"
    "serve_loop svc ps st1 = Some (Continue, more, st')" "replies = r1 @ more"
    by (auto simp: bind_Some_iff split: if_splits)
  then show ?case using Cons.IH serve_pass_continues by (fastforce simp: answers_append)
qed simp

text \<open>C33: A request longer than the request buffer of a service but not longer than its response
  buffer passes the limit the server sets on messages and then fails an assertion, which ends
  the program. The configuration service accepts requests of 512 bytes and sets a limit of 4096.\<close>

theorem oversized_request_aborts:
  assumes "p_quit p = Read_again" "p_poll p = Poll_ready" "p_recv p = Recv msg"
    "zmq_service_alloc True ''zmq_config'' (config_setup handle True) = Some (Some svc)"
    "512 < length msg" "length msg \<le> 4096"
  shows "length msg \<le> maxmsgsize svc \<and> serve_pass svc p st = None"
  using assms
  by (auto simp: zmq_service_alloc_def config_setup_def serve_pass_def maxmsgsize_def ZMQ_SERVICE_NAME_CCH_MAX_def)

subsection \<open>Resources\<close>

text \<open>The resources of a thread.\<close>

definition handles :: "nat option \<Rightarrow> nat option \<Rightarrow> int \<Rightarrow> int \<Rightarrow> resource multiset" where
  "handles ctx s q r = (case s of None \<Rightarrow> {#} | Some n \<Rightarrow> {#Zmq_socket n#}) + (case ctx of None \<Rightarrow> {#} | Some n \<Rightarrow> {#Zmq_ctx n#}) +
     (if q = -1 then {#} else {#Fd q#}) + (if r = -1 then {#} else {#Fd r#})"

lemma error_exit_gone:
  "error_exit cr ctx s q r gone = Some (e, gone') \<Longrightarrow> e = 1 \<and> mset gone' = mset gone + handles ctx s q r"
  by (auto simp: error_exit_def close_zmq_socket_def destroy_zmq_ctx_def close_fd_def handles_def bind_Some_iff Let_def
      split: option.splits if_splits)

lemma quit_exit_gone:
  "quit_exit cr ctx s q r gone = Some (e, gone') \<Longrightarrow> e \<in> {0, 1} \<and> mset gone' = mset gone + handles ctx s q r"
  by (cases s; cases ctx)
    (auto simp: quit_exit_def close_zmq_socket_def destroy_zmq_ctx_def close_fd_def handles_def bind_Some_iff Let_def
      dest!: error_exit_gone split: if_splits)

lemma thread_gone:
  assumes "zmq_thread_loop svc ir ws ps cr r q st = Some (Some e, replies, gone, st')"
  shows "e \<in> {0, 1} \<and> mset gone = handles (r_ctx ir) (if r_ctx ir = None then None else r_socket ir) q r"
proof -
  obtain ok ctx s opts where i: "init_zmq svc ir = (ok, ctx, s, opts)" by (cases "init_zmq svc ir") auto
  have h: "ctx = r_ctx ir" "s = (if r_ctx ir = None then None else r_socket ir)"
    using i by (auto simp: init_zmq_def Let_def split: if_splits)
  have "e \<in> {0, 1} \<and> mset gone = handles ctx s q r"
    using assms i
    by (auto simp: zmq_thread_loop_def bind_Some_iff split: if_splits next_pass.splits dest!: error_exit_gone quit_exit_gone)
      (use next_pass.exhaust in blast)+
  then show ?thesis unfolding h .
qed

lemma stop_gone:
  assumes "zmq_server_stop rs sv = Some (e, gone)"
  shows "mset gone = handles None None (ready_fd sv) (send_quit_fd sv) + {#Service, Server_memory#}"
  using assms
  by (auto simp: zmq_server_stop_def stop_release_def close_fd_def handles_def bind_Some_iff Let_def split: option.splits if_splits)

lemma start_failed_gone:
  "mset (start_failed sv [a, b, c, d]) = (case sv of None \<Rightarrow> {#} | Some s \<Rightarrow> handles None None (ready_fd s) (send_quit_fd s) + {#Server_memory#}) +
     handles None None a b + handles None None c d + {#Service#}"
  by (cases sv) (auto simp: start_failed_def close_fd_def handles_def Let_def)

lemma start_failed_unopened: "start_failed None [-1, -1, -1, -1] = [Service]"
  by (simp add: start_failed_def close_fd_def)

definition valid_pipe :: "(int \<times> int) option \<Rightarrow> bool" where
  "valid_pipe p = (case p of None \<Rightarrow> True | Some (a, b) \<Rightarrow> 0 \<le> a \<and> 0 \<le> b)"

text \<open>The descriptors that the calls of a start opened.\<close>

definition opened :: "start_results \<Rightarrow> resource multiset" where
  "opened rs = (if \<not> s_memory rs then {#} else case s_pipe1 rs of None \<Rightarrow> {#} | Some (a, b) \<Rightarrow>
     {#Fd a, Fd b#} + (case s_pipe2 rs of None \<Rightarrow> {#} | Some (c, d) \<Rightarrow> {#Fd c, Fd d#}))"


text \<open>A thread that was started but not ready in time loses its server and its service under its
  feet.\<close>

lemma start_frees_live_server:
  assumes "s_memory rs" "s_pipe1 rs = Some (p0, p1)" "s_pipe2 rs = Some (p2, p3)" "s_thread rs" "s_poll rs = [Poll_timeout]"
  shows "\<exists>gone. zmq_server_start rs = Some (None, Some (p1, p2), gone) \<and> Server_memory \<in> set gone \<and> Service \<in> set gone"
  using assms by (simp add: zmq_server_start_def start_failed_def close_fd_def Let_def)

subsection \<open>The four services\<close>

context control_frame
begin

lemma update_cpus_R: "update_cpus cs r st = Some (r', st') \<Longrightarrow> R st st'"
proof (induction cs arbitrary: r st)
  case (Cons c cs)
  then show ?case by (auto simp: bind_Some_iff dest!: migrate_R intro: R_trans)
qed simp

lemma core_sched_R:
  assumes "answer_CoreSchedRequest buf request st = Some (r, st')"
  shows "R st st'"
  using assms
  by (auto simp: answer_CoreSchedRequest_def Let_def bind_Some_iff dest: update_cpus_R
      split: option.splits if_splits core_sched_op.splits)

end

context query_frame
begin

lemma reset_rate_stats_R [simp]: "R st (reset_rate_stats env i st') = R st st'"
  by (simp add: reset_rate_stats_def)

lemma get_stats_R: "virtio_forwarder_get_stats env f i p st = Some (s, st') \<Longrightarrow> R st st'"
  by (auto simp: virtio_forwarder_get_stats_def Let_def split: if_splits)

lemma relay_queries_R: "relay_queries env f p is b acc st = Some (acc', st') \<Longrightarrow> R st st'"
proof (induction "is" arbitrary: acc st)
  case (Cons i "is")
  have "R s s'" if "relay_query env f p i b acc s = Some (acc', s')" for acc acc' s s'
    using that by (auto simp: relay_query_def bind_Some_iff dest!: get_stats_R split: if_splits)
  then show ?case using Cons by (auto simp: bind_Some_iff) (meson R_trans)
qed simp

lemma reset_all_R:
  assumes "\<And>s. R s (sched s)"
  shows "R st (reset_all_rate_stats env sched d st)"
proof -
  have f: "R st (fold (reset_rate_stats env) is st)" for "is" st
  proof (induction "is" arbitrary: st)
    case (Cons i "is")
    show ?case using R_trans [OF _ Cons.IH [of "reset_rate_stats env i st"], of st] by simp
  qed simp
  have "R st (sched (did c (fold (reset_rate_stats env) is st)))" for "is" c
    using R_trans [OF f assms [of "did c (fold (reset_rate_stats env) is st)", simplified]] .
  then show ?thesis using f by (simp add: reset_all_rate_stats_def Let_def)
qed

lemma stats_R:
  assumes "\<And>s. R s (sched s)" "answer_StatsRequest env f p sched request st = Some (r, st')"
  shows "R st st'"
  using assms(2)
  by (auto simp: answer_StatsRequest_def Let_def bind_Some_iff dest!: relay_queries_R
      split: option.splits if_splits intro: R_trans [OF reset_all_R [OF assms(1)]])

end

text \<open>A statistics query changes the counters of the last query and nothing else of the control path.\<close>

definition same_table :: "gstate \<Rightarrow> gstate \<Rightarrow> bool" where
  "same_table st st' \<longleftrightarrow> relay_ifname_map st' = relay_ifname_map st \<and> MAX_RELAYS st' = MAX_RELAYS st"

lemma keeps_same_table: "keeps st st' \<Longrightarrow> same_table st st'"
  by (simp add: same_table_def keepsD)

lemma sockets_ok_same_table: "same_table st st' \<Longrightarrow> sockets_ok st' = sockets_ok st"
  by (simp add: same_table_def sockets_ok_def)

interpretation table_frame: query_frame same_table
  by unfold_locales (simp_all add: same_table_def did_def map_vio_def map_dpdk_def put_relay_def)

lemma stats_table:
  assumes "\<forall>s. keeps s (sched s)" "answer_StatsRequest env f p sched request st = Some (r, st')"
  shows "same_table st st'"
  using table_frame.stats_R [OF keeps_same_table [OF assms(1) [rule_format]] assms(2)] .

lemma port_control_keeps_ok:
  assumes "sockets_ok st" "sched_keeps sched" "answer_PortControlRequest env sched ids garbage request st = Some (r, st')"
  shows "sockets_ok st'"
proof (cases request)
  case None
  then show ?thesis using assms by (simp add: answer_PortControlRequest_def Let_def)
next
  case (Some pc)
  then show ?thesis using port_control_reports [OF assms(1,2)] assms(3) by (auto simp: reports_def)
qed

interpretation port_service: service_contract "handle_PortControlRequest unpack pack env sched ids garbage"
  "\<lambda>st. sched_keeps sched \<and> sockets_ok st" for unpack pack env sched ids garbage
  by unfold_locales
    (auto simp: handle_PortControlRequest_def bind_Some_iff dest: port_control_keeps_ok split: if_splits)

interpretation core_sched_service: service_contract "handle_CoreSchedRequest unpack pack buf" sockets_ok for unpack pack buf
  by unfold_locales
    (auto simp: handle_CoreSchedRequest_def bind_Some_iff sockets_ok_same_table dest!: table_frame.core_sched_R split: if_splits)

interpretation config_service: service_contract "handle_ConfigRequest unpack pack conf" sockets_ok for unpack pack conf
  by unfold_locales (auto simp: handle_ConfigRequest_def bind_Some_iff split: if_splits)

interpretation stats_service: service_contract "handle_StatsRequest unpack pack env f p sched"
  "\<lambda>st. (\<forall>s. keeps s (sched s)) \<and> sockets_ok st" for unpack pack env f p sched
  by unfold_locales
    (auto simp: handle_StatsRequest_def bind_Some_iff sockets_ok_same_table dest!: stats_table split: if_splits)

subsection \<open>Examples\<close>

definition demo_service :: "nat zmq_service" where
  "demo_service = \<lparr>svc_name = ''echo'', max_request_cb = 512, max_response_cb = 256, handle_request = \<lambda>m cb st. Some (m, Suc st)\<rparr>"

definition demo_pass :: "read_result \<Rightarrow> string \<Rightarrow> pass_results" where
  "demo_pass q msg = \<lparr>p_quit = q, p_poll = Poll_ready, p_recv = Recv msg, p_send = [Interrupted, Done]\<rparr>"

theorem server_answers_in_order_witness:
  "serve_loop demo_service [demo_pass Read_again ''a'', demo_pass Read_again ''b''] 0 = Some (Continue, [''a'', ''b''], 2) \<and>
   answers (\<lambda>m st. Some (m, Suc st)) [''a'', ''b''] 0 = Some ([''a'', ''b''], 2)"
proof
  show e: "serve_loop demo_service [demo_pass Read_again ''a'', demo_pass Read_again ''b''] 0 = Some (Continue, [''a'', ''b''], 2)"
    by (simp add: demo_service_def demo_pass_def serve_pass_def numeral_2_eq_2)
  show "answers (\<lambda>m st. Some (m, Suc st)) [''a'', ''b''] 0 = Some ([''a'', ''b''], 2)"
    using server_answers_in_order [OF e] by (simp add: received_def demo_pass_def demo_service_def)
qed

theorem oversized_request_aborts_witness:
  "\<exists>svc. zmq_service_alloc True ''zmq_config'' (config_setup (\<lambda>m cb st. Some (m, Suc st)) True) = Some (Some svc) \<and>
     serve_pass svc (demo_pass Read_again (replicate 600 (CHR ''x''))) 0 = None"
proof -
  obtain svc where e: "zmq_service_alloc True ''zmq_config'' (config_setup (\<lambda>m cb st. Some (m, Suc st)) True) = Some (Some svc)"
    by (simp add: zmq_service_alloc_def config_setup_def ZMQ_SERVICE_NAME_CCH_MAX_def)
  have "serve_pass svc (demo_pass Read_again (replicate 600 (CHR ''x''))) 0 = None"
    using oversized_request_aborts [of "demo_pass Read_again (replicate 600 (CHR ''x''))", OF _ _ _ e, of "replicate 600 (CHR ''x'')" 0]
    by (simp add: demo_pass_def)
  then show ?thesis using e by blast
qed

definition demo_start :: start_results where
  "demo_start = \<lparr>s_memory = True, s_pipe1 = Some (3, 4), s_pipe2 = Some (5, 6), s_thread = True, s_poll = [Poll_ready], s_read = Read 1\<rparr>"

definition demo_closes :: close_results where
  "demo_closes = \<lparr>c_socket = True, c_ctx = [Interrupted, Failed], c_quit_fd = True, c_send_ready_fd = False\<rparr>"


end
