(* ===== verification/Options.thy ===== *)
theory Options
  imports Server
begin

text \<open>
  The command line: \<open>cmdline_parser\<close> of \<open>cmdline.c\<close> and the options of
  \<open>virtio_forwarder_main.c\<close>.

  The C functions on strings are modelled as far as they are used: \<open>strspn\<close>, \<open>strchr\<close>,
  \<open>strtok\<close>, \<open>strtoul\<close>, and \<open>sscanf\<close> for \<open>%u\<close> and \<open>%s\<close>. What
  \<open>getopt_long\<close> returns, call by call, is an argument of \<open>cmdline_parser\<close>. \<open>None\<close> is
  a write outside an array.
\<close>

subsection \<open>C functions on strings\<close>

text \<open>The tokens of \<open>strtok(s, d)\<close>: runs of characters other than the delimiter.\<close>

function strtok :: "char \<Rightarrow> string \<Rightarrow> string list" where
  "strtok d s =
     (let s = dropWhile (\<lambda>c. c = d) s in
      if s = [] then [] else takeWhile (\<lambda>c. c \<noteq> d) s # strtok d (dropWhile (\<lambda>c. c \<noteq> d) s))"
  by pat_completeness auto
termination
proof (relation "measure (\<lambda>(d, s). length s)", goal_cases)
  case (2 d s x)
  then have x: "x \<noteq> []" by simp
  then have "hd x \<noteq> d" using hd_dropWhile [of "\<lambda>c. c = d" s] 2(1) by simp
  then have "\<exists>c cs. x = c # cs \<and> c \<noteq> d" using x by (cases x) auto
  then have "length (dropWhile (\<lambda>c. c \<noteq> d) x) < length x"
    by (auto simp: le_imp_less_Suc length_dropWhile_le)
  also have "length x \<le> length s" using 2(1) by (simp add: length_dropWhile_le)
  finally show ?case by simp
qed simp

declare strtok.simps [simp del]

definition is_hex_digit :: "char \<Rightarrow> bool" where
  "is_hex_digit c \<longleftrightarrow> is_digit c \<or> of_char c \<in> {65..<71 :: nat} \<or> of_char c \<in> {97..<103 :: nat}"

definition hex_digit_value :: "char \<Rightarrow> nat" where
  "hex_digit_value c =
     (if is_digit c then digit_value c else if of_char c < (97 :: nat) then of_char c - 55 else of_char c - 87)"

text \<open>\<open>strtoull\<close> on a string of hexadecimal digits; too large a number gives \<open>ULLONG_MAX\<close>.\<close>

definition strtoull_hex :: "string \<Rightarrow> 64 word" where
  "strtoull_hex s =
     (let n = foldl (\<lambda>n c. 16 * n + hex_digit_value c) 0 s in if n < 2 ^ 64 then of_nat n else -1)"

definition strtoul :: "string \<Rightarrow> nat" where
  "strtoul s = min (number s) (2 ^ 64 - 1)"

text \<open>\<open>%u\<close>: white space, a sign, digits; the value is that of \<open>strtoul\<close> cut to 32 bits. The rest of
  the input is returned as well.\<close>

definition scan_u :: "string \<Rightarrow> (nat \<times> string) option" where
  "scan_u s =
     (let s = dropWhile is_space s;
          neg = (s \<noteq> [] \<and> hd s = CHR ''-'');
          s = (if s \<noteq> [] \<and> (hd s = CHR ''-'' \<or> hd s = CHR ''+'') then tl s else s);
          n = number s;
          v = (if 2 ^ 64 \<le> n then 2 ^ 64 - 1 else if neg then nat (- int n mod 2 ^ 64) else n)
      in if takeWhile is_digit s = [] then None else Some (v mod 2 ^ 32, dropWhile is_digit s))"

definition scan_char :: "char \<Rightarrow> string \<Rightarrow> string option" where
  "scan_char c s = (if s \<noteq> [] \<and> hd s = c then Some (tl s) else None)"

text \<open>\<open>%20s\<close>: at most 20 characters that are not white space.\<close>

definition scan_s20 :: "string \<Rightarrow> string option" where
  "scan_s20 s =
     (let t = take 20 (takeWhile (\<lambda>c. \<not> is_space c) (dropWhile is_space s)) in if t = [] then None else Some t)"

subsection \<open>The variables of the main program\<close>

record dpdk_conf =
  log_level :: int
  master_lcore :: nat
  huge_dir :: string
  vfio_vf_token :: string
  core_bitmap :: "64 word"
  d_use_jumbo :: bool
  d_enable_tso :: bool
  enable_same_numa :: bool
  enable_vfio_vf_token :: bool

record main_vars =
  pidpath :: string
  daemonize :: bool
  log_syslog :: bool
  use_zmq_config :: bool
  use_zmq_port_control :: bool
  use_zmq_stats :: bool
  use_zmq_core_sched :: bool
  use_ipc :: bool
  show_version :: bool
  dpdk_cfg :: dpdk_conf
  ovsdb_sock_path :: string
  zmq_config_ep :: string
  zmq_port_control_ep :: string
  zmq_stats_ep :: string
  zmq_core_sched_ep :: string
  vhost_conf :: virtio_vhostuser_conf
  create_vhostuser_sockets :: bool

abbreviation set_vhost :: "(virtio_vhostuser_conf \<Rightarrow> virtio_vhostuser_conf) \<Rightarrow> main_vars \<Rightarrow> main_vars" where
  "set_vhost f m \<equiv> m\<lparr>vhost_conf := f (vhost_conf m)\<rparr>"

abbreviation set_dpdk :: "(dpdk_conf \<Rightarrow> dpdk_conf) \<Rightarrow> main_vars \<Rightarrow> main_vars" where
  "set_dpdk f m \<equiv> m\<lparr>dpdk_cfg := f (dpdk_cfg m)\<rparr>"

subsection \<open>The options\<close>

text \<open>A handler takes the argument of the option and returns 0 or an error code.\<close>

text \<open>The loop over the CPUs of a list: the first value out of range clears the bitmap and ends it.\<close>

fun add_cpus :: "string list \<Rightarrow> 64 word \<Rightarrow> 64 word" where
  "add_cpus [] bm = bm"
| "add_cpus (s # ss) bm = (if 64 \<le> strtoul s then 0 else add_cpus ss (bit_set bm (strtoul s)))"

definition cmdline_set_cpus :: "string \<Rightarrow> main_vars \<Rightarrow> int \<times> main_vars" where
  "cmdline_set_cpus arg m =
     (if take 2 arg = ''0x''
      then if \<not> list_all is_hex_digit (drop 2 arg) then (-1, m)
           else (0, set_vhost (\<lambda>c. c\<lparr>conf_worker_core_bitmap := strtoull_hex (drop 2 arg)\<rparr>) m)
      else if \<not> list_all (\<lambda>c. is_digit c \<or> c = CHR '','') arg then (-1, m)
      else let bm = add_cpus (strtok (CHR '','') arg) 0
           in (if bm \<noteq> 0 then 0 else -1, set_vhost (\<lambda>c. c\<lparr>conf_worker_core_bitmap := bm\<rparr>) m))"

text \<open>\<open>atoi\<close> is undefined when the number does not fit an \<open>int\<close>.\<close>

definition cmdline_set_master_lcore :: "string \<Rightarrow> main_vars \<Rightarrow> (int \<times> main_vars) option" where
  "cmdline_set_master_lcore arg m = do {
     v \<leftarrow> atoi arg; Some (0, set_dpdk (\<lambda>d. d\<lparr>master_lcore := nat (v mod 2 ^ 32)\<rparr>) m) }"

definition cmdline_set_nodaemon :: "string option \<Rightarrow> main_vars \<Rightarrow> int \<times> main_vars" where
  "cmdline_set_nodaemon arg m =
     (0, (if arg \<noteq> Some ''log_syslog'' then m\<lparr>log_syslog := False\<rparr> else m)\<lparr>daemonize := False\<rparr>)"

definition cmdline_set_ipc :: "main_vars \<Rightarrow> int \<times> main_vars" where
  "cmdline_set_ipc m = (0, m\<lparr>use_ipc := True\<rparr>)"

definition cmdline_set_loglevel :: "string \<Rightarrow> main_vars \<Rightarrow> (int \<times> main_vars) option" where
  "cmdline_set_loglevel arg m = do { v \<leftarrow> atoi arg; Some (0, set_dpdk (\<lambda>d. d\<lparr>log_level := v\<rparr>) m) }"

text \<open>\<open>dir\<close> tells what \<open>stat\<close> finds: nothing, or a file that is or is not a directory.\<close>

definition cmdline_set_pid :: "bool option \<Rightarrow> string \<Rightarrow> main_vars \<Rightarrow> int \<times> main_vars" where
  "cmdline_set_pid dir arg m = (if dir = Some True then (0, m\<lparr>pidpath := strlcpy arg 100\<rparr>) else (1, m))"

definition cmdline_set_huge_dir :: "bool option \<Rightarrow> string \<Rightarrow> main_vars \<Rightarrow> int \<times> main_vars" where
  "cmdline_set_huge_dir dir arg m =
     (if dir = Some True then (0, set_dpdk (\<lambda>d. d\<lparr>huge_dir := strlcpy arg 32\<rparr>) m) else (1, m))"

definition cmdline_set_ovsdb_path :: "string \<Rightarrow> main_vars \<Rightarrow> int \<times> main_vars" where
  "cmdline_set_ovsdb_path arg m = (0, m\<lparr>ovsdb_sock_path := strlcpy arg 128\<rparr>)"

definition cmdline_set_zmq_config_ep :: "string option \<Rightarrow> main_vars \<Rightarrow> int \<times> main_vars" where
  "cmdline_set_zmq_config_ep arg m =
     (0, (case arg of Some s \<Rightarrow> m\<lparr>zmq_config_ep := strlcpy s 1024\<rparr> | None \<Rightarrow> m)\<lparr>use_zmq_config := True\<rparr>)"

definition cmdline_set_zmq_port_control_ep :: "string option \<Rightarrow> main_vars \<Rightarrow> int \<times> main_vars" where
  "cmdline_set_zmq_port_control_ep arg m =
     (0, (case arg of Some s \<Rightarrow> m\<lparr>zmq_port_control_ep := strlcpy s 1024\<rparr> | None \<Rightarrow> m)\<lparr>use_zmq_port_control := True\<rparr>)"

definition cmdline_set_zmq_stats_ep :: "string option \<Rightarrow> main_vars \<Rightarrow> int \<times> main_vars" where
  "cmdline_set_zmq_stats_ep arg m =
     (0, (case arg of Some s \<Rightarrow> m\<lparr>zmq_stats_ep := strlcpy s 1024\<rparr> | None \<Rightarrow> m)\<lparr>use_zmq_stats := True\<rparr>)"

definition cmdline_set_zmq_core_sched_ep :: "string option \<Rightarrow> main_vars \<Rightarrow> int \<times> main_vars" where
  "cmdline_set_zmq_core_sched_ep arg m =
     (0, (case arg of Some s \<Rightarrow> m\<lparr>zmq_core_sched_ep := strlcpy s 1024\<rparr> | None \<Rightarrow> m)
           \<lparr>use_zmq_stats := True, use_zmq_core_sched := True\<rparr>)"

definition cmdline_set_vhost_username :: "string option \<Rightarrow> main_vars \<Rightarrow> int \<times> main_vars" where
  "cmdline_set_vhost_username arg m =
     (0, set_vhost (\<lambda>c. c\<lparr>vhost_username := (case arg of Some s \<Rightarrow> strlcpy s 32 | None \<Rightarrow> [])\<rparr>) m)"

definition cmdline_set_vhost_groupname :: "string option \<Rightarrow> main_vars \<Rightarrow> int \<times> main_vars" where
  "cmdline_set_vhost_groupname arg m =
     (0, set_vhost (\<lambda>c. c\<lparr>vhost_groupname := (case arg of Some s \<Rightarrow> strlcpy s 32 | None \<Rightarrow> [])\<rparr>) m)"

definition cmdline_set_vhost_path :: "string \<Rightarrow> main_vars \<Rightarrow> int \<times> main_vars" where
  "cmdline_set_vhost_path arg m = (0, set_vhost (\<lambda>c. c\<lparr>socket_path := strlcpy arg 128\<rparr>) m)"

definition cmdline_set_vhost_socket :: "string \<Rightarrow> main_vars \<Rightarrow> int \<times> main_vars" where
  "cmdline_set_vhost_socket arg m = (0, set_vhost (\<lambda>c. c\<lparr>socket_name := strlcpy arg 32\<rparr>) m)"

text \<open>\<open>sscanf(arg, "%u:%u")\<close> and \<open>sscanf(arg, "%u:%u,%u")\<close>.\<close>

definition scan_vf_cpu :: "string \<Rightarrow> (nat \<times> nat \<times> nat) option" where
  "scan_vf_cpu arg = do {
     (virtio, rest) \<leftarrow> scan_u arg;
     rest \<leftarrow> scan_char (CHR '':'') rest;
     (cpu1, rest) \<leftarrow> scan_u rest;
     if CHR '','' \<notin> set arg then Some (virtio, cpu1, cpu1)
     else do { rest \<leftarrow> scan_char (CHR '','') rest; (cpu2, _) \<leftarrow> scan_u rest; Some (virtio, cpu1, cpu2) } }"

definition cmdline_set_vf_cpu :: "nat \<Rightarrow> string \<Rightarrow> main_vars \<Rightarrow> (int \<times> main_vars) option" where
  "cmdline_set_vf_cpu max_relays arg m =
     (case scan_vf_cpu arg of
        None \<Rightarrow> Some (1, m)
      | Some (virtio, cpu1, cpu2) \<Rightarrow>
          if max_relays < virtio then Some (1, m)
          else if 64 \<le> cpu1 \<or> 64 \<le> cpu2 then Some (1, m)
          else do {
            cs \<leftarrow> array_set (conf_relay_cpus (vhost_conf m)) virtio \<lparr>conf_vf2vio_cpu = int cpu1, conf_vio2vf_cpu = int cpu2\<rparr>;
            Some (0, set_vhost (\<lambda>c. c\<lparr>conf_relay_cpus := cs\<rparr>) m) })"

primrec set_vf_cpu_list :: "nat \<Rightarrow> string list \<Rightarrow> main_vars \<Rightarrow> (int \<times> main_vars) option" where
  "set_vf_cpu_list max_relays [] m = Some (0, m)"
| "set_vf_cpu_list max_relays (t # ts) m = do {
     (err, m) \<leftarrow> cmdline_set_vf_cpu max_relays t m;
     if err \<noteq> 0 then Some (err, m) else set_vf_cpu_list max_relays ts m }"

definition cmdline_set_vf_cpus :: "nat \<Rightarrow> string \<Rightarrow> main_vars \<Rightarrow> (int \<times> main_vars) option" where
  "cmdline_set_vf_cpus max_relays arg m = set_vf_cpu_list max_relays (strtok (CHR '';'') arg) m"

text \<open>
  The entries are counted by the length of the list. The address goes to an array of 20 bytes;
  \<open>exists\<close> tells whether the device exists. The number is read as \<open>unsigned\<close> into an \<open>int\<close>.
\<close>

definition cmdline_add_static_vf :: "nat \<Rightarrow> (string \<Rightarrow> bool) \<Rightarrow> string \<Rightarrow> main_vars \<Rightarrow> (int \<times> main_vars) option" where
  "cmdline_add_static_vf max_relays dev_exists arg m =
     (if max_relays \<le> length (static_relays (vhost_conf m)) then Some (1, m)
      else if CHR ''='' \<notin> set arg then Some (1, m)
      else case scan_s20 (takeWhile (\<lambda>c. c \<noteq> CHR ''='') arg) of
        None \<Rightarrow> Some (1, m)
      | Some dbdf \<Rightarrow>
          if 20 \<le> length dbdf then None
          else (case scan_u (tl (dropWhile (\<lambda>c. c \<noteq> CHR ''='') arg)) of
            None \<Rightarrow> Some (1, m)
          | Some (v, _) \<Rightarrow>
              let virtio_id = (if v < 2 ^ 31 then int v else int v - 2 ^ 32) in
              if \<not> dev_exists (strlcpy (''/sys/bus/pci/devices/'' @ dbdf) 50) then Some (1, m)
              else if int max_relays \<le> virtio_id then Some (1, m)
              else Some (0, set_vhost (\<lambda>c. c\<lparr>static_relays := static_relays c @ [\<lparr>static_pci_dbdf = dbdf, static_virtio_id = virtio_id\<rparr>]\<rparr>) m)))"

definition cmdline_enable_jumbo :: "main_vars \<Rightarrow> int \<times> main_vars" where
  "cmdline_enable_jumbo m = (0, set_vhost (\<lambda>c. c\<lparr>conf_use_jumbo := True\<rparr>) (set_dpdk (\<lambda>d. d\<lparr>d_use_jumbo := True\<rparr>) m))"

definition cmdline_enable_mrgbuf :: "main_vars \<Rightarrow> int \<times> main_vars" where
  "cmdline_enable_mrgbuf m = (0, set_vhost (\<lambda>c. c\<lparr>use_rx_mrgbuf := True\<rparr>) m)"

definition cmdline_enable_vhostclient :: "main_vars \<Rightarrow> int \<times> main_vars" where
  "cmdline_enable_vhostclient m = (0, set_vhost (\<lambda>c. c\<lparr>vhost_client := True\<rparr>) m)"

definition cmdline_enable_zerocopy :: "main_vars \<Rightarrow> int \<times> main_vars" where
  "cmdline_enable_zerocopy m = (0, set_vhost (\<lambda>c. c\<lparr>zerocopy := True\<rparr>) m)"

definition cmdline_enable_tso :: "main_vars \<Rightarrow> int \<times> main_vars" where
  "cmdline_enable_tso m = (0, set_dpdk (\<lambda>d. d\<lparr>d_enable_tso := True\<rparr>) (set_vhost (\<lambda>c. c\<lparr>enable_tso := True\<rparr>) m))"

definition cmdline_enable_dynamic_sockets :: "main_vars \<Rightarrow> int \<times> main_vars" where
  "cmdline_enable_dynamic_sockets m = (0, m\<lparr>create_vhostuser_sockets := False\<rparr>)"

definition cmdline_enable_same_numa :: "main_vars \<Rightarrow> int \<times> main_vars" where
  "cmdline_enable_same_numa m = (0, set_dpdk (\<lambda>d. d\<lparr>enable_same_numa := True\<rparr>) m)"

definition cmdline_show_version :: "main_vars \<Rightarrow> int \<times> main_vars" where
  "cmdline_show_version m = (0, m\<lparr>show_version := True\<rparr>)"

text \<open>The token is used as a format string: \<open>fmt\<close> is what \<open>snprintf\<close> makes of it.\<close>

definition cmdline_set_vfio_vf_token :: "(string \<Rightarrow> string) \<Rightarrow> string \<Rightarrow> main_vars \<Rightarrow> int \<times> main_vars" where
  "cmdline_set_vfio_vf_token fmt arg m =
     (0, if arg = [] then set_dpdk (\<lambda>d. d\<lparr>enable_vfio_vf_token := False\<rparr>) m
         else if arg = ''0'' then set_dpdk (\<lambda>d. d\<lparr>enable_vfio_vf_token := True\<rparr>) m
         else set_dpdk (\<lambda>d. d\<lparr>enable_vfio_vf_token := True, vfio_vf_token := strlcpy (fmt arg) 37\<rparr>) m)"

subsection \<open>The parser\<close>

record 'm cmdline_opt =
  opt_long :: string
  opt_short :: char
  opt_mandatory :: bool
  opt_terminate :: bool
  opt_func :: "string option \<Rightarrow> 'm \<Rightarrow> (int \<times> 'm) option"
  opt_has_arg :: nat

text \<open>What a call of \<open>getopt_long\<close> returns: an option and its argument; an unknown option, with
  \<open>optopt\<close>; an option without its argument.\<close>

datatype getopt_result = Opt char "string option" | Unknown nat | Missing

record cmdline_flags =
  ignore_unknown :: bool
  ignore_extra :: bool

definition opt_index :: "'m cmdline_opt list \<Rightarrow> char \<Rightarrow> nat" where
  "opt_index opts c = length (takeWhile (\<lambda>o'. opt_short o' \<noteq> c) opts)"

text \<open>The loop over the results: the value of \<open>ret\<close> if it ends in an error, the bitmap of the
  mandatory options seen, whether a terminating option was seen, and the variables. 63 and 104
  are the characters \<open>?\<close> and \<open>h\<close>.\<close>

fun parse_opts ::
  "'m cmdline_opt list \<Rightarrow> cmdline_flags \<Rightarrow> getopt_result list \<Rightarrow> 64 word \<Rightarrow> bool \<Rightarrow> 'm \<Rightarrow> (int \<times> 64 word \<times> bool \<times> 'm) option" where
  "parse_opts opts fl [] seen term m = Some (0, seen, term, m)"
| "parse_opts opts fl (Unknown optopt # rs) seen term m =
     (if optopt = 0 then parse_opts opts fl rs seen term m
      else if optopt \<noteq> 63 \<and> optopt \<noteq> 104 \<and> ignore_unknown fl then parse_opts opts fl rs seen term m
      else Some (-1, seen, term, m))"
| "parse_opts opts fl (Missing # rs) seen term m = Some (-1, seen, term, m)"
| "parse_opts opts fl (Opt c arg # rs) seen term m =
     (let i = opt_index opts c in
      if length opts \<le> i then Some (-1, seen, term, m)
      else do {
        (ret, m) \<leftarrow> opt_func (opts ! i) arg m;
        if ret \<noteq> 0 then Some (-1, seen, term, m)
        else parse_opts opts fl rs (if opt_mandatory (opts ! i) then bit_set seen i else seen)
               (term \<or> opt_terminate (opts ! i)) m })"

primrec mandatory_bits :: "'m cmdline_opt list \<Rightarrow> nat \<Rightarrow> 64 word \<Rightarrow> 64 word" where
  "mandatory_bits [] i bm = bm"
| "mandatory_bits (op # ops) i bm = mandatory_bits ops (Suc i) (if opt_mandatory op then bit_set bm i else bm)"

text \<open>\<open>extra\<close> tells whether arguments are left that do not follow \<open>--\<close>.\<close>

definition cmdline_parser ::
  "'m cmdline_opt list \<Rightarrow> cmdline_flags \<Rightarrow> getopt_result list \<Rightarrow> bool \<Rightarrow> 'm \<Rightarrow> (int \<times> 'm) option" where
  "cmdline_parser opts fl results extra m =
     (if 64 < length opts then Some (-1, m)
      else do {
        (ret, mandatory_check, terminate_check, m) \<leftarrow> parse_opts opts fl results 0 False m;
        if ret \<noteq> 0 then Some (-1, m)
        else if mandatory_check \<noteq> mandatory_bits opts 0 0 \<and> \<not> terminate_check then Some (-1, m)
        else if extra \<and> \<not> ignore_extra fl then Some (-1, m)
        else Some (0, m) })"

subsection \<open>The main program\<close>

definition main_defaults :: "nat \<Rightarrow> main_vars" where
  "main_defaults max_relays =
     \<lparr>pidpath = ''/var/run'', daemonize = True, log_syslog = True, use_zmq_config = False, use_zmq_port_control = False,
      use_zmq_stats = False, use_zmq_core_sched = False, use_ipc = False, show_version = False,
      dpdk_cfg = \<lparr>log_level = 6, master_lcore = 0, huge_dir = ''/mnt/huge'',
        vfio_vf_token = ''14d63f20-8445-11ea-8900-1f9ce7d5650d'', core_bitmap = 0, d_use_jumbo = False, d_enable_tso = False,
        enable_same_numa = False, enable_vfio_vf_token = False\<rparr>,
      ovsdb_sock_path = ''/usr/local/var/run/openvswitch/db.sock'',
      zmq_config_ep = ''ipc:///var/run/virtio-forwarder/config'',
      zmq_port_control_ep = ''ipc:///var/run/virtio-forwarder/port_control'',
      zmq_stats_ep = ''ipc:///var/run/virtio-forwarder/stats'',
      zmq_core_sched_ep = ''ipc:///var/run/virtio-forwarder/core_sched'',
      vhost_conf = \<lparr>conf_worker_core_bitmap = 0, socket_path = ''/tmp'', socket_name = ''virtio-forwarder%u.sock'',
        vhost_username = ''libvirt-qemu'', vhost_groupname = ''kvm'',
        conf_relay_cpus = replicate max_relays \<lparr>conf_vf2vio_cpu = -1, conf_vio2vf_cpu = -1\<rparr>, static_relays = [],
        conf_use_jumbo = False, use_rx_mrgbuf = False, vhost_client = False, zerocopy = False, enable_tso = False\<rparr>,
      create_vhostuser_sockets = True\<rparr>"

text \<open>Handlers of options with a mandatory argument, with an optional one, and with none.\<close>

abbreviation needs_arg :: "(string \<Rightarrow> 'm \<Rightarrow> (int \<times> 'm) option) \<Rightarrow> string option \<Rightarrow> 'm \<Rightarrow> (int \<times> 'm) option" where
  "needs_arg f arg m \<equiv> arg \<bind> (\<lambda>a. f a m)"

text \<open>The table of options. \<open>dir\<close>, \<open>dev_exists\<close> and \<open>fmt\<close> are as above.\<close>

definition main_opts ::
  "nat \<Rightarrow> (string \<Rightarrow> bool option) \<Rightarrow> (string \<Rightarrow> bool) \<Rightarrow> (string \<Rightarrow> string) \<Rightarrow> main_vars cmdline_opt list" where
  "main_opts max_relays dir dev_exists fmt =
     (let op = (\<lambda>l c mand term n f. \<lparr>opt_long = l, opt_short = c, opt_mandatory = mand, opt_terminate = term, opt_func = f, opt_has_arg = n\<rparr>);
          req = (\<lambda>l c f. op l c False False 1 (needs_arg f));
          opt = (\<lambda>l c f. op l c False False 2 (\<lambda>a m. Some (f a m)));
          flag = (\<lambda>l c f. op l c False False 0 (\<lambda>a m. Some (f m)))
      in [op ''cpus'' (CHR ''C'') True False 1 (needs_arg (\<lambda>a m. Some (cmdline_set_cpus a m))),
          req ''master-lcore'' (CHR ''M'') cmdline_set_master_lcore,
          opt ''nodaemon'' (CHR ''n'') cmdline_set_nodaemon,
          req ''loglevel'' (CHR ''l'') cmdline_set_loglevel,
          req ''pid-path'' (CHR ''p'') (\<lambda>a m. Some (cmdline_set_pid (dir a) a m)),
          req ''huge-dir'' (CHR ''H'') (\<lambda>a m. Some (cmdline_set_huge_dir (dir a) a m)),
          req ''ovsdb-sock'' (CHR ''O'') (\<lambda>a m. Some (cmdline_set_ovsdb_path a m)),
          opt ''zmq-config-ep'' (CHR ''Y'') cmdline_set_zmq_config_ep,
          opt ''zmq-port-control-ep'' (CHR ''Z'') cmdline_set_zmq_port_control_ep,
          opt ''zmq-stats-ep'' (CHR ''z'') cmdline_set_zmq_stats_ep,
          opt ''zmq-core-sched-ep'' (CHR ''s'') cmdline_set_zmq_core_sched_ep,
          flag ''ipc'' (CHR ''I'') cmdline_set_ipc,
          opt ''vhost-username'' (CHR ''u'') cmdline_set_vhost_username,
          opt ''vhost-groupname'' (CHR ''g'') cmdline_set_vhost_groupname,
          req ''vhost-path'' (CHR ''V'') (\<lambda>a m. Some (cmdline_set_vhost_path a m)),
          req ''vhost-socket'' (CHR ''S'') (\<lambda>a m. Some (cmdline_set_vhost_socket a m)),
          req ''virtio-cpu'' (CHR ''c'') (cmdline_set_vf_cpus max_relays),
          flag ''enable-jumbo'' (CHR ''J'') cmdline_enable_jumbo,
          flag ''enable-mrgbuf'' (CHR ''R'') cmdline_enable_mrgbuf,
          req ''add-pci-vf'' (CHR ''P'') (cmdline_add_static_vf max_relays dev_exists),
          req ''vfio-vf-token'' (CHR ''t'') (\<lambda>a m. Some (cmdline_set_vfio_vf_token fmt a m)),
          flag ''vhostuser-client'' (CHR ''i'') cmdline_enable_vhostclient,
          flag ''zero-copy'' (CHR ''0'') cmdline_enable_zerocopy,
          flag ''enable-tso'' (CHR ''T'') cmdline_enable_tso,
          flag ''dynamic-sockets'' (CHR ''d'') cmdline_enable_dynamic_sockets,
          flag ''same-numa'' (CHR ''a'') cmdline_enable_same_numa,
          op ''version'' (CHR ''v'') False True 0 (\<lambda>a m. Some (cmdline_show_version m))])"

text \<open>Are the CPUs of the relays worker CPUs? A shift by a number outside 0 to 63 is undefined.\<close>

definition worker_cpu :: "64 word \<Rightarrow> int \<Rightarrow> bool option" where
  "worker_cpu bm cpu = (if 0 \<le> cpu \<and> cpu < 64 then Some (push_bit (nat cpu) 1 AND bm \<noteq> 0) else None)"

primrec check_relay_cpus :: "64 word \<Rightarrow> relay_cpus list \<Rightarrow> bool option" where
  "check_relay_cpus bm [] = Some True"
| "check_relay_cpus bm (c # cs) =
     (if conf_vf2vio_cpu c = -1 then check_relay_cpus bm cs
      else do {
        ok \<leftarrow> worker_cpu bm (conf_vf2vio_cpu c);
        if \<not> ok then Some False
        else do {
          ok \<leftarrow> worker_cpu bm (conf_vio2vf_cpu c);
          if \<not> ok then Some False else check_relay_cpus bm cs } })"

datatype part = Config_server | Stats_server | Port_control_server | File_monitor | Ovsdb_monitor | Core_sched_server

datatype action = Daemonize | Create_pidfile | Configure_signals | Init_eal | Start_vhost | Start part | Stop part |
  Stop_vhost | Finalize_eal | Shutdown

text \<open>The parts that are started, in order.\<close>

definition parts :: "main_vars \<Rightarrow> part list" where
  "parts m = (if use_zmq_config m then [Config_server] else []) @ (if use_zmq_stats m then [Stats_server] else []) @
     (if use_zmq_port_control m then [Port_control_server] else if use_ipc m then [File_monitor] else [Ovsdb_monitor]) @
     (if use_zmq_core_sched m then [Core_sched_server] else [])"

text \<open>The steps of the start: each action and the exit status if it fails. \<open>exit(-1)\<close> is 255.\<close>

definition start_steps :: "main_vars \<Rightarrow> (action \<times> int) list" where
  "start_steps m = (if daemonize m then [(Daemonize, 1)] else []) @
     [(Create_pidfile, 1), (Configure_signals, 1), (Init_eal, 255), (Start_vhost, 255)] @
     map (\<lambda>p. (Start p, 255)) (parts m)"

text \<open>The servers return an exit status when they are stopped, the monitors do not.\<close>

definition stop_status :: "(part \<Rightarrow> int) \<Rightarrow> main_vars \<Rightarrow> int" where
  "stop_status exit_status m =
     (let core_sched = (if use_zmq_core_sched m then exit_status Core_sched_server else 0);
          vf = (if use_zmq_port_control m then exit_status Port_control_server else 0);
          stats = (if use_zmq_stats m then exit_status Stats_server else 0);
          config = (if use_zmq_config m then exit_status Config_server else 0)
      in if core_sched \<noteq> 0 then core_sched else if vf \<noteq> 0 then vf else if stats \<noteq> 0 then stats
         else if config \<noteq> 0 then config else 0)"

definition stop_steps :: "main_vars \<Rightarrow> action list" where
  "stop_steps m =
     (if use_zmq_core_sched m then [Stop Core_sched_server] else []) @
     (if use_zmq_port_control m then [Stop Port_control_server] else if use_ipc m then [Stop File_monitor] else [Stop Ovsdb_monitor]) @
     (if use_zmq_stats m then [Stop Stats_server] else []) @
     (if use_zmq_config m then [Stop Config_server] else []) @ [Stop_vhost, Finalize_eal, Shutdown]"

text \<open>The start as far as it succeeds: the exit status of the first failure, and the actions taken.\<close>

fun run_steps :: "(action \<Rightarrow> bool) \<Rightarrow> (action \<times> int) list \<Rightarrow> int option \<times> action list" where
  "run_steps works [] = (None, [])"
| "run_steps works ((a, status) # steps) =
     (if \<not> works a then (Some status, [a])
      else let (r, as) = run_steps works steps in (r, a # as))"

text \<open>The exit status and the actions of a run that is ended by a signal. \<open>works\<close> tells which actions
  succeed, \<open>exit_status\<close> the exit status of the servers.\<close>

definition main ::
  "nat \<Rightarrow> (string \<Rightarrow> bool option) \<Rightarrow> (string \<Rightarrow> bool) \<Rightarrow> (string \<Rightarrow> string) \<Rightarrow> getopt_result list \<Rightarrow> bool \<Rightarrow>
   (action \<Rightarrow> bool) \<Rightarrow> (part \<Rightarrow> int) \<Rightarrow> (int \<times> action list) option" where
  "main max_relays dir dev_exists fmt results extra works exit_status = do {
     (err, m) \<leftarrow> cmdline_parser (main_opts max_relays dir dev_exists fmt) \<lparr>ignore_unknown = False, ignore_extra = False\<rparr>
       results extra (main_defaults max_relays);
     if err \<noteq> 0 then Some (1, [])
     else if show_version m then Some (0, [])
     else do {
       ok \<leftarrow> check_relay_cpus (conf_worker_core_bitmap (vhost_conf m)) (conf_relay_cpus (vhost_conf m));
       if \<not> ok then Some (1, [])
       else let (failed, actions) = run_steps works (start_steps m) in
         case failed of
           Some status \<Rightarrow> Some (status, actions)
         | None \<Rightarrow> Some (stop_status exit_status m, actions @ stop_steps m) } }"

subsection \<open>Lists of CPUs\<close>

fun join :: "char \<Rightarrow> string list \<Rightarrow> string" where
  "join d [] = []"
| "join d [t] = t"
| "join d (t # ts) = t @ d # join d ts"

lemma strtok_sep: "strtok d (d # s) = strtok d s"
  by (simp add: strtok.simps [of d "d # s"] strtok.simps [of d s])

lemma strtok_token:
  assumes "t \<noteq> []" "d \<notin> set t"
  shows "strtok d (t @ d # s) = t # strtok d (d # s)" "strtok d t = [t]"
proof -
  obtain c cs where t: "t = c # cs" "c \<noteq> d" using assms by (cases t) auto
  have a: "dropWhile (\<lambda>c. c = d) (t @ u) = t @ u" for u using t by simp
  have b: "takeWhile (\<lambda>c. c \<noteq> d) (t @ d # s) = t" "dropWhile (\<lambda>c. c \<noteq> d) (t @ d # s) = d # s"
    using assms(2) by (auto simp: takeWhile_append dropWhile_append)
  have e: "takeWhile (\<lambda>c. c \<noteq> d) t = t" "dropWhile (\<lambda>c. c \<noteq> d) t = []" using assms(2) by (auto simp: takeWhile_eq_all_conv)
  show "strtok d (t @ d # s) = t # strtok d (d # s)"
    using assms(1) by (subst strtok.simps) (simp only: a b Let_def, simp)
  show "strtok d t = [t]"
    using assms(1) a [of "[]"] by (subst strtok.simps) (simp only: append_Nil2 e Let_def, simp add: strtok.simps)
qed

lemma strtok_join: "\<forall>t\<in>set ts. t \<noteq> [] \<and> d \<notin> set t \<Longrightarrow> strtok d (join d ts) = ts"
proof (induction d ts rule: join.induct)
  case (1 d)
  then show ?case by (simp add: strtok.simps)
next
  case (2 d t)
  then show ?case by (simp add: strtok_token)
next
  case (3 d t u us)
  then show ?case by (simp add: strtok_token strtok_sep)
qed

lemma strtoul_dec: "n < 2 ^ 64 \<Longrightarrow> strtoul (dec n) = n"
  using number_dec [of "[]" n] by (simp add: strtoul_def no_digit_first_def)

lemma add_cpus_bits:
  "\<forall>i\<in>set is. i < 64 \<Longrightarrow> bit (add_cpus (map dec is) bm) j \<longleftrightarrow> bit bm j \<or> j \<in> set is"
proof (induction "is" arbitrary: bm)
  case (Cons i "is")
  then have "strtoul (dec i) = i" by (intro strtoul_dec) auto
  then show ?case using Cons by (auto simp: bitmap_simps)
qed simp

definition cpu_list :: "64 word \<Rightarrow> string" where
  "cpu_list w = join (CHR '','') (map dec (bits_of w))"

lemma set_join: "set (join d ts) \<subseteq> insert d (\<Union>t\<in>set ts. set t)"
  by (induction d ts rule: join.induct) auto

lemma add_cpus_bits_of: "add_cpus (map dec (bits_of w)) 0 = w"
proof (rule bit_word_eqI)
  fix j
  have "\<forall>i\<in>set (bits_of w). i < 64" by (auto dest: bit_imp_le_length)
  then show "bit (add_cpus (map dec (bits_of w)) 0) j = bit w j" by (simp add: add_cpus_bits)
qed

lemma digit_not_comma: "is_digit c \<Longrightarrow> c \<noteq> CHR '',''"
  by (auto simp: is_digit_def)

lemma hex_digit_parse [simp]:
  assumes "d < 16"
  shows "is_hex_digit (hex_digit d)" "hex_digit_value (hex_digit d) = d"
  using assms by (auto simp: hex_digit.simps is_hex_digit_def hex_digit_value_def is_digit_def digit_value_def)

lemma hex_parse: "foldl (\<lambda>n c. 16 * n + hex_digit_value c) 0 (hex n) = n"
proof (induction n rule: hex.induct)
  case (1 n)
  then show ?case by (subst hex.simps) (auto split: if_splits)
qed

lemma hex_all: "c \<in> set (hex n) \<Longrightarrow> is_hex_digit c"
proof (induction n rule: hex.induct)
  case (1 n)
  then show ?case by (subst (asm) (2) hex.simps) (auto split: if_splits)
qed

text \<open>C30: Both notations for the worker CPUs are read back exactly: the comma separated list of the CPUs
  of any nonempty bitmap, and the hexadecimal number of any bitmap.\<close>

theorem cpus_roundtrip:
  "cmdline_set_cpus (''0x'' @ hex (unat w)) m = (0, set_vhost (\<lambda>c. c\<lparr>conf_worker_core_bitmap := w\<rparr>) m) \<and>
   cmdline_set_cpus (cpu_list w) m = (if w = 0 then -1 else 0, set_vhost (\<lambda>c. c\<lparr>conf_worker_core_bitmap := w\<rparr>) m)"
proof
  have "unat w < 2 ^ 64" using unsigned_less [of w] by simp
  then have "strtoull_hex (hex (unat w)) = w" by (simp add: strtoull_hex_def hex_parse)
  moreover have "list_all is_hex_digit (hex (unat w))" by (auto simp: list_all_iff dest: hex_all)
  ultimately show "cmdline_set_cpus (''0x'' @ hex (unat w)) m = (0, set_vhost (\<lambda>c. c\<lparr>conf_worker_core_bitmap := w\<rparr>) m)"
    by (simp add: cmdline_set_cpus_def)
  have t: "\<forall>t\<in>set (map dec (bits_of w)). t \<noteq> [] \<and> CHR '','' \<notin> set t"
    using dec_digits digit_not_comma by auto
  have chars: "list_all (\<lambda>c. is_digit c \<or> c = CHR '','') (cpu_list w)"
    using set_join [of "CHR '',''" "map dec (bits_of w)"] dec_digits by (fastforce simp: list_all_iff cpu_list_def)
  moreover have "take 2 (cpu_list w) \<noteq> ''0x''"
  proof
    assume "take 2 (cpu_list w) = ''0x''"
    then have "CHR ''x'' \<in> set (cpu_list w)" using in_set_takeD [of "CHR ''x''" 2 "cpu_list w"] by simp
    then show False using chars by (auto simp: list_all_iff is_digit_def)
  qed
  moreover have "strtok (CHR '','') (cpu_list w) = map dec (bits_of w)"
    unfolding cpu_list_def by (rule strtok_join [OF t])
  ultimately show "cmdline_set_cpus (cpu_list w) m = (if w = 0 then -1 else 0, set_vhost (\<lambda>c. c\<lparr>conf_worker_core_bitmap := w\<rparr>) m)"
    by (simp add: cmdline_set_cpus_def add_cpus_bits_of)
qed

subsection \<open>What the parser guarantees\<close>

text \<open>The interface between the parser and the handlers of a table of options: they keep an invariant.\<close>

locale option_handlers =
  fixes opts :: "'m cmdline_opt list" and inv :: "'m \<Rightarrow> bool"
  assumes handler_keeps: "i < length opts \<Longrightarrow> inv m \<Longrightarrow> opt_func (opts ! i) arg m = Some (ret, m') \<Longrightarrow> inv m'"
begin

lemma parse_opts_inv:
  "parse_opts opts fl rs seen term m = Some (ret, seen', term', m') \<Longrightarrow> inv m \<Longrightarrow> inv m'"
proof (induction rs arbitrary: seen "term" m)
  case (Cons r rs)
  show ?case
  proof (cases r)
    case (Opt c arg)
    then show ?thesis using Cons.prems Cons.IH
      by (auto simp: Let_def bind_Some_iff split: if_splits dest: handler_keeps [rotated 2])
  qed (use Cons in \<open>auto split: if_splits\<close>)
qed simp

lemma cmdline_parser_inv:
  "cmdline_parser opts fl rs extra m = Some (ret, m') \<Longrightarrow> inv m \<Longrightarrow> inv m'"
  by (auto simp: cmdline_parser_def bind_Some_iff split: if_splits dest: parse_opts_inv)

end

lemma opt_index_short: "opt_index opts c < length opts \<Longrightarrow> opt_short (opts ! opt_index opts c) = c"
  using nth_length_takeWhile [of "\<lambda>op. opt_short op \<noteq> c" opts] by (simp add: opt_index_def)

lemma parse_opts_seen:
  assumes "parse_opts opts fl rs seen term m = Some (0, seen', term', m')" "length opts \<le> 64"
  shows "\<forall>i. bit seen' i \<longrightarrow> bit seen i \<or> (i < length opts \<and> (\<exists>arg. Opt (opt_short (opts ! i)) arg \<in> set rs))"
    "term' \<Longrightarrow> term \<or> (\<exists>i < length opts. opt_terminate (opts ! i) \<and> (\<exists>arg. Opt (opt_short (opts ! i)) arg \<in> set rs))"
  using assms
proof (induction rs arbitrary: seen "term" m)
  case (Cons r rs)
  {
    case 1
    then show ?case using Cons.IH(1)
      by (cases r) (fastforce simp: Let_def bind_Some_iff bitmap_simps opt_index_short split: if_splits)+
  next
    case 2
    then show ?case using Cons.IH(2)
      by (cases r) (fastforce simp: Let_def bind_Some_iff opt_index_short split: if_splits)+
  }
qed simp_all

lemma mandatory_bits_iff:
  assumes "k + length opts \<le> 64"
  shows "bit (mandatory_bits opts k bm) j \<longleftrightarrow> bit bm j \<or> (k \<le> j \<and> j < k + length opts \<and> opt_mandatory (opts ! (j - k)))"
  using assms
proof (induction opts arbitrary: k bm)
  case (Cons op ops)
  show ?case
    using Cons.prems Cons.IH [of "Suc k"]
    by (cases "j = k"; cases "j < k") (auto simp: bitmap_simps nth_Cons' Suc_le_eq)
qed auto

lemma parser_mandatory:
  assumes "cmdline_parser opts fl rs extra m = Some (0, m')" "i < length opts" "opt_mandatory (opts ! i)"
  shows "(\<exists>arg. Opt (opt_short (opts ! i)) arg \<in> set rs) \<or>
    (\<exists>j < length opts. opt_terminate (opts ! j) \<and> (\<exists>arg. Opt (opt_short (opts ! j)) arg \<in> set rs))"
proof -
  obtain seen "term" m1 where p: "parse_opts opts fl rs 0 False m = Some (0, seen, term, m1)"
    and e: "seen = mandatory_bits opts 0 0 \<or> term" and l: "length opts \<le> 64"
    using assms(1) by (auto simp: cmdline_parser_def bind_Some_iff split: if_splits)
  have "bit (mandatory_bits opts 0 0) i" using mandatory_bits_iff [of 0 opts 0 i] l assms(2,3) by simp
  then show ?thesis using e parse_opts_seen [OF p l] by auto
qed

subsection \<open>The configuration\<close>

definition cpus_ok :: "relay_cpus \<Rightarrow> bool" where
  "cpus_ok c \<longleftrightarrow> conf_vf2vio_cpu c = -1 \<and> conf_vio2vf_cpu c = -1 \<or> conf_vf2vio_cpu c \<in> {0..<64} \<and> conf_vio2vf_cpu c \<in> {0..<64}"

definition conf_ok :: "nat \<Rightarrow> virtio_vhostuser_conf \<Rightarrow> bool" where
  "conf_ok n c \<longleftrightarrow> length (conf_relay_cpus c) = n \<and> list_all cpus_ok (conf_relay_cpus c) \<and>
     length (static_relays c) \<le> n \<and> list_all (\<lambda>e. length (static_pci_dbdf e) < 20 \<and> static_virtio_id e < int n) (static_relays c)"

lemma set_vf_cpu_ok:
  assumes "cmdline_set_vf_cpu n t m = Some (e, m')" "conf_ok n (vhost_conf m)"
  shows "conf_ok n (vhost_conf m')"
proof (cases "m' = m")
  case False
  then obtain v a b where t: "scan_vf_cpu t = Some (v, a, b)"
    using assms(1) by (auto simp: cmdline_set_vf_cpu_def split: option.splits)
  have m': "a < 64" "b < 64" "m' = set_vhost (\<lambda>f. f\<lparr>conf_relay_cpus :=
      (conf_relay_cpus (vhost_conf m))[v := \<lparr>conf_vf2vio_cpu = int a, conf_vio2vf_cpu = int b\<rparr>]\<rparr>) m"
    using assms(1) False t by (auto simp: cmdline_set_vf_cpu_def array_set_def split: if_splits)
  have "cpus_ok \<lparr>conf_vf2vio_cpu = int a, conf_vio2vf_cpu = int b\<rparr>" using m'(1,2) by (simp add: cpus_ok_def)
  then show ?thesis
    using assms(2) m'(3) set_update_subset_insert [of "conf_relay_cpus (vhost_conf m)" v "\<lparr>conf_vf2vio_cpu = int a, conf_vio2vf_cpu = int b\<rparr>"]
    by (auto simp: conf_ok_def list_all_iff)
qed (use assms(2) in simp)

lemma set_vf_cpu_list_ok: "set_vf_cpu_list n ts m = Some (e, m') \<Longrightarrow> conf_ok n (vhost_conf m) \<Longrightarrow> conf_ok n (vhost_conf m')"
  by (induction ts arbitrary: m) (auto simp: bind_Some_iff split: if_splits dest: set_vf_cpu_ok)

lemma add_static_vf_ok: "cmdline_add_static_vf n ex arg m = Some (e, m') \<Longrightarrow> conf_ok n (vhost_conf m) \<Longrightarrow> conf_ok n (vhost_conf m')"
  by (auto simp: cmdline_add_static_vf_def conf_ok_def Let_def split: if_splits option.splits)

lemmas plain_option_defs = cmdline_set_master_lcore_def cmdline_set_nodaemon_def cmdline_set_loglevel_def cmdline_set_pid_def
  cmdline_set_huge_dir_def cmdline_set_ovsdb_path_def cmdline_set_zmq_config_ep_def cmdline_set_zmq_port_control_ep_def
  cmdline_set_zmq_stats_ep_def cmdline_set_zmq_core_sched_ep_def cmdline_set_ipc_def cmdline_set_vhost_username_def
  cmdline_set_vhost_groupname_def cmdline_set_vhost_path_def cmdline_set_vhost_socket_def cmdline_enable_jumbo_def
  cmdline_enable_mrgbuf_def cmdline_set_vfio_vf_token_def cmdline_enable_vhostclient_def cmdline_enable_zerocopy_def
  cmdline_enable_tso_def cmdline_enable_dynamic_sockets_def cmdline_enable_same_numa_def cmdline_show_version_def

text \<open>Only four options touch what \<open>conf_ok\<close> is about.\<close>

lemma conf_ok_updates [simp]:
  "conf_ok n (c\<lparr>conf_worker_core_bitmap := w\<rparr>) = conf_ok n c" "conf_ok n (c\<lparr>socket_path := x\<rparr>) = conf_ok n c"
  "conf_ok n (c\<lparr>socket_name := x\<rparr>) = conf_ok n c" "conf_ok n (c\<lparr>vhost_username := x\<rparr>) = conf_ok n c"
  "conf_ok n (c\<lparr>vhost_groupname := x\<rparr>) = conf_ok n c" "conf_ok n (c\<lparr>conf_use_jumbo := y\<rparr>) = conf_ok n c"
  "conf_ok n (c\<lparr>use_rx_mrgbuf := y\<rparr>) = conf_ok n c" "conf_ok n (c\<lparr>vhost_client := y\<rparr>) = conf_ok n c"
  "conf_ok n (c\<lparr>zerocopy := y\<rparr>) = conf_ok n c" "conf_ok n (c\<lparr>enable_tso := y\<rparr>) = conf_ok n c"
  by (simp_all add: conf_ok_def)

lemma set_cpus_ok: "conf_ok n (vhost_conf m) \<Longrightarrow> conf_ok n (vhost_conf (snd (cmdline_set_cpus arg m)))"
  by (simp add: cmdline_set_cpus_def Let_def)

lemma main_handler_ok:
  assumes "op \<in> set (main_opts n dir ex fmt)" "opt_func op arg m = Some (ret, m')" "conf_ok n (vhost_conf m)"
  shows "conf_ok n (vhost_conf m')"
proof -
  have cpus: "cmdline_set_cpus a m = (r, m2) \<Longrightarrow> conf_ok n (vhost_conf m2)" for a r m2
    using set_cpus_ok [OF assms(3), of a] by simp
  show ?thesis
    using assms unfolding main_opts_def Let_def set_simps insert_iff empty_iff
    by (elim disjE) (auto simp: bind_Some_iff plain_option_defs cmdline_set_vf_cpus_def split: option.splits if_splits
        dest: cpus set_vf_cpu_list_ok add_static_vf_ok)
qed

interpretation main_options: option_handlers "main_opts n dir ex fmt" "\<lambda>m. conf_ok n (vhost_conf m)" for n dir ex fmt
  by unfold_locales (use main_handler_ok nth_mem in blast)

lemma main_defaults_ok: "conf_ok n (vhost_conf (main_defaults n))"
  by (simp add: main_defaults_def conf_ok_def cpus_ok_def list_all_iff)

lemma worker_cpu_ok: "0 \<le> cpu \<Longrightarrow> cpu < 64 \<Longrightarrow> worker_cpu bm cpu = Some (bit bm (nat cpu))"
  using bit_test_eq [of bm "nat cpu"] by (simp add: worker_cpu_def bit_test_def)

lemma check_relay_cpus_ok:
  "list_all cpus_ok cs \<Longrightarrow> check_relay_cpus bm cs = Some (list_all (\<lambda>c. conf_vf2vio_cpu c = -1 \<or>
     bit bm (nat (conf_vf2vio_cpu c)) \<and> bit bm (nat (conf_vio2vf_cpu c))) cs)"
  by (induction cs) (auto simp: cpus_ok_def worker_cpu_ok)

text \<open>C31: A command line that is accepted gives a sound configuration: the worker CPUs were given (or only the
  version is to be shown), there is one entry for each relay, and the check that follows is
  defined and accepts exactly when every relay that has CPUs has worker CPUs for both directions;
  the static VFs fit their table, their names fit, and their relays are below the limit.\<close>

theorem options_configuration_sound:
  assumes "cmdline_parser (main_opts n dir ex fmt) fl results extra (main_defaults n) = Some (0, m)"
  shows "((\<exists>arg. Opt (CHR ''C'') arg \<in> set results) \<or> (\<exists>arg. Opt (CHR ''v'') arg \<in> set results)) \<and>
    length (conf_relay_cpus (vhost_conf m)) = n \<and>
    (\<exists>ok. check_relay_cpus (conf_worker_core_bitmap (vhost_conf m)) (conf_relay_cpus (vhost_conf m)) = Some ok \<and>
      (ok \<longleftrightarrow> (\<forall>c\<in>set (conf_relay_cpus (vhost_conf m)).
         conf_vf2vio_cpu c = -1 \<and> conf_vio2vf_cpu c = -1 \<or>
         bit (conf_worker_core_bitmap (vhost_conf m)) (nat (conf_vf2vio_cpu c)) \<and>
         bit (conf_worker_core_bitmap (vhost_conf m)) (nat (conf_vio2vf_cpu c))))) \<and>
    length (static_relays (vhost_conf m)) \<le> n \<and>
    (\<forall>e\<in>set (static_relays (vhost_conf m)). length (static_pci_dbdf e) < 20 \<and> static_virtio_id e < int n)"
proof -
  let ?opts = "main_opts n dir ex fmt"
  have ok: "conf_ok n (vhost_conf m)" by (rule main_options.cmdline_parser_inv [OF assms main_defaults_ok])
  have "0 < length ?opts" "opt_mandatory (?opts ! 0)" "opt_short (?opts ! 0) = CHR ''C''" by (simp_all add: main_opts_def Let_def)
  moreover have "opt_short op = CHR ''v''" if "op \<in> set ?opts" "opt_terminate op" for op
    using that unfolding main_opts_def Let_def set_simps insert_iff empty_iff by (elim disjE) simp_all
  ultimately have given: "(\<exists>arg. Opt (CHR ''C'') arg \<in> set results) \<or> (\<exists>arg. Opt (CHR ''v'') arg \<in> set results)"
    using parser_mandatory [OF assms, of 0] nth_mem by metis
  have "list_all cpus_ok (conf_relay_cpus (vhost_conf m))" using ok by (simp add: conf_ok_def)
  note check = check_relay_cpus_ok [OF this, of "conf_worker_core_bitmap (vhost_conf m)"]
  have none: "conf_vf2vio_cpu c = -1 \<longleftrightarrow> conf_vf2vio_cpu c = -1 \<and> conf_vio2vf_cpu c = -1"
    if "c \<in> set (conf_relay_cpus (vhost_conf m))" for c
    using ok that by (auto simp: conf_ok_def list_all_iff cpus_ok_def)
  show ?thesis using ok given check none by (simp add: conf_ok_def list_all_iff)
qed

text \<open>The check of the relay number is off by one: the first number past the last relay is accepted.\<close>

lemma scan_dec:
  assumes "n < 2 ^ 32" "no_digit_first s"
  shows "scan_u (dec n @ s) = Some (n, s)"
proof -
  obtain c cs where c: "dec n = c # cs" "is_digit c" using dec_ne [of n] dec_digits [of _ n] by (cases "dec n") auto
  then have d: "\<not> is_space c" "c \<noteq> CHR ''-''" "c \<noteq> CHR ''+''" using is_digit_no_space [OF c(2)] by auto
  have w: "takeWhile is_digit (dec n @ s) = dec n" by (rule takeWhile_dec [OF assms(2)])
  then have "dropWhile is_digit (dec n @ s) = s" by (metis append_same_eq append_eq_conv_conj takeWhile_dropWhile_id same_append_eq)
  then show ?thesis
    using d number_dec [OF assms(2), of n] w assms(1) by (simp add: scan_u_def Let_def c(1))
qed

lemma vf_cpu_off_by_one:
  assumes "length (conf_relay_cpus (vhost_conf m)) = n" "n < 2 ^ 32"
  shows "cmdline_set_vf_cpu n (dec n @ '':0'') m = None"
proof -
  have d: "no_digit_first '':0''" "no_digit_first []" by (simp_all add: no_digit_first_def is_digit_def)
  have "CHR '','' \<notin> set (dec n @ '':0'')" using dec_digits [of "CHR '',''" n] by (auto simp: is_digit_def)
  moreover have "scan_u ''0'' = Some (0, [])" by (simp add: scan_u_def Let_def is_space_def is_digit_def number_def digit_value_def)
  ultimately have "scan_vf_cpu (dec n @ '':0'') = Some (n, 0, 0)"
    using scan_dec [OF assms(2) d(1)] by (simp add: scan_vf_cpu_def scan_char_def)
  then show ?thesis using assms(1) by (simp add: cmdline_set_vf_cpu_def array_set_def)
qed

subsection \<open>Start and stop\<close>

definition started :: "action list \<Rightarrow> part list" where
  "started as = concat (map (\<lambda>a. case a of Start p \<Rightarrow> [p] | _ \<Rightarrow> []) as)"

definition stopped :: "action list \<Rightarrow> part list" where
  "stopped as = concat (map (\<lambda>a. case a of Stop p \<Rightarrow> [p] | _ \<Rightarrow> []) as)"

lemma run_steps_actions:
  "run_steps works steps = (r, as) \<Longrightarrow> set as \<subseteq> fst ` set steps \<and> (r = None \<longrightarrow> as = map fst steps)"
proof (induction works steps arbitrary: as rule: run_steps.induct)
  case (2 works a status steps)
  then show ?case by (cases "run_steps works steps") (auto split: if_splits)
qed auto

text \<open>C32: A run of the program that reaches its end has stopped exactly the parts it has started, in reverse
  order, with the relays shut down after all of them; its exit status is 0 exactly when every
  server ended with 0.\<close>

theorem main_stops_in_reverse:
  assumes "main n dir ex fmt results extra works es = Some (status, actions)" "Shutdown \<in> set actions"
  shows "stopped actions = rev (started actions) \<and> (\<exists>as. actions = as @ [Stop_vhost, Finalize_eal, Shutdown]) \<and>
    (status = 0 \<longleftrightarrow> (\<forall>p\<in>set (started actions). p \<noteq> File_monitor \<and> p \<noteq> Ovsdb_monitor \<longrightarrow> es p = 0))"
proof -
  obtain m failed as where r: "run_steps works (start_steps m) = (failed, as)"
    and a: "(status, actions) = (case failed of Some s \<Rightarrow> (s, as) | None \<Rightarrow> (stop_status es m, as @ stop_steps m))"
    using assms by (auto simp: main_def bind_Some_iff split: if_splits option.splits prod.splits)
  have no: "Shutdown \<notin> fst ` set (start_steps m)" by (auto simp: start_steps_def)
  have f: "failed = None" using a no run_steps_actions [OF r] assms(2) by (cases failed) auto
  then have as: "actions = map fst (start_steps m) @ stop_steps m" "status = stop_status es m"
    using a run_steps_actions [OF r] by auto
  have st: "started actions = parts m"
    by (auto simp: as started_def start_steps_def stop_steps_def parts_def)
  have "stopped actions = rev (parts m)"
    by (auto simp: as stopped_def start_steps_def stop_steps_def parts_def)
  moreover have "\<exists>as. actions = as @ [Stop_vhost, Finalize_eal, Shutdown]" by (auto simp: as stop_steps_def)
  moreover have "status = 0 \<longleftrightarrow> (\<forall>p\<in>set (parts m). p \<noteq> File_monitor \<and> p \<noteq> Ovsdb_monitor \<longrightarrow> es p = 0)"
    by (auto simp: as stop_status_def parts_def Let_def)
  ultimately show ?thesis using st by simp
qed

subsection \<open>Examples\<close>

lemma demo_cpus: "cmdline_set_cpus ''0x6'' m = (0, set_vhost (\<lambda>c. c\<lparr>conf_worker_core_bitmap := 6\<rparr>) m)"
  by (simp add: cmdline_set_cpus_def is_hex_digit_def is_digit_def strtoull_hex_def hex_digit_value_def digit_value_def)

definition demo_opts :: "main_vars cmdline_opt list" where
  "demo_opts = main_opts 1 (\<lambda>_. None) (\<lambda>_. True) (\<lambda>s. s)"

lemma demo_opt_index:
  "length demo_opts = 27" "opt_index demo_opts (CHR ''C'') = 0" "opt_index demo_opts (CHR ''n'') = 2"
  "opt_index demo_opts (CHR ''s'') = 10"
  by (simp_all add: demo_opts_def main_opts_def opt_index_def)

lemma demo_handlers:
  "opt_func (demo_opts ! 0) (Some a) m = Some (cmdline_set_cpus a m)" "opt_mandatory (demo_opts ! 0)" "\<not> opt_terminate (demo_opts ! 0)"
  "opt_func (demo_opts ! 2) x m = Some (cmdline_set_nodaemon x m)" "\<not> opt_mandatory (demo_opts ! 2)" "\<not> opt_terminate (demo_opts ! 2)"
  "opt_func (demo_opts ! 10) x m = Some (cmdline_set_zmq_core_sched_ep x m)" "\<not> opt_mandatory (demo_opts ! 10)" "\<not> opt_terminate (demo_opts ! 10)"
  by (simp_all add: demo_opts_def main_opts_def)

lemma demo_mandatory: "mandatory_bits demo_opts 0 0 = bit_set 0 0"
  by (simp add: demo_opts_def main_opts_def)

definition demo_vars :: main_vars where
  "demo_vars = (main_defaults 1)\<lparr>vhost_conf := (vhost_conf (main_defaults 1))\<lparr>conf_worker_core_bitmap := 6\<rparr>,
     log_syslog := False, daemonize := False, use_zmq_stats := True, use_zmq_core_sched := True\<rparr>"

abbreviation demo_results :: "getopt_result list" where
  "demo_results \<equiv> [Opt (CHR ''C'') (Some ''0x6''), Opt (CHR ''n'') None, Opt (CHR ''s'') None]"

lemma demo_parse:
  "cmdline_parser (main_opts 1 (\<lambda>_. None) (\<lambda>_. True) (\<lambda>s. s)) \<lparr>ignore_unknown = False, ignore_extra = False\<rparr> demo_results False (main_defaults 1) =
     Some (0, demo_vars)"
  unfolding demo_opts_def [symmetric]
  by (simp add: cmdline_parser_def demo_opt_index demo_handlers demo_mandatory demo_cpus cmdline_set_nodaemon_def
      cmdline_set_zmq_core_sched_ep_def demo_vars_def)

theorem options_configuration_sound_witness:
  "cmdline_parser (main_opts 1 (\<lambda>_. None) (\<lambda>_. True) (\<lambda>s. s)) \<lparr>ignore_unknown = False, ignore_extra = False\<rparr> demo_results False
     (main_defaults 1) = Some (0, demo_vars) \<and> length (conf_relay_cpus (vhost_conf demo_vars)) = 1"
  using options_configuration_sound [OF demo_parse] demo_parse by blast

theorem main_stops_in_reverse_witness:
  "main 1 (\<lambda>_. None) (\<lambda>_. True) (\<lambda>s. s) demo_results False (\<lambda>_. True) (\<lambda>p. if p = Stats_server then 7 else 0) =
     Some (7, [Create_pidfile, Configure_signals, Init_eal, Start_vhost, Start Stats_server, Start Ovsdb_monitor, Start Core_sched_server,
       Stop Core_sched_server, Stop Ovsdb_monitor, Stop Stats_server, Stop_vhost, Finalize_eal, Shutdown]) \<and>
   \<not> (\<forall>p\<in>{Stats_server, Ovsdb_monitor, Core_sched_server}. p \<noteq> Ovsdb_monitor \<and> p \<noteq> File_monitor \<longrightarrow> (if p = Stats_server then 7 else 0 :: int) = 0)"
proof -
  let ?as = "[Create_pidfile, Configure_signals, Init_eal, Start_vhost, Start Stats_server, Start Ovsdb_monitor, Start Core_sched_server,
       Stop Core_sched_server, Stop Ovsdb_monitor, Stop Stats_server, Stop_vhost, Finalize_eal, Shutdown]"
  have e: "main 1 (\<lambda>_. None) (\<lambda>_. True) (\<lambda>s. s) demo_results False (\<lambda>_. True) (\<lambda>p. if p = Stats_server then 7 else 0) = Some (7, ?as)"
    unfolding main_def demo_parse
    by (simp add: demo_vars_def main_defaults_def start_steps_def parts_def stop_status_def stop_steps_def)
  show ?thesis using main_stops_in_reverse [OF e] e by (simp add: started_def)
qed

end
