(* ===== verification/Platform.thy ===== *)
theory Platform
  imports Options
begin

text \<open>
  The machine and its set-up: \<open>cpuinfo.c\<close>, which reads the topology from \<open>/proc/cpuinfo\<close> and
  sysfs, and \<open>dpdk_eal.c\<close> with \<open>argv.c\<close>, which checks the configured CPUs against it and
  builds the arguments of \<open>rte_eal_init\<close>. The lines of the file, the paths that \<open>glob\<close> finds
  and the result of \<open>rte_eal_init\<close> are arguments. \<open>None\<close> is undefined behaviour: a null
  pointer, an index outside an array, a shift by too much, an overflow of a buffer.
\<close>

subsection \<open>CPUs\<close>

definition strmatch :: "string \<Rightarrow> string \<Rightarrow> bool" where
  "strmatch test s \<longleftrightarrow> take (length test) s = test"

text \<open>\<open>atoi(strchr(line + 8, ':') + 1)\<close>\<close>

definition line_value :: "string \<Rightarrow> int option" where
  "line_value line =
     (case dropWhile (\<lambda>c. c \<noteq> CHR '':'') (drop 8 line) of [] \<Rightarrow> None | _ # rest \<Rightarrow> atoi rest)"

definition u32_of :: "int \<Rightarrow> nat" where
  "u32_of v = nat (v mod 2 ^ 32)"

definition zero_cpuinfo :: cpuinfo_t where
  "zero_cpuinfo = \<lparr>numcpus = 0, numsockets = 0, numnodes = 0, cpubitmap = 0,
     cpus = replicate MAX_CPUS \<lparr>cpunum = 0, corenum = 0, socket = 0, alive = 0, numanode = 0\<rparr>\<rparr>"

definition set_cpu :: "nat \<Rightarrow> (cpu_desc \<Rightarrow> cpu_desc) \<Rightarrow> cpuinfo_t \<Rightarrow> cpuinfo_t" where
  "set_cpu i f info = info\<lparr>cpus := (cpus info)[i := f (cpus info ! i)]\<rparr>"

text \<open>The loop over the lines; \<open>cur\<close> is \<open>curprocessor\<close>.\<close>

fun parse_lines :: "string list \<Rightarrow> int \<Rightarrow> cpuinfo_t \<Rightarrow> cpuinfo_t option" where
  "parse_lines [] cur info = Some info"
| "parse_lines (l # ls) cur info =
     (if strmatch ''processor'' l then do {
        val \<leftarrow> line_value l;
        if int MAX_CPUS \<le> val then Some info
        else if val < 0 then None
        else let i = nat val;
                 info = info\<lparr>cpubitmap := bit_set (cpubitmap info) i\<rparr>;
                 info = set_cpu i (\<lambda>d. d\<lparr>cpunum := i, alive := 1\<rparr>) info
          in parse_lines ls val (info\<lparr>numcpus := numcpus info + 1\<rparr>) }
      else if strmatch ''physical id'' l then do {
        val \<leftarrow> line_value l;
        if cur < 0 then None
        else let info = set_cpu (nat cur) (\<lambda>d. d\<lparr>socket := u32_of val\<rparr>) info;
                 info = (if numsockets info < u32_of (val + 1) then info\<lparr>numsockets := u32_of (val + 1)\<rparr> else info)
          in parse_lines ls cur info }
      else if strmatch ''core id'' l then do {
        val \<leftarrow> line_value l;
        if cur < 0 then None
        else parse_lines ls cur (set_cpu (nat cur) (\<lambda>d. d\<lparr>corenum := u32_of val\<rparr>) info) }
      else parse_lines ls cur info)"

definition parse_cpuinfo :: "string list \<Rightarrow> cpuinfo_t option" where
  "parse_cpuinfo lines = parse_lines lines (-1) zero_cpuinfo"

text \<open>The loop over the paths \<open>/sys/devices/system/node/node<n>/cpu<m>\<close>, whose first 29
  characters are fixed.\<close>

fun parse_paths :: "string list \<Rightarrow> 32 word \<Rightarrow> nat \<Rightarrow> cpuinfo_t \<Rightarrow> cpuinfo_t option" where
  "parse_paths [] numabit nodes info = Some (info\<lparr>numnodes := nodes\<rparr>)"
| "parse_paths (p # ps) numabit nodes info = do {
     let s = drop 29 p;
     node \<leftarrow> atoi s;
     if node < 0 \<or> 31 \<le> node then None
     else do {
       let seen = bit_test numabit (nat node);
       let numabit = (if seen then numabit else bit_set numabit (nat node));
       let nodes = (if seen then nodes else nodes + 1);
       rest \<leftarrow> (case dropWhile (\<lambda>c. c \<noteq> CHR ''/'') s of [] \<Rightarrow> None | t \<Rightarrow> Some (drop 4 t));
       cpu \<leftarrow> atoi rest;
       if int MAX_CPUS \<le> cpu then parse_paths ps numabit nodes info
       else if cpu < 0 then None
       else parse_paths ps numabit nodes (set_cpu (nat cpu) (\<lambda>d. d\<lparr>numanode := nat node\<rparr>) info) } }"

definition parse_sysfs :: "string list \<Rightarrow> cpuinfo_t \<Rightarrow> cpuinfo_t option" where
  "parse_sysfs paths info = parse_paths paths 0 0 info"

text \<open>The first argument is the table of an earlier call, when \<open>parsed\<close> is set.\<close>

definition get_cpuinfo :: "cpuinfo_t option \<Rightarrow> string list \<Rightarrow> string list \<Rightarrow> cpuinfo_t option" where
  "get_cpuinfo parsed lines paths =
     (case parsed of Some info \<Rightarrow> Some info | None \<Rightarrow> do { info \<leftarrow> parse_cpuinfo lines; parse_sysfs paths info })"

subsection \<open>The arguments of the EAL\<close>

text \<open>Allocations succeed.\<close>

definition add_arg :: "string \<Rightarrow> string list \<Rightarrow> string list" where
  "add_arg arg argv = argv @ [arg]"

fun hex_lower_digit :: "nat \<Rightarrow> char" where
  "hex_lower_digit d = (if d < 10 then char_of (48 + d) else char_of (87 + d))"

fun hex_lower :: "nat \<Rightarrow> string" where
  "hex_lower n = (if n < 16 then [hex_lower_digit n] else hex_lower (n div 16) @ [hex_lower_digit (n mod 16)])"

declare hex_lower.simps [simp del]
declare hex_lower_digit.simps [simp del]

text \<open>\<open>1 << n\<close> on an \<open>int\<close>, which is undefined from \<open>n = 31\<close> on.\<close>

definition int_bit :: "nat \<Rightarrow> 64 word option" where
  "int_bit n = (if n < 31 then Some (push_bit n 1) else None)"

text \<open>The nodes of the worker CPUs.\<close>

primrec worker_nodes :: "dpdk_conf \<Rightarrow> cpuinfo_t \<Rightarrow> nat list \<Rightarrow> 32 word \<Rightarrow> 32 word option" where
  "worker_nodes conf cpu [] bm = Some bm"
| "worker_nodes conf cpu (i # is) bm =
     (if bit_test (core_bitmap conf) i
      then if socket (cpus cpu ! i) < 31 \<and> numanode (cpus cpu ! i) < 31
           then worker_nodes conf cpu is (bit_set bm (numanode (cpus cpu ! i))) else None
      else worker_nodes conf cpu is bm)"

text \<open>\<open>len += snprintf(buf + len, 32 - len, s)\<close>: the text so far, not yet cut to the buffer. When it
  is longer than 32 the size passed is negative, that is, huge.\<close>

definition append32 :: "string \<Rightarrow> string \<Rightarrow> string option" where
  "append32 s t = (if 32 < length s then None else Some (s @ t))"

primrec socket_mem :: "dpdk_conf \<Rightarrow> 32 word \<Rightarrow> nat list \<Rightarrow> string \<Rightarrow> string option" where
  "socket_mem conf nodes [] s = Some s"
| "socket_mem conf nodes (i # is) s = do {
     s \<leftarrow> (if 1 \<le> i then append32 s '','' else Some s);
     if 31 \<le> i then None
     else do {
       s \<leftarrow> append32 s (if bit_test nodes i then if d_use_jumbo conf \<or> d_enable_tso conf then ''2750'' else ''768''
                        else if enable_same_numa conf then ''0'' else ''1'');
       socket_mem conf nodes is s } }"

definition eal_argv :: "dpdk_conf \<Rightarrow> 64 word \<Rightarrow> string \<Rightarrow> string list" where
  "eal_argv conf lcores mem =
     (let argv = fold add_arg [''virtio-forwarder'', ''--main-lcore'', strlcpy (dec (master_lcore conf)) 32, ''--log-level'',
                   strlcpy (dec (u32_of (log_level conf))) 32, ''--huge-dir'', huge_dir conf, ''--file-prefix'', ''virtio-forwarder_''] [];
          argv = (if enable_vfio_vf_token conf then fold add_arg [''--vfio-vf-token'', vfio_vf_token conf] argv else argv)
      in fold add_arg [''--huge-unlink'', ''-a'', ''ffff:ff:ff.f'', ''-c'', strlcpy (hex_lower (unat lcores)) 32, ''-n'', ''4'',
           ''--socket-mem'', mem] argv)"

text \<open>\<open>buf\<close> keeps the core mask when there is no node.\<close>

definition dpdk_eal_initialize :: "cpuinfo_t option \<Rightarrow> (string list \<Rightarrow> int) \<Rightarrow> dpdk_conf \<Rightarrow> (int \<times> string list) option" where
  "dpdk_eal_initialize info rte_eal_init conf =
     (case info of
        None \<Rightarrow> Some (-1, [])
      | Some cpu \<Rightarrow>
          if core_bitmap conf AND cpubitmap cpu \<noteq> core_bitmap conf then Some (-1, [])
          else do {
            master \<leftarrow> int_bit (master_lcore conf);
            if master AND cpubitmap cpu = 0 then Some (-1, [])
            else if core_bitmap conf AND master \<noteq> 0 then Some (-1, [])
            else do {
              nodes \<leftarrow> worker_nodes conf cpu [0..<MAX_CPUS] 0;
              let lcores = core_bitmap conf OR master;
              mem \<leftarrow> (if numnodes cpu = 0 then Some (hex_lower (unat lcores)) else socket_mem conf nodes [0..<numnodes cpu] []);
              let argv = eal_argv conf lcores (strlcpy mem 32);
              let ret = rte_eal_init argv;
              Some (if ret < 0 then ret else 0, argv) } })"

subsection \<open>Reading the CPUs back\<close>

text \<open>The lines of a CPU in \<open>/proc/cpuinfo\<close>; \<open>tab\<close> is the separator.\<close>

definition tab :: char where
  "tab = char_of (9 :: nat)"

definition newline :: char where
  "newline = char_of (10 :: nat)"

lemma tab_colon [simp]: "tab \<noteq> CHR '':''"
proof
  assume "tab = CHR '':''"
  then have "(of_char tab :: nat) = of_char (CHR '':'')" by simp
  then show False by (simp add: tab_def)
qed

definition cpu_line :: "string \<Rightarrow> nat \<Rightarrow> string" where
  "cpu_line key n = key @ [tab] @ '': '' @ dec n @ [newline]"

definition core_key :: string where
  "core_key = ''core id'' @ [tab]"

definition vendor_line :: string where
  "vendor_line = ''vendor_id'' @ [tab] @ '': GenuineIntel'' @ [newline]"

definition cpu_lines :: "cpu_desc \<Rightarrow> string list" where
  "cpu_lines d = [cpu_line ''processor'' (cpunum d), vendor_line, cpu_line ''physical id'' (socket d),
     cpu_line core_key (corenum d), [newline]]"

lemma atoi_number:
  assumes "n < 2 ^ 31"
  shows "atoi (CHR '' '' # dec n @ [newline]) = Some (int n)"
proof -
  obtain c cs where c: "dec n = c # cs" "is_digit c" using dec_ne [of n] dec_digits [of _ n] by (cases "dec n") auto
  have nd: "no_digit_first [newline]" by (simp add: no_digit_first_def newline_def is_digit_def)
  have "number (c # cs @ [newline]) = n" using number_dec [OF nd, of n] c(1) by simp
  moreover have "is_space (CHR '' '')" by (simp add: is_space_def)
  ultimately show ?thesis
    using is_digit_no_space [OF c(2)] assms by (simp add: atoi_def c(1))
qed

lemma line_values:
  assumes "n < 2 ^ 31"
  shows "line_value (cpu_line ''processor'' n) = Some (int n)" "line_value (cpu_line ''physical id'' n) = Some (int n)"
    "line_value (cpu_line core_key n) = Some (int n)"
  using atoi_number [OF assms] by (simp_all add: line_value_def cpu_line_def core_key_def)

lemma strmatches:
  "strmatch ''processor'' (cpu_line ''processor'' n)"
  "\<not> strmatch ''processor'' (cpu_line ''physical id'' n)" "strmatch ''physical id'' (cpu_line ''physical id'' n)"
  "\<not> strmatch ''processor'' (cpu_line core_key n)" "\<not> strmatch ''physical id'' (cpu_line core_key n)"
  "strmatch ''core id'' (cpu_line core_key n)"
  "\<not> strmatch ''processor'' vendor_line" "\<not> strmatch ''physical id'' vendor_line" "\<not> strmatch ''core id'' vendor_line"
  "\<not> strmatch ''processor'' [newline]" "\<not> strmatch ''physical id'' [newline]" "\<not> strmatch ''core id'' [newline]"
  by (simp_all add: strmatch_def cpu_line_def vendor_line_def core_key_def)

text \<open>What the lines of one CPU do.\<close>

definition record_cpu :: "cpu_desc \<Rightarrow> cpuinfo_t \<Rightarrow> cpuinfo_t" where
  "record_cpu d info =
     info\<lparr>cpubitmap := bit_set (cpubitmap info) (cpunum d), numcpus := numcpus info + 1,
          numsockets := max (numsockets info) (socket d + 1),
          cpus := (cpus info)[cpunum d := (cpus info ! cpunum d)\<lparr>cpunum := cpunum d, alive := 1, socket := socket d, corenum := corenum d\<rparr>]\<rparr>"

definition cpu_desc_ok :: "cpu_desc \<Rightarrow> bool" where
  "cpu_desc_ok d \<longleftrightarrow> cpunum d < 64 \<and> socket d < 2 ^ 31 - 1 \<and> corenum d < 2 ^ 31 \<and> alive d = 1 \<and> numanode d = 0"

lemma u32_of_small [simp]: "n < 2 ^ 32 \<Longrightarrow> u32_of (int n) = n"
  by (simp add: u32_of_def nat_mod_distrib)

lemma parse_cpu_lines:
  assumes "cpu_desc_ok d" "length (cpus info) = 64"
  shows "parse_lines (cpu_lines d @ ls) cur info = parse_lines ls (int (cpunum d)) (record_cpu d info)"
proof -
  have n: "cpunum d < 2 ^ 31" "socket d < 2 ^ 31" "corenum d < 2 ^ 31" "cpunum d < length (cpus info)" using assms by (auto simp: cpu_desc_ok_def)
  have s: "u32_of (int (socket d)) = socket d" "u32_of (int (socket d) + 1) = socket d + 1" "u32_of (int (corenum d)) = corenum d"
    using assms(1) u32_of_small [of "socket d + 1"] by (auto simp: cpu_desc_ok_def add.commute)
  have p: "parse_lines (cpu_line ''processor'' (cpunum d) # ls) cur info = parse_lines ls (int (cpunum d))
      ((set_cpu (cpunum d) (\<lambda>e. e\<lparr>cpunum := cpunum d, alive := 1\<rparr>) (info\<lparr>cpubitmap := bit_set (cpubitmap info) (cpunum d)\<rparr>))
         \<lparr>numcpus := numcpus info + 1\<rparr>)" for ls
    using assms(1) by (simp add: strmatches line_values n(1) MAX_CPUS_def cpu_desc_ok_def Let_def set_cpu_def)
  have q: "parse_lines (cpu_line ''physical id'' (socket d) # ls) (int i) f = parse_lines ls (int i)
      ((set_cpu i (\<lambda>e. e\<lparr>socket := socket d\<rparr>) f)\<lparr>numsockets := max (numsockets f) (socket d + 1)\<rparr>)" for ls i f
    by (cases f; cases "numsockets f = socket d + 1") (simp_all add: strmatches line_values(2) [OF n(2)] s Let_def set_cpu_def max_def)
  have r: "parse_lines (cpu_line core_key (corenum d) # ls) (int i) f =
      parse_lines ls (int i) (set_cpu i (\<lambda>e. e\<lparr>corenum := corenum d\<rparr>) f)" for ls i f
    by (simp add: strmatches line_values(3) [OF n(3)] s set_cpu_def)
  have v: "parse_lines (vendor_line # ls) c f = parse_lines ls c f" "parse_lines ([newline] # ls) c f = parse_lines ls c f" for ls c f
    by (simp_all add: strmatches)
  have "set_cpu (cpunum d) (\<lambda>e. e\<lparr>corenum := corenum d\<rparr>) ((set_cpu (cpunum d) (\<lambda>e. e\<lparr>socket := socket d\<rparr>)
      ((set_cpu (cpunum d) (\<lambda>e. e\<lparr>cpunum := cpunum d, alive := 1\<rparr>) (info\<lparr>cpubitmap := bit_set (cpubitmap info) (cpunum d)\<rparr>))
         \<lparr>numcpus := numcpus info + 1\<rparr>))\<lparr>numsockets := max (numsockets info) (socket d + 1)\<rparr>) = record_cpu d info"
    using n(4) by (simp add: set_cpu_def record_cpu_def)
  moreover have "numsockets ((set_cpu (cpunum d) (\<lambda>e. e\<lparr>cpunum := cpunum d, alive := 1\<rparr>) (info\<lparr>cpubitmap := b\<rparr>))\<lparr>numcpus := k\<rparr>) = numsockets info"
    for b k by (simp add: set_cpu_def)
  ultimately show ?thesis unfolding cpu_lines_def append_Cons append_Nil p v q r by simp
qed

lemma parse_cpus:
  assumes "list_all cpu_desc_ok ds" "length (cpus info) = 64"
  shows "parse_lines (concat (map cpu_lines ds)) cur info = Some (fold record_cpu ds info)"
  using assms
proof (induction ds arbitrary: cur info)
  case (Cons d ds)
  then show ?case using parse_cpu_lines [of d info "concat (map cpu_lines ds)" cur] by (simp add: record_cpu_def)
qed simp

lemma record_cpus_sel:
  assumes "list_all cpu_desc_ok ds" "length (cpus info) = 64"
  shows "numcpus (fold record_cpu ds info) = numcpus info + length ds \<and>
    (\<forall>j. bit (cpubitmap (fold record_cpu ds info)) j \<longleftrightarrow> bit (cpubitmap info) j \<or> j \<in> cpunum ` set ds) \<and>
    numsockets (fold record_cpu ds info) = Max (insert (numsockets info) ((\<lambda>d. socket d + 1) ` set ds))"
  using assms
proof (induction ds arbitrary: info)
  case (Cons d ds)
  let ?i = "record_cpu d info"
  have l: "length (cpus ?i) = 64" "list_all cpu_desc_ok ds" "cpunum d < 64"
    using Cons.prems by (simp_all add: record_cpu_def) (simp add: cpu_desc_ok_def)
  have s: "numcpus ?i = numcpus info + 1" "numsockets ?i = max (numsockets info) (socket d + 1)"
    "bit (cpubitmap ?i) j \<longleftrightarrow> bit (cpubitmap info) j \<or> j = cpunum d" for j
    using l(3) by (auto simp: record_cpu_def bitmap_simps)
  have "Max (insert (max (numsockets info) (socket d + 1)) M) = Max (insert (numsockets info) (insert (socket d + 1) M))"
    if "finite M" for M :: "nat set"
    using that by (cases "M = {}") (simp_all add: max.assoc)
  then show ?case using Cons.IH [OF l(2,1)] s by auto
qed simp

lemma record_cpus_other:
  "j \<notin> cpunum ` set ds \<Longrightarrow> cpus (fold record_cpu ds info) ! j = cpus info ! j"
  by (induction ds arbitrary: info) (auto simp: record_cpu_def)

lemma record_cpus_nth:
  assumes "list_all cpu_desc_ok ds" "distinct (map cpunum ds)" "d \<in> set ds" "length (cpus info) = 64"
    "\<forall>j < 64. numanode (cpus info ! j) = 0"
  shows "cpus (fold record_cpu ds info) ! cpunum d = d"
  using assms
proof (induction ds arbitrary: info)
  case (Cons e ds)
  have l: "length (cpus (record_cpu e info)) = 64" "\<forall>j < 64. numanode (cpus (record_cpu e info) ! j) = 0"
    using Cons.prems by (auto simp: record_cpu_def nth_list_update cpu_desc_ok_def)
  show ?case
  proof (cases "d \<in> set ds")
    case True
    then show ?thesis using Cons.IH [of "record_cpu e info"] Cons.prems l by simp
  next
    case False
    then have d: "d = e" "cpunum d \<notin> cpunum ` set ds" using Cons.prems(2,3) by auto
    have "cpunum e < 64" "alive e = 1" "numanode e = 0" "numanode (cpus info ! cpunum e) = 0"
      using Cons.prems(1,5) by (simp_all add: cpu_desc_ok_def)
    then have "cpus (record_cpu e info) ! cpunum e = e" using Cons.prems(4) by (simp add: record_cpu_def)
    then show ?thesis using record_cpus_other [OF d(2), of "record_cpu e info"] d(1) by simp
  qed
qed simp


definition demo_cpu :: "nat \<Rightarrow> nat \<Rightarrow> cpu_desc" where
  "demo_cpu n s = \<lparr>cpunum = n, corenum = n, socket = s, alive = 1, numanode = 0\<rparr>"


subsection \<open>What the EAL is given\<close>

lemma hex_lower_parse: "foldl (\<lambda>n c. 16 * n + hex_digit_value c) 0 (hex_lower n) = n"
proof (induction n rule: hex_lower.induct)
  case (1 n)
  have "d < 16 \<Longrightarrow> hex_digit_value (hex_lower_digit d) = d" for d
    by (auto simp: hex_lower_digit.simps hex_digit_value_def is_digit_def digit_value_def)
  then show ?case using 1 by (subst hex_lower.simps) (auto split: if_splits)
qed

lemma length_hex_lower: "0 < k \<Longrightarrow> n < 16 ^ k \<Longrightarrow> length (hex_lower n) \<le> k"
proof (induction n arbitrary: k rule: hex_lower.induct)
  case (1 n)
  show ?case
  proof (cases "n < 16")
    case True then show ?thesis using 1(2) by (simp add: hex_lower.simps)
  next
    case False
    then obtain j where j: "k = Suc j" "0 < j" using 1(2,3) by (cases k; cases "k - 1") auto
    have "n div 16 < 16 ^ j" using 1(3) j(1) by (simp add: less_mult_imp_div_less)
    then have "length (hex_lower (n div 16)) \<le> j" using 1(1) False j(2) by blast
    then show ?thesis using False j(1) by (subst hex_lower.simps) simp
  qed
qed

lemma mask_string: "strtoull_hex (strlcpy (hex_lower (unat (w :: 64 word))) 32) = w"
proof -
  have w: "unat w < 2 ^ 64" using unsigned_less [of w] by simp
  then have "length (hex_lower (unat w)) \<le> 16" by (intro length_hex_lower) simp_all
  then show ?thesis using w by (simp add: strtoull_hex_def hex_lower_parse)
qed

lemma fold_add_arg: "fold add_arg xs ys = ys @ xs"
  by (induction xs arbitrary: ys) (simp_all add: add_arg_def)

lemma eal_argv_tail:
  "\<exists>pre. eal_argv conf w mem = pre @ [''-c'', strlcpy (hex_lower (unat w)) 32, ''-n'', ''4'', ''--socket-mem'', mem]"
  unfolding eal_argv_def Let_def fold_add_arg
  by (cases "enable_vfio_vf_token conf") (simp_all flip: append_assoc append_Cons)

text \<open>The memory reserved on a node, in MiB.\<close>

definition node_mem :: "dpdk_conf \<Rightarrow> cpuinfo_t \<Rightarrow> nat \<Rightarrow> string" where
  "node_mem conf cpu i =
     (if \<exists>j<64. bit (core_bitmap conf) j \<and> numanode (cpus cpu ! j) = i
      then if d_use_jumbo conf \<or> d_enable_tso conf then ''2750'' else ''768''
      else if enable_same_numa conf then ''0'' else ''1'')"

lemma worker_nodes_bits:
  "worker_nodes conf cpu is bm = Some bm' \<Longrightarrow>
     bit bm' i \<longleftrightarrow> bit bm i \<or> (\<exists>j\<in>set is. bit (core_bitmap conf) j \<and> numanode (cpus cpu ! j) = i)"
  by (induction "is" arbitrary: bm) (auto simp: bitmap_simps split: if_splits)

lemma socket_mem_text:
  assumes "\<forall>i\<in>set is. bit_test nodes i \<longleftrightarrow> (\<exists>j<64. bit (core_bitmap conf) j \<and> numanode (cpus cpu ! j) = i)"
    "length s + 5 * length is \<le> 32" "\<forall>i\<in>set is. i < 31"
  shows "socket_mem conf nodes is s = Some (s @ concat (map (\<lambda>i. (if 1 \<le> i then '','' else []) @ node_mem conf cpu i) is))"
  using assms
proof (induction "is" arbitrary: s)
  case (Cons i "is")
  have l: "length (node_mem conf cpu i) \<le> 4" by (simp add: node_mem_def)
  have n: "(if bit_test nodes i then if d_use_jumbo conf \<or> d_enable_tso conf then ''2750'' else ''768''
      else if enable_same_numa conf then ''0'' else ''1'') = node_mem conf cpu i"
    using Cons.prems(1) by (simp add: node_mem_def)
  let ?t = "s @ (if 1 \<le> i then '','' else []) @ node_mem conf cpu i"
  have "length ?t + 5 * length is \<le> 32" using Cons.prems(2) l by simp
  moreover have "socket_mem conf nodes (i # is) s = socket_mem conf nodes is ?t"
    using Cons.prems(2,3) l by (simp add: append32_def n)
  ultimately show ?case using Cons.IH [of ?t] Cons.prems(1,3) by simp
qed simp

lemma concat_join:
  "concat (map (\<lambda>i. (if 1 \<le> i then '','' else []) @ f i) [0..<n]) = join (CHR '','') (map f [0..<n])"
proof -
  have j: "\<forall>k\<in>set ks. 1 \<le> k \<Longrightarrow> concat (map (\<lambda>i. (if 1 \<le> i then '','' else []) @ f i) ks) =
      (if ks = [] then [] else CHR '','' # join (CHR '','') (map f ks))" for ks
  proof (induction ks)
    case (Cons k ks)
    then show ?case by (cases ks) auto
  qed simp
  show ?thesis
  proof (cases n)
    case (Suc k)
    define ks where "ks = [1..<n]"
    have "[0..<n] = 0 # ks" using Suc by (simp add: ks_def upt_conv_Cons del: upt_Suc)
    moreover have "\<forall>k\<in>set ks. 1 \<le> k" by (simp add: ks_def)
    ultimately show ?thesis using j [of ks] by (cases ks) simp_all
  qed simp
qed

text \<open>C37: When the EAL is initialised, the checks have passed: every worker CPU exists, the main CPU exists
  and is not a worker. The core mask passed to the EAL is that of the workers and the main CPU,
  and on machines with at most six nodes the memory argument lists every node.\<close>

theorem eal_arguments:
  assumes "dpdk_eal_initialize (Some cpu) init conf = Some (r, argv)" "argv \<noteq> []" "numnodes cpu \<in> {1..6}"
  shows "(\<forall>j. bit (core_bitmap conf) j \<longrightarrow> bit (cpubitmap cpu) j) \<and> bit (cpubitmap cpu) (master_lcore conf) \<and>
    \<not> bit (core_bitmap conf) (master_lcore conf) \<and>
    (\<exists>pre lcores. argv = pre @ [''-c'', lcores, ''-n'', ''4'', ''--socket-mem'', join (CHR '','') (map (node_mem conf cpu) [0..<numnodes cpu])] \<and>
       (\<forall>j. bit (strtoull_hex lcores) j \<longleftrightarrow> bit (core_bitmap conf) j \<or> j = master_lcore conf))"
proof -
  let ?m = "push_bit (master_lcore conf) 1 :: 64 word"
  obtain nodes mem where m: "master_lcore conf < 31" and sub: "core_bitmap conf AND cpubitmap cpu = core_bitmap conf"
    and main: "?m AND cpubitmap cpu \<noteq> 0" "core_bitmap conf AND ?m = 0"
    and n: "worker_nodes conf cpu [0..<MAX_CPUS] 0 = Some nodes" "socket_mem conf nodes [0..<numnodes cpu] [] = Some mem"
    and a: "argv = eal_argv conf (core_bitmap conf OR ?m) (strlcpy mem 32)"
    using assms by (auto simp: dpdk_eal_initialize_def int_bit_def bind_Some_iff Let_def split: if_splits)
  have "bit_test (cpubitmap cpu) (master_lcore conf)" using main(1) by (simp add: bit_test_def)
  moreover have "\<not> bit_test (core_bitmap conf) (master_lcore conf)" using main(2) by (simp add: bit_test_def and.commute)
  moreover have "bit (cpubitmap cpu) j" if "bit (core_bitmap conf) j" for j
    using that arg_cong [OF sub, of "\<lambda>w. bit w j"] by (simp add: bit_and_iff)
  moreover have "bit (core_bitmap conf OR ?m) j \<longleftrightarrow> bit (core_bitmap conf) j \<or> j = master_lcore conf" for j
    using m unfolding bit_set_def [symmetric] by (auto simp: bitmap_simps)
  moreover have "mem = join (CHR '','') (map (node_mem conf cpu) [0..<numnodes cpu])"
  proof -
    have b: "\<forall>i\<in>set [0..<numnodes cpu]. bit_test nodes i \<longleftrightarrow> (\<exists>j<64. bit (core_bitmap conf) j \<and> numanode (cpus cpu ! j) = i)"
      using worker_nodes_bits [OF n(1)] by (auto simp: bit_test_eq MAX_CPUS_def)
    have "length [] + 5 * length [0..<numnodes cpu] \<le> 32" "\<forall>i\<in>set [0..<numnodes cpu]. i < 31" using assms(3) by auto
    from socket_mem_text [OF b this] show ?thesis using n(2) concat_join [of "node_mem conf cpu" "numnodes cpu"] by simp
  qed
  moreover have "length (join (CHR '','') (map (node_mem conf cpu) [0..<numnodes cpu])) < 32"
  proof -
    have "length (join d ts) \<le> sum_list (map (\<lambda>t. length t + 1) ts)" for d ts by (induction d ts rule: join.induct) auto
    also have "sum_list (map (\<lambda>t. length t + 1) (map (node_mem conf cpu) [0..<numnodes cpu])) \<le> 5 * numnodes cpu"
      using sum_list_mono [of "[0..<numnodes cpu]" "\<lambda>i. length (node_mem conf cpu i) + 1" "\<lambda>_. 5"]
      by (simp add: node_mem_def o_def sum_list_triv mult.commute)
    finally have "length (join (CHR '','') (map (node_mem conf cpu) [0..<numnodes cpu])) \<le> 5 * numnodes cpu" .
    then show ?thesis using assms(3) by simp
  qed
  moreover obtain pre where "eal_argv conf (core_bitmap conf OR ?m) (strlcpy mem 32) =
      pre @ [''-c'', strlcpy (hex_lower (unat (core_bitmap conf OR ?m))) 32, ''-n'', ''4'', ''--socket-mem'', strlcpy mem 32]"
    using eal_argv_tail by blast
  moreover note mask_string [of "core_bitmap conf OR ?m"]
  ultimately show ?thesis unfolding a by (auto simp: bit_test_eq intro!: exI [of _ pre])
qed

text \<open>With eight nodes in use and jumbo frames, the text of the memory argument overflows its buffer.\<close>

lemma socket_mem_overflow:
  "d_use_jumbo conf \<Longrightarrow> socket_mem conf (-1) [0..<8] [] = None"
  by (simp add: upt_rec append32_def bit_test_eq)

lemma worker_nodes_total:
  "\<forall>i\<in>set is. socket (cpus cpu ! i) < 31 \<and> numanode (cpus cpu ! i) < 31 \<Longrightarrow> \<exists>bm'. worker_nodes conf cpu is bm = Some bm'"
  by (induction "is" arbitrary: bm) simp_all

definition demo_machine :: cpuinfo_t where
  "demo_machine = zero_cpuinfo\<lparr>numnodes := 2, cpubitmap := 0xF\<rparr>"

definition demo_eal_conf :: dpdk_conf where
  "demo_eal_conf = \<lparr>log_level = 7, master_lcore = 0, huge_dir = ''/mnt/huge'', vfio_vf_token = [], core_bitmap = 6,
     d_use_jumbo = False, d_enable_tso = False, enable_same_numa = False, enable_vfio_vf_token = False\<rparr>"

lemma demo_eal:
  "\<exists>argv. dpdk_eal_initialize (Some demo_machine) (\<lambda>_. 4) demo_eal_conf = Some (0, argv) \<and> argv \<noteq> []"
proof -
  have z: "cpus demo_machine ! i = \<lparr>cpunum = 0, corenum = 0, socket = 0, alive = 0, numanode = 0\<rparr>" if "i < MAX_CPUS" for i
    using that by (simp add: demo_machine_def zero_cpuinfo_def)
  obtain nodes where n: "worker_nodes demo_eal_conf demo_machine [0..<MAX_CPUS] 0 = Some nodes"
    using worker_nodes_total [of "[0..<MAX_CPUS]" demo_machine demo_eal_conf 0] z by auto
  obtain mem where m: "socket_mem demo_eal_conf nodes [0..<2] [] = Some mem"
    by (cases "bit_test nodes 0"; cases "bit_test nodes 1") (simp_all add: numeral_2_eq_2 append32_def demo_eal_conf_def)
  obtain pre where p: "eal_argv demo_eal_conf 7 (strlcpy mem 32) =
      pre @ [''-c'', strlcpy (hex_lower (unat (7 :: 64 word))) 32, ''-n'', ''4'', ''--socket-mem'', strlcpy mem 32]"
    using eal_argv_tail by blast
  have d: "core_bitmap demo_eal_conf = 6" "master_lcore demo_eal_conf = 0" "cpubitmap demo_machine = 15" "numnodes demo_machine = 2"
    by (simp_all add: demo_machine_def demo_eal_conf_def zero_cpuinfo_def)
  show ?thesis using n m p by (simp add: dpdk_eal_initialize_def d int_bit_def)
qed

theorem eal_arguments_witness:
  "\<exists>argv lcores. dpdk_eal_initialize (Some demo_machine) (\<lambda>_. 4) demo_eal_conf = Some (0, argv) \<and>
     numnodes demo_machine \<in> {1..6} \<and> (\<exists>pre. argv = pre @ [''-c'', lcores, ''-n'', ''4'', ''--socket-mem'', ''768,1'']) \<and>
     (\<forall>j. bit (strtoull_hex lcores) j \<longleftrightarrow> bit (6 :: 64 word) j \<or> j = 0)"
proof -
  obtain argv where a: "dpdk_eal_initialize (Some demo_machine) (\<lambda>_. 4) demo_eal_conf = Some (0, argv)" "argv \<noteq> []"
    using demo_eal by blast
  have n: "numnodes demo_machine \<in> {1..6}" by (simp add: demo_machine_def)
  have b: "\<exists>j<64. bit (6 :: 64 word) j" by (rule exI [of _ 1]) simp
  have z: "j < 64 \<Longrightarrow> numanode (cpus demo_machine ! j) = 0" for j by (simp add: demo_machine_def zero_cpuinfo_def MAX_CPUS_def)
  have "node_mem demo_eal_conf demo_machine 0 = ''768''" "node_mem demo_eal_conf demo_machine 1 = ''1''"
    using b z by (auto simp: node_mem_def demo_eal_conf_def)
  then have "join (CHR '','') (map (node_mem demo_eal_conf demo_machine) [0..<numnodes demo_machine]) = ''768,1''"
    by (simp add: demo_machine_def upt_rec)
  then show ?thesis using eal_arguments [OF a n] a n by (auto simp: demo_eal_conf_def)
qed

end
