(* ===== verification/FileMon.thy ===== *)
theory FileMon
  imports Platform
begin

text \<open>
  Ports by name: \<open>get_VF_PCIE_from_netdev\<close> of \<open>sriov.c\<close>, which asks \<open>ethtool\<close> for the
  PCI address and the number of the virtual function behind a network interface, and \<open>file_mon.c\<close>,
  the thread that takes \<open>add_port\<close> and \<open>del_port\<close> commands from \<open>/tmp/vio_cmd\<close>.

  What the command prints is the argument \<open>run\<close>, from the command line to the output, or
  \<open>None\<close> when it cannot be run. Buffers are lists of characters; \<open>junk\<close> stands for what follows
  them in memory, since neither buffer is always terminated.
\<close>

subsection \<open>Strings in memory\<close>

abbreviation NUL :: char where
  "NUL \<equiv> CHR 0x00"

text \<open>The string that a buffer holds at its start; the part before the first null byte.\<close>

definition cstring :: "string \<Rightarrow> string" where
  "cstring s = takeWhile (\<lambda>c. c \<noteq> NUL) s"

text \<open>\<open>%<n>s\<close>, with the rest of the input.\<close>

definition scan_s :: "nat \<Rightarrow> string \<Rightarrow> (string \<times> string) option" where
  "scan_s n s =
     (let s = dropWhile is_space s; t = take n (takeWhile (\<lambda>c. \<not> is_space c) s)
      in if t = [] then None else Some (t, drop (length t) s))"

text \<open>\<open>%hhu\<close>\<close>

definition scan_hhu :: "string \<Rightarrow> (nat \<times> string) option" where
  "scan_hhu s = map_option (\<lambda>(v, rest). (v mod 2 ^ 8, rest)) (scan_u s)"

subsection \<open>The device behind an interface\<close>

record sriov_info =
  si_dbdf :: string
  si_vf :: nat

text \<open>\<open>sscanf(_vf, "VF%hhu.%hhu")\<close>\<close>

definition scan_vf :: "string \<Rightarrow> nat option" where
  "scan_vf s = do {
     s \<leftarrow> scan_char (CHR ''V'') s;
     s \<leftarrow> scan_char (CHR ''F'') s;
     (_, s) \<leftarrow> scan_hhu s;
     s \<leftarrow> scan_char (CHR ''.'') s;
     (vfnum, _) \<leftarrow> scan_hhu s;
     Some vfnum }"

text \<open>\<open>None\<close> is the result -1.\<close>

definition get_VF_PCIE_from_netdev :: "(string \<Rightarrow> string option) \<Rightarrow> string \<Rightarrow> string \<Rightarrow> sriov_info option" where
  "get_VF_PCIE_from_netdev run junk netdev = do {
     out \<leftarrow> run (strlcpy (''/sbin/ethtool -i '' @ netdev) 128);
     if out = [] then None
     else do {
       let buf = cstring (take 2048 out @ junk);
       k \<leftarrow> strstr buf ''bus-info: NFP 0 '';
       (vf, rest) \<leftarrow> scan_s 8 (drop (k + 16) buf);
       (dbdf, _) \<leftarrow> scan_s 20 rest;
       vfnum \<leftarrow> scan_vf vf;
       Some \<lparr>si_dbdf = strlcpy dbdf 20, si_vf = vfnum\<rparr> } }"

subsection \<open>The commands\<close>

text \<open>\<open>sizeof(*keyword)\<close> is the size of one character.\<close>

definition match_token :: "string \<Rightarrow> string \<Rightarrow> bool" where
  "match_token test keyword \<longleftrightarrow> take 1 test = take 1 keyword"

definition scan_file ::
  "env \<Rightarrow> (nat \<Rightarrow> gstate \<Rightarrow> gstate) \<Rightarrow> (string \<Rightarrow> string option) \<Rightarrow> string \<Rightarrow> string \<Rightarrow> string \<Rightarrow> gstate \<Rightarrow> gstate option" where
  "scan_file env sched run junk after f st =
     (let buf = take 128 f @ replicate (128 - length f) NUL @ after; args = cstring (drop 8 buf) in
      if f = [] then Some st
      else if match_token (cstring buf) ''add_port '' then
        (case scan_s 16 args of
           None \<Rightarrow> Some st
         | Some (netdev, _) \<Rightarrow>
             (case get_VF_PCIE_from_netdev run junk netdev of
                None \<Rightarrow> Some st
              | Some vfinfo \<Rightarrow> map_option snd (virtio_forwarder_add_vf env (si_dbdf vfinfo) (si_vf vfinfo) st)))
      else if match_token (cstring buf) ''del_port '' then
        (case scan_s 16 args of
           None \<Rightarrow> Some st
         | Some (netdev, _) \<Rightarrow>
             (case get_VF_PCIE_from_netdev run junk netdev of
                None \<Rightarrow> Some st
              | Some vfinfo \<Rightarrow> map_option snd (virtio_forwarder_remove_vf env sched (si_dbdf vfinfo) (si_vf vfinfo) st)))
      else Some st)"

text \<open>What the thread finds at \<open>/tmp/vio_cmd\<close>.\<close>

datatype vio_cmd = No_file | Unreadable | Contents string

text \<open>One pass of the loop: the file is deleted whatever it holds.\<close>

definition file_mon_pass ::
  "env \<Rightarrow> (nat \<Rightarrow> gstate \<Rightarrow> gstate) \<Rightarrow> (string \<Rightarrow> string option) \<Rightarrow> string \<Rightarrow> string \<Rightarrow> vio_cmd \<Rightarrow> gstate \<Rightarrow> (vio_cmd \<times> gstate) option" where
  "file_mon_pass env sched run junk after file st =
     (case file of
        No_file \<Rightarrow> Some (No_file, st)
      | Unreadable \<Rightarrow> Some (No_file, st)
      | Contents f \<Rightarrow> map_option (\<lambda>st. (No_file, st)) (scan_file env sched run junk after f st))"

text \<open>The loop; before each pass other programs may have written the file, and \<open>must_stop\<close> may
  have been set. The element \<open>(stop, new)\<close> of the list says so; \<open>None\<close> leaves the file alone.\<close>

primrec file_mon_threadmain ::
  "env \<Rightarrow> (nat \<Rightarrow> gstate \<Rightarrow> gstate) \<Rightarrow> (string \<Rightarrow> string option) \<Rightarrow> string \<Rightarrow> string \<Rightarrow> (bool \<times> vio_cmd option) list
     \<Rightarrow> vio_cmd \<Rightarrow> gstate \<Rightarrow> (vio_cmd \<times> gstate) option" where
  "file_mon_threadmain env sched run junk after [] file st = Some (file, st)"
| "file_mon_threadmain env sched run junk after (ev # evs) file st =
     (let file = (case snd ev of None \<Rightarrow> file | Some f \<Rightarrow> f) in
      if fst ev then Some (file, st)
      else do {
        (file, st) \<leftarrow> file_mon_pass env sched run junk after file st;
        file_mon_threadmain env sched run junk after evs file st })"

subsection \<open>The device is read back\<close>

lemma cstring_append: "NUL \<notin> set s \<Longrightarrow> cstring (s @ t) = s @ cstring t"
  by (induction s) (auto simp: cstring_def)

lemma cstring_no_nul [simp]: "NUL \<notin> set (cstring s)"
  by (auto simp: cstring_def dest: set_takeWhileD)

lemma newline_NUL [simp]: "newline \<noteq> NUL" "NUL \<noteq> newline"
proof -
  show "newline \<noteq> NUL"
  proof
    assume "newline = NUL"
    then have "(of_char newline :: nat) = of_char NUL" by simp
    then show False by (simp add: newline_def)
  qed
  then show "NUL \<noteq> newline" by metis
qed

lemma newline_space [simp]: "is_space newline"
  by (simp add: is_space_def newline_def)

lemma cstring_NUL [simp]: "cstring (NUL # s) = []"
  by (simp add: cstring_def)

lemma strstr_extend:
  "strstr s p = Some k \<Longrightarrow> strstr (s @ t) p = Some k \<and> k + length p \<le> length s"
proof (induction s arbitrary: k)
  case (Cons c s)
  show ?case
  proof (cases "take (length p) (c # s) = p")
    case True
    then have l: "length p \<le> length (c # s)" by (metis length_take min.cobounded1)
    have "k = 0" using Cons.prems True by (simp del: take_Cons)
    moreover have "take (length p) ((c # s) @ t) = p" using True l by (simp only: take_append) simp
    ultimately show ?thesis using l by simp
  next
    case False
    then obtain j where j: "k = Suc j" "strstr s p = Some j" using Cons.prems by auto
    from Cons.IH [OF j(2)] have l: "strstr (s @ t) p = Some j" "j + length p \<le> length s" by auto
    then have "take (length p) ((c # s) @ t) = take (length p) (c # s)" by (simp only: take_append) simp
    then show ?thesis using False l j(1) by simp
  qed
qed (cases t; simp split: if_splits)

lemma scan_s_word:
  assumes "w \<noteq> []" "\<forall>c\<in>set w. \<not> is_space c" "length w \<le> n" "is_space d"
  shows "scan_s n (w @ d # s) = Some (w, d # s)" "scan_s n (d # w @ d # s) = Some (w, d # s)"
proof -
  have t: "takeWhile (\<lambda>c. \<not> is_space c) (w @ d # s) = w" using assms(2,4) by (simp add: takeWhile_append2)
  have w: "dropWhile is_space (w @ d # s) = w @ d # s" using assms(1,2) by (cases w) auto
  have "0 < n" using assms(1,3) by (cases w) auto
  then show "scan_s n (w @ d # s) = Some (w, d # s)" "scan_s n (d # w @ d # s) = Some (w, d # s)"
    using t w assms(1,3,4) by (simp_all add: scan_s_def)
qed

text \<open>The token that the driver prints for a virtual function.\<close>

definition vf_token :: "nat \<Rightarrow> nat \<Rightarrow> string" where
  "vf_token a b = ''VF'' @ dec a @ ''.'' @ dec b"

lemma scan_vf_token:
  assumes "a < 256" "b < 256"
  shows "scan_vf (vf_token a b) = Some b"
proof -
  have d: "no_digit_first (CHR ''.'' # dec b)" "no_digit_first []" by (simp_all add: no_digit_first_def is_digit_def)
  have "scan_u (dec a @ CHR ''.'' # dec b) = Some (a, CHR ''.'' # dec b)" "scan_u (dec b) = Some (b, [])"
    using scan_dec [OF _ d(1), of a] scan_dec [OF _ d(2), of b] assms by simp_all
  then show ?thesis using assms by (simp add: scan_vf_def vf_token_def scan_char_def scan_hhu_def)
qed

lemma digits_plain:
  assumes "c \<in> set (dec n)"
  shows "\<not> is_space c" "c \<noteq> NUL"
  using dec_digits [OF assms] is_digit_no_space by (auto simp: is_digit_def is_space_def)

lemma vf_token_plain: "c \<in> set (vf_token a b) \<Longrightarrow> \<not> is_space c \<and> c \<noteq> NUL"
  using digits_plain by (auto simp: vf_token_def is_space_def)

text \<open>An address that \<open>%20s\<close> reads whole.\<close>

definition plain_word :: "string \<Rightarrow> bool" where
  "plain_word s \<longleftrightarrow> s \<noteq> [] \<and> list_all (\<lambda>c. \<not> is_space c \<and> c \<noteq> NUL) s"

text \<open>The output of \<open>ethtool\<close>: a first part without the text that is looked for.\<close>

definition ethtool_output :: "string \<Rightarrow> nat \<Rightarrow> nat \<Rightarrow> string \<Rightarrow> string \<Rightarrow> string" where
  "ethtool_output pre a b dbdf post = pre @ ''bus-info: NFP 0 '' @ vf_token a b @ '' '' @ dbdf @ newline # post"

definition ethtool_ok :: "string \<Rightarrow> nat \<Rightarrow> nat \<Rightarrow> string \<Rightarrow> string \<Rightarrow> bool" where
  "ethtool_ok pre a b dbdf post \<longleftrightarrow>
     strstr (pre @ ''bus-info: NFP 0 '') ''bus-info: NFP 0 '' = Some (length pre) \<and> NUL \<notin> set pre \<and>
     a < 256 \<and> b < 256 \<and> length (vf_token a b) \<le> 8 \<and> plain_word dbdf \<and> length dbdf < 20 \<and>
     length (ethtool_output pre a b dbdf []) \<le> 2048"

lemma netdev_device:
  assumes "run (strlcpy (''/sbin/ethtool -i '' @ netdev) 128) = Some (ethtool_output pre a b dbdf post)"
    "ethtool_ok pre a b dbdf post"
  shows "get_VF_PCIE_from_netdev run junk netdev = Some \<lparr>si_dbdf = dbdf, si_vf = b\<rparr>"
proof -
  let ?key = "''bus-info: NFP 0 ''" and ?o = "ethtool_output pre a b dbdf []" and ?v = "vf_token a b"
  have ok: "strstr (pre @ ?key) ?key = Some (length pre)" "NUL \<notin> set pre" "a < 256" "b < 256" "length ?v \<le> 8"
    "plain_word dbdf" "length dbdf < 20" "length ?o \<le> 2048" using assms(2) by (simp_all add: ethtool_ok_def)
  have sp: "is_space (CHR '' '')" "is_space newline" "newline \<noteq> NUL" by (simp_all add: is_space_def [of "CHR '' ''"])
  have d: "dbdf \<noteq> []" "\<forall>c\<in>set dbdf. \<not> is_space c" "NUL \<notin> set dbdf" using ok(6) by (auto simp: plain_word_def list_all_iff)
  have "?v \<noteq> []" by (simp add: vf_token_def)
  then have v: "?v \<noteq> []" "\<forall>c\<in>set ?v. \<not> is_space c" "NUL \<notin> set ?v" using vf_token_plain by auto
  define t where "t = cstring (take (2048 - length ?o) post @ junk)"
  have "ethtool_output pre a b dbdf post = ?o @ post" by (simp add: ethtool_output_def)
  then have "take 2048 (ethtool_output pre a b dbdf post) = ?o @ take (2048 - length ?o) post"
    using ok(8) by (simp only: take_append) simp
  moreover have "NUL \<notin> set ?o" using ok(2) d(3) v(3) sp(3) by (simp add: ethtool_output_def)
  ultimately have buf: "cstring (take 2048 (ethtool_output pre a b dbdf post) @ junk) = (pre @ ?key) @ ?v @ CHR '' '' # dbdf @ newline # t"
    by (simp add: cstring_append t_def) (simp add: ethtool_output_def)
  have k: "strstr ((pre @ ?key) @ ?v @ CHR '' '' # dbdf @ newline # t) ?key = Some (length pre)"
    using strstr_extend [OF ok(1)] by blast
  have s1: "scan_s 8 (?v @ CHR '' '' # dbdf @ newline # t) = Some (?v, CHR '' '' # dbdf @ newline # t)"
    by (rule scan_s_word(1) [OF v(1,2) ok(5) sp(1)])
  have s2: "scan_s 20 (CHR '' '' # dbdf @ newline # t) = Some (dbdf, newline # t)"
    using scan_s_word(1) [OF d(1,2) _ sp(2), of 20 t] ok(7) sp(1) by (simp add: scan_s_def)
  have e: "drop (length pre + 16) ((pre @ ?key) @ w) = w" for w by simp
  have ne: "ethtool_output pre a b dbdf post \<noteq> []" by (simp add: ethtool_output_def)
  show ?thesis
    unfolding get_VF_PCIE_from_netdev_def assms(1) Let_def bind.simps if_not_P [OF ne] buf k e s1 s2
    using ok(7) by (simp add: k s1 s2 scan_vf_token [OF ok(3,4)] del: append_assoc append_Cons)
qed

subsection \<open>The commands of the file\<close>

definition netdev_ok :: "string \<Rightarrow> bool" where
  "netdev_ok netdev \<longleftrightarrow> plain_word netdev \<and> length netdev \<le> 16"

lemma command_args:
  assumes "netdev_ok netdev" "length w = 8"
  shows "scan_s 16 (cstring (drop 8 (take 128 (w @ CHR '' '' # netdev @ [newline]) @ t))) = Some (netdev, newline # cstring t)"
proof -
  have n: "netdev \<noteq> []" "\<forall>c\<in>set netdev. \<not> is_space c" "NUL \<notin> set netdev" "length netdev \<le> 16"
    using assms(1) by (auto simp: netdev_ok_def plain_word_def list_all_iff)
  then have "cstring (drop 8 (take 128 (w @ CHR '' '' # netdev @ [newline]) @ t)) = CHR '' '' # netdev @ newline # cstring t"
    using assms(2) cstring_append [of "CHR '' '' # netdev @ [newline]" t] by simp
  then show ?thesis
    using scan_s_word(1) [OF n(1,2) n(4) newline_space, of "cstring t"] by (simp add: scan_s_def is_space_def)
qed

text \<open>C35: A command \<open>add_port <netdev>\<close> or \<open>del_port <netdev>\<close> in the command file does exactly
  what it says: it adds or removes the device that \<open>ethtool\<close> reports for the interface, at the
  relay with the number of its virtual function.\<close>

theorem file_commands:
  assumes "netdev_ok netdev" "run (''/sbin/ethtool -i '' @ netdev) = Some (ethtool_output pre a b dbdf post)"
    "ethtool_ok pre a b dbdf post"
  shows "scan_file env sched run junk after (''add_port '' @ netdev @ [newline]) st =
      map_option snd (virtio_forwarder_add_vf env dbdf b st) \<and>
    scan_file env sched run junk after (''del_port '' @ netdev @ [newline]) st =
      map_option snd (virtio_forwarder_remove_vf env sched dbdf b st)"
proof -
  have "run (strlcpy (''/sbin/ethtool -i '' @ netdev) 128) = Some (ethtool_output pre a b dbdf post)"
    using assms(1,2) by (simp add: netdev_ok_def)
  note dev = netdev_device [of run netdev, OF this assms(3), of junk]
  have "length netdev \<le> 16" using assms(1) by (simp add: netdev_ok_def)
  then show ?thesis
    using command_args [OF assms(1), of "''add_port''"] command_args [OF assms(1), of "''del_port''"]
    by (simp add: scan_file_def Let_def dev match_token_def cstring_def)
qed

theorem file_commands_witness:
  "netdev_ok ''eth0'' \<and> ethtool_ok ''driver: nfp_netvf '' 0 40 ''0000:05:0d.0'' [] \<and>
   scan_file demo_env (\<lambda>n st. st) (\<lambda>_. Some (ethtool_output ''driver: nfp_netvf '' 0 40 ''0000:05:0d.0'' [])) [] []
       (''add_port '' @ ''eth0'' @ [newline]) (demo_fixed (demo_one VIRTIO_READY DPDK_UNINIT)) =
     map_option snd (virtio_forwarder_add_vf demo_env ''0000:05:0d.0'' 40 (demo_fixed (demo_one VIRTIO_READY DPDK_UNINIT)))"
proof -
  have n: "netdev_ok ''eth0''" by (simp add: netdev_ok_def plain_word_def is_space_def)
  have "length (vf_token 0 40) = 6" by (simp add: vf_token_def dec.simps)
  then have e: "ethtool_ok ''driver: nfp_netvf '' 0 40 ''0000:05:0d.0'' []"
    by (simp add: ethtool_ok_def ethtool_output_def plain_word_def is_space_def)
  show ?thesis
    using n e file_commands [where run = "\<lambda>_. Some (ethtool_output ''driver: nfp_netvf '' 0 40 ''0000:05:0d.0'' [])", OF n refl e]
    by simp
qed

text \<open>Only the first character of a command is compared: any word of eight characters that begins with
  \<open>a\<close> is taken for \<open>add_port\<close>.\<close>

lemma command_first_letter:
  assumes "length w = 8" "hd w = CHR ''a''"
  shows "scan_file env sched run junk after (w @ r) st = scan_file env sched run junk after (''add_port'' @ r) st"
proof -
  obtain v where "w = CHR ''a'' # v" "length v = 7" using assms by (cases w) auto
  then show ?thesis by (simp add: scan_file_def Let_def match_token_def cstring_def)
qed

text \<open>The number of the virtual function is cut when it and that of the interface have three digits.\<close>

lemma vf_number_cut: "scan_vf (take 8 (vf_token 100 101)) = Some 10"
proof -
  have "take 8 (vf_token 100 101) = vf_token 100 10" by (simp add: vf_token_def dec.simps digit_def)
  then show ?thesis using scan_vf_token [of 100 10] by simp
qed

text \<open>The commands that the events bring to the thread.\<close>

fun commands :: "(bool \<times> vio_cmd option) list \<Rightarrow> string list" where
  "commands [] = []"
| "commands ((True, _) # evs) = []"
| "commands ((False, Some (Contents f)) # evs) = f # commands evs"
| "commands ((False, _) # evs) = commands evs"

primrec run_commands ::
  "env \<Rightarrow> (nat \<Rightarrow> gstate \<Rightarrow> gstate) \<Rightarrow> (string \<Rightarrow> string option) \<Rightarrow> string \<Rightarrow> string \<Rightarrow> string list \<Rightarrow> gstate \<Rightarrow> gstate option" where
  "run_commands env sched run junk after [] st = Some st"
| "run_commands env sched run junk after (f # fs) st = do {
     st \<leftarrow> scan_file env sched run junk after f st;
     run_commands env sched run junk after fs st }"

text \<open>The monitor executes every command that is written to the file exactly once, in order, and
  none after it was told to stop.\<close>

theorem file_mon_once:
  "map_option snd (file_mon_threadmain env sched run junk after evs No_file st) =
     run_commands env sched run junk after (commands evs) st"
proof (induction evs arbitrary: st rule: commands.induct)
  case (3 f evs)
  then show ?case
    by (cases "scan_file env sched run junk after f st") (simp_all add: file_mon_pass_def Let_def)
qed (simp_all add: file_mon_pass_def Let_def)

text \<open>The monitor stays in every relation of the control path.\<close>

context control_frame
begin

lemma add_vf_R: "virtio_forwarder_add_vf env dbdf i st = Some (err, st') \<Longrightarrow> R st st'"
  by (auto simp: virtio_forwarder_add_vf_def dest: add_vf2_R)

lemma remove_vf_R:
  "sched_in R sched \<Longrightarrow> virtio_forwarder_remove_vf env sched dbdf i st = Some (err, st') \<Longrightarrow> R st st'"
  by (auto simp: virtio_forwarder_remove_vf_def dest: remove_vf2_R)

lemma scan_file_R:
  "sched_in R sched \<Longrightarrow> scan_file env sched run junk after f st = Some st' \<Longrightarrow> R st st'"
  by (auto simp: scan_file_def Let_def split: if_splits option.splits dest: add_vf_R remove_vf_R)

lemma file_mon_pass_R:
  "sched_in R sched \<Longrightarrow> file_mon_pass env sched run junk after file st = Some (file', st') \<Longrightarrow> R st st'"
  by (auto simp: file_mon_pass_def split: vio_cmd.splits dest: scan_file_R)

end

end
