(* ===== verification/OvsdbMon.thy ===== *)
theory OvsdbMon
  imports FileMon
begin

text \<open>
  The OVSDB monitor, \<open>ovsdb_mon.c\<close>: the thread that runs \<open>ovsdb-client\<close>, reads the rows it prints
  for interfaces with an external identifier \<open>virtio_forwarder\<close>, and adds and removes the devices
  behind these interfaces.

  A buffer is the list of the characters in its memory, of which a string is the part up to a null
  byte; \<open>None\<close> is a read or a write outside a buffer. What a read of the pipe returns, the
  contents of uninitialised buffers and the results of system calls are arguments.
\<close>

subsection \<open>Buffers\<close>

definition MAX_READ :: nat where
  "MAX_READ = 65535"

definition cstr_at :: "string \<Rightarrow> nat \<Rightarrow> string option" where
  "cstr_at mem i = (if NUL \<in> set (drop i mem) then Some (cstring (drop i mem)) else None)"

definition overwrite :: "string \<Rightarrow> string \<Rightarrow> string option" where
  "overwrite mem s = (if length s \<le> length mem then Some (s @ drop (length s) mem) else None)"

subsection \<open>The fields of a row\<close>

text \<open>A quoted field after its first quote: the characters written, the number of characters read and
  whether the field is well formed and hence terminated.\<close>

fun quoted_field :: "string \<Rightarrow> string \<times> nat \<times> bool" where
  "quoted_field [] = ([], 0, True)"
| "quoted_field (c # s) =
     (if c = CHR 0x22
      then (case s of
              [] \<Rightarrow> ([], 1, True)
            | d # s' \<Rightarrow>
                if d = CHR 0x22 then (let (w, n, closed) = quoted_field s' in (c # w, n + 2, closed))
                else if d = CHR '','' then ([], 1, True)
                else ([], length (takeWhile (\<lambda>c. c \<noteq> CHR '','') (c # s)), False))
      else (let (w, n, closed) = quoted_field s in (c # w, n + 1, closed)))"

definition extract_field :: "string \<Rightarrow> nat \<Rightarrow> string \<Rightarrow> (nat \<times> string) option" where
  "extract_field buf start field = do {
     s \<leftarrow> cstr_at buf start;
     if s \<noteq> [] \<and> hd s = CHR 0x22
     then (let (w, n, closed) = quoted_field (tl s) in
       map_option (\<lambda>field. (start + (n + 1) + 1, field)) (overwrite field (if closed then w @ [NUL] else w)))
     else (let w = takeWhile (\<lambda>c. c \<noteq> CHR '','') s in
       map_option (\<lambda>field. (start + length w + 1, field)) (overwrite field (w @ [NUL]))) }"

fun unquoted :: "string \<Rightarrow> string" where
  "unquoted [] = []"
| "unquoted (c # s) =
     (if c = CHR 0x22 then []
      else if c = CHR 0x5C then (case s of [] \<Rightarrow> [] | d # s' \<Rightarrow> d # unquoted s')
      else c # unquoted s)"

definition unquote :: "string \<Rightarrow> string option" where
  "unquote str = do {
     s \<leftarrow> cstr_at str 0;
     if s \<noteq> [] \<and> hd s = CHR 0x22 then overwrite str (unquoted (tl s) @ [NUL]) else Some str }"

subsection \<open>The external identifiers\<close>

record port_config =
  virtio_enabled :: bool
  config_virtio_id :: int

definition tok_initial :: string where "tok_initial = ''initial''"

definition tok_insert :: string where "tok_insert = ''insert''"

definition tok_delete :: string where "tok_delete = ''delete''"

definition tok_old :: string where "tok_old = ''old''"

definition tok_new :: string where "tok_new = ''new''"

definition tok_relay_id :: string where "tok_relay_id = ''virtio_relay''"

definition tok_forwarder :: string where "tok_forwarder = ''virtio_forwarder''"

text \<open>\<open>strtol\<close> with base 10 or 0: \<open>None\<close> without a conversion, else the value and whether it was
  out of range.\<close>

definition digit_in :: "nat \<Rightarrow> char \<Rightarrow> bool" where
  "digit_in base c \<longleftrightarrow> is_hex_digit c \<and> hex_digit_value c < base"

definition strtol :: "nat \<Rightarrow> string \<Rightarrow> (int \<times> bool) option" where
  "strtol base s =
     (let s = dropWhile is_space s;
          neg = (s \<noteq> [] \<and> hd s = CHR ''-'');
          s = (if s \<noteq> [] \<and> (hd s = CHR ''-'' \<or> hd s = CHR ''+'') then tl s else s);
          hex = (base = 0 \<and> (take 2 s = ''0x'' \<or> take 2 s = ''0X'') \<and> (case drop 2 s of [] \<Rightarrow> False | c # _ \<Rightarrow> is_hex_digit c));
          b = (if base \<noteq> 0 then base else if hex then 16 else if take 1 s = ''0'' then 8 else 10);
          ds = takeWhile (digit_in b) (if hex then drop 2 s else s);
          n = int (foldl (\<lambda>n c. b * n + hex_digit_value c) 0 ds);
          v = (if neg then - n else n)
      in if ds = [] then None
         else if 2 ^ 63 \<le> v then Some (2 ^ 63 - 1, True)
         else if v < - (2 ^ 63) then Some (- (2 ^ 63), True)
         else Some (v, False))"

text \<open>The value of an entry of interest.\<close>

definition entry_config :: "string \<Rightarrow> port_config" where
  "entry_config val =
     (case strtol 0 val of
        None \<Rightarrow> \<lparr>virtio_enabled = False, config_virtio_id = 0\<rparr>
      | Some (v, outside) \<Rightarrow> \<lparr>virtio_enabled = \<not> outside, config_virtio_id = v\<rparr>)"

text \<open>A quoted string after its first quote: whether it is closed, the characters copied, and the
  memory that follows.\<close>

fun map_string :: "string \<Rightarrow> (bool \<times> string \<times> string) option" where
  "map_string [] = None"
| "map_string (c # s) =
     (if c = NUL then Some (False, [], c # s)
      else if c = CHR 0x22 then Some (True, [], s)
      else if c = CHR 0x5C
      then (case s of [] \<Rightarrow> None | d # s' \<Rightarrow> map_option (\<lambda>(closed, w, r). (closed, d # w, r)) (map_string s'))
      else map_option (\<lambda>(closed, w, r). (closed, c # w, r)) (map_string s))"

text \<open>The characters up to the first of a kind.\<close>

definition copy_until :: "(char \<Rightarrow> bool) \<Rightarrow> string \<Rightarrow> (string \<times> string) option" where
  "copy_until P s =
     (case dropWhile (\<lambda>c. \<not> P c) s of [] \<Rightarrow> None | t \<Rightarrow> Some (takeWhile (\<lambda>c. \<not> P c) s, t))"

text \<open>The search for one of the given characters when it is not the next; the search starts behind the
  next character, whatever that is, and ends at a null byte.\<close>

definition resync :: "string \<Rightarrow> string \<Rightarrow> string option" where
  "resync cs s =
     (if s \<noteq> [] \<and> hd s \<in> set cs then Some s else map_option snd (copy_until (\<lambda>c. c \<in> set cs \<or> c = NUL) (tl s)))"

datatype map_parse_state = STATE_START | STATE_KEY | STATE_VAL | STATE_EQ | STATE_SEP | STATE_DONE

record map_parser =
  parser_state :: map_parse_state
  p_rest :: string
  p_key :: string
  p_val :: string
  p_config :: port_config

text \<open>One round of the loop; \<open>p_rest\<close> is the memory from \<open>map + srcptr\<close> on.\<close>

definition parse_key :: "map_parser \<Rightarrow> map_parser option" where
  "parse_key p =
     (let s = p_rest p in
      if hd s = CHR ''}'' then Some (p\<lparr>parser_state := STATE_DONE\<rparr>)
      else if hd s = CHR 0x22
      then map_option (\<lambda>(closed, w, r). p\<lparr>parser_state := if closed then STATE_EQ else STATE_DONE, p_key := w, p_rest := r\<rparr>)
             (map_string (tl s))
      else map_option (\<lambda>(w, r). p\<lparr>parser_state := STATE_EQ, p_key := w, p_rest := r\<rparr>)
             (copy_until (\<lambda>c. is_space c \<or> c = NUL \<or> c = CHR ''='') s))"

definition read_val :: "map_parser \<Rightarrow> map_parser option" where
  "read_val p =
     (let s = p_rest p in
      if hd s = CHR 0x22
      then do {
        (closed, w, r) \<leftarrow> map_string (tl s);
        v \<leftarrow> overwrite (p_val p) [NUL];
        v \<leftarrow> overwrite v (if closed then w @ [NUL] else w);
        Some (p\<lparr>parser_state := if closed then STATE_SEP else STATE_DONE, p_val := v, p_rest := r\<rparr>) }
      else do {
        (w, r) \<leftarrow> copy_until (\<lambda>c. is_space c \<or> c = NUL \<or> c = CHR '','' \<or> c = CHR ''}'') s;
        v \<leftarrow> overwrite (p_val p) (w @ [NUL]);
        Some (p\<lparr>parser_state := STATE_SEP, p_val := v, p_rest := r\<rparr>) })"

definition parse_val :: "map_parser \<Rightarrow> map_parser option" where
  "parse_val p = do {
     p \<leftarrow> read_val p;
     if cstring (p_key p) = tok_forwarder \<or> cstring (p_key p) = tok_relay_id
     then map_option (\<lambda>val. p\<lparr>p_config := entry_config val\<rparr>) (cstr_at (p_val p) 0)
     else Some p }"

definition map_step :: "map_parser \<Rightarrow> map_parser option" where
  "map_step p =
     (let s = dropWhile is_space (p_rest p); p = p\<lparr>p_rest := s\<rparr> in
      if s = [] then None
      else case parser_state p of
        STATE_START \<Rightarrow>
          map_option (\<lambda>t. if hd t = CHR ''{'' then p\<lparr>parser_state := STATE_KEY, p_rest := tl t\<rparr>
                          else p\<lparr>parser_state := STATE_DONE, p_rest := t\<rparr>) (resync ''{'' s)
      | STATE_KEY \<Rightarrow> parse_key p
      | STATE_VAL \<Rightarrow> parse_val p
      | STATE_EQ \<Rightarrow>
          map_option (\<lambda>t. if hd t = CHR ''='' then p\<lparr>parser_state := STATE_VAL, p_rest := tl t\<rparr>
                          else p\<lparr>parser_state := STATE_DONE, p_rest := t\<rparr>) (resync ''='' s)
      | STATE_SEP \<Rightarrow>
          map_option (\<lambda>t. if hd t = CHR '','' then p\<lparr>parser_state := STATE_KEY, p_rest := tl t\<rparr>
                          else p\<lparr>parser_state := STATE_DONE, p_rest := t\<rparr>) (resync '',}'' s)
      | STATE_DONE \<Rightarrow> Some p)"

text \<open>Every round reads a character or goes from a key to its equals sign or from a value to its
  separator.\<close>

definition map_measure :: "map_parser \<Rightarrow> nat" where
  "map_measure p = 2 * length (p_rest p) + (if parser_state p \<in> {STATE_KEY, STATE_VAL, STATE_START} then 1 else 0)"

lemma copy_until_length: "copy_until P s = Some (w, r) \<Longrightarrow> length r \<le> length s \<and> r \<noteq> []"
  by (auto simp: copy_until_def split: list.splits) (metis length_dropWhile_le list.size(4))

lemma map_string_length: "map_string s = Some (closed, w, r) \<Longrightarrow> length r \<le> length s"
  by (induction s arbitrary: w rule: map_string.induct) (fastforce split: if_splits list.splits)+

lemma resync_length: "resync cs s = Some t \<Longrightarrow> length t \<le> length s \<and> t \<noteq> []"
  by (auto simp: resync_def split: if_splits dest: copy_until_length)

lemma parse_key_measure:
  assumes "parse_key p = Some p'"
  shows "parser_state p' = STATE_DONE \<or> parser_state p' = STATE_EQ \<and> length (p_rest p') \<le> length (p_rest p)"
proof -
  have t: "length r \<le> length (tl s) \<Longrightarrow> length r \<le> length s" for r s :: string by simp
  consider "parser_state p' = STATE_DONE"
    | closed w r where "map_string (tl (p_rest p)) = Some (closed, w, r)" "parser_state p' = STATE_EQ" "p_rest p' = r"
    | w r P where "copy_until P (p_rest p) = Some (w, r)" "parser_state p' = STATE_EQ" "p_rest p' = r"
    using assms unfolding parse_key_def Let_def by (auto split: if_splits)
  then show ?thesis by cases (use t copy_until_length map_string_length in blast)+
qed

lemma read_val_measure:
  assumes "read_val p = Some p'"
  shows "parser_state p' = STATE_DONE \<or> parser_state p' = STATE_SEP \<and> length (p_rest p') \<le> length (p_rest p)"
proof (cases "hd (p_rest p) = CHR 0x22")
  case True
  with assms obtain closed w r v where "map_string (tl (p_rest p)) = Some (closed, w, r)"
    and p: "p' = p\<lparr>parser_state := if closed then STATE_SEP else STATE_DONE, p_val := v, p_rest := r\<rparr>"
    by (auto simp: read_val_def Let_def bind_Some_iff)
  then have "length r \<le> length (tl (p_rest p))" by (blast dest: map_string_length)
  then have "length r \<le> length (p_rest p)" by simp
  then show ?thesis by (simp add: p)
next
  case False
  with assms obtain w r v P where "copy_until P (p_rest p) = Some (w, r)"
    and p: "p' = p\<lparr>parser_state := STATE_SEP, p_val := v, p_rest := r\<rparr>"
    by (auto simp: read_val_def Let_def bind_Some_iff)
  then show ?thesis using copy_until_length by (fastforce simp: p)
qed

lemma parse_val_measure:
  assumes "parse_val p = Some p'"
  shows "parser_state p' = STATE_DONE \<or> parser_state p' = STATE_SEP \<and> length (p_rest p') \<le> length (p_rest p)"
proof -
  obtain q where q: "read_val p = Some q" "parser_state p' = parser_state q" "p_rest p' = p_rest q"
    using assms by (auto simp: parse_val_def bind_Some_iff split: if_splits)
  then show ?thesis using read_val_measure [OF q(1)] by simp
qed

lemma map_step_measure:
  assumes "map_step p = Some p'" "parser_state p \<noteq> STATE_DONE" "parser_state p' \<noteq> STATE_DONE"
  shows "map_measure p' < map_measure p"
proof -
  define q where "q = p\<lparr>p_rest := dropWhile is_space (p_rest p)\<rparr>"
  have q: "length (p_rest q) \<le> length (p_rest p)" "parser_state q = parser_state p" by (simp_all add: q_def length_dropWhile_le)
  have qr: "dropWhile is_space (p_rest p) = p_rest q" by (simp add: q_def)
  have t: "t \<noteq> [] \<Longrightarrow> length t \<le> n \<Longrightarrow> Suc (2 * (length t - Suc 0)) < 2 * n" "t \<noteq> [] \<Longrightarrow> length t \<le> n \<Longrightarrow> length t - Suc 0 < n"
    for t :: string and n by (cases t; simp)+
  have "map_measure p' < map_measure q"
  proof (cases "parser_state p")
    case STATE_KEY
    then have "parse_key q = Some p'" using assms(1) by (simp add: map_step_def Let_def q_def split: if_splits)
    from parse_key_measure [OF this] show ?thesis using assms(3) STATE_KEY q(2) by (simp add: map_measure_def)
  next
    case STATE_VAL
    then have "parse_val q = Some p'" using assms(1) by (simp add: map_step_def Let_def q_def split: if_splits)
    from parse_val_measure [OF this] show ?thesis using assms(3) STATE_VAL q(2) by (simp add: map_measure_def)
  next
    case STATE_START
    then show ?thesis using assms(1,3) t q(2)
      by (auto simp: map_step_def Let_def qr q_def [symmetric] map_measure_def split: if_splits dest!: resync_length)
  next
    case STATE_EQ
    then show ?thesis using assms(1,3) t q(2)
      by (auto simp: map_step_def Let_def qr q_def [symmetric] map_measure_def split: if_splits dest!: resync_length)
  next
    case STATE_SEP
    then show ?thesis using assms(1,3) t q(2)
      by (auto simp: map_step_def Let_def qr q_def [symmetric] map_measure_def split: if_splits dest!: resync_length)
  qed (use assms in simp)
  moreover have "map_measure q \<le> map_measure p" using q by (simp add: map_measure_def)
  ultimately show ?thesis by simp
qed

function map_loop :: "map_parser \<Rightarrow> map_parser option" where
  "map_loop p =
     (if parser_state p = STATE_DONE then Some p
      else case map_step p of
        None \<Rightarrow> None
      | Some p' \<Rightarrow> if parser_state p' = STATE_DONE then Some p' else map_loop p')"
  by pat_completeness auto
termination by (relation "measure map_measure") (auto dest: map_step_measure)

declare map_loop.simps [simp del]

text \<open>\<open>map\<close> is the memory of the field and \<open>val\<close> that of the uninitialised array.\<close>

definition parse_map :: "string \<Rightarrow> string \<Rightarrow> port_config option" where
  "parse_map map' val =
     map_option p_config (map_loop \<lparr>parser_state = STATE_START, p_rest = map', p_key = [], p_val = val,
       p_config = \<lparr>virtio_enabled = False, config_virtio_id = 0\<rparr>\<rparr>)"

subsection \<open>The rows\<close>

text \<open>The conversion from \<open>long\<close> to \<open>int\<close>.\<close>

definition int_of_long :: "int \<Rightarrow> int" where
  "int_of_long v = (v + 2 ^ 31) mod 2 ^ 32 - 2 ^ 31"

text \<open>The result is \<open>virtio_id_change\<close> and the state; the results of adding and removing only matter to
  the log.\<close>

definition process_external_ids ::
  "env \<Rightarrow> (nat \<Rightarrow> gstate \<Rightarrow> gstate) \<Rightarrow> (string \<Rightarrow> string option) \<Rightarrow> string \<Rightarrow> string \<Rightarrow> string \<Rightarrow> port_config \<Rightarrow> int \<Rightarrow> gstate
     \<Rightarrow> (int \<times> gstate) option" where
  "process_external_ids env sched run junk action name pc change st =
     (if virtio_enabled pc \<and> (action = tok_insert \<or> action = tok_initial) then
        (case get_VF_PCIE_from_netdev run junk name of
           None \<Rightarrow> Some (change, st)
         | Some vfinfo \<Rightarrow> map_option (\<lambda>(_, st). (change, st)) (virtio_forwarder_add_vf2 env (si_dbdf vfinfo) (si_vf vfinfo) True st))
      else if virtio_enabled pc \<and> action = tok_delete then
        (case get_VF_PCIE_from_netdev run junk name of
           None \<Rightarrow> Some (change, st)
         | Some vfinfo \<Rightarrow>
             map_option (\<lambda>(_, st). (change, st)) (virtio_forwarder_remove_vf2 env sched (si_dbdf vfinfo) (si_vf vfinfo) True st))
      else if action = tok_old then Some (if virtio_enabled pc then int_of_long (config_virtio_id pc) else -1, st)
      else if action = tok_new then
        (case get_VF_PCIE_from_netdev run junk name of
           None \<Rightarrow> Some (change, st)
         | Some vfinfo \<Rightarrow> do {
             (change, st) \<leftarrow> (if change \<noteq> -1
               then map_option (\<lambda>(_, st). (-1, st)) (virtio_forwarder_remove_vf2 env sched (si_dbdf vfinfo) (si_vf vfinfo) True st)
               else Some (change, st));
             if virtio_enabled pc
             then map_option (\<lambda>(_, st). (change, st)) (virtio_forwarder_add_vf2 env (si_dbdf vfinfo) (si_vf vfinfo) True st)
             else Some (change, st) })
      else Some (change, st))"

text \<open>The arrays of \<open>parse_ovsdb_client\<close>, and its variable \<open>virtio_id_change\<close>.\<close>

record ovsdb_vars =
  tmp_mem :: string
  action_mem :: string
  name_mem :: string
  id_change :: int

text \<open>The work on a row, which ends at a null byte. Rows that are too short are only logged.\<close>

definition ovsdb_row ::
  "env \<Rightarrow> (nat \<Rightarrow> gstate \<Rightarrow> gstate) \<Rightarrow> (string \<Rightarrow> string option) \<Rightarrow> string \<Rightarrow> string \<Rightarrow> string \<Rightarrow> ovsdb_vars \<times> gstate
     \<Rightarrow> (ovsdb_vars \<times> gstate) option" where
  "ovsdb_row env sched run junk vmem buf v = do {
     let (m, st) = v;
     (pos, tmp) \<leftarrow> extract_field buf 0 (tmp_mem m);
     (pos, action) \<leftarrow> extract_field buf pos (action_mem m);
     (pos, name) \<leftarrow> extract_field buf pos (name_mem m);
     name \<leftarrow> unquote name;
     (pos, tmp) \<leftarrow> extract_field buf pos tmp;
     pc \<leftarrow> parse_map tmp vmem;
     a \<leftarrow> cstr_at action 0;
     n \<leftarrow> cstr_at name 0;
     (change, st) \<leftarrow> process_external_ids env sched run junk a n pc (id_change m) st;
     Some (\<lparr>tmp_mem = tmp, action_mem = action, name_mem = name, id_change = change\<rparr>, st) }"

subsection \<open>The stream\<close>

text \<open>The lines in the buffer. The result has the buffer and \<open>remain\<close>. A line is ended with a null
  byte, worked on, and the text behind it is moved to the front.\<close>

lemma cstr_at_Some: "cstr_at buf i = Some s \<longleftrightarrow> (\<exists>r. drop i buf = s @ NUL # r \<and> NUL \<notin> set s)"
proof
  assume "cstr_at buf i = Some s"
  then have b: "NUL \<in> set (drop i buf)" "s = cstring (drop i buf)" by (auto simp: cstr_at_def split: if_splits)
  then obtain t r where r: "drop i buf = t @ NUL # r" "NUL \<notin> set t" using split_list_first [OF b(1)] by blast
  then show "\<exists>r. drop i buf = s @ NUL # r \<and> NUL \<notin> set s" using b(2) by (auto simp: cstring_append)
qed (auto simp: cstr_at_def cstring_append)

lemma cstr_at_nul:
  assumes "cstr_at buf 0 = Some s" "n < length s"
  shows "cstr_at (buf[n := NUL]) (n + 1) = Some (drop (n + 1) s)"
proof -
  obtain r where r: "buf = s @ NUL # r" "NUL \<notin> set s" using assms(1) by (auto simp: cstr_at_Some)
  then have "NUL \<notin> set (drop (n + 1) s)" by (meson in_set_dropD)
  moreover have "drop (n + 1) (buf[n := NUL]) = drop (n + 1) s @ NUL # r" using assms(2) by (simp add: r(1) list_update_append1)
  ultimately show ?thesis unfolding cstr_at_Some by blast
qed

function ovsdb_lines ::
  "env \<Rightarrow> (nat \<Rightarrow> gstate \<Rightarrow> gstate) \<Rightarrow> (string \<Rightarrow> string option) \<Rightarrow> string \<Rightarrow> string \<Rightarrow> string \<Rightarrow> nat \<Rightarrow> ovsdb_vars \<times> gstate
     \<Rightarrow> (string \<times> nat \<times> ovsdb_vars \<times> gstate) option" where
  "ovsdb_lines env sched run junk vmem buf remain v =
     (case cstr_at buf 0 of
        None \<Rightarrow> None
      | Some s \<Rightarrow>
          let nl = length (takeWhile (\<lambda>c. c \<noteq> newline) s); row = buf[nl := NUL] in
          if length s \<le> nl then Some (buf, remain, v)
          else case (if nl = 0 then Some v else ovsdb_row env sched run junk vmem row v) of
            None \<Rightarrow> None
          | Some v' \<Rightarrow>
              (case cstr_at row (nl + 1) of
                 None \<Rightarrow> None
               | Some rest \<Rightarrow>
                   ovsdb_lines env sched run junk vmem (rest @ NUL # drop (length rest + 1) row) (length rest) v'))"
  by pat_completeness auto
termination
proof (relation "measure (\<lambda>(_, _, _, _, _, buf, _, _). length (cstring buf))", goal_cases)
  case (2 env sched run junk vmem buf remain v s nl row v' rest)
  have "rest = drop (nl + 1) s" using cstr_at_nul [OF 2(1), of nl] 2(3,4,6) by simp
  moreover have "NUL \<notin> set rest" using 2(6) by (simp add: cstr_at_Some)
  moreover have "cstring buf = s" using 2(1) by (auto simp: cstr_at_Some cstring_append)
  ultimately show ?case using 2(4) by (simp add: cstring_append)
qed simp

declare ovsdb_lines.simps [simp del]

text \<open>A read of at most \<open>n\<close> bytes from the pipe, whose contents arrive in pieces. No piece, or an
  empty one, is a read that returns less than one.\<close>

fun read_pipe :: "nat \<Rightarrow> string list \<Rightarrow> string \<times> string list" where
  "read_pipe n [] = ([], [])"
| "read_pipe n (c # cs) = (take n c, if length c \<le> n then cs else drop n c # cs)"

text \<open>The rest of a line that is too long is read and dropped, byte by byte.\<close>

function skip_line :: "string list \<Rightarrow> string list option" where
  "skip_line cs =
     (case read_pipe 1 cs of
        ([], _) \<Rightarrow> None
      | (c # _, cs') \<Rightarrow> if c = newline then Some cs' else skip_line cs')"
  by pat_completeness auto

lemma read_pipe_length:
  "read_pipe n cs = (d, cs') \<Longrightarrow> length (concat cs) = length d + length (concat cs')"
  by (cases cs) (auto split: if_splits)

termination skip_line
proof (relation "measure (\<lambda>cs. length (concat cs))", goal_cases)
  case (2 cs d cs' c ds)
  then show ?case using read_pipe_length [of 1 cs d cs'] by simp
qed simp

declare skip_line.simps [simp del]

lemma skip_line_length: "skip_line cs = Some cs' \<Longrightarrow> length (concat cs') \<le> length (concat cs)"
proof (induction cs rule: skip_line.induct)
  case (1 cs)
  obtain c ds rest where r: "read_pipe 1 cs = (c # ds, rest)"
    using 1(2) by (subst (asm) skip_line.simps) (auto split: list.splits prod.splits)
  show ?case using 1 r read_pipe_length [OF r] by (subst (asm) (2) skip_line.simps) (force split: if_splits)
qed

text \<open>The outer loop: \<open>d\<close> is what the last read returned.\<close>

function ovsdb_reads ::
  "env \<Rightarrow> (nat \<Rightarrow> gstate \<Rightarrow> gstate) \<Rightarrow> (string \<Rightarrow> string option) \<Rightarrow> string \<Rightarrow> string \<Rightarrow> string \<Rightarrow> nat \<Rightarrow> string \<Rightarrow> string list
     \<Rightarrow> ovsdb_vars \<times> gstate \<Rightarrow> (ovsdb_vars \<times> gstate) option" where
  "ovsdb_reads env sched run junk vmem buf remain d cs v =
     (let len = remain + length d in
      if length buf \<le> len then None
      else case ovsdb_lines env sched run junk vmem (take remain buf @ d @ NUL # drop (len + 1) buf) len v of
        None \<Rightarrow> None
      | Some (buf, remain, v) \<Rightarrow>
          (case (if remain = MAX_READ - 1 then map_option (Pair 0) (skip_line cs) else Some (remain, cs)) of
             None \<Rightarrow> Some v
           | Some (remain, cs') \<Rightarrow>
               (case read_pipe (MAX_READ - remain - 1) cs' of
                  ([], _) \<Rightarrow> Some v
                | (c # ds, cs'') \<Rightarrow> ovsdb_reads env sched run junk vmem buf remain (c # ds) cs'' v)))"
  by pat_completeness auto
termination
proof (relation "measure (\<lambda>(_, _, _, _, _, _, _, _, cs, _). length (concat cs))", goal_cases)
  case 2
  then show ?case by (auto split: if_splits dest!: sym [THEN read_pipe_length] skip_line_length)
qed simp

declare ovsdb_reads.simps [simp del]

definition parse_ovsdb_client ::
  "env \<Rightarrow> (nat \<Rightarrow> gstate \<Rightarrow> gstate) \<Rightarrow> (string \<Rightarrow> string option) \<Rightarrow> string \<Rightarrow> string \<Rightarrow> string \<Rightarrow> ovsdb_vars \<Rightarrow> string list
     \<Rightarrow> gstate \<Rightarrow> gstate option" where
  "parse_ovsdb_client env sched run junk vmem buf m cs st =
     (let (d, cs) = read_pipe (MAX_READ - 1) cs in
      if d = [] then Some st
      else map_option snd (ovsdb_reads env sched run junk vmem buf 0 d cs (m\<lparr>id_change := -1\<rparr>, st)))"

subsection \<open>The thread\<close>

text \<open>\<open>mode\<close> is \<open>st_mode\<close>, when \<open>stat\<close> succeeds; the mask is \<open>S_IFSOCK | S_IRWXU\<close>.\<close>

definition check_ovsdb_sock :: "32 word option \<Rightarrow> int" where
  "check_ovsdb_sock mode =
     (case mode of None \<Rightarrow> 1 | Some md \<Rightarrow> if md AND 0xC1C0 \<noteq> 0xC1C0 then 1 else 0)"

definition is_ovspidfile :: "string \<Rightarrow> bool" where
  "is_ovspidfile name \<longleftrightarrow> take 7 name = ''vovsdbc'' \<and> drop (length name - 4) name = ''.pid''"

text \<open>The commands that are run and the paths that are unlinked, for the entries of \<open>/tmp\<close>.\<close>

datatype cleanup = System string | Unlink string

definition clean_old :: "string list \<Rightarrow> cleanup list" where
  "clean_old names =
     concat (map (\<lambda>n. [System (strlcpy (''/usr/bin/pkill -F /tmp/'' @ n @ '' ovsdb-client &>/dev/null'') 320), Unlink n])
       (rev (filter is_ovspidfile names)))"

text \<open>\<open>pid\<close> is what the pid file holds, when it can be opened. The result is the process number.\<close>

definition setup_ovsdb_mon :: "bool \<Rightarrow> string option \<Rightarrow> string \<Rightarrow> int option" where
  "setup_ovsdb_mon popen_ok pid junk =
     (if \<not> popen_ok then None
      else case pid of
        None \<Rightarrow> None
      | Some p \<Rightarrow>
          if p = [] then None
          else Some (int_of_long (case strtol 10 (cstring (take 16 p @ junk)) of None \<Rightarrow> 0 | Some (n, _) \<Rightarrow> n)))"

text \<open>What the system calls of a round return: the mode of the socket at the first and at the second
  check, the results of starting \<open>ovsdb-client\<close>, of \<open>select\<close> and of the reads.\<close>

record ovsdb_obs =
  ob_stop :: bool
  ob_mode :: "32 word option"
  ob_popen :: bool
  ob_pid :: "string option"
  ob_mode2 :: "32 word option"
  ob_select :: int
  ob_isset :: bool
  ob_reads :: "string list"

datatype ovsdb_pc = At_head | Connecting | Ended

record ovsdb_thread =
  ovs_pc :: ovsdb_pc
  ovsdb_conn_down :: bool
  ovsdbclient_pid :: int

text \<open>The second part of a round, with the connection up; \<open>buf\<close> and \<open>m\<close> are the uninitialised arrays.\<close>

definition ovsdb_poll ::
  "env \<Rightarrow> (nat \<Rightarrow> gstate \<Rightarrow> gstate) \<Rightarrow> (string \<Rightarrow> string option) \<Rightarrow> string \<Rightarrow> string \<Rightarrow> string \<Rightarrow> ovsdb_vars \<Rightarrow> ovsdb_obs
     \<Rightarrow> ovsdb_thread \<times> gstate \<Rightarrow> (ovsdb_thread \<times> gstate) option" where
  "ovsdb_poll env sched run junk vmem buf m ob v =
     (let (t, st) = v; t = t\<lparr>ovs_pc := At_head\<rparr> in
      if check_ovsdb_sock (ob_mode2 ob) \<noteq> 0 then Some (t\<lparr>ovsdb_conn_down := True\<rparr>, st)
      else if ob_select ob = 0 then Some (t, st)
      else if ob_select ob < 0 then Some (t\<lparr>ovsdb_conn_down := True\<rparr>, st)
      else if \<not> ob_isset ob then Some (t, st)
      else map_option (Pair t) (parse_ovsdb_client env sched run junk vmem buf m (ob_reads ob) st))"

text \<open>The head of the loop tests \<open>must_stop\<close>; the loop that connects does not.\<close>

definition ovsdb_mon_threadmain ::
  "env \<Rightarrow> (nat \<Rightarrow> gstate \<Rightarrow> gstate) \<Rightarrow> (string \<Rightarrow> string option) \<Rightarrow> string \<Rightarrow> string \<Rightarrow> string \<Rightarrow> ovsdb_vars \<Rightarrow> ovsdb_obs
     \<Rightarrow> ovsdb_thread \<times> gstate \<Rightarrow> (ovsdb_thread \<times> gstate) option" where
  "ovsdb_mon_threadmain env sched run junk vmem buf m ob v =
     (let (t, st) = v in
      case ovs_pc t of
        Ended \<Rightarrow> Some (t, st)
      | At_head \<Rightarrow>
          if ob_stop ob then Some (t\<lparr>ovs_pc := Ended\<rparr>, st)
          else if ovsdb_conn_down t then Some (t\<lparr>ovs_pc := Connecting\<rparr>, st)
          else ovsdb_poll env sched run junk vmem buf m ob (t, st)
      | Connecting \<Rightarrow>
          if check_ovsdb_sock (ob_mode ob) \<noteq> 0 then Some (t, st)
          else (case setup_ovsdb_mon (ob_popen ob) (ob_pid ob) junk of
            None \<Rightarrow> Some (t, st)
          | Some pid \<Rightarrow>
              ovsdb_poll env sched run junk vmem buf m ob (t\<lparr>ovsdb_conn_down := False, ovsdbclient_pid := pid\<rparr>, st)))"

end
