(* ===== verification/OvsdbStream.thy ===== *)
theory OvsdbStream
  imports OvsdbMon
begin

text \<open>
  Correctness of the OVSDB monitor: what \<open>ovsdb-client\<close> prints for a row, that the monitor reads it
  back however the text arrives, and that the arrays keep their sizes on any input. The locale
  \<open>row_invariant\<close> carries what the work on one row keeps over the loops; it is interpreted for the
  sizes of the arrays and for the part of the state that the control path owns.
\<close>

subsection \<open>What \<open>ovsdb-client\<close> prints\<close>

text \<open>A field of a comma separated row.\<close>

definition csv_double :: "string \<Rightarrow> string" where
  "csv_double f = concat (map (\<lambda>c. if c = CHR 0x22 then [c, c] else [c]) f)"

definition csv_field :: "string \<Rightarrow> string" where
  "csv_field f = (if CHR 0x22 \<in> set f \<or> CHR '','' \<in> set f then CHR 0x22 # csv_double f @ [CHR 0x22] else f)"

text \<open>A string: bare when it is an identifier, else quoted with escapes.\<close>

definition id_char :: "char \<Rightarrow> bool" where
  "id_char c \<longleftrightarrow> is_digit c \<or> of_char c \<in> {65..<91 :: nat} \<or> of_char c \<in> {97..<123 :: nat} \<or> c \<in> set ''_-.''"

definition escape :: "string \<Rightarrow> string" where
  "escape s = concat (map (\<lambda>c. if c = CHR 0x22 \<or> c = CHR 0x5C then [CHR 0x5C, c] else [c]) s)"

definition print_atom :: "string \<Rightarrow> string" where
  "print_atom s = (if s \<noteq> [] \<and> list_all id_char s then s else CHR 0x22 # escape s @ [CHR 0x22])"

fun print_entries :: "(string \<times> string) list \<Rightarrow> string" where
  "print_entries [] = ''}''"
| "print_entries [(k, v)] = print_atom k @ ''='' @ print_atom v @ ''}''"
| "print_entries ((k, v) # es) = print_atom k @ ''='' @ print_atom v @ '', '' @ print_entries es"

definition print_map :: "(string \<times> string) list \<Rightarrow> string" where
  "print_map es = ''{'' @ print_entries es"

record ovs_row =
  row_hash :: string
  row_action :: string
  row_name :: string
  row_ids :: "(string \<times> string) list"

definition row_text :: "ovs_row \<Rightarrow> string" where
  "row_text r = csv_field (row_hash r) @ '','' @ csv_field (row_action r) @ '','' @
     csv_field (print_atom (row_name r)) @ '','' @ csv_field (print_map (row_ids r))"

definition row_line :: "ovs_row \<Rightarrow> string" where
  "row_line r = row_text r @ [newline]"

definition row_ok :: "ovs_row \<Rightarrow> bool" where
  "row_ok r \<longleftrightarrow> NUL \<notin> set (row_text r) \<and> newline \<notin> set (row_text r) \<and> length (row_text r) < MAX_READ - 1"

subsection \<open>Reading the fields back\<close>

lemma csv_simps [simp]:
  "csv_double [] = []" "csv_double (c # f) = (if c = CHR 0x22 then [c, c] else [c]) @ csv_double f"
  "escape [] = []" "escape (c # f) = (if c = CHR 0x22 \<or> c = CHR 0x5C then [CHR 0x5C, c] else [c]) @ escape f"
  by (simp_all add: csv_double_def escape_def)

lemma set_csv_double [simp]: "set (csv_double f) = set f"
  by (induction f) auto

lemma length_csv_double: "length f \<le> length (csv_double f)"
  by (induction f) auto

lemma set_csv_field: "set f \<subseteq> set (csv_field f)" "set (csv_field f) \<subseteq> insert (CHR 0x22) (set f)"
  by (auto simp: csv_field_def)

lemma length_csv_field: "length f \<le> length (csv_field f)"
  using length_csv_double [of f] by (simp add: csv_field_def)

lemma quoted_field_csv:
  assumes "t = [] \<or> hd t = CHR '',''"
  shows "quoted_field (csv_double f @ CHR 0x22 # t) = (f, length (csv_double f) + 1, True)"
proof (induction f)
  case Nil
  then show ?case using assms by (cases t) auto
qed simp

lemma takeWhile_comma:
  "CHR '','' \<notin> set f \<Longrightarrow> t = [] \<or> hd t = CHR '','' \<Longrightarrow> takeWhile (\<lambda>c. c \<noteq> CHR '','') (f @ t) = f"
  by (induction f) (cases t; auto)+

lemma extract_field_csv:
  assumes "cstr_at buf start = Some (csv_field f @ t)" "t = [] \<or> hd t = CHR '',''" "length f < length field"
  shows "extract_field buf start field =
    Some (start + length (csv_field f) + 1, f @ NUL # drop (length f + 1) field)"
proof (cases "CHR 0x22 \<in> set f \<or> CHR '','' \<in> set f")
  case True
  then have "csv_field f @ t = CHR 0x22 # csv_double f @ CHR 0x22 # t" by (simp add: csv_field_def)
  then show ?thesis
    using assms(1,3) quoted_field_csv [OF assms(2), of f] True
    by (simp add: extract_field_def overwrite_def csv_field_def)
next
  case False
  then have f: "csv_field f = f" by (simp add: csv_field_def)
  have "\<not> (f @ t \<noteq> [] \<and> hd (f @ t) = CHR 0x22)" using False assms(2) by (cases f; cases t) auto
  moreover have "takeWhile (\<lambda>c. c \<noteq> CHR '','') (f @ t) = f" using takeWhile_comma [of f t] False assms(2) by blast
  ultimately show ?thesis
    using assms(1,3) unfolding extract_field_def f by (simp only: bind.simps if_False Let_def) (simp add: overwrite_def)
qed

lemma unquoted_escape: "unquoted (escape s @ CHR 0x22 # t) = s"
  by (induction s) auto

lemma set_print_atom: "set s \<subseteq> set (print_atom s)"
proof -
  have "set s \<subseteq> set (escape s)" by (induction s) auto
  then show ?thesis by (auto simp: print_atom_def)
qed

lemma length_print_atom: "length s \<le> length (print_atom s)"
proof -
  have "length s \<le> length (escape s)" by (induction s) auto
  then show ?thesis by (simp add: print_atom_def)
qed

lemma id_char_facts:
  "id_char c \<Longrightarrow> c \<noteq> CHR 0x22 \<and> c \<noteq> NUL \<and> c \<noteq> CHR ''='' \<and> c \<noteq> CHR '','' \<and> c \<noteq> CHR ''}'' \<and> \<not> is_space c"
  by (auto simp: id_char_def is_digit_def is_space_def)

lemma cstr_at_0: "NUL \<notin> set s \<Longrightarrow> cstr_at (s @ NUL # r) 0 = Some s"
  by (simp add: cstr_at_Some)

lemma unquote_atom:
  assumes "NUL \<notin> set (print_atom s)"
  shows "\<exists>r'. unquote (print_atom s @ NUL # r) = Some (s @ NUL # r') \<and> length (s @ NUL # r') = length (print_atom s @ NUL # r)"
proof (cases "s \<noteq> [] \<and> list_all id_char s")
  case True
  then have "hd s \<noteq> CHR 0x22" "print_atom s = s" using id_char_facts by (cases s; auto simp: print_atom_def)+
  then show ?thesis using assms by (auto simp: unquote_def cstr_at_0)
next
  case False
  then have p: "print_atom s = CHR 0x22 # escape s @ [CHR 0x22]" by (auto simp: print_atom_def)
  then have "unquote (print_atom s @ NUL # r) = overwrite (print_atom s @ NUL # r) (s @ [NUL])"
    using unquoted_escape [of s "[]"] unfolding unquote_def cstr_at_0 [OF assms] by simp
  then show ?thesis using length_print_atom [of s] by (auto simp: overwrite_def)
qed

subsection \<open>Reading the identifiers back\<close>

lemma map_loop_step: "map_step p = Some p' \<Longrightarrow> parser_state p \<noteq> STATE_DONE \<Longrightarrow> map_loop p = map_loop p'"
  by (subst map_loop.simps) (simp add: map_loop.simps [of p'])

lemma map_loop_done [simp]: "parser_state p = STATE_DONE \<Longrightarrow> map_loop p = Some p"
  by (simp add: map_loop.simps)

lemma map_string_escape: "NUL \<notin> set s \<Longrightarrow> map_string (escape s @ CHR 0x22 # t) = Some (True, s, t)"
  by (induction s) auto

lemma copy_until_word:
  "\<forall>c\<in>set w. \<not> P c \<Longrightarrow> P d \<Longrightarrow> copy_until P (w @ d # t) = Some (w, d # t)"
  by (induction w) (auto simp: copy_until_def split: list.splits)

text \<open>An atom is bare or quoted, and begins with neither white space nor a closing brace.\<close>

lemma print_atom_cases [case_names bare quoted]:
  assumes "\<And>c w. s = c # w \<Longrightarrow> list_all id_char s \<Longrightarrow> print_atom s = s \<Longrightarrow> P"
    "print_atom s = CHR 0x22 # escape s @ [CHR 0x22] \<Longrightarrow> P"
  shows P
proof (cases "s \<noteq> [] \<and> list_all id_char s")
  case True
  then show ?thesis using assms(1) by (cases s) (auto simp: print_atom_def)
next
  case False
  then show ?thesis using assms(2) by (auto simp: print_atom_def)
qed

lemma print_atom_hd:
  "\<exists>c w. print_atom s = c # w \<and> \<not> is_space c \<and> c \<noteq> CHR ''}''"
proof (cases s rule: print_atom_cases)
  case (bare c w)
  then have "id_char c" by simp
  then show ?thesis using bare id_char_facts [of c] by auto
qed (auto simp: is_space_def)

lemma sink_atom: "dropWhile is_space (print_atom s @ t) = print_atom s @ t" "print_atom s @ t \<noteq> []"
  using print_atom_hd [of s] by auto

abbreviation parser :: "map_parse_state \<Rightarrow> string \<Rightarrow> string \<Rightarrow> string \<Rightarrow> port_config \<Rightarrow> map_parser" where
  "parser s r k v c \<equiv> \<lparr>parser_state = s, p_rest = r, p_key = k, p_val = v, p_config = c\<rparr>"

lemma parse_key_atom:
  assumes "NUL \<notin> set k"
  shows "parse_key (parser s (print_atom k @ CHR ''='' # t) k' v c) = Some (parser STATE_EQ (CHR ''='' # t) k v c)"
proof (cases k rule: print_atom_cases)
  case (bare d w)
  then have "\<forall>d\<in>set k. \<not> (is_space d \<or> d = NUL \<or> d = CHR ''='')" "d \<noteq> CHR 0x22" "d \<noteq> CHR ''}''"
    using id_char_facts by (auto simp: list_all_iff)
  then show ?thesis
    using bare(1,3) copy_until_word [of k "\<lambda>d. is_space d \<or> d = NUL \<or> d = CHR ''=''" "CHR ''=''" t]
    by (simp add: parse_key_def Let_def)
next
  case quoted
  then show ?thesis using map_string_escape [OF assms, of "CHR ''='' # t"] by (simp add: parse_key_def Let_def)
qed

lemma read_val_atom:
  assumes "d = CHR '','' \<or> d = CHR ''}''" "NUL \<notin> set v" "length v < length val"
  shows "read_val (parser s (print_atom v @ d # t) k val c) = Some (parser STATE_SEP (d # t) k (v @ NUL # drop (length v + 1) val) c)"
proof (cases v rule: print_atom_cases)
  case (bare e w)
  then have "\<forall>d\<in>set v. \<not> (is_space d \<or> d = NUL \<or> d = CHR '','' \<or> d = CHR ''}'')" "e \<noteq> CHR 0x22"
    using id_char_facts by (auto simp: list_all_iff)
  then show ?thesis
    using assms bare(1,3) copy_until_word [of v "\<lambda>d. is_space d \<or> d = NUL \<or> d = CHR '','' \<or> d = CHR ''}''" d t]
    by (simp add: read_val_def Let_def overwrite_def)
next
  case quoted
  then show ?thesis using assms map_string_escape [of v "d # t"]
    by (cases val) (simp_all add: read_val_def Let_def overwrite_def)
qed

text \<open>The configuration that a list of entries gives; the last entry of interest counts.\<close>

definition entry_of_interest :: "string \<times> string \<Rightarrow> bool" where
  "entry_of_interest e \<longleftrightarrow> fst e = tok_forwarder \<or> fst e = tok_relay_id"

definition ids_config :: "(string \<times> string) list \<Rightarrow> port_config" where
  "ids_config es =
     (case filter entry_of_interest (rev es) of [] \<Rightarrow> \<lparr>virtio_enabled = False, config_virtio_id = 0\<rparr> | e # _ \<Rightarrow> entry_config (snd e))"

definition add_entry :: "port_config \<Rightarrow> string \<times> string \<Rightarrow> port_config" where
  "add_entry c e = (if entry_of_interest e then entry_config (snd e) else c)"

lemma ids_config_foldl: "ids_config es = foldl add_entry \<lparr>virtio_enabled = False, config_virtio_id = 0\<rparr> es"
  by (induction es rule: rev_induct) (auto simp: ids_config_def add_entry_def)

lemma cstring_id: "NUL \<notin> set s \<Longrightarrow> cstring s = s"
  using cstring_append [of s "[]"] by (simp add: cstring_def)

lemma map_loop_entry:
  assumes "dropWhile is_space r = print_atom k @ CHR ''='' # print_atom v @ d # t"
    "d = CHR '','' \<or> d = CHR ''}''" "NUL \<notin> set k" "NUL \<notin> set v" "length v < length val"
  shows "map_loop (parser STATE_KEY r k' val c) =
    map_loop (parser STATE_SEP (d # t) k (v @ NUL # drop (length v + 1) val) (add_entry c (k, v)))"
proof -
  let ?v = "v @ NUL # drop (length v + 1) val"
  have "map_step (parser STATE_KEY r k' val c) = Some (parser STATE_EQ (CHR ''='' # print_atom v @ d # t) k val c)"
    using assms(1) sink_atom(2) [of k] parse_key_atom [OF assms(3)] by (simp add: map_step_def Let_def)
  then have 1: "map_loop (parser STATE_KEY r k' val c) = map_loop (parser STATE_EQ (CHR ''='' # print_atom v @ d # t) k val c)"
    by (rule map_loop_step) simp
  have "map_step (parser STATE_EQ (CHR ''='' # print_atom v @ d # t) k val c) = Some (parser STATE_VAL (print_atom v @ d # t) k val c)"
    by (simp add: map_step_def Let_def resync_def is_space_def)
  then have 2: "map_loop (parser STATE_EQ (CHR ''='' # print_atom v @ d # t) k val c) = map_loop (parser STATE_VAL (print_atom v @ d # t) k val c)"
    by (rule map_loop_step) simp
  have "map_step (parser STATE_VAL (print_atom v @ d # t) k val c) = Some (parser STATE_SEP (d # t) k ?v (add_entry c (k, v)))"
    using sink_atom [of v "d # t"] read_val_atom [OF assms(2,4,5)] cstr_at_0 [OF assms(4)] cstring_id [OF assms(3)]
    by (simp add: map_step_def Let_def parse_val_def add_entry_def entry_of_interest_def)
  then have "map_loop (parser STATE_VAL (print_atom v @ d # t) k val c) = map_loop (parser STATE_SEP (d # t) k ?v (add_entry c (k, v)))"
    by (rule map_loop_step) simp
  then show ?thesis using 1 2 by simp
qed

definition entries_ok :: "nat \<Rightarrow> (string \<times> string) list \<Rightarrow> bool" where
  "entries_ok n es \<longleftrightarrow> list_all (\<lambda>(k, v). NUL \<notin> set k \<and> NUL \<notin> set v \<and> length v < n) es"

lemma map_loop_entries:
  assumes "entries_ok (length val) es" "s = [] \<or> s = '' ''"
  shows "map_option p_config (map_loop (parser STATE_KEY (s @ print_entries es @ t) k' val c)) = Some (foldl add_entry c es)"
  using assms
proof (induction es arbitrary: val s k' c rule: print_entries.induct)
  case 1
  have "dropWhile is_space (s @ ''}'' @ t) = ''}'' @ t" using 1(2) by (auto simp: is_space_def)
  then have "map_step (parser STATE_KEY (s @ ''}'' @ t) k' val c) = Some (parser STATE_DONE (''}'' @ t) k' val c)"
    by (simp add: map_step_def Let_def parse_key_def)
  from map_loop_step [OF this] show ?case by simp
next
  case (2 k v)
  let ?r = "s @ print_entries [(k, v)] @ t" and ?v = "v @ NUL # drop (length v + 1) val"
  have "dropWhile is_space ?r = print_atom k @ CHR ''='' # print_atom v @ CHR ''}'' # t"
    using 2(2) sink_atom(1) [of k] by (auto simp: is_space_def)
  then have "map_loop (parser STATE_KEY ?r k' val c) = map_loop (parser STATE_SEP (CHR ''}'' # t) k ?v (add_entry c (k, v)))"
    using map_loop_entry 2(1) by (simp add: entries_ok_def)
  moreover have "map_step (parser STATE_SEP (CHR ''}'' # t) k ?v c') = Some (parser STATE_DONE (CHR ''}'' # t) k ?v c')" for c'
    by (simp add: map_step_def Let_def resync_def is_space_def)
  ultimately show ?case by (simp add: map_loop_step)
next
  case (3 k v e es)
  let ?v = "v @ NUL # drop (length v + 1) val" and ?e = "print_entries (e # es) @ t"
  let ?r = "s @ print_entries ((k, v) # e # es) @ t"
  have "dropWhile is_space ?r = print_atom k @ CHR ''='' # print_atom v @ CHR '','' # '' '' @ ?e"
    using 3(3) sink_atom(1) [of k] by (auto simp: is_space_def)
  then have "map_loop (parser STATE_KEY ?r k' val c) = map_loop (parser STATE_SEP (CHR '','' # '' '' @ ?e) k ?v (add_entry c (k, v)))"
    using map_loop_entry [of ?r k v "CHR '',''" "'' '' @ ?e" val k' c] 3(2) by (simp add: entries_ok_def)
  also have "\<dots> = map_loop (parser STATE_KEY ('' '' @ ?e) k ?v (add_entry c (k, v)))"
    by (rule map_loop_step) (simp_all add: map_step_def Let_def resync_def is_space_def)
  finally have "map_loop (parser STATE_KEY ?r k' val c) = map_loop (parser STATE_KEY ('' '' @ ?e) k ?v (add_entry c (k, v)))" .
  moreover have "length ?v = length val" using 3(2) by (auto simp: entries_ok_def)
  then have "entries_ok (length ?v) (e # es)" using 3(2) by (simp only:) (simp add: entries_ok_def)
  ultimately show ?case using 3(1) [of ?v "'' ''" k "add_entry c (k, v)"] by simp
qed

lemma parse_print_map:
  assumes "entries_ok (length val) es"
  shows "parse_map (print_map es @ t) val = Some (ids_config es)"
proof -
  let ?c = "\<lparr>virtio_enabled = False, config_virtio_id = 0\<rparr>"
  have "map_step (parser STATE_START (print_map es @ t) [] val ?c) = Some (parser STATE_KEY ([] @ print_entries es @ t) [] val ?c)"
    by (simp add: map_step_def Let_def resync_def is_space_def print_map_def)
  then have "map_loop (parser STATE_START (print_map es @ t) [] val ?c) = map_loop (parser STATE_KEY ([] @ print_entries es @ t) [] val ?c)"
    by (rule map_loop_step) simp
  then show ?thesis
    using map_loop_entries [OF assms disjI1 [OF refl], of t "[]" ?c] by (simp add: parse_map_def ids_config_foldl)
qed

subsection \<open>Reading a row back\<close>

text \<open>What the monitor does for the rows, one after the other.\<close>

definition row_effect ::
  "env \<Rightarrow> (nat \<Rightarrow> gstate \<Rightarrow> gstate) \<Rightarrow> (string \<Rightarrow> string option) \<Rightarrow> string \<Rightarrow> ovs_row \<Rightarrow> int \<times> gstate \<Rightarrow> (int \<times> gstate) option" where
  "row_effect env sched run junk r v =
     process_external_ids env sched run junk (row_action r) (row_name r) (ids_config (row_ids r)) (fst v) (snd v)"

primrec run_rows ::
  "env \<Rightarrow> (nat \<Rightarrow> gstate \<Rightarrow> gstate) \<Rightarrow> (string \<Rightarrow> string option) \<Rightarrow> string \<Rightarrow> ovs_row list \<Rightarrow> int \<times> gstate \<Rightarrow> (int \<times> gstate) option" where
  "run_rows env sched run junk [] v = Some v"
| "run_rows env sched run junk (r # rs) v = do {
     v \<leftarrow> row_effect env sched run junk r v;
     run_rows env sched run junk rs v }"

text \<open>The sizes of the arrays.\<close>

definition arrays_ok :: "ovsdb_vars \<Rightarrow> bool" where
  "arrays_ok m \<longleftrightarrow> length (tmp_mem m) = MAX_READ \<and> length (action_mem m) = MAX_READ \<and> length (name_mem m) = MAX_READ"

lemma arrays_ok_change [simp]: "arrays_ok (m\<lparr>id_change := c\<rparr>) = arrays_ok m"
  by (simp add: arrays_ok_def)

lemma entries_sizes:
  "(k, v) \<in> set es \<Longrightarrow> length v \<le> length (print_entries es) \<and> set k \<subseteq> set (print_entries es) \<and> set v \<subseteq> set (print_entries es)"
proof (induction es rule: print_entries.induct)
  case (2 k' v')
  then show ?case using set_print_atom [of k] set_print_atom [of v] length_print_atom [of v] by auto
next
  case (3 k' v' e es)
  show ?case
  proof (cases "(k, v) = (k', v')")
    case True
    then show ?thesis using set_print_atom [of k] set_print_atom [of v] length_print_atom [of v] by auto
  next
    case False
    then have "(k, v) \<in> set (e # es)" using 3(2) by auto
    from 3(1) [OF this] show ?thesis by auto
  qed
qed simp

lemma cstr_at_part:
  assumes "NUL \<notin> set (a @ b)" "buf = a @ b @ NUL # t"
  shows "cstr_at buf (length a) = Some b"
  using assms by (auto simp: cstr_at_Some)

lemma extract_part:
  assumes "buf = a @ csv_field f @ b @ NUL # t" "b = [] \<or> hd b = CHR '',''" "NUL \<notin> set (a @ csv_field f @ b)" "n = length a"
    "length f < length field"
  shows "\<exists>r. extract_field buf n field = Some (length (a @ csv_field f) + 1, f @ NUL # r) \<and> length (f @ NUL # r) = length field"
proof -
  have "cstr_at buf n = Some (csv_field f @ b)" using cstr_at_part [of a "csv_field f @ b" buf t] assms(1,3,4) by simp
  from extract_field_csv [OF this assms(2,5)] show ?thesis using assms(4,5) by simp
qed

lemma ovsdb_row_ok:
  assumes ok: "row_ok r" "arrays_ok m" "length vmem = MAX_READ" and buf: "buf = row_text r @ NUL # t"
  shows "\<exists>m'. arrays_ok m' \<and> ovsdb_row env sched run junk vmem buf (m, st) =
    map_option (\<lambda>(c, st'). (m'\<lparr>id_change := c\<rparr>, st')) (row_effect env sched run junk r (id_change m, st))"
proof -
  let ?h = "row_hash r" and ?a = "row_action r" and ?n = "print_atom (row_name r)" and ?i = "print_map (row_ids r)"
  let ?ch = "csv_field ?h @ '',''" and ?ca = "csv_field ?a @ '',''" and ?cn = "csv_field ?n @ '',''"
  have rt: "row_text r = ?ch @ ?ca @ ?cn @ csv_field ?i" by (simp add: row_text_def)
  have nul: "NUL \<notin> set (?ch @ ?ca @ ?cn @ csv_field ?i)" and len: "length (?ch @ ?ca @ ?cn @ csv_field ?i) < MAX_READ - 1"
    using ok(1) by (simp_all add: row_ok_def rt)
  have sizes: "length (tmp_mem m) = MAX_READ" "length (action_mem m) = MAX_READ" "length (name_mem m) = MAX_READ"
    using ok(2) by (simp_all add: arrays_ok_def)
  have small: "length ?h < MAX_READ" "length ?a < MAX_READ" "length ?n < MAX_READ" "length ?i < MAX_READ"
    using len length_csv_field [of ?h] length_csv_field [of ?a] length_csv_field [of ?n] length_csv_field [of ?i] by simp_all
  have plain: "NUL \<notin> set ?a" "NUL \<notin> set ?n" "NUL \<notin> set ?i"
    using nul set_csv_field(1) [of ?a] set_csv_field(1) [of ?n] set_csv_field(1) [of ?i] by auto
  then have name: "NUL \<notin> set (row_name r)" using set_print_atom [of "row_name r"] by auto
  obtain x where x: "extract_field buf 0 (tmp_mem m) = Some (length ?ch, ?h @ NUL # x)" "length (?h @ NUL # x) = MAX_READ"
    using extract_part [of buf "[]" ?h "'','' @ ?ca @ ?cn @ csv_field ?i" t 0 "tmp_mem m"] nul small(1) sizes buf rt by auto
  obtain y where y: "extract_field buf (length ?ch) (action_mem m) = Some (length (?ch @ ?ca), ?a @ NUL # y)" "length (?a @ NUL # y) = MAX_READ"
    using extract_part [of buf ?ch ?a "'','' @ ?cn @ csv_field ?i" t "length ?ch" "action_mem m"] nul small(2) sizes buf rt by auto
  obtain z where z: "extract_field buf (length (?ch @ ?ca)) (name_mem m) = Some (length (?ch @ ?ca @ ?cn), ?n @ NUL # z)" "length (?n @ NUL # z) = MAX_READ"
    using extract_part [of buf "?ch @ ?ca" ?n "'','' @ csv_field ?i" t "length (?ch @ ?ca)" "name_mem m"] nul small(3) sizes buf rt by auto
  obtain z' where u: "unquote (?n @ NUL # z) = Some (row_name r @ NUL # z')" "length (row_name r @ NUL # z') = MAX_READ"
    using unquote_atom [OF plain(2), of z] z(2) by metis
  obtain w p where w: "extract_field buf (length (?ch @ ?ca @ ?cn)) (?h @ NUL # x) = Some (p, ?i @ NUL # w)" "length (?i @ NUL # w) = MAX_READ"
    using extract_part [of buf "?ch @ ?ca @ ?cn" ?i "[]" t "length (?ch @ ?ca @ ?cn)" "?h @ NUL # x"] nul small(4) x(2) buf rt by auto
  have "entries_ok (length vmem) (row_ids r)"
    using entries_sizes [of _ _ "row_ids r"] plain(3) small(4) ok(3) by (fastforce simp: entries_ok_def list_all_iff print_map_def)
  note m = parse_print_map [OF this, of "NUL # w"]
  let ?m = "\<lparr>tmp_mem = ?i @ NUL # w, action_mem = ?a @ NUL # y, name_mem = row_name r @ NUL # z', id_change = 0\<rparr>"
  have "arrays_ok ?m" using w(2) y(2) u(2) by (simp add: arrays_ok_def)
  moreover have "ovsdb_row env sched run junk vmem buf (m, st) =
      map_option (\<lambda>(c, st'). (?m\<lparr>id_change := c\<rparr>, st')) (row_effect env sched run junk r (id_change m, st))"
    unfolding ovsdb_row_def Let_def prod.case x(1) bind.simps y(1) z(1) u(1) w(1) m cstr_at_0 [OF plain(1)] cstr_at_0 [OF name]
    by (simp add: row_effect_def map_option_bind [symmetric] option.map_sel split: option.splits bind_splits)
  ultimately show ?thesis by blast
qed

subsection \<open>Reading the stream back\<close>

lemma row_text_ne: "row_text r \<noteq> []"
  by (simp add: row_text_def)

lemma takeWhile_line: "newline \<notin> set s \<Longrightarrow> takeWhile (\<lambda>c. c \<noteq> newline) (s @ newline # t) = s"
  by (induction s) auto

lemma ovsdb_lines_none:
  assumes "NUL \<notin> set p" "newline \<notin> set p"
  shows "ovsdb_lines env sched run junk vmem (p @ NUL # t) remain v = Some (p @ NUL # t, remain, v)"
proof -
  have "length (takeWhile (\<lambda>c. c \<noteq> newline) p) = length p"
    using assms(2) by (metis (mono_tags, lifting) takeWhile_eq_all_conv)
  then show ?thesis using cstr_at_0 [OF assms(1), of t] by (subst ovsdb_lines.simps) (simp only: option.case Let_def order_refl if_True)
qed

lemma ovsdb_lines_row:
  assumes "row_ok r" "arrays_ok m" "length vmem = MAX_READ" "NUL \<notin> set s"
  shows "\<exists>m' t'. arrays_ok m' \<and> length (s @ NUL # t') = length (row_line r @ s @ NUL # t) \<and>
    ovsdb_lines env sched run junk vmem (row_line r @ s @ NUL # t) remain (m, st) =
      row_effect env sched run junk r (id_change m, st) \<bind>
        (\<lambda>(c, st'). ovsdb_lines env sched run junk vmem (s @ NUL # t') (length s) (m'\<lparr>id_change := c\<rparr>, st'))"
proof -
  let ?b = "row_line r @ s @ NUL # t" and ?n = "length (row_text r)"
  have r: "NUL \<notin> set (row_text r)" "newline \<notin> set (row_text r)" using assms(1) by (simp_all add: row_ok_def)
  have c: "cstr_at ?b 0 = Some (row_text r @ newline # s)" using r(1) assms(4) by (simp add: cstr_at_Some row_line_def)
  have n: "length (takeWhile (\<lambda>c. c \<noteq> newline) (row_text r @ newline # s)) = ?n" using takeWhile_line [OF r(2)] by simp
  have row: "?b[?n := NUL] = row_text r @ NUL # s @ NUL # t" by (simp add: row_line_def list_update_append)
  obtain m' where m: "arrays_ok m'" "ovsdb_row env sched run junk vmem (row_text r @ NUL # s @ NUL # t) (m, st) =
      map_option (\<lambda>(c, st'). (m'\<lparr>id_change := c\<rparr>, st')) (row_effect env sched run junk r (id_change m, st))"
    using ovsdb_row_ok [OF assms(1-3) refl] by blast
  have rest: "cstr_at (row_text r @ NUL # s @ NUL # t) (?n + 1) = Some s" using assms(4) by (simp add: cstr_at_Some)
  let ?t = "drop (length s + 1) (row_text r @ NUL # s @ NUL # t)"
  have "ovsdb_lines env sched run junk vmem ?b remain (m, st) =
      row_effect env sched run junk r (id_change m, st) \<bind>
        (\<lambda>(c, st'). ovsdb_lines env sched run junk vmem (s @ NUL # ?t) (length s) (m'\<lparr>id_change := c\<rparr>, st'))"
    unfolding ovsdb_lines.simps [of env sched run junk vmem ?b] c option.case Let_def n row
    using m(2) rest row_text_ne [of r] by (simp split: option.splits bind_splits)
  moreover have "length (s @ NUL # ?t) = length ?b" by (simp add: row_line_def)
  ultimately show ?thesis using m(1) by blast
qed

lemma row_line_plain: "row_ok r \<Longrightarrow> NUL \<notin> set (row_line r)"
  by (simp add: row_ok_def row_line_def)

lemma ovsdb_lines_rows:
  assumes "list_all row_ok rs" "arrays_ok m" "length vmem = MAX_READ" "NUL \<notin> set p" "newline \<notin> set p"
  shows "case run_rows env sched run junk rs (id_change m, st) of
      None \<Rightarrow> ovsdb_lines env sched run junk vmem (concat (map row_line rs) @ p @ NUL # t) remain (m, st) = None
    | Some (c, st') \<Rightarrow> \<exists>m' t'. arrays_ok m' \<and> id_change m' = c \<and>
        length (p @ NUL # t') = length (concat (map row_line rs) @ p @ NUL # t) \<and>
        ovsdb_lines env sched run junk vmem (concat (map row_line rs) @ p @ NUL # t) remain (m, st) =
          Some (p @ NUL # t', if rs = [] then remain else length p, m', st')"
  using assms(1,2)
proof (induction rs arbitrary: m st t remain)
  case Nil
  then show ?case using ovsdb_lines_none [OF assms(4,5)] by auto
next
  case (Cons r rs)
  let ?s = "concat (map row_line rs) @ p"
  have ok: "row_ok r" "list_all row_ok rs" using Cons.prems(1) by simp_all
  have "NUL \<notin> set ?s" using ok(2) assms(4) row_line_plain by (auto simp: list_all_iff)
  from ovsdb_lines_row [OF ok(1) Cons.prems(2) assms(3) this, of t] obtain m' t' where
    m: "arrays_ok m'" "length (?s @ NUL # t') = length (row_line r @ ?s @ NUL # t)"
      "ovsdb_lines env sched run junk vmem (row_line r @ ?s @ NUL # t) remain (m, st) =
        row_effect env sched run junk r (id_change m, st) \<bind>
          (\<lambda>(c, st'). ovsdb_lines env sched run junk vmem (?s @ NUL # t') (length ?s) (m'\<lparr>id_change := c\<rparr>, st'))"
    by blast
  show ?case
  proof (cases "row_effect env sched run junk r (id_change m, st)")
    case None
    then show ?thesis using m(3) by simp
  next
    case (Some v)
    obtain c st1 where v: "v = (c, st1)" by (cases v)
    have "arrays_ok (m'\<lparr>id_change := c\<rparr>)" using m(1) by simp
    from Cons.IH [OF ok(2) this, where st = st1 and t = t' and remain = "length ?s"] show ?thesis
      using m(2,3) Some v by (fastforce split: option.splits)
  qed
qed

lemma split_rows:
  assumes "x @ y = concat (map row_line rs)" "list_all row_ok rs"
  shows "\<exists>rs1 rs2 q. rs = rs1 @ rs2 \<and> x = concat (map row_line rs1) @ q \<and> newline \<notin> set q \<and>
    q @ y = concat (map row_line rs2) \<and> length q < MAX_READ - 1"
  using assms
proof (induction rs arbitrary: x)
  case Nil
  then show ?case by (auto simp: MAX_READ_def)
next
  case (Cons r rs)
  have r: "newline \<notin> set (row_text r)" "length (row_text r) < MAX_READ - 1" using Cons.prems(2) by (simp_all add: row_ok_def)
  have "x @ y = row_text r @ newline # concat (map row_line rs)" using Cons.prems(1) by (simp add: row_line_def [of r])
  then consider z where "x = row_line r @ z" "z @ y = concat (map row_line rs)" | z where "x @ z = row_text r"
    by (auto simp: append_eq_append_conv2 row_line_def [of r] append_eq_Cons_conv)
  then show ?case
  proof cases
    case 1
    from Cons.IH [OF 1(2)] Cons.prems(2) obtain rs1 rs2 q where
      "rs = rs1 @ rs2" "z = concat (map row_line rs1) @ q" "newline \<notin> set q" "q @ y = concat (map row_line rs2)" "length q < MAX_READ - 1"
      by auto
    then show ?thesis using 1(1) by (intro exI [of _ "r # rs1"] exI [of _ rs2] exI [of _ q]) simp
  next
    case 2
    then have "newline \<notin> set x" "length x \<le> length (row_text r)" using r(1) by (metis Un_iff set_append, metis length_append le_add1)
    then show ?thesis using r(2) Cons.prems(1) by (intro exI [of _ "[]"] exI [of _ "r # rs"] exI [of _ x]) simp
  qed
qed

lemma run_rows_append:
  "run_rows env sched run junk (rs1 @ rs2) v = run_rows env sched run junk rs1 v \<bind> run_rows env sched run junk rs2"
  by (induction rs1 arbitrary: v) auto

lemma read_pipe_pieces:
  assumes "[] \<notin> set cs" "0 < n" "read_pipe n cs = (d, cs')"
  shows "concat cs = d @ concat cs' \<and> [] \<notin> set cs' \<and> length d \<le> n \<and> (d = [] \<longrightarrow> cs = [])"
  using assms by (cases cs) (auto split: if_splits)

text \<open>A round of the loop: the complete rows in the buffer are done, and the rest of it moves to the front.\<close>

lemma ovsdb_reads_round:
  assumes "list_all row_ok rs1" "arrays_ok m" "length vmem = MAX_READ" "length buf = MAX_READ" "take (length p) buf = p"
    "p @ d = concat (map row_line rs1) @ q" "newline \<notin> set q" "NUL \<notin> set q" "length q < MAX_READ - 1" "length p + length d < MAX_READ"
    "read_pipe (MAX_READ - length q - 1) cs = (d', cs')"
  shows "case run_rows env sched run junk rs1 (id_change m, st) of
      None \<Rightarrow> ovsdb_reads env sched run junk vmem buf (length p) d cs (m, st) = None
    | Some (c, st1) \<Rightarrow> \<exists>m' buf'. arrays_ok m' \<and> id_change m' = c \<and> length buf' = MAX_READ \<and> take (length q) buf' = q \<and>
        ovsdb_reads env sched run junk vmem buf (length p) d cs (m, st) =
          (case d' of [] \<Rightarrow> Some (m', st1) | _ # _ \<Rightarrow> ovsdb_reads env sched run junk vmem buf' (length q) d' cs' (m', st1))"
proof -
  let ?len = "length p + length d"
  define t where "t = drop (?len + 1) buf"
  have b: "take (length p) buf @ d @ NUL # t = concat (map row_line rs1) @ q @ NUL # t"
    using assms(5,6) by (metis append.assoc)
  have len: "length (concat (map row_line rs1) @ q @ NUL # t) = MAX_READ"
    using assms(4,10) arg_cong [OF assms(6), of length] by (simp add: t_def)
  note lines = ovsdb_lines_rows [OF assms(1-3,8,7), where env = env and sched = sched and run = run and junk = junk
      and st = st and t = t and remain = ?len]
  note step = ovsdb_reads.simps [of env sched run junk vmem buf "length p" d cs "(m, st)", unfolded Let_def, folded t_def, unfolded b]
  show ?thesis
  proof (cases "run_rows env sched run junk rs1 (id_change m, st)")
    case None
    then show ?thesis using lines assms(4,10) unfolding step by simp
  next
    case (Some v)
    obtain c st1 where v: "v = (c, st1)" by (cases v)
    from lines obtain m' t' where m: "arrays_ok m'" "id_change m' = c" "length (q @ NUL # t') = MAX_READ"
      "ovsdb_lines env sched run junk vmem (concat (map row_line rs1) @ q @ NUL # t) ?len (m, st) =
        Some (q @ NUL # t', if rs1 = [] then ?len else length q, m', st1)"
      unfolding Some v option.case prod.case len by blast
    have rem: "(if rs1 = [] then ?len else length q) = length q" using assms(6) by (auto simp flip: length_append)
    have "ovsdb_reads env sched run junk vmem buf (length p) d cs (m, st) =
        (case d' of [] \<Rightarrow> Some (m', st1) | _ # _ \<Rightarrow> ovsdb_reads env sched run junk vmem (q @ NUL # t') (length q) d' cs' (m', st1))"
      using assms(4,9-11) m(4) rem unfolding step by (simp split: list.splits)
    then show ?thesis unfolding Some v option.case prod.case using m(1-3) by (intro exI conjI) auto
  qed
qed

lemma ovsdb_reads_rows:
  assumes "list_all row_ok rs" "arrays_ok m" "length vmem = MAX_READ" "length buf = MAX_READ" "take (length p) buf = p"
    "p @ d @ concat cs = concat (map row_line rs)" "[] \<notin> set cs" "length p + length d < MAX_READ"
  shows "map_option snd (ovsdb_reads env sched run junk vmem buf (length p) d cs (m, st)) =
    map_option snd (run_rows env sched run junk rs (id_change m, st))"
  using assms
proof (induction "length (concat cs)" arbitrary: cs rs m st buf p d rule: less_induct)
  case less
  have "(p @ d) @ concat cs = concat (map row_line rs)" using less.prems(6) by simp
  from split_rows [OF this less.prems(1)] obtain rs1 rs2 q where
    rs: "rs = rs1 @ rs2" and pd: "p @ d = concat (map row_line rs1) @ q" and q: "newline \<notin> set q" "length q < MAX_READ - 1"
    and rest: "q @ concat cs = concat (map row_line rs2)" by blast
  have ok: "list_all row_ok rs1" "list_all row_ok rs2" using less.prems(1) rs by simp_all
  have "NUL \<notin> set (concat (map row_line rs2))" using ok(2) row_line_plain by (auto simp: list_all_iff)
  then have qn: "NUL \<notin> set q" using rest by (metis UnCI set_append)
  obtain d' cs' where rp: "read_pipe (MAX_READ - length q - 1) cs = (d', cs')" by fastforce
  have pieces: "concat cs = d' @ concat cs'" "[] \<notin> set cs'" "length d' \<le> MAX_READ - length q - 1" "d' = [] \<Longrightarrow> cs = []"
    using read_pipe_pieces [OF less.prems(7) _ rp] q(2) by auto
  note round = ovsdb_reads_round [OF ok(1) less.prems(2-5) pd q(1) qn q(2) less.prems(8) rp, of env sched run junk st]
  show ?case
  proof (cases "run_rows env sched run junk rs1 (id_change m, st)")
    case None
    then show ?thesis using round rs by (simp add: run_rows_append)
  next
    case (Some v)
    obtain c st1 where v: "v = (c, st1)" by (cases v)
    from round obtain m' buf' where m: "arrays_ok m'" "id_change m' = c" "length buf' = MAX_READ" "take (length q) buf' = q"
      "ovsdb_reads env sched run junk vmem buf (length p) d cs (m, st) =
        (case d' of [] \<Rightarrow> Some (m', st1) | _ # _ \<Rightarrow> ovsdb_reads env sched run junk vmem buf' (length q) d' cs' (m', st1))"
      unfolding Some v option.case prod.case by blast
    have rr: "run_rows env sched run junk rs (id_change m, st) = run_rows env sched run junk rs2 (c, st1)"
      by (simp add: rs run_rows_append Some v)
    show ?thesis
    proof (cases d')
      case Nil
      then have "q = concat (map row_line rs2)" using pieces(4) rest by simp
      then have "rs2 = []" using q(1) by (cases rs2) (auto simp: row_line_def)
      then show ?thesis using m(5) Nil rr by simp
    next
      case (Cons x xs)
      have "length (concat cs') < length (concat cs)" "q @ d' @ concat cs' = concat (map row_line rs2)" "length q + length d' < MAX_READ"
        using pieces(1,3) Cons rest q(2) by simp_all
      from less.hyps [OF this(1) ok(2) m(1) less.prems(3) m(3,4) this(2) pieces(2) this(3)] show ?thesis
        using m(2,5) Cons rr by simp
    qed
  qed
qed

text \<open>C13: However the output of \<open>ovsdb-client\<close> arrives in pieces, the monitor reads every row back
  and does exactly what the rows ask for, in their order: names, actions and identifiers come
  through the quoting of the rows and of the identifiers unchanged.\<close>

theorem ovsdb_stream:
  assumes "list_all row_ok rs" "concat cs = concat (map row_line rs)" "[] \<notin> set cs"
    "arrays_ok m" "length vmem = MAX_READ" "length buf = MAX_READ"
  shows "parse_ovsdb_client env sched run junk vmem buf m cs st =
    map_option snd (run_rows env sched run junk rs (-1, st))"
proof -
  obtain d cs' where rp: "read_pipe (MAX_READ - 1) cs = (d, cs')" by fastforce
  have pieces: "concat cs = d @ concat cs'" "[] \<notin> set cs'" "length d \<le> MAX_READ - 1" "d = [] \<Longrightarrow> cs = []"
    using read_pipe_pieces [OF assms(3) _ rp] by (auto simp: MAX_READ_def)
  show ?thesis
  proof (cases "d = []")
    case True
    then have "rs = []" using pieces(4) assms(2) by (cases rs) (auto simp: row_line_def)
    then show ?thesis using True rp by (simp add: parse_ovsdb_client_def)
  next
    case False
    have "length d < MAX_READ" using pieces(3) by (simp add: MAX_READ_def)
    then have "map_option snd (ovsdb_reads env sched run junk vmem buf 0 d cs' (m\<lparr>id_change := -1\<rparr>, st)) =
        map_option snd (run_rows env sched run junk rs (-1, st))"
      using ovsdb_reads_rows [OF assms(1) _ assms(5,6), of "m\<lparr>id_change := -1\<rparr>" "[]" d cs'] assms(2,4) pieces(1,2) by simp
    then show ?thesis using False rp by (simp add: parse_ovsdb_client_def)
  qed
qed

definition demo_row :: ovs_row where
  "demo_row = \<lparr>row_hash = ''1'', row_action = ''initial'', row_name = ''eth1'', row_ids = [(''virtio_forwarder'', ''1'')]\<rparr>"

definition demo_arrays :: ovsdb_vars where
  "demo_arrays = \<lparr>tmp_mem = replicate MAX_READ NUL, action_mem = replicate MAX_READ NUL, name_mem = replicate MAX_READ NUL, id_change = 0\<rparr>"

lemma demo_arrays_ok: "arrays_ok demo_arrays"
  by (simp add: arrays_ok_def demo_arrays_def)

lemma demo_row_ok: "row_ok demo_row"
proof -
  have n: "list_all id_char ''eth1''" "list_all id_char ''virtio_forwarder''" by (simp_all add: id_char_def is_digit_def)
  have l: "(of_char newline :: nat) = 10" by (simp add: newline_def)
  have "newline \<noteq> c" if "of_char c \<noteq> (10 :: nat)" for c using that l by metis
  then show ?thesis
    using n by (simp add: row_ok_def row_text_def demo_row_def print_atom_def print_map_def csv_field_def id_char_def is_digit_def MAX_READ_def)
qed

theorem ovsdb_stream_witness:
  "list_all row_ok [demo_row] \<and>
   parse_ovsdb_client demo_env (\<lambda>n st. st) (\<lambda>_. None) [] (replicate MAX_READ NUL) (replicate MAX_READ NUL) demo_arrays
       [take 5 (row_line demo_row), drop 5 (row_line demo_row)] (demo_fixed (demo_one VIRTIO_READY DPDK_UNINIT)) =
     map_option snd (run_rows demo_env (\<lambda>n st. st) (\<lambda>_. None) [] [demo_row] (-1, demo_fixed (demo_one VIRTIO_READY DPDK_UNINIT)))"
proof -
  have "[] \<notin> set [take 5 (row_line demo_row), drop 5 (row_line demo_row)]"
    by (simp add: row_line_def row_text_def csv_field_def demo_row_def)
  then show ?thesis
    using ovsdb_stream [of "[demo_row]" "[take 5 (row_line demo_row), drop 5 (row_line demo_row)]" demo_arrays] demo_row_ok demo_arrays_ok
    by simp
qed

subsection \<open>The arrays\<close>

lemma quoted_field_length: "quoted_field s = (w, n, closed) \<Longrightarrow> length w \<le> length s"
  by (induction s arbitrary: w n rule: quoted_field.induct) (fastforce split: if_splits list.splits prod.splits)+

text \<open>A field is never written outside its array, whatever the row holds: with arrays as large as
  the buffer, reading a field only fails when no string begins at its position, and the array
  keeps its size.\<close>

theorem field_writes_inside:
  assumes "length buf \<le> length field"
  shows "if NUL \<in> set (drop start buf)
    then \<exists>pos field'. extract_field buf start field = Some (pos, field') \<and> length field' = length field
    else extract_field buf start field = None"
proof (cases "NUL \<in> set (drop start buf)")
  case True
  then obtain s r where s: "drop start buf = s @ NUL # r" "NUL \<notin> set s" using split_list_first by fast
  then have c: "cstr_at buf start = Some s" by (simp add: cstr_at_Some)
  have len: "length s < length field" using assms arg_cong [OF s(1), of length] by simp
  show ?thesis
  proof (cases "s \<noteq> [] \<and> hd s = CHR 0x22")
    case q: True
    obtain w n closed where f: "quoted_field (tl s) = (w, n, closed)" by (metis prod_cases3)
    have "length w < length s" using quoted_field_length [OF f] q by (cases s) auto
    then show ?thesis using True c q f len by (simp add: extract_field_def overwrite_def)
  next
    case False
    have "length (takeWhile (\<lambda>c. c \<noteq> CHR '','') s) \<le> length s" by (rule length_takeWhile_le)
    then show ?thesis using True c len unfolding extract_field_def bind.simps if_not_P [OF False] c Let_def
      by (simp add: overwrite_def)
  qed
next
  case False
  then show ?thesis by (simp add: extract_field_def cstr_at_def)
qed

theorem field_writes_inside_witness:
  "\<exists>pos field'. extract_field (''ab,c'' @ [NUL]) 0 (replicate 5 NUL) = Some (pos, field') \<and> length field' = 5"
  using field_writes_inside [of "''ab,c'' @ [NUL]" "replicate 5 NUL" 0] by simp

lemma extract_field_length: "extract_field buf i field = Some (pos, field') \<Longrightarrow> length field' = length field"
  by (auto simp: extract_field_def overwrite_def Let_def bind_Some_iff split: if_splits prod.splits)

lemma unquote_length: "unquote s = Some s' \<Longrightarrow> length s' = length s"
  by (auto simp: unquote_def overwrite_def bind_Some_iff split: if_splits)

lemma ovsdb_row_arrays:
  assumes "arrays_ok m" "ovsdb_row env sched run junk vmem buf (m, st) = Some (m', st')"
  shows "arrays_ok m'"
proof -
  obtain p1 t1 p2 a p3 n n' p4 t2 c where
    "extract_field buf 0 (tmp_mem m) = Some (p1, t1)" "extract_field buf p1 (action_mem m) = Some (p2, a)"
    "extract_field buf p2 (name_mem m) = Some (p3, n)" "unquote n = Some n'" "extract_field buf p3 t1 = Some (p4, t2)"
    "m' = \<lparr>tmp_mem = t2, action_mem = a, name_mem = n', id_change = c\<rparr>"
    using assms(2) by (auto simp: ovsdb_row_def bind_Some_iff)
  then show ?thesis using assms(1) by (simp add: arrays_ok_def extract_field_length unquote_length)
qed

text \<open>What the work on a row keeps, the loops over the rows and over the reads keep.\<close>

locale row_invariant =
  fixes env :: env and sched :: "nat \<Rightarrow> gstate \<Rightarrow> gstate" and run :: "string \<Rightarrow> string option" and junk vmem :: string
    and I :: "ovsdb_vars \<times> gstate \<Rightarrow> bool"
  assumes row_inv: "I v \<Longrightarrow> ovsdb_row env sched run junk vmem buf v = Some v' \<Longrightarrow> I v'"
begin

lemma lines_inv:
  assumes "ovsdb_lines env sched run junk vmem buf remain v = Some (buf', remain', v')" "I v"
  shows "I v' \<and> length buf' = length buf"
  using assms
proof (induction "length (cstring buf)" arbitrary: buf remain v rule: less_induct)
  case less
  obtain s where s: "cstr_at buf 0 = Some s" using less.prems(1) by (subst (asm) ovsdb_lines.simps) (auto split: option.splits)
  then have c: "cstring buf = s" "length s < length buf" by (auto simp: cstr_at_Some cstring_append)
  define n where "n = length (takeWhile (\<lambda>c. c \<noteq> newline) s)"
  show ?case
  proof (cases "length s \<le> n")
    case True
    then show ?thesis using less.prems s by (subst (asm) ovsdb_lines.simps) (simp add: n_def)
  next
    case False
    let ?rest = "drop (n + 1) s" and ?row = "buf[n := NUL]"
    let ?b = "?rest @ NUL # drop (length ?rest + 1) ?row"
    have rest: "cstr_at ?row (n + 1) = Some ?rest" using cstr_at_nul [OF s] False by simp
    obtain v1 where v: "(if n = 0 then Some v else ovsdb_row env sched run junk vmem ?row v) = Some v1"
      "ovsdb_lines env sched run junk vmem ?b (length ?rest) v1 = Some (buf', remain', v')"
      using less.prems(1) unfolding ovsdb_lines.simps [of env sched run junk vmem buf] s option.case Let_def n_def [symmetric]
        if_not_P [OF False] rest by (auto split: option.splits)
    have "I v1" using v(1) less.prems(2) row_inv by (auto split: if_splits)
    moreover have "NUL \<notin> set ?rest" using rest by (simp add: cstr_at_Some)
    then have "length (cstring ?b) < length (cstring buf)" using c False by (simp add: cstring_append)
    ultimately have "I v' \<and> length buf' = length ?b" using less.hyps [OF _ v(2)] by blast
    moreover have "length ?b = length buf" using c(2) False by simp
    ultimately show ?thesis by simp
  qed
qed

lemma reads_inv:
  assumes "ovsdb_reads env sched run junk vmem buf remain d cs v = Some v'" "I v"
  shows "I v'"
  using assms
proof (induction "length (concat cs)" arbitrary: buf remain d cs v rule: less_induct)
  case less
  obtain b r v1 where l: "ovsdb_lines env sched run junk vmem (take remain buf @ d @ NUL # drop (remain + length d + 1) buf) (remain + length d) v = Some (b, r, v1)"
    using less.prems(1) by (subst (asm) ovsdb_reads.simps) (auto simp: Let_def split: if_splits option.splits)
  then have i: "I v1" using lines_inv less.prems(2) by blast
  consider "v' = v1"
    | r' cs' c ds cs'' where "(if r = MAX_READ - 1 then map_option (Pair 0) (skip_line cs) else Some (r, cs)) = Some (r', cs')"
      "read_pipe (MAX_READ - r' - 1) cs' = (c # ds, cs'')" "ovsdb_reads env sched run junk vmem b r' (c # ds) cs'' v1 = Some v'"
    using less.prems(1) unfolding ovsdb_reads.simps [of env sched run junk vmem buf] Let_def l
    by (auto split: if_splits option.splits prod.splits list.splits)
  then show ?case
  proof cases
    case 1
    then show ?thesis using i by simp
  next
    case 2
    have "length (concat cs'') < length (concat cs')" using read_pipe_length [OF 2(2)] by simp
    also have "length (concat cs') \<le> length (concat cs)" using 2(1) skip_line_length by (auto split: if_splits)
    finally show ?thesis using less.hyps [OF _ 2(3) i] by blast
  qed
qed

lemma client_inv:
  assumes "parse_ovsdb_client env sched run junk vmem buf m cs st = Some st'" "I (m\<lparr>id_change := -1\<rparr>, st)"
  shows "st' = st \<or> (\<exists>m'. I (m', st'))"
proof -
  obtain d cs' where rp: "read_pipe (MAX_READ - 1) cs = (d, cs')" by fastforce
  show ?thesis
    using assms by (auto simp: parse_ovsdb_client_def rp [simplified] split: if_splits dest!: reads_inv)
qed

end

interpretation array_sizes: row_invariant env sched run junk vmem "\<lambda>(m, _). arrays_ok m"
  for env sched run junk vmem
  by unfold_locales (auto dest: ovsdb_row_arrays)

text \<open>The monitor stays in every relation of the control path.\<close>

context control_frame
begin

lemma process_external_ids_R:
  assumes "sched_in R sched" "process_external_ids env sched run junk a n pc c st = Some (c', st')"
  shows "R st st'"
  using assms(2) unfolding process_external_ids_def
  by (auto simp: bind_Some_iff split: if_splits option.splits dest!: add_vf2_R remove_vf2_R [OF assms(1)]
      intro: R_trans)

lemma ovsdb_row_R:
  assumes "sched_in R sched" "ovsdb_row env sched run junk vmem buf (m, st) = Some (m', st')"
  shows "R st st'"
proof -
  obtain a n pc c c' where "process_external_ids env sched run junk a n pc c st = Some (c', st')"
    using assms(2) by (auto simp: ovsdb_row_def bind_Some_iff)
  then show ?thesis by (rule process_external_ids_R [OF assms(1)])
qed

end

sublocale control_frame < row_frame: row_invariant env sched run junk vmem "\<lambda>(_, st). sched_in R sched \<longrightarrow> R st0 st"
  for env sched run junk vmem st0
  by unfold_locales (auto dest: ovsdb_row_R intro: R_trans)

context control_frame
begin

lemma parse_ovsdb_client_R:
  "sched_in R sched \<Longrightarrow> parse_ovsdb_client env sched run junk vmem buf m cs st = Some st' \<Longrightarrow> R st st'"
  using row_frame.client_inv [of env sched run junk vmem buf m cs st st' st] by auto

lemma ovsdb_mon_R:
  assumes "sched_in R sched" "ovsdb_mon_threadmain env sched run junk vmem buf m ob (t, st) = Some (t', st')"
  shows "R st st'"
proof -
  have "ovsdb_poll env sched run junk vmem buf m ob (t, st) = Some (t', st') \<Longrightarrow> R st st'" for t
    using parse_ovsdb_client_R [OF assms(1)] by (auto simp: ovsdb_poll_def Let_def split: if_splits)
  then show ?thesis
    using assms(2) by (auto simp: ovsdb_mon_threadmain_def split: ovsdb_pc.splits if_splits option.splits)
qed

end



subsection \<open>What the monitor does not do\<close>

text \<open>A row that ends too early takes its next field from the line after it.\<close>

lemma short_row_reads_on:
  assumes "NUL \<notin> set (csv_field f @ rest)" "rest = [] \<or> hd rest = CHR '',''" "length f < length field"
  shows "\<exists>pos r. extract_field (line @ NUL # csv_field f @ rest @ NUL # t) (length line + 1) field = Some (pos, f @ NUL # r)"
proof -
  have "cstr_at (line @ NUL # csv_field f @ rest @ NUL # t) (length line + 1) = Some (csv_field f @ rest)"
    using assms(1) by (simp add: cstr_at_Some)
  from extract_field_csv [OF this assms(2,3)] show ?thesis by blast
qed

text \<open>The number that a row gives is not used: only whether there is one.\<close>

lemma relay_number_ignored:
  assumes "virtio_enabled pc = virtio_enabled pc'" "action \<noteq> tok_old"
  shows "process_external_ids env sched run junk action name pc change st = process_external_ids env sched run junk action name pc' change st"
  unfolding process_external_ids_def assms(1) using assms(2) by (simp only: if_False)

text \<open>The files that are unlinked are not those that were found in \<open>/tmp\<close>.\<close>

lemma clean_old_unlinks: "Unlink n \<in> set (clean_old names) \<Longrightarrow> n \<in> set names \<and> hd n \<noteq> CHR ''/''"
  by (cases n) (auto simp: clean_old_def is_ovspidfile_def)

text \<open>Once \<open>ovsdb-client\<close> has ended, the monitor does nothing any more while the socket of the
  database exists: it never connects again.\<close>

theorem ovsdb_eof_stuck:
  assumes "ovs_pc t = At_head" "\<not> ovsdb_conn_down t" "\<not> ob_stop ob" "check_ovsdb_sock (ob_mode2 ob) = 0"
    "0 < ob_select ob" "ob_isset ob" "ob_reads ob = []"
  shows "ovsdb_mon_threadmain env sched run junk vmem buf m ob (t, st) = Some (t, st)"
  using assms by (simp add: ovsdb_mon_threadmain_def ovsdb_poll_def parse_ovsdb_client_def)

theorem ovsdb_eof_stuck_witness:
  "check_ovsdb_sock (Some 0xC1C0) = 0 \<and>
   ovsdb_mon_threadmain demo_env (\<lambda>n st. st) (\<lambda>_. None) [] [] [] demo_arrays
     \<lparr>ob_stop = False, ob_mode = None, ob_popen = False, ob_pid = None, ob_mode2 = Some 0xC1C0, ob_select = 1, ob_isset = True, ob_reads = []\<rparr>
     (\<lparr>ovs_pc = At_head, ovsdb_conn_down = False, ovsdbclient_pid = 1\<rparr>, demo_fixed (demo_one VIRTIO_READY DPDK_UNINIT)) =
   Some (\<lparr>ovs_pc = At_head, ovsdb_conn_down = False, ovsdbclient_pid = 1\<rparr>, demo_fixed (demo_one VIRTIO_READY DPDK_UNINIT))"
proof -
  have c: "check_ovsdb_sock (Some 0xC1C0) = 0" by (simp add: check_ovsdb_sock_def)
  show ?thesis
    using c ovsdb_eof_stuck [of "\<lparr>ovs_pc = At_head, ovsdb_conn_down = False, ovsdbclient_pid = 1\<rparr>"
      "\<lparr>ob_stop = False, ob_mode = None, ob_popen = False, ob_pid = None, ob_mode2 = Some 0xC1C0, ob_select = 1, ob_isset = True, ob_reads = []\<rparr>"]
    by simp
qed

text \<open>The loop that connects does not test whether the thread is to stop.\<close>

lemma connecting_ignores_stop:
  assumes "ovs_pc t = Connecting" "check_ovsdb_sock (ob_mode ob) \<noteq> 0"
  shows "ovsdb_mon_threadmain env sched run junk vmem buf m (ob\<lparr>ob_stop := True\<rparr>) (t, st) = Some (t, st)"
  using assms by (simp add: ovsdb_mon_threadmain_def)

end
