(* ===== verification/System.thy ===== *)
theory System
  imports OvsdbStream
begin

text \<open>
  The program as one transition system: iterations of the worker threads, passes of the four
  server threads, rounds of the two monitors and callbacks of the vhost library, in any order.
  While a handler sleeps the workers and the callbacks that do not sleep go on: these are the
  background steps, and what happens during a sleep is any sequence of them.

  Every operation stays in a relation of the locale \<open>system_frame\<close>, so a relation that the
  workers and the changes of a vring respect holds between any two states of a run. Two
  instances: the ledger of packets and counters, and the ranges of the queue bookkeeping.
\<close>

subsection \<open>Sockets, ports and callbacks stay in the relation\<close>

context system_frame
begin

lemma register_R: "register_relay_socket env path i st = Some (err, st') \<Longrightarrow> R st st'"
  using register_effect [of env path i st err st'] by (auto simp: sets_slot_def dest: logs_R)

lemma deregister_R: "deregister_socket env path st = (err, st') \<Longrightarrow> R st st'"
  using deregister_effect [of env path st err st'] by (auto simp: sets_slot_def dest: logs_R split: option.splits)

lemma register_defaults_R: "register_defaults env is st = Some (err, st') \<Longrightarrow> R st st'"
proof (induction "is" arbitrary: st)
  case (Cons i "is")
  then show ?case by (auto simp: bind_Some_iff split: if_splits dest!: register_R) (meson R_trans)
qed simp

lemma add_device_R: "add_device env g ss name mode c i st = Some (err, st') \<Longrightarrow> R st st'"
  by (auto simp: add_device_def bind_Some_iff dest!: frame_dests split: if_splits)

lemma device_attached_R: "device_attached env dev st = (b, st') \<Longrightarrow> R st st'"
  by (auto simp: device_attached_def call_rc_def split: option.splits)

lemma add_pair_R:
  assumes "sched_in R sched" "virtio_add_sock_dev_pair env sched g path ss name mode c st = Some (err, st')"
  shows "R st st'"
proof (cases path)
  case None
  then show ?thesis using assms(2) by (simp add: virtio_add_sock_dev_pair_def)
next
  case (Some p)
  define dev where "dev = (if length ss = 1 then Some (hd ss) else name)"
  obtain b st1 where 1: "device_attached env dev st = (b, st1)" by fastforce
  have r1: "R st st1" by (rule device_attached_R [OF 1])
  define i where "i = nat (virtio_get_free_relay_id (relay_ifname_map st1) st1)"
  consider "st' = st1"
    | e2 where "add_device env g ss name mode c i st1 = Some (e2, st')"
    | st2 e3 where "add_device env g ss name mode c i st1 = Some (0, st2)" "register_relay_socket env p i st2 = Some (e3, st')"
    | st2 e3 st3 d e4 st4 where "add_device env g ss name mode c i st1 = Some (0, st2)"
        "register_relay_socket env p i st2 = Some (e3, st3)"
        "virtio_forwarder_remove_vf2 env sched d i c st3 = Some (e4, st4)" "st' = snd (deregister_socket env p st4)"
    using assms(2) unfolding virtio_add_sock_dev_pair_def Some option.case dev_def [symmetric] Let_def 1 prod.case i_def
    by (auto simp: bind_Some_iff split: if_splits)
  then show ?thesis
  proof cases
    case 4
    have "R st3 st4" by (rule remove_vf2_R [OF assms(1) 4(3)])
    moreover have "R st4 st'" using deregister_R [of env p st4] 4(4) by (metis prod.collapse)
    ultimately show ?thesis using r1 add_device_R [OF 4(1)] register_R [OF 4(2)] by (meson R_trans)
  qed (use r1 add_device_R register_R in \<open>meson R_trans\<close>)+
qed

lemma remove_pair_R:
  assumes "sched_in R sched" "virtio_remove_sock_dev_pair env sched path dev cap c st = Some (err, st')"
  shows "R st st'"
proof (cases "st' = st")
  case False
  then obtain i p st1 where 1: "virtio_forwarder_remove_virtio env sched i st = Some st1"
    and 2: "st' = snd (deregister_socket env p st1) \<or>
      (\<exists>d e. virtio_forwarder_remove_vf2 env sched d i c (snd (deregister_socket env p st1)) = Some (e, st'))"
    using assms(2)
    by (auto simp: virtio_remove_sock_dev_pair_def Let_def bind_Some_iff case_prod_beta split: if_splits option.splits)
      blast+
  have "R st1 (snd (deregister_socket env p st1))" using deregister_R by (metis prod.collapse)
  then have "R st (snd (deregister_socket env p st1))" by (rule R_trans [OF remove_virtio_R [OF assms(1) 1]])
  then show ?thesis using 2 remove_vf2_R [OF assms(1)] by (meson R_trans)
qed simp

lemma respond_R: "respond r src res = Some (r', st') \<Longrightarrow> \<exists>e. res = Some (e, st')"
  by (auto simp: respond_def bind_Some_iff)

lemma port_handlers_R:
  "port_control_handle_add env ids r cfg n c st = Some (r', st') \<Longrightarrow> R st st'"
  "sched_in R sched \<Longrightarrow> port_control_handle_remove env sched r cfg name c st = Some (r', st') \<Longrightarrow> R st st'"
  "sched_in R sched \<Longrightarrow> port_control_handle_add_socket env sched ids r cfg n c st = Some (r', st') \<Longrightarrow> R st st'"
  "sched_in R sched \<Longrightarrow> port_control_handle_remove_socket env sched r cfg name c st = Some (r', st') \<Longrightarrow> R st st'"
  "port_control_handle_query_pci r cfg st = Some (r', st') \<Longrightarrow> R st st'"
  by (auto simp: port_control_handle_add_def port_control_handle_remove_def port_control_handle_add_socket_def
      port_control_handle_remove_socket_def port_control_handle_query_pci_def case_prod_beta
      split: option.splits if_splits dest!: respond_R dest: add_vf2_R bond_add_R remove_vf2_R add_pair_R remove_pair_R)

lemma port_control_R:
  assumes "sched_in R sched" "answer_PortControlRequest env sched ids garbage request st = Some (r, st')"
  shows "R st st'"
proof (cases request)
  case None
  then show ?thesis using assms(2) by (simp add: answer_PortControlRequest_def)
next
  case (Some pc)
  then show ?thesis
    using assms(2)
    by (cases "pc_op pc") (auto simp: answer_PortControlRequest_def Let_def bind_Some_iff split: if_split_asm
        dest: port_handlers_R(1) port_handlers_R(2-4) [OF assms(1)] port_handlers_R(5))
qed

end

context control_frame
begin

lemma get_ifname_R [simp]: "R st (snd (get_ifname env vid st'))= R st st'"
  by (simp add: get_ifname_def)

lemma new_device_cb_R:
  assumes "virtio_vhostuser_new_device_cb env vid st = Some (err, st')"
  shows "R st st'"
proof -
  define st1 where "st1 = disable_notifications vid [0..<e_count env (hist st) (Rte_vhost_get_vring_num vid) div 2]
    (did (Rte_vhost_get_ifname vid) (did (Rte_vhost_get_vring_num vid) st))"
  have l: "logs st st1"
    unfolding st1_def by (rule logs_trans [OF logs_trans [OF logs_did logs_did] logs_disable_notifications])
  have "st' = st1 \<or> (\<exists>e i. virtio_forwarder_add_virtio env vid i st1 = Some (e, st'))"
    using assms
    by (auto simp: virtio_vhostuser_new_device_cb_def get_ifname_def st1_def [symmetric] Let_def bind_Some_iff split: if_splits)
  then show ?thesis using R_trans [OF logs_R [OF l] add_virtio_R] logs_R [OF l] by blast
qed

lemma destroy_device_cb_R:
  assumes "sched_in R sched" "virtio_vhostuser_destroy_device_cb env sched vid st = Some st'"
  shows "R st st'"
  using assms(2) remove_virtio_R [OF assms(1)]
  by (auto simp: virtio_vhostuser_destroy_device_cb_def get_ifname_def Let_def split: if_splits)
    (metis R_did(2))

lemma features_cb_R:
  assumes "virtio_vhostuser_features_changed_cb env need_log vid features st = Some (err, st')"
  shows "R st st'"
  using assms
  by (auto simp: virtio_vhostuser_features_changed_cb_def get_ifname_def virtio_set_lm_pending_def
      Let_def bind_Some_iff split: if_splits)

lemma connection_cb_R:
  "R st (snd (virtio_vhostuser_new_connection_cb env vid st))" "R st (virtio_vhostuser_destroy_connection_cb env vid st)"
  by (simp_all add: virtio_vhostuser_new_connection_cb_def virtio_vhostuser_destroy_connection_cb_def)

end

subsection \<open>Steps of the program\<close>

text \<open>The numbers of the queues that the vhost library reports are below \<open>nq\<close>.\<close>

inductive background_step :: "env \<Rightarrow> nat \<Rightarrow> gstate \<Rightarrow> gstate \<Rightarrow> bool" for env nq where
  Work: "worker_step env st st' \<Longrightarrow> background_step env nq st st'"
| New_device: "virtio_vhostuser_new_device_cb env vid st = Some (err, st') \<Longrightarrow> background_step env nq st st'"
| Vring_state: "\<lbrakk>q < nq; virtio_vhostuser_vring_state_change_cb env vid q en st = Some (err, st')\<rbrakk> \<Longrightarrow> background_step env nq st st'"
| Features: "virtio_vhostuser_features_changed_cb env need_log vid features st = Some (err, st') \<Longrightarrow> background_step env nq st st'"
| Connection: "background_step env nq st (snd (virtio_vhostuser_new_connection_cb env vid st))"
| Disconnection: "background_step env nq st (virtio_vhostuser_destroy_connection_cb env vid st)"

abbreviation in_background :: "env \<Rightarrow> nat \<Rightarrow> gstate \<Rightarrow> gstate \<Rightarrow> bool" where
  "in_background env nq \<equiv> (background_step env nq)\<^sup>*\<^sup>*"

inductive system_step :: "env \<Rightarrow> nat \<Rightarrow> gstate \<Rightarrow> gstate \<Rightarrow> bool" for env nq where
  Background: "background_step env nq st st' \<Longrightarrow> system_step env nq st st'"
| Destroy_device: "\<lbrakk>sched_in (in_background env nq) sched; virtio_vhostuser_destroy_device_cb env sched vid st = Some st'\<rbrakk>
    \<Longrightarrow> system_step env nq st st'"
| Port_control: "\<lbrakk>sched_in (in_background env nq) sched;
    handle_request svc = handle_PortControlRequest unpack pack env sched ids garbage;
    serve_pass svc p st = Some (nxt, replies, st')\<rbrakk> \<Longrightarrow> system_step env nq st st'"
| Core_sched: "\<lbrakk>handle_request svc = handle_CoreSchedRequest unpack pack buf;
    serve_pass svc p st = Some (nxt, replies, st')\<rbrakk> \<Longrightarrow> system_step env nq st st'"
| Config: "\<lbrakk>handle_request svc = handle_ConfigRequest (unpack :: string \<Rightarrow> unit option) pack conf;
    serve_pass svc p st = Some (nxt, replies, st')\<rbrakk> \<Longrightarrow> system_step env nq st st'"
| Stats: "\<lbrakk>\<forall>s. in_background env nq s (delay s);
    handle_request svc = handle_StatsRequest unpack pack env (f :: 32 word float_ops) period delay;
    serve_pass svc p st = Some (nxt, replies, st')\<rbrakk> \<Longrightarrow> system_step env nq st st'"
| File_mon: "\<lbrakk>sched_in (in_background env nq) sched;
    file_mon_pass env sched run junk after file st = Some (file', st')\<rbrakk> \<Longrightarrow> system_step env nq st st'"
| Ovsdb_mon: "\<lbrakk>sched_in (in_background env nq) sched;
    ovsdb_mon_threadmain env sched run junk vmem arr m ob (t, st) = Some (t', st')\<rbrakk> \<Longrightarrow> system_step env nq st st'"

text \<open>A relation that the workers and the changes of a vring respect holds between the states of
  every run.\<close>

locale background_frame = control_frame +
  fixes env :: env and nq :: nat
  assumes worker_R: "worker_step env st st' \<Longrightarrow> R st st'"
    and vring_R: "q < nq \<Longrightarrow> virtio_vhostuser_vring_state_change_cb env vid q en st = Some (err, st') \<Longrightarrow> R st st'"
begin

lemma background_R: "in_background env nq st st' \<Longrightarrow> R st st'"
proof (induction rule: rtranclp_induct)
  case (step s s')
  from step(2) have "R s s'"
    by (cases rule: background_step.cases)
      (auto intro: worker_R vring_R new_device_cb_R features_cb_R connection_cb_R)
  then show ?case using step(3) R_trans by blast
qed simp

lemma sched_R: "sched_in (in_background env nq) sched \<Longrightarrow> sched_in R sched"
  by (auto simp: sched_in_def intro: background_R)

end

locale running_frame = system_frame R + background_frame R env nq
  for R :: "gstate \<Rightarrow> gstate \<Rightarrow> bool" and env :: env and nq :: nat
begin

lemma serve_R:
  assumes "\<And>req cb s resp s'. handle_request svc req cb s = Some (resp, s') \<Longrightarrow> R s s'"
    "serve_pass svc p st = Some (nxt, replies, st')"
  shows "R st st'"
  using assms(2)
  by (cases "p_quit p") (auto simp: serve_pass_def Let_def bind_Some_iff
      split: if_splits poll_result.splits recv_result.splits dest: assms(1))

lemma system_R:
  assumes "system_step env nq st st'"
  shows "R st st'"
  using assms
proof (cases rule: system_step.cases)
  case Background
  then show ?thesis using background_R by blast
next
  case (Destroy_device sched vid)
  then show ?thesis using destroy_device_cb_R sched_R by blast
next
  case (Port_control sched svc unpack pack ids garbage p nxt replies)
  show ?thesis
    by (rule serve_R [OF _ Port_control(3)])
      (auto simp: Port_control(2) handle_PortControlRequest_def bind_Some_iff split: if_splits
        dest: port_control_R [OF sched_R [OF Port_control(1)]])
next
  case (Core_sched svc unpack pack buf p nxt replies)
  show ?thesis
    by (rule serve_R [OF _ Core_sched(2)])
      (auto simp: Core_sched(1) handle_CoreSchedRequest_def bind_Some_iff split: if_splits dest: core_sched_R)
next
  case (Config svc unpack pack conf p nxt replies)
  show ?thesis
    by (rule serve_R [OF _ Config(2)])
      (auto simp: Config(1) handle_ConfigRequest_def bind_Some_iff split: if_splits)
next
  case (Stats delay svc unpack pack f period p nxt replies)
  show ?thesis
    by (rule serve_R [OF _ Stats(3)])
      (auto simp: Stats(2) handle_StatsRequest_def bind_Some_iff split: if_splits
        dest: stats_R [OF background_R [OF Stats(1) [rule_format]]])
next
  case File_mon
  then show ?thesis using file_mon_pass_R sched_R by blast
next
  case Ovsdb_mon
  then show ?thesis using ovsdb_mon_R sched_R by blast
qed

lemma run_R: "(system_step env nq)\<^sup>*\<^sup>* st st' \<Longrightarrow> R st st'"
  by (induction rule: rtranclp_induct) (auto intro: system_R R_trans)

end

subsection \<open>The table of sockets\<close>

lemma worker_step_keeps:
  assumes "worker_step env st st'"
  shows "keeps st st'"
proof -
  have "MAX_RELAYS st' = MAX_RELAYS st"
    using assms by (cases rule: worker_step.cases) (auto simp: worker_end_def dest: worker_iteration_keeps)
  then show ?thesis using worker_step_control [OF assms] by (simp add: keeps_def)
qed

lemma vring_cb_keeps:
  assumes "virtio_vhostuser_vring_state_change_cb env vid q en st = Some (err, st')"
  shows "keeps st st'"
  using assms
  by (auto simp: virtio_vhostuser_vring_state_change_cb_def get_ifname_def virtio_forwarder_vring_state_change_def
      Let_def bind_Some_iff split: if_splits)

interpretation keeps_background: background_frame keeps env nq for env nq
  by unfold_locales (auto intro: worker_step_keeps vring_cb_keeps)

lemma step_sockets_ok:
  assumes "system_step env nq st st'" "sockets_ok st"
  shows "sockets_ok st'"
  using assms(1)
proof (cases rule: system_step.cases)
  case Background
  then show ?thesis using keeps_background.background_R sockets_ok_keeps assms(2) by blast
next
  case Destroy_device
  then show ?thesis using keeps_frame.destroy_device_cb_R keeps_background.sched_R sockets_ok_keeps assms(2) by blast
next
  case (Port_control sched svc unpack pack ids garbage p nxt replies)
  show ?thesis
    using port_service.serve_pass_inv [OF Port_control(2) _ Port_control(3)] keeps_background.sched_R [OF Port_control(1)] assms(2)
    by simp
next
  case (Core_sched svc unpack pack buf p nxt replies)
  show ?thesis using core_sched_service.serve_pass_inv [OF Core_sched(1) assms(2) Core_sched(2)] by simp
next
  case (Config svc unpack pack conf p nxt replies)
  show ?thesis using config_service.serve_pass_inv [OF Config(1) assms(2) Config(2)] by simp
next
  case (Stats delay svc unpack pack f period p nxt replies)
  show ?thesis
    using stats_service.serve_pass_inv [OF Stats(2) _ Stats(3)] keeps_background.background_R Stats(1) assms(2) by blast
next
  case File_mon
  then show ?thesis using keeps_frame.file_mon_pass_R keeps_background.sched_R sockets_ok_keeps assms(2) by blast
next
  case Ovsdb_mon
  then show ?thesis using keeps_frame.ovsdb_mon_R keeps_background.sched_R sockets_ok_keeps assms(2) by blast
qed

lemma keeps_mk_default_sockets:
  assumes "keeps st st'"
  shows "mk_default_sockets st' = mk_default_sockets st"
proof -
  have "control_part st' = control_part st" using assms by (simp add: keeps_def)
  from arg_cong [OF this, of mk_default_sockets] show ?thesis by (simp add: control_part_def)
qed

lemma start_sockets_ok:
  assumes "virtio_vhostuser_start env lcores conf create_sockets st = Some (0, st')" "MAX_RELAYS st \<le> 10 ^ 10"
  shows "sockets_ok st'"
proof (cases create_sockets)
  case True
  then show ?thesis using start_routes [of env lcores conf st st'] assms by simp
next
  case False
  let ?st = "st\<lparr>mk_default_sockets := False, relay_ifname_map := replicate (MAX_RELAYS st) None, g_conf := conf\<rparr>"
  obtain e where i: "virtio_forwarders_initialize env lcores ?st = Some (e, st')"
    using assms(1) False
    by (auto simp: virtio_vhostuser_start_def Let_def bind_Some_iff split: if_splits
        dest: keeps_mk_default_sockets [OF initialize_keeps(2)])
  have "sockets_ok (?st\<lparr>worker_core_bitmap := conf_worker_core_bitmap (g_conf ?st)\<rparr>)"
    by (simp add: sockets_ok_def one_relay_each_def)
  then show ?thesis using sockets_ok_keeps [OF initialize_keeps(2) [OF i]] by blast
qed

subsection \<open>The ledger of packets and counters\<close>

text \<open>Between two states of a run: the staging arrays stay well formed, every packet buffer received
  in between is sent, freed or held, and the balance of the counters of each relay is unchanged.\<close>

definition packets_out :: "gstate \<Rightarrow> nat multiset" where
  "packets_out st = ptrs (eth_sent (hist st)) + ptrs (freed (hist st)) + ptrs (all_held st)"

definition ledger :: "env \<Rightarrow> gstate \<Rightarrow> gstate \<Rightarrow> bool" where
  "ledger env st st' \<longleftrightarrow> (burst_contract env \<longrightarrow> relays_ok st \<longrightarrow>
     relays_ok st' \<and> MAX_RELAYS st' = MAX_RELAYS st \<and>
     packets_out st + ptrs (Dpdk.received (hist st')) = packets_out st' + ptrs (Dpdk.received (hist st)) \<and>
     (\<forall>i<MAX_RELAYS st. balanced (relay_of st i) (relay_of st' i)))"

lemma multiset_chain:
  fixes a b c :: "nat multiset"
  assumes "a + r' = b + r" "b + r'' = c + r'"
  shows "a + r'' = c + r"
proof -
  have "(b + r') + (a + r'') = (b + r') + (c + r)" using assms by (metis add.assoc add.commute)
  then show ?thesis by simp
qed

lemma ledger_trans:
  assumes "ledger env st st'" "ledger env st' st''"
  shows "ledger env st st''"
  using assms multiset_chain [of "packets_out st" "ptrs (Dpdk.received (hist st'))" "packets_out st'"
      "ptrs (Dpdk.received (hist st))" "ptrs (Dpdk.received (hist st''))" "packets_out st''"]
  by (auto simp: ledger_def intro: balanced_trans)

text \<open>The parts of a state that the ledger reads.\<close>

definition same_books :: "gstate \<Rightarrow> gstate \<Rightarrow> bool" where
  "same_books st st' \<longleftrightarrow> relays_ok st' = relays_ok st \<and> all_held st' = all_held st \<and>
     eth_sent (hist st') = eth_sent (hist st) \<and> freed (hist st') = freed (hist st) \<and>
     Dpdk.received (hist st') = Dpdk.received (hist st) \<and>
     map vm2vf_balance (virtio_vf_relays st') = map vm2vf_balance (virtio_vf_relays st) \<and>
     map vf2vm_balance (virtio_vf_relays st') = map vf2vm_balance (virtio_vf_relays st)"

lemma ledger_same:
  assumes "same_books s s'"
  shows "ledger env st s' = ledger env st s" "ledger env s' st = ledger env s st"
proof -
  have l: "MAX_RELAYS s' = MAX_RELAYS s" using assms map_eq_imp_length_eq by (auto simp: same_books_def)
  have b: "vm2vf_balance (relay_of s' i) = vm2vf_balance (relay_of s i)"
    "vf2vm_balance (relay_of s' i) = vf2vm_balance (relay_of s i)" if "i < MAX_RELAYS s" for i
    using assms that l unfolding same_books_def by (metis nth_map)+
  show "ledger env st s' = ledger env st s" "ledger env s' st = ledger env s st"
    using assms b l by (auto simp: ledger_def same_books_def packets_out_def balanced_def)
qed

lemma map_update_same: "f x = f (xs ! i) \<Longrightarrow> map f (xs[i := x]) = map f xs"
  by (cases "i < length xs") (auto simp: map_update list_update_beyond list_update_same_conv)

lemma all_update_same:
  assumes "P x = P (xs ! i)"
  shows "(\<forall>y\<in>set (xs[i := x]). P y) = (\<forall>y\<in>set xs. P y)"
  using arg_cong [OF map_update_same [of P, OF assms], of "\<lambda>bs. False \<in> set bs"] by auto

lemma same_books_relay:
  assumes "stage_ok r = stage_ok (relay_of st i)" "held r = held (relay_of st i)"
    "vm2vf_balance r = vm2vf_balance (relay_of st i)" "vf2vm_balance r = vf2vm_balance (relay_of st i)"
  shows "same_books st (put_relay i r st)"
  using map_update_same [OF assms(2)] map_update_same [OF assms(3)] map_update_same [OF assms(4)]
    all_update_same [of stage_ok, OF assms(1)]
  by (simp add: same_books_def relays_ok_def all_held_def put_relay_def)

lemma same_books_hist:
  "same_books st (did c st)" "same_books st (st\<lparr>worker_threads := ts\<rparr>)" "same_books st (st\<lparr>relay_ifname_map := m\<rparr>)"
  "same_books st (st\<lparr>relay_prev_counters := p\<rparr>)"
  by (simp_all add: same_books_def did_def relays_ok_def all_held_def)

lemma same_books_vio: "(\<And>v. vio_data (f v) = vio_data v) \<Longrightarrow> same_books st (map_vio i f st)"
  unfolding map_vio_def vio_data_def
  by (rule same_books_relay)
    (simp_all add: stage_ok_def tx_ok_def rx_ok_def held_def vio_held_def dpdk_held_def vm2vf_balance_def vf2vm_balance_def)

lemma same_books_clear: "same_books st (map_vio i (\<lambda>v. v\<lparr>vio2vf_cpu := c, tx_q_bitmap := 0, rx_q_bitmap := 0\<rparr>) st)"
  unfolding map_vio_def
  by (rule same_books_relay)
    (simp_all add: stage_ok_def tx_ok_def rx_ok_def held_def vio_held_def dpdk_held_def vm2vf_balance_def vf2vm_balance_def)

lemma same_books_dpdk: "(\<And>d. dpdk_data (f d) = dpdk_data d) \<Longrightarrow> same_books st (map_dpdk i f st)"
  unfolding map_dpdk_def dpdk_data_def
  by (rule same_books_relay)
    (simp_all add: stage_ok_def tx_ok_def rx_ok_def held_def vio_held_def dpdk_held_def vm2vf_balance_def vf2vm_balance_def)

lemma ledger_worker: "worker_step env st st' \<Longrightarrow> ledger env st st'"
proof -
  assume step: "worker_step env st st'"
  have "relays_ok st' \<and> st_forwards st st'" if "burst_contract env" "relays_ok st"
    using workers.step_inv [of env st st'] workers.step_rel [of env st st'] step that by auto
  then show ?thesis
    by (auto simp: ledger_def st_forwards_def packets_out_def list_all2_conv_all_nth ac_simps)
qed

lemma ledger_vring:
  assumes "virtio_vhostuser_vring_state_change_cb env vid q en st = Some (err, st')"
  shows "ledger env st st'"
proof -
  have b: "same_books s (map_vio i (\<lambda>_. v) s)" if "vring_state_change q en (vio (relay_of s i)) = Some v" for s i v
    using that unfolding map_vio_def
    by (intro same_books_relay)
      (auto simp: vring_state_change_def Let_def bind_Some_iff stage_ok_def tx_ok_def rx_ok_def held_def vio_held_def
        dpdk_held_def vm2vf_balance_def vf2vm_balance_def split: if_splits)
  have "ledger env s s" for s by (simp add: ledger_def)
  then show ?thesis
    using assms ledger_same [OF same_books_hist(1)] ledger_same [OF b]
    by (auto simp: virtio_vhostuser_vring_state_change_cb_def get_ifname_def virtio_forwarder_vring_state_change_def
        Let_def bind_Some_iff split: if_splits)
qed

lemmas ledger_updates =
  ledger_same [OF same_books_hist(1)] ledger_same [OF same_books_hist(2)] ledger_same [OF same_books_hist(3)]
  ledger_same [OF same_books_hist(4)] ledger_same [OF same_books_vio] ledger_same [OF same_books_dpdk]
  ledger_same [OF same_books_clear]

interpretation books: running_frame "ledger env" env nq for env nq
proof unfold_locales
  show "ledger env st st" for st by (simp add: ledger_def)
  show "ledger env st st' \<Longrightarrow> ledger env st' st'' \<Longrightarrow> ledger env st st''" for st st' st'' by (rule ledger_trans)
qed (auto simp: ledger_updates intro: ledger_worker ledger_vring)

subsection \<open>Arrays and queues in range\<close>

definition relay_in_range :: "relay \<Rightarrow> bool" where
  "relay_in_range r \<longleftrightarrow> stage_ok r \<and> vring_range (vio r)"

definition in_range :: "gstate \<Rightarrow> bool" where
  "in_range st \<longleftrightarrow> (\<forall>r\<in>set (virtio_vf_relays st). relay_in_range r)"

definition keeps_range :: "env \<Rightarrow> nat \<Rightarrow> gstate \<Rightarrow> gstate \<Rightarrow> bool" where
  "keeps_range env nq st st' \<longleftrightarrow> (burst_contract env \<longrightarrow> nq \<le> 2 * MAX_MULTIQUEUE_PAIRS \<longrightarrow> in_range st \<longrightarrow> in_range st')"

lemma in_range_put:
  "in_range st \<Longrightarrow> relay_in_range r \<Longrightarrow> in_range (put_relay i r st)"
  by (auto simp: in_range_def put_relay_def dest!: set_update_subset_insert [THEN subsetD])

lemma in_range_put_same:
  "relay_in_range r = relay_in_range (relay_of st i) \<Longrightarrow> in_range (put_relay i r st) = in_range st"
  by (simp add: in_range_def put_relay_def all_update_same)

lemma in_range_updates:
  "in_range (did c st) = in_range st" "in_range (st\<lparr>worker_threads := ts\<rparr>) = in_range st"
  "in_range (st\<lparr>relay_ifname_map := m\<rparr>) = in_range st" "in_range (st\<lparr>relay_prev_counters := p\<rparr>) = in_range st"
  "(\<And>v. vio_data (f v) = vio_data v) \<Longrightarrow> in_range (map_vio i f st) = in_range st"
  "(\<And>d. dpdk_data (g d) = dpdk_data d) \<Longrightarrow> in_range (map_dpdk i g st) = in_range st"
proof -
  show "in_range (map_vio i f st) = in_range st" if "\<And>v. vio_data (f v) = vio_data v"
    unfolding map_vio_def by (rule in_range_put_same)
      (use that in \<open>simp add: relay_in_range_def stage_ok_def tx_ok_def rx_ok_def vring_range_def vio_data_def\<close>)
  show "in_range (map_dpdk i g st) = in_range st" if "\<And>d. dpdk_data (g d) = dpdk_data d"
    unfolding map_dpdk_def by (rule in_range_put_same)
      (use that in \<open>simp add: relay_in_range_def stage_ok_def tx_ok_def rx_ok_def vring_range_def dpdk_data_def\<close>)
qed (simp_all add: in_range_def did_def)

lemma in_range_clear:
  assumes "in_range st"
  shows "in_range (map_vio i (\<lambda>v. v\<lparr>vio2vf_cpu := c, tx_q_bitmap := 0, rx_q_bitmap := 0\<rparr>) st)"
proof (cases "i < MAX_RELAYS st")
  case True
  then have "relay_in_range (relay_of st i)" using assms by (simp add: in_range_def)
  then show ?thesis
    unfolding map_vio_def
    by (intro in_range_put [OF assms]) (simp add: relay_in_range_def stage_ok_def tx_ok_def rx_ok_def vring_range_def)
next
  case False
  then show ?thesis using assms by (simp add: map_vio_def put_relay_def list_update_beyond)
qed

lemma keeps_range_worker: "worker_step env st st' \<Longrightarrow> keeps_range env nq st st'"
proof -
  assume step: "worker_step env st st'"
  have "in_range st'" if "burst_contract env" "in_range st"
  proof -
    have "relays_ok st" using that(2) by (simp add: relays_ok_def in_range_def relay_in_range_def)
    then have ok: "relays_ok st'" and f: "st_forwards st st'"
      using workers.step_inv [of env st st'] workers.step_rel [of env st st'] step that(1) by auto
    have l: "MAX_RELAYS st' = MAX_RELAYS st" by (rule st_forwards_length [OF f])
    have "relay_in_range (relay_of st' i)" if i: "i < MAX_RELAYS st'" for i
    proof -
      have "wiring (relay_of st' i) = wiring (relay_of st i)"
        using f i l by (simp add: st_forwards_def list_all2_conv_all_nth)
      from arg_cong [OF this, of "\<lambda>r. (rx_q_lut (vio r), rx_q_bitmap (vio r), tx_q_bitmap (vio r))"]
      have "vring_range (vio (relay_of st' i)) = vring_range (vio (relay_of st i))"
        by (simp add: wiring_def vring_range_def)
      then show ?thesis using ok \<open>in_range st\<close> i l by (simp add: relay_in_range_def relays_ok_def in_range_def)
    qed
    then show ?thesis by (auto simp: in_range_def in_set_conv_nth)
  qed
  then show ?thesis by (simp add: keeps_range_def)
qed

lemma keeps_range_vring:
  assumes "q < nq" "virtio_vhostuser_vring_state_change_cb env vid q en st = Some (err, st')"
  shows "keeps_range env nq st st'"
proof -
  have "in_range (map_vio i (\<lambda>_. v) s)" if "vring_state_change q en (vio (relay_of s i)) = Some v"
    "q < 2 * MAX_MULTIQUEUE_PAIRS" "in_range s" "i < MAX_RELAYS s" for s i v
  proof -
    have r: "relay_in_range (relay_of s i)" using that(3,4) by (simp add: in_range_def)
    then have "vring_inv v" using vring_state_change_inv [OF _ that(2), of "vio (relay_of s i)" en] that(1) by (simp add: relay_in_range_def)
    moreover have "tx_pkts v = tx_pkts (vio (relay_of s i))" "tx_pkts_avail v = tx_pkts_avail (vio (relay_of s i))"
      "tx_pkts_used v = tx_pkts_used (vio (relay_of s i))"
      using that(1) by (auto simp: vring_state_change_def Let_def bind_Some_iff split: if_splits)
    ultimately show ?thesis
      unfolding map_vio_def using r
      by (intro in_range_put [OF that(3)]) (simp add: relay_in_range_def stage_ok_def tx_ok_def rx_ok_def vring_inv_range)
  qed
  then show ?thesis
    using assms unfolding keeps_range_def
    by (auto simp: virtio_vhostuser_vring_state_change_cb_def get_ifname_def virtio_forwarder_vring_state_change_def
        in_range_updates Let_def bind_Some_iff not_le split: if_splits)
qed

interpretation ranges: running_frame "keeps_range env nq" env nq for env nq
  by unfold_locales
    (auto simp: keeps_range_def in_range_updates in_range_clear
      dest: keeps_range_worker [of env _ _ nq, unfolded keeps_range_def] keeps_range_vring [of _ nq env, unfolded keeps_range_def])

subsection \<open>Start-up\<close>

text \<open>A state in which every relay is pristine and no packet has moved.\<close>

definition fresh :: "gstate \<Rightarrow> bool" where
  "fresh st \<longleftrightarrow> (\<forall>i<MAX_RELAYS st. pristine i (relay_of st i) \<and> stats (relay_of st i) = zero_stats \<and>
       tx_pkts_avail (vio (relay_of st i)) = 0 \<and> rx_pkts_avail (dpdk (relay_of st i)) = 0) \<and>
     (\<exists>cs. hist st = map Did cs)"

lemma fresh_relay:
  "pristine i (init_relay i n j) \<and> stats (init_relay i n j) = zero_stats \<and> tx_pkts_avail (vio (init_relay i n j)) = 0 \<and>
    rx_pkts_avail (dpdk (init_relay i n j)) = 0"
  by (simp add: pristine_def init_relay_ok) (simp add: init_relay_def)

lemma packets_calls [simp]:
  "Dpdk.received (map Did cs) = []" "eth_sent (map Did cs) = []" "freed (map Did cs) = []"
  by (induction cs) simp_all

lemma logs_calls: "logs st st' \<Longrightarrow> hist st = map Did cs \<Longrightarrow> \<exists>cs'. hist st' = map Did cs'"
  by (auto simp: logs_def simp flip: map_append)

lemma prep_default_calls:
  assumes "prep_default_sockets env st = Some (err, st')" "hist st = map Did cs"
  shows "\<exists>cs'. hist st' = map Did cs'"
proof -
  obtain ok c st1 where 1: "ensure_directory env (socket_path (g_conf st)) st = (ok, c, st1)" by (metis prod_cases3)
  have l1: "logs st st1" using 1 by (auto simp: ensure_directory_def Let_def call_rc_def split: if_splits intro!: logs_intros)
  have h: "split_template k s = Some (e, s') \<Longrightarrow> hist s' = hist s" for k s e s'
    by (auto simp: split_template_def Let_def split: if_splits)
  have "st' = st1 \<or> (\<exists>s. hist s = hist st1 \<and> logs s st')"
    using assms(1)
    by (auto simp: prep_default_sockets_def 1 bind_Some_iff case_prod_beta split: if_splits option.splits
        dest!: h intro: logs_refl owner_ids_logs logs_did_step)
  then show ?thesis using logs_calls [OF l1 assms(2)] logs_calls by metis
qed

context system_frame
begin

lemma initialize_R:
  assumes "virtio_forwarders_initialize env lcores st = Some (err, st')" "hist st = map Did cs"
  shows "\<exists>s. fresh s \<and> MAX_RELAYS s = MAX_RELAYS st \<and> R s st'"
proof -
  obtain rs where rs: "init_relays st [0..<MAX_RELAYS st] = Some rs"
    using assms by (auto simp: virtio_forwarders_initialize_def bind_Some_iff)
  define st1 where "st1 = st\<lparr>virtio_vf_relays := rs, worker_threads := replicate MAX_CPUS zero_thread,
     worker_core_bitmap := conf_worker_core_bitmap (g_conf st)\<rparr>"
  define st2 where "st2 = fold launch_worker lcores st1"
  have 2: "init_static_vfs env (static_relays (g_conf st2)) st2 = Some st'"
    using assms unfolding virtio_forwarders_initialize_def rs bind.bind_lunit Let_def st1_def [symmetric] st2_def [symmetric]
    by (auto simp: bind_Some_iff)
  have "R st1 st'"
    using R_trans [OF launch_workers_R [of st1 lcores] init_static_vfs_R [OF 2 [unfolded st2_def]]] .
  moreover have "fresh st1"
  proof -
    have "\<exists>node. rs ! i = init_relay i node (conf_use_jumbo (g_conf st))" if "i < length rs" for i
      using init_relays_Some [OF rs] that by auto
    then have "pristine i (rs ! i) \<and> stats (rs ! i) = zero_stats \<and> tx_pkts_avail (vio (rs ! i)) = 0 \<and>
        rx_pkts_avail (dpdk (rs ! i)) = 0" if "i < length rs" for i
      using that by (metis fresh_relay)
    then show ?thesis using assms(2) by (auto simp: fresh_def st1_def)
  qed
  moreover have "MAX_RELAYS st1 = MAX_RELAYS st" using init_relays_Some [OF rs] by (simp add: st1_def)
  ultimately show ?thesis by blast
qed

lemma start_R:
  assumes "virtio_vhostuser_start env lcores conf create st = Some (0, st')" "hist st = []"
  shows "\<exists>s. fresh s \<and> MAX_RELAYS s = MAX_RELAYS st \<and> R s st'"
proof -
  let ?st = "st\<lparr>mk_default_sockets := create, relay_ifname_map := replicate (MAX_RELAYS st) None, g_conf := conf\<rparr>"
  obtain st1 where 1: "(if create then prep_default_sockets env ?st else Some (0, ?st)) = Some (0, st1)"
    using assms(1) by (cases create) (auto simp: virtio_vhostuser_start_def Let_def bind_Some_iff split: if_splits)
  obtain cs where h: "hist st1 = map Did cs"
    using 1 assms(2) prep_default_calls [of env ?st 0 st1 "[]"] by (cases create) (auto intro: that [of "[]"])
  obtain e2 st2 where 2: "virtio_forwarders_initialize env lcores st1 = Some (e2, st2)"
    and 3: "st' = st2 \<or> register_defaults env [0..<MAX_RELAYS st2] st2 = Some (0, st')"
    using assms(1) 1 by (cases create) (auto simp: virtio_vhostuser_start_def Let_def bind_Some_iff split: if_splits)
  have "MAX_RELAYS st1 = MAX_RELAYS st" using 1 prep_default_names(3) [of env ?st st1] by (cases create) auto
  then obtain s where "fresh s" "MAX_RELAYS s = MAX_RELAYS st" "R s st2" using initialize_R [OF 2 h] by auto
  then show ?thesis using 3 register_defaults_R R_trans by blast
qed

end

subsection \<open>Runs from start-up\<close>

lemma fresh_in_range: "fresh s \<Longrightarrow> in_range s"
  by (auto simp: fresh_def in_range_def relay_in_range_def pristine_def in_set_conv_nth)

lemma fresh_books:
  assumes "fresh s" "ledger env s st" "burst_contract env"
  shows "ptrs (Dpdk.received (hist st)) = packets_out st"
    "\<forall>i<MAX_RELAYS st. vm2vf_balance (relay_of st i) = 0 \<and> vf2vm_balance (relay_of st i) = 0"
proof -
  have ok: "relays_ok s" using fresh_in_range [OF assms(1)] by (simp add: in_range_def relay_in_range_def relays_ok_def)
  have "all_held s = []"
    using assms(1) by (auto simp: fresh_def pristine_def all_held_def in_set_conv_nth)
  then have "packets_out s = {#}" "Dpdk.received (hist s) = []" using assms(1) by (auto simp: fresh_def packets_out_def)
  then show "ptrs (Dpdk.received (hist st)) = packets_out st" using assms(2,3) ok by (simp add: ledger_def)
  have "vm2vf_balance (relay_of s i) = 0 \<and> vf2vm_balance (relay_of s i) = 0" if "i < MAX_RELAYS s" for i
    using assms(1) that by (simp add: fresh_def vm2vf_balance_def vf2vm_balance_def zero_stats_def)
  then show "\<forall>i<MAX_RELAYS st. vm2vf_balance (relay_of st i) = 0 \<and> vf2vm_balance (relay_of st i) = 0"
    using assms(2,3) ok by (simp add: ledger_def balanced_def)
qed

lemma start_books:
  assumes "virtio_vhostuser_start env lcores conf create st0 = Some (0, st1)" "hist st0 = []"
  shows "\<exists>s. fresh s \<and> MAX_RELAYS s = MAX_RELAYS st0 \<and> ledger env s st1"
  using books.start_R [OF assms] .

text \<open>The number of relays never changes.\<close>

lemma run_relays:
  assumes "virtio_vhostuser_start env lcores conf create st0 = Some (0, st1)" "hist st0 = []" "burst_contract env"
    "(system_step env nq)\<^sup>*\<^sup>* st1 st2"
  shows "MAX_RELAYS st2 = MAX_RELAYS st0"
proof -
  obtain s where s: "fresh s" "MAX_RELAYS s = MAX_RELAYS st0" "ledger env s st1" using start_books [OF assms(1,2)] by blast
  have "relays_ok s" using fresh_in_range [OF s(1)] by (simp add: in_range_def relay_in_range_def relays_ok_def)
  then show ?thesis using ledger_trans [OF s(3) books.run_R [OF assms(4)]] s(2) assms(3) by (simp add: ledger_def)
qed

lemma start_in_range:
  assumes "virtio_vhostuser_start env lcores conf create st0 = Some (0, st1)" "hist st0 = []" "burst_contract env"
  shows "in_range st1"
  using ranges.start_R [OF assms(1,2), of env 0] assms(3) fresh_in_range by (auto simp: keeps_range_def)

end
