(* ===== verification/Services.thy ===== *)
theory Services
  imports Server
begin

text \<open>
  The life of a service (\<open>zmq_service.c\<close> and the constructors and destructors of
  \<open>zmq_config.c\<close>, \<open>zmq_stats.c\<close>, \<open>zmq_port_control.c\<close> and \<open>zmq_core_sched.c\<close>) with the
  memory it owns, and the entry of the server thread (\<open>zmq_thread\<close>).

  The theorems: what a service is given it gives back exactly once, whichever allocation fails;
  allocating refines the function of theory Server; the limit on messages protects the request
  buffer of two of the four services only; the status a thread ends with is what stopping its
  server returns.
\<close>

subsection \<open>Memory\<close>

text \<open>The blocks that are allocated, and a number that no block has had.\<close>

record heap =
  live_blocks :: "nat list"
  next_block :: nat

definition calloc :: "bool \<Rightarrow> heap \<Rightarrow> nat option \<times> heap" where
  "calloc memory h =
     (if memory then (Some (next_block h), h\<lparr>live_blocks := next_block h # live_blocks h, next_block := Suc (next_block h)\<rparr>)
      else (None, h))"

text \<open>Freeing a block that is not allocated is undefined; freeing the null pointer does nothing.\<close>

definition free :: "nat option \<Rightarrow> heap \<Rightarrow> heap option" where
  "free p h =
     (case p of
        None \<Rightarrow> Some h
      | Some b \<Rightarrow> if b \<in> set (live_blocks h) then Some (h\<lparr>live_blocks := remove1 b (live_blocks h)\<rparr>) else None)"

definition heap_ok :: "heap \<Rightarrow> bool" where
  "heap_ok h = (distinct (live_blocks h) \<and> (\<forall>b\<in>set (live_blocks h). b < next_block h))"

subsection \<open>Services with their memory\<close>

datatype destructor = Config_free | Stats_free | Port_control_free | Core_sched_free

record 'st service_object =
  object :: "'st zmq_service"
  block :: "nat option"
  priv :: "nat option"
  destructor :: "destructor option"

definition zmq_service_free :: "'st service_object \<Rightarrow> heap \<Rightarrow> heap option" where
  "zmq_service_free service = free (block service)"

definition config_free :: "'st service_object \<Rightarrow> heap \<Rightarrow> heap option" where
  "config_free service h =
     (case priv service of
        None \<Rightarrow> zmq_service_free service h
      | Some p \<Rightarrow> do { h \<leftarrow> free (Some p) h; zmq_service_free (service\<lparr>priv := None\<rparr>) h })"

definition stats_free :: "'st service_object \<Rightarrow> heap \<Rightarrow> heap option" where
  "stats_free service h = zmq_service_free service h"

definition port_control_free :: "'st service_object \<Rightarrow> heap \<Rightarrow> heap option" where
  "port_control_free service h = zmq_service_free service h"

definition core_sched_free :: "'st service_object \<Rightarrow> heap \<Rightarrow> heap option" where
  "core_sched_free service h = zmq_service_free service h"

definition zmq_service_release :: "'st service_object \<Rightarrow> heap \<Rightarrow> heap option" where
  "zmq_service_release service h =
     (case destructor service of
        None \<Rightarrow> Some h
      | Some Config_free \<Rightarrow> config_free service h
      | Some Stats_free \<Rightarrow> stats_free service h
      | Some Port_control_free \<Rightarrow> port_control_free service h
      | Some Core_sched_free \<Rightarrow> core_sched_free service h)"

text \<open>\<open>zmq_service_alloc\<close> with the heap. \<open>None\<close> is a failed assertion or an invalid \<open>free\<close>,
  \<open>Some (None, _)\<close> the null pointer.\<close>

definition service_alloc ::
  "bool \<Rightarrow> string \<Rightarrow> ('st service_object \<Rightarrow> heap \<Rightarrow> int \<times> 'st service_object \<times> heap) \<Rightarrow> heap \<Rightarrow>
   ('st service_object option \<times> heap) option" where
  "service_alloc memory name setup h =
     (if ZMQ_SERVICE_NAME_CCH_MAX \<le> length name then None
      else let (p, h) = calloc memory h in
        if p = None then Some (None, h)
        else let (err, ans, h) = setup
                   \<lparr>object = \<lparr>svc_name = name, max_request_cb = 0, max_response_cb = 0, handle_request = \<lambda>_ _ _. None\<rparr>,
                    block = p, priv = None, destructor = None\<rparr> h in
          if err < 0 then do { h \<leftarrow> free (block ans) h; Some (None, h) }
          else if max_request_cb (object ans) = 0 \<or> max_response_cb (object ans) = 0 then None
          else Some (Some ans, h))"

text \<open>Three of the constructors allocate nothing.\<close>

definition plain_setup ::
  "destructor \<Rightarrow> ('st zmq_service \<Rightarrow> int \<times> 'st zmq_service) \<Rightarrow> 'st service_object \<Rightarrow> heap \<Rightarrow> int \<times> 'st service_object \<times> heap" where
  "plain_setup d setup service h =
     (let (err, svc) = setup (object service) in (err, service\<lparr>object := svc, destructor := Some d\<rparr>, h))"

definition config_setup_priv ::
  "(string \<Rightarrow> nat \<Rightarrow> 'st \<Rightarrow> (string \<times> 'st) option) \<Rightarrow> bool \<Rightarrow> 'st service_object \<Rightarrow> heap \<Rightarrow> int \<times> 'st service_object \<times> heap" where
  "config_setup_priv handle memory service h =
     (let (p, h) = calloc memory h; (err, svc) = config_setup handle (p \<noteq> None) (object service)
      in (err, service\<lparr>object := svc, destructor := Some Config_free, priv := p\<rparr>, h))"

definition zmq_config_service_alloc where
  "zmq_config_service_alloc handle memory priv_memory = service_alloc memory ''zmq_config'' (config_setup_priv handle priv_memory)"

definition zmq_port_control_service_alloc where
  "zmq_port_control_service_alloc handle memory =
     service_alloc memory ''zmq_port_control'' (plain_setup Port_control_free (port_control_setup handle))"

definition zmq_core_sched_service_alloc where
  "zmq_core_sched_service_alloc handle memory =
     service_alloc memory ''zmq_core_sched'' (plain_setup Core_sched_free (core_sched_setup handle))"

text \<open>The statistics service also sets \<open>stats_timer_period\<close>, here the last component; \<open>inverse_hz\<close>
  is the single precision inverse of the frequency of the timer.\<close>

definition zmq_stats_service_alloc ::
  "(string \<Rightarrow> nat \<Rightarrow> 'st \<Rightarrow> (string \<times> 'st) option) \<Rightarrow> nat \<Rightarrow> 'f \<Rightarrow> bool \<Rightarrow> 'f \<Rightarrow> heap \<Rightarrow>
   (('st service_object option \<times> heap) \<times> 'f) option" where
  "zmq_stats_service_alloc handle sz inverse_hz memory period h = do {
     (ans, h) \<leftarrow> service_alloc memory ''zmq_stats'' (plain_setup Stats_free (stats_setup handle sz)) h;
     Some ((ans, h), if ans = None then period else inverse_hz) }"

subsection \<open>The server thread\<close>

record 'st zmq_thread_context =
  zmq_ep :: string
  service :: "'st service_object"
  tc_send_ready_fd :: int
  tc_quit_fd :: int

definition zmq_thread ::
  "'st zmq_thread_context \<Rightarrow> init_results \<Rightarrow> write_result list \<Rightarrow> pass_results list \<Rightarrow> close_results \<Rightarrow> 'st \<Rightarrow>
   (int option \<times> string list \<times> resource list \<times> 'st) option" where
  "zmq_thread thread_context ir ws ps cr st =
     zmq_thread_loop (object (service thread_context)) ir ws ps cr (tc_send_ready_fd thread_context) (tc_quit_fd thread_context) st"

subsection \<open>Properties\<close>

text \<open>The contract of a constructor: it keeps the block of the service and its other memory, and
  what it allocates is the private data, none of it if it fails.\<close>

locale constructor =
  fixes make :: "'st service_object \<Rightarrow> heap \<Rightarrow> int \<times> 'st service_object \<times> heap"
    and pure_setup :: "'st zmq_service \<Rightarrow> int \<times> 'st zmq_service"
  assumes setup_refines: "make s h = (err, s', h') \<Longrightarrow> pure_setup (object s) = (err, object s')"
    and setup_block: "make s h = (err, s', h') \<Longrightarrow> block s' = block s"
    and setup_fails: "make s h = (err, s', h') \<Longrightarrow> err < 0 \<Longrightarrow> h' = h"
    and setup_priv: "make s h = (err, s', h') \<Longrightarrow> priv s = None \<Longrightarrow> \<not> err < 0 \<Longrightarrow>
      (priv s' = None \<and> h' = h \<and> destructor s' \<noteq> None) \<or>
      (priv s' = Some (next_block h) \<and> h' = snd (calloc True h) \<and> destructor s' = Some Config_free)"
begin

lemma alloc_refines:
  "map_option (\<lambda>(s, h). map_option object s) (service_alloc memory name make h) = zmq_service_alloc memory name pure_setup"
proof -
  define s0 :: "'st service_object" where "s0 = \<lparr>object = \<lparr>svc_name = name, max_request_cb = 0, max_response_cb = 0, handle_request = \<lambda>_ _ _. None\<rparr>,
    block = Some (next_block h), priv = None, destructor = None\<rparr>"
  obtain err s' h' where e: "make s0 (snd (calloc True h)) = (err, s', h')" by (cases "make s0 (snd (calloc True h))")
  have b: "block s' = Some (next_block h)" using setup_block [OF e] by (simp add: s0_def)
  have p: "pure_setup (object s0) = (err, object s')" by (rule setup_refines [OF e])
  have f: "err < 0 \<Longrightarrow> h' = snd (calloc True h)" by (rule setup_fails [OF e])
  show ?thesis
    using e b p f
    by (cases "err < 0") (auto simp: service_alloc_def zmq_service_alloc_def calloc_def s0_def free_def split: if_splits)
qed

lemma alloc_release:
  assumes "heap_ok h" "service_alloc memory name make h = Some (ans, h')"
  shows "case ans of None \<Rightarrow> live_blocks h' = live_blocks h
    | Some s \<Rightarrow> \<exists>h''. zmq_service_release s h' = Some h'' \<and> live_blocks h'' = live_blocks h"
proof (cases memory)
  case True
  define s0 :: "'st service_object" where "s0 = \<lparr>object = \<lparr>svc_name = name, max_request_cb = 0, max_response_cb = 0, handle_request = \<lambda>_ _ _. None\<rparr>,
    block = Some (next_block h), priv = None, destructor = None\<rparr>"
  obtain err s' h1 where e: "make s0 (snd (calloc True h)) = (err, s', h1)" by (cases "make s0 (snd (calloc True h))")
  have b: "block s' = Some (next_block h)" using setup_block [OF e] by (simp add: s0_def)
  have n: "next_block h \<notin> set (live_blocks h)" "Suc (next_block h) \<notin> set (live_blocks h)" using assms(1) by (auto simp: heap_ok_def)
  show ?thesis
  proof (cases "err < 0")
    case True
    then have "h1 = snd (calloc True h)" by (rule setup_fails [OF e])
    then show ?thesis using assms(2) e b True \<open>memory\<close>
      by (auto simp: service_alloc_def calloc_def s0_def free_def split: if_splits)
  next
    case False
    then have a: "ans = Some s'" "h' = h1" using assms(2) e True by (auto simp: service_alloc_def calloc_def s0_def split: if_splits)
    from setup_priv [OF e _ False] have "(priv s' = None \<and> h1 = snd (calloc True h) \<and> destructor s' \<noteq> None) \<or>
      (priv s' = Some (Suc (next_block h)) \<and> h1 = snd (calloc True (snd (calloc True h))) \<and> destructor s' = Some Config_free)"
      by (simp add: s0_def calloc_def)
    then show ?thesis
    proof
      assume r: "priv s' = None \<and> h1 = snd (calloc True h) \<and> destructor s' \<noteq> None"
      have "zmq_service_release s' h1 = zmq_service_free s' h1"
        using r by (auto simp: zmq_service_release_def config_free_def stats_free_def port_control_free_def core_sched_free_def
            split: option.split destructor.split)
      then show ?thesis using a b r by (simp add: zmq_service_free_def free_def calloc_def)
    next
      assume "priv s' = Some (Suc (next_block h)) \<and> h1 = snd (calloc True (snd (calloc True h))) \<and> destructor s' = Some Config_free"
      then show ?thesis using a b
        by (simp add: zmq_service_release_def config_free_def zmq_service_free_def free_def calloc_def)
    qed
  qed
qed (use assms in \<open>auto simp: service_alloc_def calloc_def split: if_splits\<close>)

end

interpretation plain: constructor "plain_setup d (\<lambda>s. (0, f s))" "\<lambda>s. (0, f s)" for d f
  by unfold_locales (auto simp: plain_setup_def)

interpretation config: constructor "config_setup_priv handle memory" "config_setup handle memory" for handle memory
  by unfold_locales (auto simp: config_setup_priv_def config_setup_def calloc_def split: if_splits)

lemma plain_setups:
  "port_control_setup handle = (\<lambda>s. (0, snd (port_control_setup handle s)))"
  "core_sched_setup handle = (\<lambda>s. (0, snd (core_sched_setup handle s)))"
  "stats_setup handle sz = (\<lambda>s. (0, snd (stats_setup handle sz s)))"
  by (simp_all add: fun_eq_iff port_control_setup_def core_sched_setup_def stats_setup_def)

definition released :: "heap \<Rightarrow> ('st service_object option \<times> heap) option \<Rightarrow> bool" where
  "released h r =
     (case r of
        None \<Rightarrow> False
      | Some (None, h') \<Rightarrow> live_blocks h' = live_blocks h
      | Some (Some s, h') \<Rightarrow> (case zmq_service_release s h' of None \<Rightarrow> False | Some h'' \<Rightarrow> live_blocks h'' = live_blocks h))"

lemma config_alloc_returns: "zmq_config_service_alloc handle m p h \<noteq> None"
  by (auto simp: zmq_config_service_alloc_def service_alloc_def config_setup_priv_def config_setup_def calloc_def free_def
      ZMQ_SERVICE_NAME_CCH_MAX_def Let_def split: if_splits)

lemma plain_alloc_returns:
  "zmq_port_control_service_alloc handle m h \<noteq> None"
  "zmq_core_sched_service_alloc handle m h \<noteq> None"
  "u16 sz \<noteq> 0 \<Longrightarrow> service_alloc m ''zmq_stats'' (plain_setup Stats_free (stats_setup handle sz)) h \<noteq> None"
  by (auto simp: zmq_port_control_service_alloc_def zmq_core_sched_service_alloc_def service_alloc_def plain_setup_def
      port_control_setup_def core_sched_setup_def stats_setup_def calloc_def ZMQ_SERVICE_NAME_CCH_MAX_def u16_def MAX_NUM_BOND_SLAVES_def)

lemma releasedI:
  assumes "r \<noteq> None"
    and "\<And>ans h'. r = Some (ans, h') \<Longrightarrow> case ans of None \<Rightarrow> live_blocks h' = live_blocks h
      | Some s \<Rightarrow> \<exists>h''. zmq_service_release s h' = Some h'' \<and> live_blocks h'' = live_blocks h"
  shows "released h r"
proof -
  obtain ans h' where r: "r = Some (ans, h')" using assms(1) by auto
  show ?thesis using assms(2) [OF r] by (auto simp: released_def r split: option.splits)
qed

text \<open>Whichever allocations succeed, each of the four services is created without a failed
  assertion or not at all, and releasing it frees each block it was given exactly once: the heap
  holds what it held before. The statistics service needs that the size of its response buffer,
  cut to 16 bits, is not 0.\<close>

theorem services_return_memory:
  assumes "heap_ok h"
  shows "released h (zmq_config_service_alloc handle m p h)"
    and "released h (zmq_port_control_service_alloc handle m h)"
    and "released h (zmq_core_sched_service_alloc handle m h)"
    and "u16 sz \<noteq> 0 \<Longrightarrow> released h (map_option fst (zmq_stats_service_alloc handle sz hz m period h))"
proof -
  show "released h (zmq_config_service_alloc handle m p h)"
    by (intro releasedI config_alloc_returns)
      (simp add: zmq_config_service_alloc_def config.alloc_release [OF assms])
  show "released h (zmq_port_control_service_alloc handle m h)"
    by (intro releasedI plain_alloc_returns)
      (rule plain.alloc_release [OF assms], unfold zmq_port_control_service_alloc_def, subst (asm) plain_setups, assumption)
  show "released h (zmq_core_sched_service_alloc handle m h)"
    by (intro releasedI plain_alloc_returns)
      (rule plain.alloc_release [OF assms], unfold zmq_core_sched_service_alloc_def, subst (asm) plain_setups, assumption)
  let ?s = "service_alloc m ''zmq_stats'' (plain_setup Stats_free (stats_setup handle sz)) h"
  assume "u16 sz \<noteq> 0"
  then have "released h ?s"
    by (intro releasedI plain_alloc_returns)
      (assumption, rule plain.alloc_release [OF assms], subst (asm) plain_setups, assumption)
  moreover have "map_option fst (zmq_stats_service_alloc handle sz hz m period h) = ?s"
    by (cases ?s) (auto simp: zmq_stats_service_alloc_def)
  ultimately show "released h (map_option fst (zmq_stats_service_alloc handle sz hz m period h))" by simp
qed

text \<open>Allocating with the heap is allocating as the server sees it.\<close>

theorem service_alloc_refines:
  "map_option (\<lambda>(s, h'). map_option object s) (zmq_config_service_alloc handle m p h) =
    zmq_service_alloc m ''zmq_config'' (config_setup handle p)"
  "map_option (\<lambda>(s, h'). map_option object s) (zmq_port_control_service_alloc handle m h) =
    zmq_service_alloc m ''zmq_port_control'' (port_control_setup handle)"
  "map_option (\<lambda>(s, h'). map_option object s) (zmq_core_sched_service_alloc handle m h) =
    zmq_service_alloc m ''zmq_core_sched'' (core_sched_setup handle)"
  unfolding zmq_config_service_alloc_def zmq_port_control_service_alloc_def zmq_core_sched_service_alloc_def
  by (rule config.alloc_refines, (subst (1 2) plain_setups, rule plain.alloc_refines)+)

text \<open>Every request that the limit on messages lets through fits the request buffer of the port
  control service and of the core scheduling service, so receiving it never fails an assertion.\<close>

theorem accepted_requests_fit:
  assumes "zmq_port_control_service_alloc handle m h = Some (Some s, h') \<or> zmq_core_sched_service_alloc handle m h = Some (Some s, h')"
    and "length msg \<le> maxmsgsize (object s)" "p_recv p = Recv msg" "p_quit p = Read_again" "p_poll p = Poll_ready"
    and "handle msg (max_response_cb (object s)) st = Some (response, st')" "retry (p_send p) = Some True"
  shows "serve_pass (object s) p st = Some (Continue, [response], st')"
proof -
  have "handle_request (object s) = handle" "maxmsgsize (object s) = max_request_cb (object s)"
    using assms(1) by (auto simp: zmq_port_control_service_alloc_def zmq_core_sched_service_alloc_def service_alloc_def plain_setup_def
        port_control_setup_def core_sched_setup_def calloc_def maxmsgsize_def u16_def MAX_NUM_BOND_SLAVES_def split: if_splits)
  then show ?thesis using assms(2-7) by (simp add: serve_pass_def)
qed

text \<open>When the calls of stopping it succeed, a server returns the status of its thread: 0 when the
  thread left its loop after the quit event and could close everything.\<close>

theorem server_exit_status:
  assumes "zmq_thread tc ir ws ps cr st = Some (Some status, replies, gone, st')"
    and "t_join rs = Some status" "send_event (t_write rs) = Some True" "t_close_ready rs" "t_close_quit rs"
  shows "(\<exists>freed. zmq_server_stop rs server = Some (status, freed)) \<and> status \<in> {0, 1}"
proof -
  have e: "error_exit cr c s q r g = Some (x, g') \<Longrightarrow> x = 1" for c s q r g x g'
    by (auto simp: error_exit_def Let_def case_prod_unfold bind_Some_iff)
  have q: "quit_exit cr c s q r g = Some (x, g') \<Longrightarrow> x \<in> {0, 1}" for c s q r g x g'
    by (auto simp: quit_exit_def bind_Some_iff Let_def case_prod_unfold dest: e split: if_splits)
  have "status \<in> {0, 1}" using assms(1)
    by (auto simp: zmq_thread_def zmq_thread_loop_def bind_Some_iff dest: e q split: prod.splits if_splits next_pass.splits)
      (metis next_pass.exhaust)
  then show ?thesis using assms(2-5) by (auto simp: zmq_server_stop_def close_fd_def)
qed

end
