(* ===== verification/Getopt.thy ===== *)
theory Getopt
  imports Options
begin

text \<open>
  The command line from \<open>argv\<close> on: \<open>getopt_long\<close> of the C library as \<open>cmdline_parser\<close>
  uses it, the strings and tables that \<open>cmdline_parser\<close> builds for it, and the unit test at the end
  of \<open>cmdline.c\<close>.

  \<open>getopt_long\<close> is the one of the GNU C library in its default mode: words that are not options are
  moved behind the options. The theorems say that every spelling of every option is read back, in
  order and mixed with other words, and that the unit test passes.
\<close>

subsection \<open>The arguments of getopt\<close>

definition optstring :: "'m cmdline_opt list \<Rightarrow> string" where
  "optstring opts =
     CHR '':'' # concat (map (\<lambda>op. opt_short op #
       (if opt_has_arg op = 0 then [] else if 1 < opt_has_arg op then ''::'' else '':'')) opts)"

definition getopt_options :: "'m cmdline_opt list \<Rightarrow> (string \<times> nat \<times> char) list" where
  "getopt_options opts = map (\<lambda>op. (opt_long op, opt_has_arg op, opt_short op)) opts"

text \<open>The buffer of \<open>num * 3 + 2\<close> bytes holds the string and its terminating zero.\<close>

lemma optstring_fits: "length (optstring opts) + 1 \<le> length opts * 3 + 2"
  by (induction opts) (auto simp: optstring_def)

subsection \<open>getopt\_long\<close>

text \<open>Whether a character is an option, and whether it has an argument: 0 for none, 1 for a mandatory
  and 2 for an optional one.\<close>

definition short_arg :: "string \<Rightarrow> char \<Rightarrow> nat option" where
  "short_arg os c =
     (if c = CHR '':'' \<or> c = CHR '';'' then None
      else case dropWhile (\<lambda>x. x \<noteq> c) os of
        [] \<Rightarrow> None
      | _ # rest \<Rightarrow> Some (if take 2 rest = ''::'' then 2 else if take 1 rest = '':'' then 1 else 0))"

text \<open>The characters of a word such as \<open>-abc\<close>; \<open>next\<close> is the word behind it. The second result tells
  whether that word was taken as argument.\<close>

fun short_opts :: "string \<Rightarrow> string \<Rightarrow> string option \<Rightarrow> getopt_result list \<times> bool" where
  "short_opts os [] nxt = ([], False)"
| "short_opts os (c # cs) nxt =
     (case short_arg os c of
        None \<Rightarrow> (let (rs, t) = short_opts os cs nxt in (Unknown (of_char c) # rs, t))
      | Some n \<Rightarrow>
          if n = 0 then (let (rs, t) = short_opts os cs nxt in (Opt c None # rs, t))
          else if cs \<noteq> [] then ([Opt c (Some cs)], False)
          else if n = 2 then ([Opt c None], False)
          else (case nxt of None \<Rightarrow> ([Missing], False) | Some a \<Rightarrow> ([Opt c (Some a)], True)))"

text \<open>A name: exactly, or as the only one that it abbreviates.\<close>

definition find_long :: "(string \<times> nat \<times> char) list \<Rightarrow> string \<Rightarrow> (nat \<times> char) option" where
  "find_long lo name =
     (case map_of lo name of
        Some p \<Rightarrow> Some p
      | None \<Rightarrow>
          (case filter (\<lambda>(n, p). take (length name) n = name) lo of
             [] \<Rightarrow> None
           | (n, p) # rest \<Rightarrow> if list_all (\<lambda>(_, q). q = p) rest then Some p else None))"

definition long_opt :: "(string \<times> nat \<times> char) list \<Rightarrow> string \<Rightarrow> string option \<Rightarrow> getopt_result \<times> bool" where
  "long_opt lo body nxt =
     (let eq = dropWhile (\<lambda>c. c \<noteq> CHR ''='') body in
      case find_long lo (takeWhile (\<lambda>c. c \<noteq> CHR ''='') body) of
        None \<Rightarrow> (Unknown 0, False)
      | Some (n, c) \<Rightarrow>
          if eq \<noteq> [] then (if n \<noteq> 0 then Opt c (Some (tl eq)) else Unknown (of_char c), False)
          else if n = 1 then (case nxt of None \<Rightarrow> (Missing, False) | Some a \<Rightarrow> (Opt c (Some a), True))
          else (Opt c None, False))"

text \<open>The words of the command line: what the calls return one after the other, the words of the
  options, and the other words. \<open>argv\<close> is left as the former followed by the latter.\<close>

definition is_option :: "string \<Rightarrow> bool" where
  "is_option w \<longleftrightarrow> take 1 w = ''-'' \<and> w \<noteq> ''-''"

definition read_word :: "string \<Rightarrow> (string \<times> nat \<times> char) list \<Rightarrow> string \<Rightarrow> string option \<Rightarrow> getopt_result list \<times> bool" where
  "read_word os lo w nxt =
     (if take 2 w = ''--'' then (let (r, t) = long_opt lo (drop 2 w) nxt in ([r], t)) else short_opts os (tl w) nxt)"

fun getopt_long ::
  "string \<Rightarrow> (string \<times> nat \<times> char) list \<Rightarrow> string list \<Rightarrow> getopt_result list \<times> string list \<times> string list" where
  "getopt_long os lo [] = ([], [], [])"
| "getopt_long os lo [w] =
     (if w = ''--'' then ([], [w], [])
      else if is_option w then (fst (read_word os lo w None), [w], []) else ([], [], [w]))"
| "getopt_long os lo (w # a # ws) =
     (if w = ''--'' then ([], [w], a # ws)
      else if \<not> is_option w
      then (let (rs, front, others) = getopt_long os lo (a # ws) in (rs, front, w # others))
      else if snd (read_word os lo w (Some a))
      then (let (rs, front, others) = getopt_long os lo ws
            in (fst (read_word os lo w (Some a)) @ rs, w # a # front, others))
      else (let (rs, front, others) = getopt_long os lo (a # ws)
            in (fst (read_word os lo w (Some a)) @ rs, w # front, others)))"

text \<open>The parser on a command line: besides the result and the variables, \<open>cmdline_optind\<close> and
  \<open>argv\<close> as \<open>getopt_long\<close> leaves it.\<close>

definition cmdline_parser_argv ::
  "'m cmdline_opt list \<Rightarrow> cmdline_flags \<Rightarrow> string list \<Rightarrow> 'm \<Rightarrow> (int \<times> 'm \<times> nat \<times> string list) option" where
  "cmdline_parser_argv opts fl argv m = do {
     let (results, front, others) = getopt_long (optstring opts) (getopt_options opts) (tl argv);
     let optind = 1 + length front;
     let argv = hd argv # front @ others;
     (ret, m) \<leftarrow> cmdline_parser opts fl results (optind < length argv \<and> argv ! (optind - 1) \<noteq> ''--'') m;
     Some (ret, m, optind, argv) }"

subsection \<open>The unit test\<close>

text \<open>\<open>t_optarg\<close>: the pointer -1 is \<open>None\<close>, the null pointer \<open>Some None\<close>.\<close>

record testcmdline =
  t_i :: int
  t_s :: "string option"
  t_one :: int
  t_two :: int
  t_noarg :: int
  t_optarg :: "string option option"
  t_a :: int
  t_b :: int
  t_c :: int
  t_showversion :: int

definition test_zero :: testcmdline where
  "test_zero = \<lparr>t_i = 0, t_s = None, t_one = 0, t_two = 0, t_noarg = 0, t_optarg = Some None, t_a = 0, t_b = 0, t_c = 0,
     t_showversion = 0\<rparr>"

definition tst_set_i :: "string \<Rightarrow> testcmdline \<Rightarrow> (int \<times> testcmdline) option" where
  "tst_set_i arg t = do { i \<leftarrow> atoi arg; Some (if i < 1 \<or> 255 < i then (-1, t) else (0, t\<lparr>t_i := i\<rparr>)) }"

definition tst_set_s :: "string \<Rightarrow> testcmdline \<Rightarrow> (int \<times> testcmdline) option" where
  "tst_set_s arg t = Some (0, t\<lparr>t_s := Some arg\<rparr>)"

definition tst_set_1 :: "string \<Rightarrow> testcmdline \<Rightarrow> (int \<times> testcmdline) option" where
  "tst_set_1 arg t = (if t_two t \<noteq> -1 then Some (-1, t) else do { i \<leftarrow> atoi arg; Some (0, t\<lparr>t_one := i\<rparr>) })"

definition tst_set_2 :: "string \<Rightarrow> testcmdline \<Rightarrow> (int \<times> testcmdline) option" where
  "tst_set_2 arg t = (if t_one t = -1 then Some (-1, t) else do { i \<leftarrow> atoi arg; Some (0, t\<lparr>t_two := i\<rparr>) })"

definition tst_set_noarg :: "testcmdline \<Rightarrow> int \<times> testcmdline" where
  "tst_set_noarg t = (0, t\<lparr>t_noarg := 1\<rparr>)"

definition tst_set_optarg :: "string option \<Rightarrow> testcmdline \<Rightarrow> int \<times> testcmdline" where
  "tst_set_optarg arg t = (0, t\<lparr>t_optarg := Some arg\<rparr>)"

definition tst_show_version :: "testcmdline \<Rightarrow> int \<times> testcmdline" where
  "tst_show_version t = (0, t\<lparr>t_showversion := 1\<rparr>)"

text \<open>\<open>c\<close> is \<open>opts[index].opt_short\<close>.\<close>

definition tst_set_index :: "char \<Rightarrow> string \<Rightarrow> testcmdline \<Rightarrow> (int \<times> testcmdline) option" where
  "tst_set_index c arg t =
     (if c = CHR ''a'' then do { i \<leftarrow> atoi arg; Some (0, t\<lparr>t_a := i\<rparr>) }
      else if c = CHR ''b'' then do { i \<leftarrow> atoi arg; Some (0, t\<lparr>t_b := i\<rparr>) }
      else if c = CHR ''c'' then do { i \<leftarrow> atoi arg; Some (0, t\<lparr>t_c := i\<rparr>) }
      else Some (-1, t))"

definition test_opts :: "testcmdline cmdline_opt list" where
  "test_opts =
     (let op = (\<lambda>l c mand term n f. \<lparr>opt_long = l, opt_short = c, opt_mandatory = mand, opt_terminate = term, opt_func = f, opt_has_arg = n\<rparr>)
      in [op ''int'' (CHR ''i'') True False 1 (needs_arg tst_set_i),
          op ''string'' (CHR ''s'') True False 1 (needs_arg tst_set_s),
          op ''one'' (CHR ''1'') False False 1 (needs_arg tst_set_1),
          op ''two'' (CHR ''2'') False False 1 (needs_arg tst_set_2),
          op ''noarg'' (CHR ''n'') False False 0 (\<lambda>a t. Some (tst_set_noarg t)),
          op ''optarg'' (CHR ''o'') False False 2 (\<lambda>a t. Some (tst_set_optarg a t)),
          op ''aopt'' (CHR ''a'') False False 1 (needs_arg (tst_set_index (CHR ''a''))),
          op ''bopt'' (CHR ''b'') False False 1 (needs_arg (tst_set_index (CHR ''b''))),
          op ''copt'' (CHR ''c'') False False 1 (needs_arg (tst_set_index (CHR ''c''))),
          op ''version'' (CHR ''v'') False True 0 (\<lambda>a t. Some (tst_show_version t))])"

abbreviation test_flags :: "bool \<Rightarrow> bool \<Rightarrow> cmdline_flags" where
  "test_flags unknown extra \<equiv> \<lparr>ignore_unknown = unknown, ignore_extra = extra\<rparr>"

definition run_test :: "cmdline_flags \<Rightarrow> string list \<Rightarrow> testcmdline \<Rightarrow> (int \<times> testcmdline \<times> nat \<times> string list \<Rightarrow> bool) \<Rightarrow> bool" where
  "run_test fl args t check = (case cmdline_parser_argv test_opts fl (''cmdline'' # args) t of None \<Rightarrow> False | Some r \<Rightarrow> check r)"

definition test_missing_mandatory :: bool where
  "test_missing_mandatory = run_test (test_flags False False) [''-i'', ''42''] test_zero (\<lambda>(ret, _). ret \<noteq> 0)"

definition test_terminating :: bool where
  "test_terminating = run_test (test_flags False False) [''-i'', ''42'', ''-v''] test_zero
     (\<lambda>(ret, t, _). ret = 0 \<and> t_i t = 42 \<and> t_showversion t = 1)"

definition test_mandatory :: bool where
  "test_mandatory = run_test (test_flags False False) [''-i'', ''42'', ''-s'', ''foo''] test_zero
     (\<lambda>(ret, t, _). ret = 0 \<and> t_i t = 42 \<and> t_s t = Some ''foo'')"

definition test_extra :: bool where
  "test_extra = run_test (test_flags False False) [''-i'', ''42'', ''-s'', ''foo'', ''blah''] test_zero (\<lambda>(ret, _). ret \<noteq> 0)"

definition test_extra_ignored :: bool where
  "test_extra_ignored = run_test (test_flags False True) [''-i'', ''42'', ''-s'', ''foo'', ''blah''] test_zero
     (\<lambda>(ret, t, optind, argv). ret = 0 \<and> argv ! optind = ''blah'')"

definition test_unknown :: bool where
  "test_unknown = run_test (test_flags False False) [''-i'', ''42'', ''-s'', ''foo'', ''-X''] test_zero (\<lambda>(ret, _). ret \<noteq> 0)"

definition test_unknown_ignored :: bool where
  "test_unknown_ignored = run_test (test_flags True False) [''-i'', ''42'', ''-s'', ''foo'', ''-X''] test_zero
     (\<lambda>(ret, t, optind, argv). ret = 0 \<and> optind = 6)"

definition test_optarg_absent :: bool where
  "test_optarg_absent = run_test (test_flags False False) [''-i'', ''42'', ''-s'', ''foo'', ''-o''] (test_zero\<lparr>t_optarg := None\<rparr>)
     (\<lambda>(ret, t, _). ret = 0 \<and> t_optarg t = Some None)"

definition test_optarg_short :: bool where
  "test_optarg_short = run_test (test_flags False False) [''-i'', ''42'', ''-s'', ''foo'', ''-obar''] (test_zero\<lparr>t_optarg := None\<rparr>)
     (\<lambda>(ret, t, _). ret = 0 \<and> t_optarg t = Some (Some ''bar''))"

definition test_optarg_long :: bool where
  "test_optarg_long = run_test (test_flags False False) [''-i'', ''42'', ''-s'', ''foo'', ''--optarg=bar''] (test_zero\<lparr>t_optarg := None\<rparr>)
     (\<lambda>(ret, t, _). ret = 0 \<and> t_optarg t = Some (Some ''bar''))"

definition test_index :: bool where
  "test_index = run_test (test_flags False False)
     [''-i'', ''42'', ''-s'', ''foo'', ''-a'', ''1'', ''-b'', ''2'', ''-c'', ''3''] test_zero
     (\<lambda>(ret, t, _). ret = 0 \<and> t_a t = 1 \<and> t_b t = 2 \<and> t_c t = 3)"

definition test_combined :: bool where
  "test_combined = run_test (test_flags True True)
     [''-i'', ''42'', ''-s'', ''foofoo'', ''--noarg'', ''-ofoobar'', ''-1'', ''1'', ''-2'', ''2'', ''blah'']
     (test_zero\<lparr>t_i := -1, t_s := None, t_one := -1, t_two := -1, t_noarg := -1\<rparr>)
     (\<lambda>(ret, t, optind, argv). ret = 0 \<and> t_one t \<noteq> -1 \<and> t_two t \<noteq> -1 \<and> optind < 12 \<and> argv ! optind = ''blah'' \<and>
        t_noarg t = 1 \<and> t_optarg t = Some (Some ''foobar'') \<and> t_s t = Some ''foofoo'' \<and> t_i t = 42 \<and> t_one t = 1 \<and> t_two t = 2)"

text \<open>The unit test of the parser passes on the model: missing and terminating options, extra words and
  unknown options with and without the flags to ignore them, optional arguments, the index, and their
  combination.\<close>

theorem cmdline_unit_test:
  "test_missing_mandatory \<and> test_terminating \<and> test_mandatory \<and> test_extra \<and> test_extra_ignored \<and> test_unknown \<and>
   test_unknown_ignored \<and> test_optarg_absent \<and> test_optarg_short \<and> test_optarg_long \<and> test_index \<and> test_combined"
  by (intro conjI; code_simp)

subsection \<open>Every spelling is read back\<close>

text \<open>Tables without surprises: the characters and names are different and usable. The tables of the
  program and of the unit test are such.\<close>

definition table_ok :: "'m cmdline_opt list \<Rightarrow> bool" where
  "table_ok opts \<longleftrightarrow> distinct (map opt_short opts) \<and> distinct (map opt_long opts) \<and>
     (\<forall>op\<in>set opts. opt_short op \<notin> {CHR '':'', CHR '';'', CHR ''-''} \<and> opt_long op \<noteq> [] \<and> CHR ''='' \<notin> set (opt_long op) \<and>
       opt_has_arg op \<le> 2)"

text \<open>The ways to write an option with its argument.\<close>

definition spellings :: "'m cmdline_opt \<Rightarrow> string option \<Rightarrow> string list list" where
  "spellings op arg =
     (let short = [CHR ''-'', opt_short op]; long = ''--'' @ opt_long op in
      case arg of
        None \<Rightarrow> if opt_has_arg op = 1 then [] else [[short], [long]]
      | Some a \<Rightarrow>
          (if opt_has_arg op = 0 then [] else [long @ CHR ''='' # a] # (if a = [] then [] else [[short @ a]])) @
          (if opt_has_arg op = 1 then [[short, a], [long, a]] else []))"

lemma short_arg_table:
  assumes "table_ok opts" "op \<in> set opts"
  shows "short_arg (optstring opts) (opt_short op) = Some (opt_has_arg op)"
proof -
  define tail where "tail = (\<lambda>o' :: 'a cmdline_opt. if opt_has_arg o' = 0 then [] else if 1 < opt_has_arg o' then ''::'' else '':'')"
  define body where "body = (\<lambda>ops. concat (map (\<lambda>o'. opt_short o' # tail o') ops))"
  have c: "opt_short op \<noteq> CHR '':''" "opt_short op \<noteq> CHR '';''" "opt_has_arg op \<le> 2" using assms by (auto simp: table_ok_def)
  have "\<exists>rest. dropWhile (\<lambda>x. x \<noteq> opt_short op) (body ops) = opt_short op # tail op @ body rest \<and> set rest \<subseteq> set ops"
    if "op \<in> set ops" "distinct (map opt_short ops)" "set ops \<subseteq> set opts" for ops
    using that
  proof (induction ops)
    case (Cons o' ops)
    show ?case
    proof (cases "o' = op")
      case True
      then show ?thesis by (auto simp: body_def)
    next
      case False
      then have "opt_short o' \<noteq> opt_short op" "op \<in> set ops" using Cons.prems by force+
      moreover have "\<forall>x\<in>set (tail o'). x \<noteq> opt_short op" using c(1) by (auto simp: tail_def)
      ultimately show ?thesis using Cons.IH Cons.prems by (auto simp: body_def dropWhile_append)
    qed
  qed simp
  from this [of opts] obtain rest where
    r: "dropWhile (\<lambda>x. x \<noteq> opt_short op) (body opts) = opt_short op # tail op @ body rest" "set rest \<subseteq> set opts"
    using assms by (auto simp: table_ok_def)
  have "take 1 (body rest) \<noteq> '':''"
    using assms(1) r(2) by (cases rest) (auto simp: body_def table_ok_def)
  then show ?thesis
    using r(1) c by (cases "body rest") (auto simp: short_arg_def optstring_def body_def tail_def)
qed

lemma find_long_table:
  assumes "table_ok opts" "op \<in> set opts"
  shows "find_long (getopt_options opts) (opt_long op) = Some (opt_has_arg op, opt_short op)"
proof -
  have "map_of (getopt_options opts) (opt_long op) = Some (opt_has_arg op, opt_short op)"
    using assms by (intro map_of_is_SomeI) (auto simp: table_ok_def getopt_options_def comp_def)
  then show ?thesis by (simp add: find_long_def)
qed

text \<open>One option in front of the rest of the command line.\<close>

lemma getopt_one_word:
  assumes "is_option w" "w \<noteq> ''--''" "\<And>nxt. read_word os lo w nxt = (r, False)" "getopt_long os lo ws = (rs, front, others)"
  shows "getopt_long os lo (w # ws) = (r @ rs, w # front, others)"
  using assms by (cases ws) auto

lemma getopt_two_words:
  assumes "is_option w" "w \<noteq> ''--''" "read_word os lo w (Some a) = (r, True)" "getopt_long os lo ws = (rs, front, others)"
  shows "getopt_long os lo (w # a # ws) = (r @ rs, w # a # front, others)"
  using assms by simp

lemma takeWhile_eq_sign: "CHR ''='' \<notin> set n \<Longrightarrow> takeWhile (\<lambda>c. c \<noteq> CHR ''='') (n @ CHR ''='' # a) = n"
  "CHR ''='' \<notin> set n \<Longrightarrow> dropWhile (\<lambda>c. c \<noteq> CHR ''='') (n @ CHR ''='' # a) = CHR ''='' # a"
  "CHR ''='' \<notin> set n \<Longrightarrow> takeWhile (\<lambda>c. c \<noteq> CHR ''='') n = n"
  "CHR ''='' \<notin> set n \<Longrightarrow> dropWhile (\<lambda>c. c \<noteq> CHR ''='') n = []"
  by (induction n) auto

text \<open>The words of an option, short or long, with text \<open>x\<close> attached.\<close>

definition short_word :: "'m cmdline_opt \<Rightarrow> string \<Rightarrow> string" where
  "short_word op x = [CHR ''-'', opt_short op] @ x"

definition long_word :: "'m cmdline_opt \<Rightarrow> string \<Rightarrow> string" where
  "long_word op x = ''--'' @ opt_long op @ x"

lemma words_are_options:
  assumes "table_ok opts" "op \<in> set opts"
  shows "is_option (short_word op x)" "short_word op x \<noteq> ''--''" "is_option (long_word op x)" "long_word op x \<noteq> ''--''"
  using assms by (auto simp: is_option_def table_ok_def short_word_def long_word_def)

lemma read_short_word:
  assumes "table_ok opts" "op \<in> set opts"
  shows "read_word os lo (short_word op x) nxt = short_opts os (opt_short op # x) nxt"
  using assms by (auto simp: read_word_def table_ok_def short_word_def)

lemma read_long_word: "read_word os lo (long_word op x) nxt = (let (r, t) = long_opt lo (opt_long op @ x) nxt in ([r], t))"
  by (simp add: read_word_def long_word_def)

text \<open>A spelling is one word that is read as the option, whatever follows, or two words.\<close>

lemma read_spelling:
  assumes "table_ok opts" "op \<in> set opts" "ws \<in> set (spellings op arg)"
  obtains (one) w where "ws = [w]" "is_option w" "w \<noteq> ''--''"
      "\<And>nxt. read_word (optstring opts) (getopt_options opts) w nxt = ([Opt (opt_short op) arg], False)"
    | (two) w a where "ws = [w, a]" "is_option w" "w \<noteq> ''--''"
      "read_word (optstring opts) (getopt_options opts) w (Some a) = ([Opt (opt_short op) arg], True)"
proof -
  have t: "CHR ''='' \<notin> set (opt_long op)" "opt_has_arg op \<le> 2" using assms(1,2) by (auto simp: table_ok_def)
  note words = words_are_options [OF assms(1,2)]
  note read = read_short_word [OF assms(1,2)] read_long_word short_arg_table [OF assms(1,2)] find_long_table [OF assms(1,2)]
    takeWhile_eq_sign [OF t(1)] long_opt_def
  from assms(3) consider
      (none) "arg = None" "opt_has_arg op \<noteq> 1" "ws = [short_word op []] \<or> ws = [long_word op []]"
    | (equals) a where "arg = Some a" "opt_has_arg op \<noteq> 0" "ws = [long_word op (CHR ''='' # a)]"
    | (attached) a where "arg = Some a" "opt_has_arg op \<noteq> 0" "a \<noteq> []" "ws = [short_word op a]"
    | (behind) a where "arg = Some a" "opt_has_arg op = 1" "ws = [short_word op [], a] \<or> ws = [long_word op [], a]"
    by (cases arg) (auto simp: spellings_def Let_def short_word_def long_word_def split: if_splits)
  then show thesis
  proof cases
    case none
    then show thesis using one words [of "[]"] t(2) by (auto simp: read)
  next
    case equals
    then show thesis using one words(3,4) by (auto simp: read)
  next
    case attached
    then show thesis using one words(1,2) by (auto simp: read)
  next
    case behind
    then show thesis using two words [of "[]"] by (auto simp: read)
  qed
qed

lemma getopt_spelling:
  assumes "table_ok opts" "op \<in> set opts" "ws \<in> set (spellings op arg)"
    "getopt_long (optstring opts) (getopt_options opts) rest = (rs, front, others)"
  shows "getopt_long (optstring opts) (getopt_options opts) (ws @ rest) = (Opt (opt_short op) arg # rs, ws @ front, others)"
  using assms(1-3)
proof (cases rule: read_spelling)
  case (one w)
  then show ?thesis using getopt_one_word [OF one(2-4) assms(4)] by simp
next
  case (two w a)
  then show ?thesis using getopt_two_words [OF two(2-4) assms(4)] by simp
qed

text \<open>A command line as its author means it: options of the table with their arguments, each in one of
  its spellings, and other words.\<close>

datatype group = Given nat "string option" "string list" | Other string

fun group_ok :: "'m cmdline_opt list \<Rightarrow> group \<Rightarrow> bool" where
  "group_ok opts (Given i arg ws) = (i < length opts \<and> ws \<in> set (spellings (opts ! i) arg))"
| "group_ok opts (Other w) = (\<not> is_option w)"

fun group_words :: "group \<Rightarrow> string list" where
  "group_words (Given i arg ws) = ws"
| "group_words (Other w) = [w]"

definition option_words :: "group list \<Rightarrow> string list" where
  "option_words gs = concat (map (\<lambda>g. case g of Given i arg ws \<Rightarrow> ws | Other w \<Rightarrow> []) gs)"

definition other_words :: "group list \<Rightarrow> string list" where
  "other_words gs = concat (map (\<lambda>g. case g of Given i arg ws \<Rightarrow> [] | Other w \<Rightarrow> [w]) gs)"

definition meant :: "'m cmdline_opt list \<Rightarrow> group list \<Rightarrow> getopt_result list" where
  "meant opts gs = concat (map (\<lambda>g. case g of Given i arg ws \<Rightarrow> [Opt (opt_short (opts ! i)) arg] | Other w \<Rightarrow> []) gs)"

text \<open>The end of the command line: nothing, or \<open>--\<close> and further words.\<close>

definition ending :: "string list option \<Rightarrow> string list" where
  "ending e = (case e of None \<Rightarrow> [] | Some ws \<Rightarrow> ''--'' # ws)"

lemma getopt_other:
  assumes "\<not> is_option w" "getopt_long os lo ws = (rs, front, others)"
  shows "getopt_long os lo (w # ws) = (rs, front, w # others)"
proof -
  have "w \<noteq> ''--''" using assms(1) by (auto simp: is_option_def)
  then show ?thesis using assms by (cases ws) auto
qed

lemma getopt_groups:
  assumes "table_ok opts" "list_all (group_ok opts) gs"
  shows "getopt_long (optstring opts) (getopt_options opts) (concat (map group_words gs) @ ending e) =
    (meant opts gs, option_words gs @ (if e = None then [] else [''--'']), other_words gs @ (case e of None \<Rightarrow> [] | Some ws \<Rightarrow> ws))"
  using assms(2)
proof (induction gs)
  case Nil
  show ?case
  proof (cases e)
    case (Some ws)
    then show ?thesis by (cases ws) (simp_all add: ending_def meant_def option_words_def other_words_def)
  qed (simp add: ending_def meant_def option_words_def other_words_def)
next
  case (Cons g gs)
  show ?case
  proof (cases g)
    case (Given i arg ws)
    then have "opts ! i \<in> set opts" "ws \<in> set (spellings (opts ! i) arg)" using Cons.prems by auto
    from getopt_spelling [OF assms(1) this Cons.IH] Cons.prems Given show ?thesis
      by (simp add: meant_def option_words_def other_words_def)
  next
    case (Other w)
    then have "\<not> is_option w" using Cons.prems by simp
    from getopt_other [OF this Cons.IH] Cons.prems Other show ?thesis
      by (simp add: meant_def option_words_def other_words_def)
  qed
qed

text \<open>C38: Whatever options a command line gives, in any order and in any of their spellings, mixed with other
  words and perhaps closed by \<open>--\<close>: the parser sees exactly these options with their arguments in
  this order, and leaves \<open>argv\<close> with the options first, the other words behind them and
  \<open>cmdline_optind\<close> at the first of those. Other words are an error exactly when the word in front
  of them is not \<open>--\<close> and they are not to be ignored.\<close>

theorem cmdline_spellings:
  assumes "table_ok opts" "list_all (group_ok opts) gs"
  shows "let front = option_words gs @ (if e = None then [] else [''--'']);
             others = other_words gs @ (case e of None \<Rightarrow> [] | Some ws \<Rightarrow> ws);
             argv = prog # front @ others
    in cmdline_parser_argv opts fl (prog # concat (map group_words gs) @ ending e) m =
       map_option (\<lambda>(ret, m). (ret, m, 1 + length front, argv))
         (cmdline_parser opts fl (meant opts gs) (others \<noteq> [] \<and> last (prog # front) \<noteq> ''--'') m)"
proof -
  have l: "(a # f @ others) ! length f = last (a # f)" for a :: string and f others
    by (induction f arbitrary: a) auto
  show ?thesis
    using getopt_groups [OF assms, of e] l
    by (cases "cmdline_parser opts fl (meant opts gs) (other_words gs @ (case e of None \<Rightarrow> [] | Some ws \<Rightarrow> ws) \<noteq> [] \<and>
        last (prog # option_words gs @ (if e = None then [] else [''--''])) \<noteq> ''--'') m")
      (auto simp: cmdline_parser_argv_def Let_def)
qed

theorem cmdline_spellings_witness:
  "cmdline_parser_argv test_opts (test_flags False False) [''cmdline'', ''--int=42'', ''blah'', ''-s'', ''foo''] test_zero =
     Some (-1, test_zero\<lparr>t_i := 42, t_s := Some ''foo''\<rparr>, 4, [''cmdline'', ''--int=42'', ''-s'', ''foo'', ''blah''])"
proof -
  have t: "table_ok test_opts" by code_simp
  let ?gs = "[Given 0 (Some ''42'') [''--int=42''], Other ''blah'', Given 1 (Some ''foo'') [''-s'', ''foo'']]"
  have g: "list_all (group_ok test_opts) ?gs" by code_simp
  have p: "cmdline_parser test_opts (test_flags False False) [Opt (CHR ''i'') (Some ''42''), Opt (CHR ''s'') (Some ''foo'')] True test_zero =
      Some (-1, test_zero\<lparr>t_i := 42, t_s := Some ''foo''\<rparr>)" by code_simp
  have m: "meant test_opts ?gs = [Opt (CHR ''i'') (Some ''42''), Opt (CHR ''s'') (Some ''foo'')]" by code_simp
  from cmdline_spellings [OF t g, of None "''cmdline''" "test_flags False False" test_zero] show ?thesis
    unfolding m by (simp add: Let_def option_words_def other_words_def ending_def p)
qed

text \<open>The tables of the program and of the unit test qualify.\<close>

lemma main_table_ok: "table_ok (main_opts n dir ex fmt)"
  by (simp add: table_ok_def main_opts_def Let_def)

text \<open>A name that no option has, or that abbreviates several, is skipped without an error, and a word
  in front of a closing \<open>--\<close> is not noticed.\<close>

lemma unknown_name_skipped:
  "cmdline_parser_argv test_opts (test_flags False False) [''cmdline'', ''-i'', ''42'', ''--strnig=x'', ''-s'', ''foo''] test_zero =
     Some (0, test_zero\<lparr>t_i := 42, t_s := Some ''foo''\<rparr>, 6, [''cmdline'', ''-i'', ''42'', ''--strnig=x'', ''-s'', ''foo''])"
  by code_simp

lemma extra_word_unnoticed:
  "cmdline_parser_argv test_opts (test_flags False False) [''cmdline'', ''blah'', ''-i'', ''42'', ''-s'', ''foo'', ''--''] test_zero =
     Some (0, test_zero\<lparr>t_i := 42, t_s := Some ''foo''\<rparr>, 6, [''cmdline'', ''-i'', ''42'', ''-s'', ''foo'', ''--'', ''blah''])"
  by code_simp

end
