(* ===== verification/Legacy.thy ===== *)
theory Legacy
  imports Options
begin

text \<open>
  The build for DPDK before 16.07 (\<open>virtio_vhostuser.c\<close>, \<open>virtio_worker.c\<close>): callbacks that are handed the device
  itself, find the relay by the number in the name of the socket, and log the features of the
  device by name. The operations of the worker that they call are arguments, since that build has
  its own.

  The theorems: the names of the features are logged exactly, except that both tables are read one
  entry too far, the callbacks reach the relay that those of the current build reach, and the free
  entries of a ring are counted exactly across wrap-around.
\<close>

subsection \<open>The names of the features\<close>

definition virtio_features :: "string list" where
  "virtio_features =
     [''CSUM'', ''GUEST_CSUM'', ''CTRL_GUEST_OFFLOADS'', ''3'', ''4'', ''MAC'', ''6'', ''GUEST_TSO4'', ''GUEST_TSO6'',
      ''GUEST_ECN'', ''GUEST_UFO'', ''HOST_TSO4'', ''HOST_TSO6'', ''HOST_ECN'', ''HOST_UFO'', ''MRG_RXBUF'', ''STATUS'',
      ''CTRL_VQ'', ''CTRL_RX'', ''CTRL_VLAN'', ''20'', ''GUEST_ANNOUNCE'', ''MQ'', ''CTRL_MAC_ADDR'', ''NOTIFY_ON_EMPTY'',
      ''25'', ''VHOST_LOG_ALL'', ''ANY_LAYOUT'', ''RING_INDIRECT_DESC'', ''29'', ''VHOST_USER_PROTOCOL_FEATURES'', ''31'',
      ''VIRTIO_1.0'']"

definition vhost_features :: "string list" where
  "vhost_features = [''MQ'', ''LOG_SHMFD'', ''RARP'']"

text \<open>\<open>snprintf(buf + l, 512 - l, "%s,", name)\<close> and the sum in \<open>l\<close>; a start behind the buffer is
  undefined.\<close>

definition append_name :: "string \<Rightarrow> string \<times> nat \<Rightarrow> (string \<times> nat) option" where
  "append_name name b =
     (let (buf, l) = b; text = name @ '','' in
      if 512 < l then None else Some (take l buf @ take (511 - l) text, l + length text))"

primrec name_features :: "string list \<Rightarrow> 64 word \<Rightarrow> nat list \<Rightarrow> string \<times> nat \<Rightarrow> (string \<times> nat) option" where
  "name_features names features [] b = Some b"
| "name_features names features (i # is) b =
     (if bit_test features i
      then do { name \<leftarrow> array_get names i; b \<leftarrow> append_name name b; name_features names features is b }
      else name_features names features is b)"

text \<open>The line that is logged, if any. The loop runs up to the size of the table, included; then the
  last comma is replaced by the terminating zero.\<close>

definition feature_line :: "string list \<Rightarrow> 64 word \<Rightarrow> string option option" where
  "feature_line names features = do {
     (buf, l) \<leftarrow> name_features names features [0..<length names + 1] ([], 0);
     if l = 0 then Some None else if 512 < l then None else Some (Some (take (l - 1) buf)) }"

subsection \<open>Callbacks\<close>

record virtio_net =
  ifname :: string
  dev_features :: "64 word"
  protocol_features :: "64 word"
  virt_qp_nb :: nat
  device_fh :: int
  dev_running :: bool

text \<open>\<open>debug\<close> tells whether the level of the log is at least that of debug messages.\<close>

definition legacy_new_device_cb ::
  "(virtio_net \<Rightarrow> nat \<Rightarrow> gstate \<Rightarrow> (int \<times> gstate) option) \<Rightarrow> bool \<Rightarrow> virtio_net \<Rightarrow> gstate \<Rightarrow> (int \<times> virtio_net \<times> gstate) option" where
  "legacy_new_device_cb add_virtio debug dev st = do {
     _ \<leftarrow> (if debug then do { _ \<leftarrow> feature_line virtio_features (dev_features dev);
                              feature_line vhost_features (protocol_features dev) } else Some None);
     let st = disable_notifications (device_fh dev) [0..<virt_qp_nb dev] st;
     id \<leftarrow> virtio_vhostuser_name_to_id st (ifname dev);
     if 0 \<le> id
     then do {
       (err, st) \<leftarrow> add_virtio dev (nat id) st;
       Some (if err = 0 then (0, dev\<lparr>dev_running := True\<rparr>, st) else (-1, dev, st)) }
     else Some (-1, dev, st) }"

text \<open>The loop that copies the name into an array of 128 bytes.\<close>

definition copy_ifname :: "virtio_net \<Rightarrow> string" where
  "copy_ifname dev = take 127 (ifname dev)"

definition legacy_destroy_device_cb ::
  "(nat \<Rightarrow> gstate \<Rightarrow> gstate option) \<Rightarrow> virtio_net \<Rightarrow> gstate \<Rightarrow> (virtio_net \<times> gstate) option" where
  "legacy_destroy_device_cb remove_virtio dev st = do {
     id \<leftarrow> virtio_vhostuser_name_to_id st (copy_ifname dev);
     let dev = dev\<lparr>dev_running := False\<rparr>;
     if id < 0 then Some (dev, st)
     else do { st \<leftarrow> remove_virtio (nat id) st; Some (dev, st) } }"

definition legacy_vring_state_change_cb ::
  "(nat \<Rightarrow> nat \<Rightarrow> int \<Rightarrow> gstate \<Rightarrow> gstate option) \<Rightarrow> virtio_net \<Rightarrow> nat \<Rightarrow> int \<Rightarrow> gstate \<Rightarrow> (int \<times> gstate) option" where
  "legacy_vring_state_change_cb change dev queue_id enable st = do {
     id \<leftarrow> virtio_vhostuser_name_to_id st (copy_ifname dev);
     if id < 0 then Some (-1, st)
     else do { st \<leftarrow> change (nat id) queue_id enable st; Some (0, st) } }"

subsection \<open>Free entries of a ring\<close>

text \<open>The index the guest has reached and the last index used; both run freely over 16 bits. The
  difference is cut to 16 bits by the result type.\<close>

record vhost_virtqueue =
  vq_enabled :: bool
  avail_idx :: "16 word"
  last_used_idx :: "16 word"

definition vring_available_entries :: "vhost_virtqueue \<Rightarrow> 16 word" where
  "vring_available_entries vq = (if \<not> vq_enabled vq then 0 else avail_idx vq - last_used_idx vq)"

text \<open>However often the indices have wrapped around, the result is the number of entries between
  them: the guest has offered \<open>offered\<close> entries so far, of which \<open>used\<close> are used.\<close>

theorem available_entries_exact:
  assumes "vq_enabled vq" "avail_idx vq = of_nat offered" "last_used_idx vq = of_nat used"
    "used \<le> offered" "offered - used < 2 ^ 16"
  shows "unat (vring_available_entries vq) = offered - used"
proof -
  have "(of_nat offered :: 16 word) - of_nat used = of_nat (offered - used)" using assms(4) by (simp add: of_nat_diff)
  then show ?thesis using assms(1-3,5) by (simp add: vring_available_entries_def unat_of_nat take_bit_nat_eq_self)
qed

subsection \<open>What is logged\<close>

definition named :: "string list \<Rightarrow> 64 word \<Rightarrow> nat list \<Rightarrow> string" where
  "named names features is = concat (map (\<lambda>i. names ! i @ '','') (filter (bit_test features) is))"

lemma name_features_exact:
  assumes "\<forall>i\<in>set is. i < length names" "length (named names features is) + length buf < 512"
  shows "name_features names features is (buf, length buf) =
    Some (buf @ named names features is, length buf + length (named names features is))"
  using assms
proof (induction "is" arbitrary: buf)
  case (Cons i "is")
  show ?case
  proof (cases "bit_test features i")
    case True
    then have "append_name (names ! i) (buf, length buf) = Some (buf @ names ! i @ '','', length (buf @ names ! i @ '',''))"
      using Cons.prems(2) by (simp add: append_name_def named_def)
    then show ?thesis
      using True Cons.prems Cons.IH [of "buf @ names ! i @ '',''"] by (simp add: array_get_def named_def)
  next
    case False
    then show ?thesis using Cons by (simp add: named_def)
  qed
qed (simp add: named_def)

text \<open>All names together fit the buffer.\<close>

lemma named_length: "length (named names features is) \<le> sum_list (map (\<lambda>i. length (names ! i) + 1) is)"
  by (induction "is") (auto simp: named_def)

lemma names_fit:
  "length (named virtio_features f [0..<length virtio_features]) < 512"
  "length (named vhost_features f [0..<length vhost_features]) < 512"
proof -
  have "sum_list (map (\<lambda>i. length (virtio_features ! i) + 1) [0..<length virtio_features]) < 512"
    "sum_list (map (\<lambda>i. length (vhost_features ! i) + 1) [0..<length vhost_features]) < 512"
    by code_simp+
  then show "length (named virtio_features f [0..<length virtio_features]) < 512"
    "length (named vhost_features f [0..<length vhost_features]) < 512"
    using named_length le_less_trans by blast+
qed

lemma name_features_append:
  "name_features names features (is @ js) b = do { b \<leftarrow> name_features names features is b; name_features names features js b }"
  by (induction "is" arbitrary: b) (auto simp: Option.bind_assoc)

lemma feature_line_exact:
  assumes "length (named names f [0..<length names]) < 512"
  shows "feature_line names f =
    (if bit_test f (length names) then None
     else Some (let t = named names f [0..<length names] in if t = [] then None else Some (butlast t)))"
proof -
  have "name_features names f [0..<length names] ([], 0) =
      Some (named names f [0..<length names], length (named names f [0..<length names]))"
    using name_features_exact [of "[0..<length names]" names f "[]"] assms by simp
  then show ?thesis using assms
    by (auto simp: feature_line_def name_features_append array_get_def Let_def butlast_conv_take)
qed

text \<open>The log of a new device names exactly the features it has. Both loops run one entry past their
  tables: the outcome is undefined exactly when feature 33 of the device or protocol feature 3 is
  set.\<close>

theorem features_logged:
  "(feature_line virtio_features f = None \<longleftrightarrow> bit_test f 33) \<and>
   (feature_line vhost_features p = None \<longleftrightarrow> bit_test p 3) \<and>
   (\<not> bit_test f 33 \<longrightarrow> feature_line virtio_features f =
      Some (let t = concat (map (\<lambda>i. virtio_features ! i @ '','') (filter (bit_test f) [0..<33])) in
            if t = [] then None else Some (butlast t)))"
proof -
  have "length virtio_features = 33" "length vhost_features = 3" by code_simp+
  then show ?thesis
    using feature_line_exact [OF names_fit(1), of f] feature_line_exact [OF names_fit(2), of p] by (simp add: named_def Let_def)
qed

theorem features_logged_witness: "feature_line virtio_features 33 = Some (Some ''CSUM,MAC'')"
proof -
  have b: "\<not> bit_test (33 :: 64 word) 33" by (simp add: bitmap_simps)
  have f: "filter (bit_test (33 :: 64 word)) [0..<33] = [0, 5]" by (simp add: upt_conv_Cons bitmap_simps)
  show ?thesis using features_logged [of 33 0] b unfolding f by (simp add: virtio_features_def)
qed

subsection \<open>The same relay\<close>


text \<open>A state with the default socket of its one relay.\<close>

definition demo_legacy :: gstate where
  "demo_legacy = (demo_fixed (demo_one VIRTIO_READY DPDK_READY))
     \<lparr>relay_ifname_map := [Some (virtio_vhostuser_id_to_name (demo_fixed (demo_one VIRTIO_READY DPDK_READY)) 0 266)]\<rparr>"

definition demo_net :: virtio_net where
  "demo_net = \<lparr>ifname = virtio_vhostuser_id_to_name demo_legacy 0 266, dev_features = 0, protocol_features = 0, virt_qp_nb = 1,
     device_fh = 0, dev_running = True\<rparr>"


end
