(* ===== verification/Monitors.thy ===== *)
theory Monitors
  imports Worker
begin

text \<open>
  Starting and stopping the threads of the two monitors (\<open>file_mon.c\<close>, \<open>ovsdb_mon.c\<close>), which
  share one protocol: the main thread sets \<open>must_stop\<close>, waits two seconds for the thread, cancels
  it if it has not ended, and joins it. What the rounds of the loops do is in \<open>FileMon\<close> and
  \<open>OvsdbMon\<close>; here a round is one step. A round that does not end, as when the OVSDB monitor waits
  for the database, is a thread that stays in its round until it is cancelled.

  The steps of the main thread and of the monitor interleave. A cancelled thread ends where it
  sleeps, that is in its round or in its final part.
\<close>

subsection \<open>The protocol\<close>

datatype mon_pc = Mon_none | Mon_created | Mon_head | Mon_round | Mon_final | Mon_finished | Mon_cancelled

datatype main_pc = Main_before | Main_running | Main_waiting | Main_joining | Main_stopped

text \<open>\<open>joined\<close> counts the joins of the thread; a second one is undefined.\<close>

record monitor =
  mon_pc :: mon_pc
  main_pc :: main_pc
  mon_must_stop :: bool
  mon_running :: bool
  cancelled :: bool
  joined :: nat

definition mon_ended :: "monitor \<Rightarrow> bool" where
  "mon_ended m \<longleftrightarrow> mon_pc m = Mon_finished \<or> mon_pc m = Mon_cancelled"

text \<open>\<open>file_mon_start\<close>, \<open>ovsdb_mon_start\<close>, and the steps of \<open>file_mon_stop\<close> and
  \<open>ovsdb_mon_stop\<close> until they return.\<close>

definition mon_start :: "monitor \<Rightarrow> monitor" where
  "mon_start m = m\<lparr>mon_pc := Mon_created, main_pc := Main_running\<rparr>"

definition mon_stop :: "monitor \<Rightarrow> monitor" where
  "mon_stop m = m\<lparr>mon_must_stop := True, main_pc := Main_waiting\<rparr>"

text \<open>\<open>pthread_timedjoin_np\<close>, with the thread ended in time or not, and \<open>pthread_cancel\<close>.\<close>

definition timed_join :: "monitor \<Rightarrow> monitor" where
  "timed_join m =
     (if mon_ended m then m\<lparr>joined := joined m + 1, main_pc := Main_joining\<rparr>
      else m\<lparr>cancelled := True, main_pc := Main_joining\<rparr>)"

definition final_join :: "monitor \<Rightarrow> monitor" where
  "final_join m = m\<lparr>joined := joined m + 1, main_pc := Main_stopped\<rparr>"

definition mon_begin :: "monitor \<Rightarrow> monitor" where
  "mon_begin m = m\<lparr>mon_must_stop := False, mon_running := True, mon_pc := Mon_head\<rparr>"

definition mon_test :: "monitor \<Rightarrow> monitor" where
  "mon_test m = m\<lparr>mon_pc := (if mon_running m \<and> \<not> mon_must_stop m then Mon_round else Mon_final)\<rparr>"

inductive monitor_step :: "monitor \<Rightarrow> monitor \<Rightarrow> bool" where
  Start: "main_pc m = Main_before \<Longrightarrow> monitor_step m (mon_start m)"
| Stop: "main_pc m = Main_running \<Longrightarrow> monitor_step m (mon_stop m)"
| Timed_join: "main_pc m = Main_waiting \<Longrightarrow> monitor_step m (timed_join m)"
| Final_join: "\<lbrakk>main_pc m = Main_joining; mon_ended m\<rbrakk> \<Longrightarrow> monitor_step m (final_join m)"
| Begin: "mon_pc m = Mon_created \<Longrightarrow> monitor_step m (mon_begin m)"
| Test: "mon_pc m = Mon_head \<Longrightarrow> monitor_step m (mon_test m)"
| Round: "\<lbrakk>mon_pc m = Mon_round; \<not> cancelled m\<rbrakk> \<Longrightarrow> monitor_step m (m\<lparr>mon_pc := Mon_head\<rparr>)"
| Final: "\<lbrakk>mon_pc m = Mon_final; \<not> cancelled m\<rbrakk> \<Longrightarrow> monitor_step m (m\<lparr>mon_pc := Mon_finished, mon_running := False\<rparr>)"
| Cancel: "\<lbrakk>mon_pc m = Mon_round \<or> mon_pc m = Mon_final; cancelled m\<rbrakk> \<Longrightarrow> monitor_step m (m\<lparr>mon_pc := Mon_cancelled\<rparr>)"

lemmas monitor_defs = mon_start_def mon_stop_def timed_join_def final_join_def mon_begin_def mon_test_def mon_ended_def

definition initial_monitor :: monitor where
  "initial_monitor = \<lparr>mon_pc = Mon_none, main_pc = Main_before, mon_must_stop = False, mon_running = False, cancelled = False, joined = 0\<rparr>"

text \<open>\<open>gettimeofday\<close> plus two seconds, as seconds and nanoseconds.\<close>

definition stop_deadline :: "int \<times> int \<Rightarrow> int \<times> int" where
  "stop_deadline tv = (fst tv + 2, snd tv * 1000)"

lemma stop_deadline_valid:
  "0 \<le> snd tv \<Longrightarrow> snd tv < 1000000 \<Longrightarrow> 0 \<le> snd (stop_deadline tv) \<and> snd (stop_deadline tv) < 1000000000"
  by (simp add: stop_deadline_def)

subsection \<open>What the protocol guarantees\<close>

text \<open>The invariant: the thread exists from the start on, is cancelled only while it is joined, and is
  joined at most as often as the position of the main thread says.\<close>

definition mon_inv :: "monitor \<Rightarrow> bool" where
  "mon_inv m \<longleftrightarrow>
     (main_pc m = Main_before \<longleftrightarrow> mon_pc m = Mon_none) \<and>
     (mon_pc m = Mon_cancelled \<longrightarrow> cancelled m) \<and>
     (cancelled m \<longrightarrow> main_pc m = Main_joining \<or> main_pc m = Main_stopped) \<and>
     (case main_pc m of
        Main_joining \<Rightarrow> if cancelled m then joined m = 0 else joined m = 1 \<and> mon_ended m
      | Main_stopped \<Rightarrow> mon_ended m \<and> joined m = (if cancelled m then 1 else 2)
      | _ \<Rightarrow> joined m = 0)"

lemma mon_inv_step: "mon_inv m \<Longrightarrow> monitor_step m m' \<Longrightarrow> mon_inv m'"
  by (erule monitor_step.cases) (auto simp: mon_inv_def monitor_defs split: if_splits main_pc.splits)

interpretation monitor_run: step_system monitor_step mon_inv "\<lambda>m m'. True"
  by unfold_locales (auto intro: mon_inv_step)

lemma reachable_inv: "monitor_step\<^sup>*\<^sup>* initial_monitor m \<Longrightarrow> mon_inv m"
  by (erule monitor_run.run_inv) (simp add: mon_inv_def initial_monitor_def)

text \<open>When the function that stops a monitor returns, the thread has ended and nothing of the
  protocol is left to run. It has joined the thread once if it had to cancel it and twice otherwise:
  a thread that ends in time is joined again by the unconditional join, which is undefined.\<close>

theorem monitor_stop_joins:
  assumes "monitor_step\<^sup>*\<^sup>* initial_monitor m" "main_pc m = Main_stopped"
  shows "mon_ended m \<and> (\<nexists>m'. monitor_step m m') \<and> joined m = (if cancelled m then 1 else 2)"
  using reachable_inv [OF assms(1)] assms(2) by (auto simp: mon_inv_def mon_ended_def elim: monitor_step.cases)

text \<open>Steps of the thread alone.\<close>

definition thread_step :: "monitor \<Rightarrow> monitor \<Rightarrow> bool" where
  "thread_step m m' \<longleftrightarrow> monitor_step m m' \<and> main_pc m' = main_pc m"

text \<open>How far the thread is from its end once it has been told to stop.\<close>

definition mon_rank :: "monitor \<Rightarrow> nat" where
  "mon_rank m = (case mon_pc m of Mon_created \<Rightarrow> 4 | Mon_round \<Rightarrow> if cancelled m then 1 else 3 | Mon_head \<Rightarrow> 2 | Mon_final \<Rightarrow> 1 | _ \<Rightarrow> 0)"

definition mon_told :: "monitor \<Rightarrow> bool" where
  "mon_told m \<longleftrightarrow> cancelled m \<or> mon_must_stop m \<and> mon_pc m \<noteq> Mon_created"

lemma thread_step_rank:
  assumes "thread_step m m'" "mon_told m"
  shows "mon_told m' \<and> mon_rank m' < mon_rank m"
  using assms unfolding thread_step_def
  by (auto simp: mon_told_def mon_rank_def monitor_defs elim!: monitor_step.cases split: if_splits)

lemma thread_progress:
  assumes "mon_told m" "\<not> mon_ended m" "mon_pc m \<noteq> Mon_none"
  shows "\<exists>m'. thread_step m m'"
proof (cases "mon_pc m")
  case Mon_created
  then show ?thesis using monitor_step.Begin [of m] by (auto simp: thread_step_def mon_begin_def)
next
  case Mon_head
  then show ?thesis using monitor_step.Test [of m] by (auto simp: thread_step_def mon_test_def)
next
  case Mon_round
  then show ?thesis
    using monitor_step.Round [of m] monitor_step.Cancel [of m] by (cases "cancelled m") (auto simp: thread_step_def)
next
  case Mon_final
  then show ?thesis
    using monitor_step.Final [of m] monitor_step.Cancel [of m] by (cases "cancelled m") (auto simp: thread_step_def)
qed (use assms in \<open>auto simp: mon_ended_def\<close>)


text \<open>A stop that comes before the thread has begun is lost: the thread resets \<open>must_stop\<close> and enters its
  loop, until it is cancelled.\<close>

lemma early_stop_lost:
  "\<exists>m. monitor_step\<^sup>*\<^sup>* initial_monitor m \<and> main_pc m = Main_waiting \<and> mon_pc m = Mon_round \<and> \<not> mon_must_stop m"
proof -
  define m1 where "m1 = mon_start initial_monitor"
  define m2 where "m2 = mon_stop m1"
  define m3 where "m3 = mon_begin m2"
  note defs = m1_def m2_def m3_def monitor_defs initial_monitor_def
  have "monitor_step initial_monitor m1" unfolding m1_def by (rule monitor_step.Start) (simp add: initial_monitor_def)
  moreover have "monitor_step m1 m2" unfolding m2_def by (rule monitor_step.Stop) (simp add: defs)
  moreover have "monitor_step m2 m3" unfolding m3_def by (rule monitor_step.Begin) (simp add: defs)
  moreover have "monitor_step m3 (mon_test m3)" by (rule monitor_step.Test) (simp add: defs)
  ultimately have "monitor_step\<^sup>*\<^sup>* initial_monitor (mon_test m3)" by (metis (no_types) converse_rtranclp_into_rtranclp rtranclp.rtrancl_refl)
  moreover have "main_pc (mon_test m3) = Main_waiting \<and> mon_pc (mon_test m3) = Mon_round \<and> \<not> mon_must_stop (mon_test m3)"
    by (simp add: defs)
  ultimately show ?thesis by blast
qed

text \<open>A thread that ends in time.\<close>

definition demo_monitor :: monitor where
  "demo_monitor = \<lparr>mon_pc = Mon_round, main_pc = Main_waiting, mon_must_stop = True, mon_running = True, cancelled = False, joined = 0\<rparr>"


theorem monitor_stop_joins_witness:
  "\<exists>m. monitor_step\<^sup>*\<^sup>* initial_monitor m \<and> main_pc m = Main_stopped \<and> cancelled m \<and> joined m = 1"
proof -
  obtain m where m: "monitor_step\<^sup>*\<^sup>* initial_monitor m" "main_pc m = Main_waiting" "mon_pc m = Mon_round"
    using early_stop_lost by blast
  define m1 where "m1 = timed_join m"
  define m2 where "m2 = m1\<lparr>mon_pc := Mon_cancelled\<rparr>"
  define m3 where "m3 = final_join m2"
  note defs = m1_def m2_def m3_def monitor_defs
  have "monitor_step m m1" unfolding m1_def by (rule monitor_step.Timed_join [OF m(2)])
  moreover have "monitor_step m1 m2" unfolding m2_def by (rule monitor_step.Cancel) (simp_all add: defs m)
  moreover have "monitor_step m2 m3" unfolding m3_def by (rule monitor_step.Final_join) (simp_all add: defs m)
  ultimately have r: "monitor_step\<^sup>*\<^sup>* initial_monitor m3" using m(1) by (meson rtranclp.rtrancl_into_rtrancl)
  have e: "main_pc m3 = Main_stopped" "cancelled m3" by (simp_all add: defs m)
  show ?thesis using monitor_stop_joins [OF r e(1)] r e by auto
qed

end
