(* ===== verification/Messages.thy ===== *)
theory Messages
  imports OvsdbStream
begin

text \<open>
  What the program tells the user: \<open>log.c\<close>, and the usage message of \<open>cmdline.c\<close>. Both build
  text in buffers of fixed size with \<open>snprintf\<close>, whose result is the length the text would have
  had. A buffer is the list of its characters; \<open>None\<close> is a write outside it, an index outside a
  table or a negative shift. The text that a format makes of its arguments is given.
\<close>

subsection \<open>Text in buffers\<close>

definition write_at :: "string \<Rightarrow> nat \<Rightarrow> string \<Rightarrow> string option" where
  "write_at mem pos s =
     (if pos + length s \<le> length mem then Some (take pos mem @ s @ drop (pos + length s) mem) else None)"

text \<open>\<open>snprintf(mem + pos, size, "%s", s)\<close>\<close>

definition snprintf_at :: "string \<Rightarrow> nat \<Rightarrow> nat \<Rightarrow> string \<Rightarrow> string option" where
  "snprintf_at mem pos sz s = (if sz = 0 then Some mem else write_at mem pos (take (sz - 1) s @ [NUL]))"

subsection \<open>Logging\<close>

definition BUFLEN :: nat where "BUFLEN = 256"

definition LOG_OPT_SYSLOG :: nat where "LOG_OPT_SYSLOG = 0"

definition LOG_OPT_STDOUT :: nat where "LOG_OPT_STDOUT = 1"

definition LOG_OPT_DETAIL :: nat where "LOG_OPT_DETAIL = 2"

definition LOG_OPT_TIMESTAMP :: nat where "LOG_OPT_TIMESTAMP = 3"

definition LOG_LVL_INFO :: int where "LOG_LVL_INFO = 6"

definition LOG_LVL_DEBUG :: int where "LOG_LVL_DEBUG = 7"

text \<open>The variables of the file; the options are numbered by their bits.\<close>

record log_vars =
  loglevel :: int
  log_options :: "32 word"

datatype log_output = Openlog string | Closelog | Setlogmask int | Syslog int string | Stdout string

text \<open>\<open>LOG_UPTO(level)\<close> shifts by \<open>level + 1\<close>.\<close>

definition set_log_level :: "int \<Rightarrow> log_vars \<Rightarrow> (log_vars \<times> log_output list) option" where
  "set_log_level level v =
     (let level = (if LOG_LVL_DEBUG < level then LOG_LVL_DEBUG else level) in
      if level < -1 then None else Some (v\<lparr>loglevel := level\<rparr>, [Setlogmask level]))"

definition open_log :: "string \<Rightarrow> 32 word \<Rightarrow> log_vars \<Rightarrow> (log_vars \<times> log_output list) option" where
  "open_log ident options v = do {
     let v = v\<lparr>log_options := options\<rparr>;
     let out = (if bit_test options LOG_OPT_SYSLOG then [Openlog ident] else []);
     if loglevel v = -1 then map_option (\<lambda>(v, out'). (v, out @ out')) (set_log_level LOG_LVL_INFO v)
     else Some (v, out) }"

definition close_log :: "log_vars \<Rightarrow> log_output list" where
  "close_log v = (if bit_test (log_options v) LOG_OPT_SYSLOG then [Closelog] else [])"

definition levelchar :: string where "levelchar = ''x!^*#-?.''"

definition log_detail :: "int \<Rightarrow> string \<Rightarrow> nat \<Rightarrow> string \<Rightarrow> string option" where
  "log_detail level file line func =
     (if level < 0 then None
      else Some (file @ '':'' @ dec line @ ''('' @ func @ '') '' @
             [if level \<le> LOG_LVL_DEBUG then levelchar ! nat level else CHR ''x''] @ '' ''))"

text \<open>\<open>msg\<close> is what the format makes of its arguments, \<open>stamp\<close> the date and time, \<open>buf\<close> the
  uninitialised buffer.\<close>

definition log_print ::
  "string \<Rightarrow> string \<Rightarrow> int \<Rightarrow> string \<Rightarrow> nat \<Rightarrow> string \<Rightarrow> string \<Rightarrow> log_vars \<Rightarrow> log_output list option" where
  "log_print buf stamp level file line func msg v =
     (if loglevel v < level then Some []
      else do {
        (buf, len) \<leftarrow> (if bit_test (log_options v) LOG_OPT_DETAIL
          then do { t \<leftarrow> log_detail level file line func; buf \<leftarrow> snprintf_at buf 0 BUFLEN t; Some (buf, length t) }
          else Some (buf, 0));
        buf \<leftarrow> snprintf_at buf len (nat ((int BUFLEN - int len) mod 2 ^ 64)) msg;
        let len = len + length msg;
        let len = (if BUFLEN - 2 \<le> len then BUFLEN - 2 else len);
        s \<leftarrow> cstr_at buf 0;
        let out = (if bit_test (log_options v) LOG_OPT_SYSLOG then [Syslog level s] else []);
        if bit_test (log_options v) LOG_OPT_STDOUT
        then do {
          buf \<leftarrow> write_at buf len [newline, NUL];
          s \<leftarrow> cstr_at buf 0;
          Some (out @ [Stdout ((if bit_test (log_options v) LOG_OPT_TIMESTAMP then stamp else []) @ s)]) }
        else Some out })"

subsection \<open>The usage message\<close>

definition MAX_USAGE_LEN :: nat where "MAX_USAGE_LEN = 1024"

text \<open>\<open>_append(x)\<close>, with a buffer of \<open>MAX_USAGE_LEN + 1\<close> bytes and an unsigned length.\<close>

definition usage_append :: "string \<Rightarrow> string \<times> nat \<Rightarrow> (string \<times> nat) option" where
  "usage_append x = (\<lambda>(s, len).
     map_option (\<lambda>s. (s, len + length x)) (snprintf_at s len (nat ((int MAX_USAGE_LEN - int len) mod 2 ^ 32)) x))"

primrec usage_appends :: "string list \<Rightarrow> string \<times> nat \<Rightarrow> (string \<times> nat) option" where
  "usage_appends [] v = Some v"
| "usage_appends (x # xs) v = do { v \<leftarrow> usage_append x v; usage_appends xs v }"

definition opt_synopsis :: "'m cmdline_opt \<Rightarrow> string list" where
  "opt_synopsis op =
     ['' ''] @ (if \<not> opt_mandatory op then [''[''] else []) @ [''--'', opt_long op] @
     (if opt_has_arg op = 2 then [''[''] else []) @ (if opt_has_arg op \<noteq> 0 then [''=<val>''] else []) @
     (if opt_has_arg op = 2 then ['']''] else []) @ (if \<not> opt_mandatory op then ['']''] else [])"

definition usage_synopsis :: "string \<Rightarrow> 'm cmdline_opt list \<Rightarrow> string option" where
  "usage_synopsis mem ops = do {
     mem \<leftarrow> write_at mem 0 [NUL];
     (mem, _) \<leftarrow> usage_appends (concat (map opt_synopsis ops)) (mem, 0);
     cstr_at mem 0 }"

text \<open>\<open>strrchr(argv[0], '/')\<close>\<close>

definition cmdname :: "string \<Rightarrow> string" where
  "cmdname argv0 = (if CHR ''/'' \<in> set argv0 then rev (takeWhile (\<lambda>c. c \<noteq> CHR ''/'') (rev argv0)) else argv0)"

definition pad_right :: "nat \<Rightarrow> string \<Rightarrow> string" where
  "pad_right n s = s @ replicate (n - length s) (CHR '' '')"

definition nameval :: "'m cmdline_opt \<Rightarrow> string" where
  "nameval op = strlcpy (''-'' @ [opt_short op] @
     (if opt_has_arg op \<noteq> 0 then if 1 < opt_has_arg op then ''[<val>]'' else ''<val>  '' else ''       '') @ '' or --'' @ opt_long op @
     (if opt_has_arg op \<noteq> 0 then if 1 < opt_has_arg op then ''[=<val>]'' else ''=<val>  '' else ''       '')) 43"

fun wrap_words :: "nat \<Rightarrow> string list \<Rightarrow> string" where
  "wrap_words linelen [] = []"
| "wrap_words linelen (w # ws) =
     (if 80 \<le> linelen + length w + 1 then newline # pad_right 46 '' '' @ w @ '' '' @ wrap_words (length w + 1) ws
      else w @ '' '' @ wrap_words (linelen + length w + 1) ws)"

fun usage_lines :: "string list \<Rightarrow> string" where
  "usage_lines [] = []"
| "usage_lines [l] = wrap_words 0 (strtok (CHR '' '') l)"
| "usage_lines (l # ls) = wrap_words 0 (strtok (CHR '' '') l) @ newline # pad_right 46 '' '' @ usage_lines ls"

definition opt_help :: "'m cmdline_opt \<times> string \<Rightarrow> string" where
  "opt_help op = ''  '' @ pad_right 43 (nameval (fst op)) @ '' '' @ usage_lines (strtok newline (snd op)) @ [newline]"

text \<open>The options with their texts; \<open>ending\<close> is the text of the entry that ends the table.\<close>

definition cmdline_show_usage :: "string \<Rightarrow> ('m cmdline_opt \<times> string) list \<Rightarrow> string option \<Rightarrow> string \<Rightarrow> string option" where
  "cmdline_show_usage mem ops ending argv0 = do {
     s \<leftarrow> usage_synopsis mem (map fst ops);
     Some (''USAGE: '' @ cmdname argv0 @ s @ (case ending of None \<Rightarrow> [] | Some u \<Rightarrow> '' '' @ u) @ [newline] @
       ''Options:'' @ [newline] @ concat (map opt_help ops)) }"

subsection \<open>Log lines\<close>

lemma log_buffer:
  assumes "length buf = BUFLEN" "length t \<le> BUFLEN" "take (length t) (take 255 buf) = take 255 t"
    "length t = BUFLEN \<longrightarrow> buf = take 255 t @ [NUL]"
  shows "\<exists>r. snprintf_at buf (length t) (nat ((int BUFLEN - int (length t)) mod 2 ^ 64)) msg = Some (take 255 (t @ msg) @ NUL # r) \<and>
    length (take 255 (t @ msg) @ NUL # r) = BUFLEN"
proof (cases "length t = BUFLEN")
  case True
  then show ?thesis using assms by (simp add: snprintf_at_def BUFLEN_def)
next
  case False
  then have l: "length t < 256" using assms(2) by (simp add: BUFLEN_def)
  have sz: "nat ((int BUFLEN - int (length t)) mod 2 ^ 64) = 256 - length t" using l by (simp add: BUFLEN_def)
  have tb: "take (length t) buf = t" using assms(3) l by (simp add: min_def)
  have w: "length t + length (take (255 - length t) msg @ [NUL]) \<le> 256" using l by simp
  have "take 255 (t @ msg) = t @ take (255 - length t) msg" using l by simp
  then show ?thesis
    using l w assms(1) tb unfolding sz snprintf_at_def write_at_def by (simp add: BUFLEN_def)
qed

text \<open>A log message goes out whole up to the size of the buffer: as one line of at most 254
  characters and a newline on the standard output, behind the date when it is asked for, and as
  at most 255 characters to syslog; messages beyond the log level are dropped, and the buffer is
  never left as long as the text about the place in the source fits.\<close>

theorem log_line:
  assumes "length buf = BUFLEN" "0 \<le> level" "NUL \<notin> set msg" "log_detail level file line func = Some t"
    "length t \<le> BUFLEN" "NUL \<notin> set t"
    "s = (if bit_test (log_options v) LOG_OPT_DETAIL then t else []) @ msg"
  shows "log_print buf stamp level file line func msg v =
    Some (if loglevel v < level then []
          else (if bit_test (log_options v) LOG_OPT_SYSLOG then [Syslog level (take 255 s)] else []) @
               (if bit_test (log_options v) LOG_OPT_STDOUT
                then [Stdout ((if bit_test (log_options v) LOG_OPT_TIMESTAMP then stamp else []) @ take 254 s @ [newline])] else []))"
proof -
  define d where "d = bit_test (log_options v) LOG_OPT_DETAIL"
  define u where "u = (if d then t else [])"
  have s: "s = u @ msg" by (simp add: assms(7) u_def d_def)
  have n: "NUL \<notin> set s" using assms(3,6) by (auto simp: s u_def)
  have u: "length u \<le> BUFLEN" using assms(5) by (simp add: u_def)
  define b where "b = (if d then take 255 t @ NUL # drop (min (length t) 255 + 1) buf else buf)"
  have first: "(if d then log_detail level file line func \<bind> (\<lambda>t. snprintf_at buf 0 BUFLEN t \<bind> (\<lambda>buf. Some (buf, length t)))
      else Some (buf, 0)) = Some (b, length u)"
    using assms(1,4,5) by (simp add: b_def u_def snprintf_at_def write_at_def BUFLEN_def min.commute)
  have b: "length b = BUFLEN" "take (length u) (take 255 b) = take 255 u" "length u = BUFLEN \<longrightarrow> b = take 255 u @ [NUL]"
    using assms(1,5) by (auto simp: b_def u_def BUFLEN_def min_def)
  obtain r where r: "snprintf_at b (length u) (nat ((int BUFLEN - int (length u)) mod 2 ^ 64)) msg = Some (take 255 s @ NUL # r)"
    "length (take 255 s @ NUL # r) = BUFLEN"
    using log_buffer [OF b(1) u b(2,3)] unfolding s by blast
  have c: "cstr_at (take 255 s @ NUL # r) 0 = Some (take 255 s)" using n by (auto simp: cstr_at_Some dest: in_set_takeD)
  define len where "len = (if BUFLEN - 2 \<le> length u + length msg then BUFLEN - 2 else length u + length msg)"
  have len: "take len (take 255 s @ NUL # r) = take 254 s" "len + 2 \<le> BUFLEN" by (auto simp: len_def s BUFLEN_def min_def)
  have w: "write_at (take 255 s @ NUL # r) len [newline, NUL] = Some (take 254 s @ newline # NUL # drop (len + 2) (take 255 s @ NUL # r))"
    using len r(2) by (simp add: write_at_def)
  have "cstr_at (take 254 s @ newline # NUL # q) 0 = Some (take 254 s @ [newline])" for q
    using n by (auto simp: cstr_at_Some dest: in_set_takeD)
  then show ?thesis
    unfolding log_print_def d_def [symmetric] first bind.simps prod.case r(1) Let_def len_def [symmetric] c w by simp
qed

text \<open>A longer text about the place in the source makes the size that is left negative.\<close>

lemma log_detail_overflow:
  assumes "length buf = BUFLEN" "level \<le> loglevel v" "bit_test (log_options v) LOG_OPT_DETAIL"
    "log_detail level file line func = Some t" "BUFLEN < length t" "length t < 2 ^ 31"
  shows "log_print buf stamp level file line func msg v = None"
proof -
  have l: "256 < length t" using assms(5) by (simp add: BUFLEN_def)
  have "(int BUFLEN - int (length t)) mod 2 ^ 64 = int BUFLEN - int (length t) + 2 ^ 64"
    using l assms(6) by (subst mod_add_self2 [symmetric]) (simp add: BUFLEN_def mod_pos_pos_trivial)
  then have "nat ((int BUFLEN - int (length t)) mod 2 ^ 64) \<noteq> 0" using assms(6) by (simp add: BUFLEN_def)
  then have "snprintf_at b (length t) (nat ((int BUFLEN - int (length t)) mod 2 ^ 64)) msg = None" if "length b = BUFLEN" for b
    using that l by (simp add: snprintf_at_def write_at_def BUFLEN_def)
  moreover have "snprintf_at buf 0 BUFLEN t = Some (take 255 t @ NUL # drop 256 buf)"
    using assms(1) l by (simp add: snprintf_at_def write_at_def BUFLEN_def)
  ultimately show ?thesis using assms(1-4) l by (simp add: log_print_def BUFLEN_def)
qed

definition demo_log :: log_vars where
  "demo_log = \<lparr>loglevel = 6, log_options = 0xE\<rparr>"

theorem log_line_witness:
  "log_print (replicate BUFLEN NUL) ''Jan 01 '' 3 ''main'' 7 ''f'' ''failed'' demo_log =
     Some [Stdout (''Jan 01 '' @ take 254 ((''main:'' @ dec 7 @ ''(f) * '') @ ''failed'') @ [newline])]"
proof -
  have "log_detail 3 ''main'' 7 ''f'' = Some (''main:'' @ dec 7 @ ''(f) * '')"
    by (simp add: log_detail_def levelchar_def LOG_LVL_DEBUG_def)
  moreover have "length (dec 7) = 1" by (simp add: dec.simps)
  moreover have "NUL \<notin> set (dec 7)" using digits_plain(2) by blast
  moreover have "bit_test (0xE :: 32 word) LOG_OPT_DETAIL" "bit_test (0xE :: 32 word) LOG_OPT_STDOUT" "bit_test (0xE :: 32 word) LOG_OPT_TIMESTAMP"
    "\<not> bit_test (0xE :: 32 word) LOG_OPT_SYSLOG"
    by (simp_all add: bit_test_def LOG_OPT_DETAIL_def LOG_OPT_STDOUT_def LOG_OPT_TIMESTAMP_def LOG_OPT_SYSLOG_def)
  ultimately show ?thesis
    using log_line [of "replicate BUFLEN NUL" 3 "''failed''" "''main''" 7 "''f''" "''main:'' @ dec 7 @ ''(f) * ''" _ demo_log "''Jan 01 ''", OF _ _ _ _ _ _ refl]
    by (simp add: demo_log_def BUFLEN_def)
qed

subsection \<open>The usage message\<close>

lemma usage_append_fits:
  assumes "length s = 1025" "len + length x < 1024" "take len s = t" "length t = len"
  shows "\<exists>r. usage_append x (s, len) = Some (t @ x @ NUL # r, len + length x) \<and> length (t @ x @ NUL # r) = 1025"
proof -
  have sz: "nat ((int MAX_USAGE_LEN - int len) mod 2 ^ 32) = 1024 - len" using assms(2) by (simp add: MAX_USAGE_LEN_def)
  show ?thesis using assms unfolding usage_append_def sz prod.case by (simp add: snprintf_at_def write_at_def)
qed

lemma usage_appends_fit:
  assumes "length s = 1025" "len + length (concat xs) < 1024" "take (len + 1) s = t @ [NUL]" "length t = len"
  shows "\<exists>r. usage_appends xs (s, len) = Some (t @ concat xs @ NUL # r, len + length (concat xs)) \<and>
    length (t @ concat xs @ NUL # r) = 1025"
  using assms
proof (induction xs arbitrary: s len t)
  case Nil
  then have "s = t @ NUL # drop (len + 1) s" by (metis append_Cons append_Nil append_assoc append_take_drop_id)
  then show ?case using Nil by (metis add_0_right append_Nil concat.simps(1) list.size(3) usage_appends.simps(1))
next
  case (Cons x xs)
  have "take len s = t" using arg_cong [OF Cons.prems(3), of "take len"] Cons.prems(4) by (simp add: min_def)
  then obtain r where r: "usage_append x (s, len) = Some (t @ x @ NUL # r, len + length x)" "length (t @ x @ NUL # r) = 1025"
    using usage_append_fits [of s len x t] Cons.prems by auto
  show ?case
    using Cons.IH [OF r(2), of "len + length x" "t @ x"] Cons.prems(2,4) r(1) by (simp add: add.assoc)
qed

lemma synopsis_complete:
  assumes "length mem = MAX_USAGE_LEN + 1" "length (concat (concat (map opt_synopsis ops))) < MAX_USAGE_LEN"
    "NUL \<notin> set (concat (concat (map opt_synopsis ops)))"
  shows "usage_synopsis mem ops = Some (concat (concat (map opt_synopsis ops)))"
proof -
  have l: "length (NUL # drop 1 mem) = 1025" using assms(1) by (cases mem) (simp_all add: MAX_USAGE_LEN_def)
  have w: "write_at mem 0 [NUL] = Some (NUL # drop 1 mem)" using assms(1) by (simp add: write_at_def MAX_USAGE_LEN_def)
  obtain r where r: "usage_appends (concat (map opt_synopsis ops)) (NUL # drop 1 mem, 0) =
      Some (concat (concat (map opt_synopsis ops)) @ NUL # r, length (concat (concat (map opt_synopsis ops))))"
    using usage_appends_fit [OF l, of 0 "concat (map opt_synopsis ops)" "[]"] assms(2) by (auto simp: MAX_USAGE_LEN_def)
  show ?thesis using r w cstr_at_0 [OF assms(3)] by (simp add: usage_synopsis_def)
qed

text \<open>The words of a text are kept, whatever lines they are put on.\<close>

definition blank :: "char \<Rightarrow> char" where
  "blank c = (if c = newline then CHR '' '' else c)"

definition plain_words :: "string list \<Rightarrow> bool" where
  "plain_words ws \<longleftrightarrow> list_all (\<lambda>w. w \<noteq> [] \<and> CHR '' '' \<notin> set w \<and> newline \<notin> set w) ws"

lemma strtok_blanks: "strtok (CHR '' '') (replicate n (CHR '' '') @ s) = strtok (CHR '' '') s"
  by (induction n) (simp_all add: strtok_sep)

lemma map_blank_word: "newline \<notin> set w \<Longrightarrow> map blank w = w"
  by (induction w) (auto simp: blank_def)

lemma strtok_word_blank:
  assumes "w \<noteq> []" "CHR '' '' \<notin> set w" "newline \<notin> set w"
  shows "strtok (CHR '' '') (map blank (w @ '' '' @ s)) = w # strtok (CHR '' '') (map blank s)"
  using strtok_token(1) [OF assms(1,2), of "map blank s"] assms(3) by (simp add: map_blank_word strtok_sep) (simp add: blank_def strtok_sep)

lemma map_blank_break: "map blank (newline # pad_right 46 '' '' @ s) = replicate 47 (CHR '' '') @ map blank s"
proof -
  have "CHR '' '' \<noteq> newline"
  proof
    assume "CHR '' '' = newline"
    then have "(of_char (CHR '' '') :: nat) = of_char newline" by simp
    then show False by (simp add: newline_def)
  qed
  then show ?thesis by (simp add: blank_def pad_right_def flip: replicate_Suc)
qed

lemma wrap_words_back:
  "plain_words ws \<Longrightarrow> strtok (CHR '' '') (map blank (wrap_words n ws @ s)) = ws @ strtok (CHR '' '') (map blank s)"
proof (induction n ws rule: wrap_words.induct)
  case (2 n w ws)
  then have w: "w \<noteq> []" "CHR '' '' \<notin> set w" "newline \<notin> set w" "plain_words ws" by (auto simp: plain_words_def)
  show ?case
  proof (cases "80 \<le> n + length w + 1")
    case True
    then have "strtok (CHR '' '') (map blank (wrap_words n (w # ws) @ s)) =
        strtok (CHR '' '') (map blank (w @ '' '' @ wrap_words (length w + 1) ws @ s))"
      using map_blank_break [of "w @ '' '' @ wrap_words (length w + 1) ws @ s"] by (simp add: strtok_blanks del: map_append)
    also have "\<dots> = w # ws @ strtok (CHR '' '') (map blank s)"
      using strtok_word_blank [OF w(1-3)] 2(1) [OF True w(4)] by (simp del: map_append)
    finally show ?thesis by simp
  next
    case False
    then show ?thesis using strtok_word_blank [OF w(1-3)] 2(2) [OF False w(4)] by (simp del: map_append)
  qed
qed simp

lemma strtok_tokens: "t \<in> set (strtok d s) \<Longrightarrow> t \<noteq> [] \<and> d \<notin> set t \<and> set t \<subseteq> set s"
proof (induction d s rule: strtok.induct)
  case (1 d s)
  let ?s = "dropWhile (\<lambda>c. c = d) s"
  have s: "set ?s \<subseteq> set s" by (auto dest: set_dropWhileD)
  show ?case
  proof (cases "?s = []")
    case True
    then show ?thesis using 1(2) by (subst (asm) strtok.simps) (simp add: Let_def)
  next
    case False
    then consider "t = takeWhile (\<lambda>c. c \<noteq> d) ?s" | "t \<in> set (strtok d (dropWhile (\<lambda>c. c \<noteq> d) ?s))"
      using 1(2) unfolding strtok.simps [of d s] Let_def if_not_P [OF False] by auto
    then show ?thesis
    proof cases
      case 1
      have "hd ?s \<noteq> d" using hd_dropWhile [of "\<lambda>c. c = d" s] False by simp
      then have "t \<noteq> []" using False 1 by (cases ?s) auto
      then show ?thesis using s 1 by (auto dest: set_takeWhileD)
    next
      case 2
      then have "t \<noteq> [] \<and> d \<notin> set t \<and> set t \<subseteq> set (dropWhile (\<lambda>c. c \<noteq> d) ?s)" using 1(1) [OF refl False] by blast
      then show ?thesis using s by (auto dest!: set_dropWhileD subsetD)
    qed
  qed
qed

lemma usage_lines_back:
  "\<forall>l\<in>set ls. newline \<notin> set l \<Longrightarrow>
     strtok (CHR '' '') (map blank (usage_lines ls)) = concat (map (strtok (CHR '' '')) ls)"
proof (induction ls rule: usage_lines.induct)
  case 1
  then show ?case by (simp add: strtok.simps)
next
  case (2 l)
  have "plain_words (strtok (CHR '' '') l)" using 2 strtok_tokens by (fastforce simp: plain_words_def list_all_iff)
  from wrap_words_back [OF this, of 0 "[]"] show ?case by (simp add: strtok.simps [of _ "[]"])
next
  case (3 l l' ls)
  have "plain_words (strtok (CHR '' '') l)" using 3(2) strtok_tokens by (fastforce simp: plain_words_def list_all_iff)
  from wrap_words_back [OF this, of 0 "newline # pad_right 46 '' '' @ usage_lines (l' # ls)"]
  have "strtok (CHR '' '') (map blank (usage_lines (l # l' # ls))) =
      strtok (CHR '' '') l @ strtok (CHR '' '') (map blank (usage_lines (l' # ls)))"
    unfolding map_blank_break strtok_blanks by simp
  then show ?case using 3 by (simp del: usage_lines.simps)
qed

lemma main_synopsis:
  "length (concat (concat (map opt_synopsis (main_opts n dir ex fmt)))) < MAX_USAGE_LEN"
  "NUL \<notin> set (concat (concat (map opt_synopsis (main_opts n dir ex fmt))))"
  by (simp_all add: main_opts_def opt_synopsis_def MAX_USAGE_LEN_def Let_def)

text \<open>The usage message is complete: the synopsis of the program's options fits its buffer and lists
  every one of them, and breaking the text of an option into lines keeps all its words in order.\<close>

theorem usage_complete:
  assumes "length mem = MAX_USAGE_LEN + 1"
  shows "usage_synopsis mem (main_opts n dir ex fmt) = Some (concat (concat (map opt_synopsis (main_opts n dir ex fmt)))) \<and>
    strtok (CHR '' '') (map blank (usage_lines (strtok newline u))) = concat (map (strtok (CHR '' '')) (strtok newline u))"
  using synopsis_complete [OF assms main_synopsis] usage_lines_back [of "strtok newline u"] strtok_tokens by blast

theorem usage_complete_witness:
  "length (replicate (MAX_USAGE_LEN + 1) NUL) = MAX_USAGE_LEN + 1 \<and>
   strtok (CHR '' '') (map blank (usage_lines (strtok newline ''a list''))) = concat (map (strtok (CHR '' '')) (strtok newline ''a list''))"
  using usage_complete [of "replicate (MAX_USAGE_LEN + 1) NUL" _ _ _ _ "''a list''"] by simp

end
