(* ===== verification/Daemon.thy ===== *)
theory Daemon
  imports Messages
begin

text \<open>
  The PID file and the signals of \<open>virtio_forwarder_main.c\<close>. The results of system calls are
  arguments; a file is its contents and whether another process holds a lock on it.
\<close>

subsection \<open>The PID file\<close>

record pid_file =
  contents :: "string option"
  foreign_lock :: bool

text \<open>\<open>snprintf(pidfile, 128, "%s/%s.pid", pidpath, daemonname)\<close>\<close>

definition pidfile_path :: "string \<Rightarrow> string \<Rightarrow> string" where
  "pidfile_path path daemonname = strlcpy (path @ ''/'' @ daemonname @ ''.pid'') 128"

text \<open>The file is opened without being cut: a write replaces its first characters. The arguments tell
  whether \<open>open\<close> and \<open>write\<close> succeed and the error they give; the result is 0 or the negative
  error, \<open>must_remove\<close>, and the file.\<close>

definition create_daemon_file ::
  "int option \<Rightarrow> int \<Rightarrow> int option \<Rightarrow> nat \<Rightarrow> bool \<Rightarrow> pid_file \<Rightarrow> int \<times> bool \<times> pid_file" where
  "create_daemon_file open_err lock_err write_err getpid must_remove f =
     (case open_err of
        Some e \<Rightarrow> (-e, True, f)
      | None \<Rightarrow>
          let f = f\<lparr>contents := Some (case contents f of None \<Rightarrow> [] | Some c \<Rightarrow> c)\<rparr> in
          if foreign_lock f then (-lock_err, False, f)
          else let pid = strlcpy (dec getpid @ [newline]) 10 in
            (case write_err of
               Some e \<Rightarrow> (-e, True, f)
             | None \<Rightarrow>
                 (0, must_remove, f\<lparr>contents := map_option (\<lambda>c. pid @ drop (length pid) c) (contents f)\<rparr>)))"

definition virtiofwd_shutdown :: "bool \<Rightarrow> log_vars \<Rightarrow> pid_file \<Rightarrow> pid_file \<times> log_output list" where
  "virtiofwd_shutdown remove_pidfile v f = (if remove_pidfile then f\<lparr>contents := None\<rparr> else f, close_log v)"

subsection \<open>Signals\<close>

datatype signal = SIGINT | SIGTERM | SIGPIPE | SIGSEGV | SIGABRT

datatype disposition = Handler | Ignored | Backtrace | Default

text \<open>\<open>fails s\<close> tells whether setting the disposition of a signal fails. The handler for crashes is
  set last, and its result is not looked at.\<close>

definition sig_segv_abrt_backtrace :: "(signal \<Rightarrow> bool) \<Rightarrow> (signal \<Rightarrow> disposition) \<Rightarrow> int \<times> (signal \<Rightarrow> disposition)" where
  "sig_segv_abrt_backtrace fails d =
     (if fails SIGSEGV then (-1, d)
      else let d = d(SIGSEGV := Backtrace) in
        if fails SIGABRT then (-1, d) else (0, d(SIGABRT := Backtrace)))"

definition configure_signals :: "(signal \<Rightarrow> bool) \<Rightarrow> (signal \<Rightarrow> disposition) \<Rightarrow> int \<times> (signal \<Rightarrow> disposition)" where
  "configure_signals fails d =
     (if fails SIGINT then (1, d)
      else let d = d(SIGINT := Handler) in
        if fails SIGTERM then (1, d)
        else let d = d(SIGTERM := Handler) in
          if fails SIGPIPE then (1, d)
          else (0, snd (sig_segv_abrt_backtrace fails (d(SIGPIPE := Ignored)))))"

text \<open>The flags of the main loop. The handler acts in the main thread only, and only while the
  loop is running.\<close>

record main_flags =
  main_running :: bool
  main_must_stop :: bool

definition sig_handler :: "bool \<Rightarrow> main_flags \<Rightarrow> main_flags" where
  "sig_handler in_main_thread fl = (if main_running fl \<and> in_main_thread then fl\<lparr>main_must_stop := True\<rparr> else fl)"

text \<open>The loop; each element of the list is the signals that arrive during a sleep, by whether the
  main thread takes them. The result is the flags and the number of sleeps, if the loop ends.\<close>

primrec main_loop :: "bool list list \<Rightarrow> main_flags \<Rightarrow> (main_flags \<times> nat) option" where
  "main_loop [] fl = None"
| "main_loop (sigs # rest) fl =
     (let fl = fold sig_handler sigs fl in
      if main_must_stop fl then Some (fl\<lparr>main_running := False\<rparr>, 1)
      else map_option (\<lambda>(fl, n). (fl, Suc n)) (main_loop rest fl))"

subsection \<open>Properties\<close>

lemma digit_in_10: "digit_in 10 c = is_digit c"
  by (auto simp: digit_in_def is_hex_digit_def hex_digit_value_def is_digit_def digit_value_def)

lemma foldl_digits:
  "\<forall>c\<in>set s. is_digit c \<Longrightarrow> foldl (\<lambda>n c. 10 * n + hex_digit_value c) k s = foldl (\<lambda>n c. 10 * n + digit_value c) k s"
  by (induction s arbitrary: k) (auto simp: hex_digit_value_def)

lemma strtol_dec:
  assumes "n < 2 ^ 63" "no_digit_first s"
  shows "strtol 10 (dec n @ s) = Some (int n, False)"
proof -
  obtain c cs where c: "dec n = c # cs" "is_digit c" using dec_ne [of n] dec_digits [of _ n] by (cases "dec n") auto
  have d: "\<not> is_space c" "c \<noteq> CHR ''-''" "c \<noteq> CHR ''+''" using is_digit_no_space [OF c(2)] by auto
  have t: "takeWhile (digit_in 10) (dec n @ s) = dec n" using takeWhile_dec [OF assms(2), of n] by (simp add: digit_in_10 [abs_def])
  have "foldl (\<lambda>n c. 10 * n + hex_digit_value c) 0 (dec n) = n"
    using foldl_digits [of "dec n" 0] dec_digits number_dec [OF assms(2), of n] takeWhile_dec [OF assms(2), of n] by (simp add: number_def)
  then show ?thesis using d t assms(1) by (simp add: strtol_def Let_def c(1) del: of_nat_less_of_nat_power_cancel_iff)
qed

text \<open>After the PID file was created it gives back the number of the process to whoever reads it,
  whatever it held before; a file that another process has locked keeps its contents, and is not
  removed.\<close>

theorem pid_file_readable:
  assumes "getpid < 10 ^ 8"
  shows "if foreign_lock f
    then create_daemon_file None e None getpid True f = (-e, False, f\<lparr>contents := Some (case contents f of None \<Rightarrow> [] | Some c \<Rightarrow> c)\<rparr>)
    else \<exists>c f'. create_daemon_file None e None getpid True f = (0, True, f') \<and> contents f' = Some c \<and>
      strtol 10 c = Some (int getpid, False)"
proof (cases "foreign_lock f")
  case False
  have "length (dec getpid) \<le> 8" using length_dec [of 8 getpid] assms by simp
  then have p: "strlcpy (dec getpid @ [newline]) 10 = dec getpid @ [newline]" by (intro strlcpy_fits) simp
  have "no_digit_first (newline # t)" for t by (simp add: no_digit_first_def newline_def is_digit_def)
  from strtol_dec [OF _ this] have "strtol 10 (dec getpid @ newline # t) = Some (int getpid, False)" for t using assms by simp
  then show ?thesis using False p by (simp add: create_daemon_file_def Let_def)
qed (simp add: create_daemon_file_def)

theorem pid_file_readable_witness:
  "\<exists>c f'. create_daemon_file None 11 None 4242 True \<lparr>contents = Some ''1234567'', foreign_lock = False\<rparr> = (0, True, f') \<and>
     contents f' = Some c \<and> strtol 10 c = Some (4242, False)"
  using pid_file_readable [of 4242 "\<lparr>contents = Some ''1234567'', foreign_lock = False\<rparr>" 11] by simp

lemma fold_sig_handler:
  "main_running fl \<Longrightarrow> fold sig_handler sigs fl = (if True \<in> set sigs then fl\<lparr>main_must_stop := True\<rparr> else fl)"
  by (induction sigs arbitrary: fl) (auto simp: sig_handler_def)

text \<open>The main loop ends exactly when a signal reaches the main thread, and then at the first check
  after it.\<close>

theorem main_loop_ends:
  assumes "main_running fl" "\<not> main_must_stop fl"
  shows "main_loop sleeps fl =
    (if \<exists>s\<in>set sleeps. True \<in> set s
     then Some (\<lparr>main_running = False, main_must_stop = True\<rparr>, length (takeWhile (\<lambda>s. True \<notin> set s) sleeps) + 1) else None)"
  using assms
proof (induction sleeps arbitrary: fl)
  case (Cons s sleeps)
  then show ?case by (cases fl) (auto simp: Let_def fold_sig_handler)
qed simp

theorem main_loop_ends_witness:
  "main_loop [[], [False], [False, True]] \<lparr>main_running = True, main_must_stop = False\<rparr> =
     Some (\<lparr>main_running = False, main_must_stop = True\<rparr>, 3)"
  using main_loop_ends [of "\<lparr>main_running = True, main_must_stop = False\<rparr>" "[[], [False], [False, True]]"] by simp

text \<open>A signal that reaches the main thread during the start, when \<open>running\<close> has its initial value, ends
  the loop at its first check.\<close>

lemma early_signal_stops:
  assumes "main_running fl" "True \<in> set sigs"
  shows "main_loop (s # sleeps) (fold sig_handler sigs fl) = Some (\<lparr>main_running = False, main_must_stop = True\<rparr>, 1)"
  using assms by (cases fl) (simp add: fold_sig_handler)

end
