(* ===== verification/Diagnostics.thy ===== *)
theory Diagnostics
  imports Daemon
begin

text \<open>
  What the program tells whoever operates it, beside its log: the advice on the driver of a VF
  that cannot be attached (\<open>check_uio_driver_setup\<close> of \<open>virtio_worker.c\<close>), the backtrace of a
  crash (\<open>virtio_forwarder_main.c\<close>), and the separate program \<open>virtio_forwarder_stats.c\<close>. The
  last part is \<open>argv.c\<close> with its array, its failing allocations and its unit test. What system
  calls return is an argument.

  The theorems: the driver is recognised exactly, the statistics program prints a complete reply
  and ends, and the argument vector refines the list of theory Platform.
\<close>

subsection \<open>The driver of a VF\<close>

text \<open>Position of the last occurrence, as \<open>strrchr\<close>.\<close>

primrec strrchr :: "string \<Rightarrow> char \<Rightarrow> nat option" where
  "strrchr [] c = None"
| "strrchr (d # s) c = (case strrchr s c of Some k \<Rightarrow> Some (Suc k) | None \<Rightarrow> if d = c then Some 0 else None)"

text \<open>The three warnings.\<close>

datatype driver_warning =
  Not_uio string string
| Seems_uio string string
| No_driver string

text \<open>\<open>readlink\<close> gives the target of a link; at most 128 characters are read, and the last is then
  replaced by the terminating zero.\<close>

definition check_uio_driver_setup :: "(string \<Rightarrow> string option) \<Rightarrow> string \<Rightarrow> driver_warning list" where
  "check_uio_driver_setup readlink dbdf =
     (let buf = strlcpy (''/sys/bus/pci/devices/'' @ dbdf @ ''/driver'') 64;
          target = (case readlink buf of None \<Rightarrow> [] | Some t \<Rightarrow> t);
          len = min (length target) 128
      in if 0 < len
         then let len = (if len = 128 then 127 else len);
                  linkname = take len target
              in (case strrchr linkname (CHR ''/'') of
                    None \<Rightarrow> []
                  | Some k \<Rightarrow>
                      if 1 < len - k
                      then let s = drop (Suc k) linkname in
                        if strstr s ''uio'' = None \<and> strstr s ''vfio'' = None then [Not_uio dbdf s] else [Seems_uio dbdf s]
                      else [])
         else [No_driver dbdf])"

subsection \<open>Backtraces\<close>

text \<open>\<open>%p\<close>\<close>

definition print_pointer :: "nat \<Rightarrow> string" where
  "print_pointer p = (if p = 0 then ''(nil)'' else ''0x'' @ hex_lower p)"

text \<open>\<open>backtrace\<close> finds at most 20 addresses; \<open>symbols\<close> is what \<open>backtrace_symbols\<close> makes of
  them, if it has memory. The messages at the critical level, and the status of \<open>exit\<close>.\<close>

definition backtrace_signal_handler :: "nat \<Rightarrow> nat list \<Rightarrow> (nat list \<Rightarrow> string list option) \<Rightarrow> string list \<times> int" where
  "backtrace_signal_handler sig frames symbols =
     (let bt_array = take 20 frames;
          body = (if 0 < length bt_array
                  then ''-- backtrace --'' # (case symbols bt_array of None \<Rightarrow> map print_pointer bt_array | Some bt_strings \<Rightarrow> bt_strings)
                  else [''-- no backtrace available --''])
      in ((''Signal: '' @ dec sig) # body, 1))"

subsection \<open>The statistics program\<close>

definition MAXPTS :: nat where
  "MAXPTS = 255"

text \<open>\<open>fgets\<close>: up to the first newline, which is kept, and at most one character less than the
  size; \<open>None\<close> at the end of the file.\<close>

fun fgets_chars :: "nat \<Rightarrow> string \<Rightarrow> string" where
  "fgets_chars 0 s = []"
| "fgets_chars (Suc n) [] = []"
| "fgets_chars (Suc n) (c # s) = (if c = newline then [c] else c # fgets_chars n s)"

definition fgets :: "nat \<Rightarrow> string \<Rightarrow> string option" where
  "fgets sz s = (if s = [] then None else Some (fgets_chars (sz - 1) s))"

text \<open>The loop over the reads of one character: the exit status and what was printed, or \<open>None\<close>
  while the program waits for more. A read that fails or meets the end of the terminal is \<open>None\<close>.\<close>

fun print_reply :: "char \<Rightarrow> char option list \<Rightarrow> (int \<times> string) option" where
  "print_reply junk rs =
     (if junk = NUL then Some (0, [])
      else case rs of
        [] \<Rightarrow> None
      | None # rs \<Rightarrow> Some (1, [])
      | Some c # rs \<Rightarrow> map_option (\<lambda>(st, out). (st, c # out)) (print_reply c rs))"

declare print_reply.simps [simp del]

text \<open>\<open>main\<close>: the file with the name of the terminal, the terminals that can be opened, whether the
  write succeeds, and the reads.\<close>

definition stats_main :: "string option \<Rightarrow> (string \<Rightarrow> bool) \<Rightarrow> bool \<Rightarrow> char option list \<Rightarrow> (int \<times> string) option" where
  "stats_main ptsfile can_open write_ok rs =
     (case ptsfile of
        None \<Rightarrow> Some (1, ''Cannot find Debug PTS'' @ [newline])
      | Some file \<Rightarrow>
          (case fgets MAXPTS file of
             None \<Rightarrow> Some (1, [])
           | Some ptsfname \<Rightarrow>
               if \<not> can_open (cstring ptsfname) then Some (1, [])
               else if \<not> write_ok then Some (1, [])
               else print_reply (char_of (42 :: nat)) rs))"

subsection \<open>Argument vectors\<close>

text \<open>The array, with the null pointer as \<open>None\<close>, and the count. The two arguments tell whether
  \<open>realloc\<close> and \<open>strdup\<close> have memory.\<close>

type_synonym argvec = "string option list option \<times> nat"

definition add_arg_array :: "bool \<Rightarrow> bool \<Rightarrow> string \<Rightarrow> argvec \<Rightarrow> int \<times> argvec" where
  "add_arg_array memory dup arg av =
     (let (argvp, argc) = av in
      if \<not> memory then (-1, av)
      else let old = (case argvp of None \<Rightarrow> [] | Some a \<Rightarrow> a)
           in (0, Some (take argc old @ [if dup then Some arg else None, None]), argc + 1))"

text \<open>The strings freed, and the vector afterwards.\<close>

definition free_args :: "argvec \<Rightarrow> string option list \<times> argvec" where
  "free_args av = (case av of (None, argc) \<Rightarrow> ([], None, argc) | (Some argv, argc) \<Rightarrow> (take argc argv, None, 0))"

text \<open>The unit test: the assertions after each call.\<close>

definition arg_added :: "nat \<Rightarrow> argvec \<Rightarrow> bool" where
  "arg_added n av =
     (case av of (None, _) \<Rightarrow> False | (Some a, argc) \<Rightarrow> argc = n \<and> argc < length a \<and> a ! (argc - 1) \<noteq> None \<and> a ! argc = None)"

primrec test_add :: "nat list \<Rightarrow> argvec \<Rightarrow> argvec option" where
  "test_add [] av = Some av"
| "test_add (i # is) av =
     (let buf = strlcpy (''-'' @ dec i) 10; (_, av) = add_arg_array True True buf av
      in if arg_added (i + 2) av then test_add is av else None)"

definition show_args :: "argvec \<Rightarrow> string list" where
  "show_args av = (case av of (None, _) \<Rightarrow> [] | (Some a, argc) \<Rightarrow> map (\<lambda>s. ''  '' @ (case s of None \<Rightarrow> ''(null)'' | Some t \<Rightarrow> t) @ [newline]) (take argc a))"

definition test_argv :: "string \<Rightarrow> string list option" where
  "test_argv argv0 = do {
     let (_, av) = add_arg_array True True argv0 (None, 0);
     if arg_added 1 av
     then do {
       av \<leftarrow> test_add [0..<10] av;
       let out = show_args av;
       let (_, av) = free_args av;
       if av = (None, 0) then Some out else None }
     else None }"

subsection \<open>Properties\<close>

lemma strstr_iff: "strstr s p \<noteq> None \<longleftrightarrow> (\<exists>a b. s = a @ p @ b)"
proof (induction s)
  case (Cons c s)
  show ?case
  proof
    assume h: "strstr (c # s) p \<noteq> None"
    show "\<exists>a b. c # s = a @ p @ b"
    proof (cases "take (length p) (c # s) = p")
      case True
      then show ?thesis by (metis append_Nil append_take_drop_id)
    next
      case False
      then obtain a b where "s = a @ p @ b" using h Cons.IH by (auto split: if_splits)
      then show ?thesis by (metis append_Cons)
    qed
  next
    assume "\<exists>a b. c # s = a @ p @ b"
    then obtain a b where e: "c # s = a @ p @ b" by blast
    show "strstr (c # s) p \<noteq> None"
    proof (cases a)
      case Nil
      then have "take (length p) (c # s) = p" using e by simp
      then show ?thesis by simp
    next
      case (Cons d a')
      then show ?thesis using e Cons.IH by auto
    qed
  qed
qed auto

lemma strrchr_None [simp]: "c \<notin> set s \<Longrightarrow> strrchr s c = None"
  by (induction s) auto

lemma strrchr_last: "c \<notin> set t \<Longrightarrow> strrchr (s @ c # t) c = Some (length s)"
  by (induction s) auto

text \<open>A VF that is bound to a driver gives one warning, which names the driver; it is the one that
  asks for another driver exactly when the name contains neither \<open>uio\<close> nor \<open>vfio\<close>.\<close>

theorem driver_recognised:
  assumes "length pci < 36" "CHR ''/'' \<notin> set driver" "driver \<noteq> []" "length dir + length driver < 127"
    and "readlink (''/sys/bus/pci/devices/'' @ pci @ ''/driver'') = Some (dir @ ''/'' @ driver)"
  shows "check_uio_driver_setup readlink pci =
    [if \<exists>a b. driver = a @ ''uio'' @ b \<or> driver = a @ ''vfio'' @ b then Seems_uio pci driver else Not_uio pci driver]"
proof -
  have p: "strlcpy (''/sys/bus/pci/devices/'' @ pci @ ''/driver'') 64 = ''/sys/bus/pci/devices/'' @ pci @ ''/driver''"
    using assms(1) by (intro strlcpy_fits) simp
  have l: "min (length (dir @ ''/'' @ driver)) 128 = length (dir @ ''/'' @ driver)" "length (dir @ ''/'' @ driver) \<noteq> 128"
    using assms(4) by auto
  have n: "strrchr (dir @ CHR ''/'' # driver) CHR ''/'' = Some (length dir)" using assms(2) by (rule strrchr_last)
  have d: "1 < length (dir @ CHR ''/'' # driver) - length dir" using assms(3) by (cases driver) auto
  have u: "(strstr driver ''uio'' = None \<and> strstr driver ''vfio'' = None) \<longleftrightarrow>
    \<not> (\<exists>a b. driver = a @ ''uio'' @ b \<or> driver = a @ ''vfio'' @ b)"
    using strstr_iff [of driver "''uio''"] strstr_iff [of driver "''vfio''"] by blast
  show ?thesis
    unfolding check_uio_driver_setup_def Let_def p assms(5) option.case l(1) if_not_P [OF l(2)]
    using n d u by simp
qed

lemma print_reply_complete: "junk \<noteq> NUL \<Longrightarrow> NUL \<notin> set reply \<Longrightarrow>
  print_reply junk (map Some (reply @ NUL # rest)) = Some (0, reply @ [NUL])"
proof (induction reply arbitrary: junk)
  case Nil
  then show ?case by (simp add: print_reply.simps [of junk] print_reply.simps [of NUL])
next
  case (Cons c reply)
  have "c \<noteq> NUL" "NUL \<notin> set reply" using Cons.prems(2) by auto
  then have "print_reply c (map Some (reply @ NUL # rest)) = Some (0, reply @ [NUL])" by (rule Cons.IH)
  then show ?case using Cons.prems by (simp add: print_reply.simps [of junk])
qed

lemma print_reply_waits: "junk \<noteq> NUL \<Longrightarrow> NUL \<notin> set reply \<Longrightarrow> print_reply junk (map Some reply) = None"
proof (induction reply arbitrary: junk)
  case Nil
  then show ?case by (simp add: print_reply.simps [of junk])
next
  case (Cons c reply)
  have "c \<noteq> NUL" "NUL \<notin> set reply" using Cons.prems(2) by auto
  then have "print_reply c (map Some reply) = None" by (rule Cons.IH)
  then show ?case using Cons.prems by (simp add: print_reply.simps [of junk])
qed

lemma print_reply_broken: "junk \<noteq> NUL \<Longrightarrow> NUL \<notin> set reply \<Longrightarrow> print_reply junk (map Some reply @ None # rs) = Some (1, reply)"
proof (induction reply arbitrary: junk)
  case Nil
  then show ?case by (simp add: print_reply.simps [of junk])
next
  case (Cons c reply)
  have "c \<noteq> NUL" "NUL \<notin> set reply" using Cons.prems(2) by auto
  then have "print_reply c (map Some reply @ None # rs) = Some (1, reply)" by (rule Cons.IH)
  then show ?case using Cons.prems by (simp add: print_reply.simps [of junk])
qed

lemma star_no_NUL: "char_of (42 :: nat) \<noteq> NUL"
proof
  assume "char_of (42 :: nat) = NUL"
  then have "(of_char (char_of (42 :: nat)) :: nat) = of_char NUL" by (rule arg_cong)
  then show False by simp
qed

text \<open>The statistics program prints a reply up to and with its terminating zero and ends with 0; it
  waits as long as the reply is incomplete, and prints what it has and ends with 1 when the
  terminal fails.\<close>

theorem stats_program_prints:
  assumes "file \<noteq> []" "can_open (cstring (fgets_chars 254 file))" "NUL \<notin> set reply"
  shows "stats_main (Some file) can_open True (map Some (reply @ NUL # rest)) = Some (0, reply @ [NUL])"
    and "stats_main (Some file) can_open True (map Some reply) = None"
    and "stats_main (Some file) can_open True (map Some reply @ None # rs) = Some (1, reply)"
  using assms star_no_NUL
  by (simp_all add: stats_main_def fgets_def MAXPTS_def print_reply_complete print_reply_waits print_reply_broken
      del: map_append char_of_nat)

lemma fgets_chars_line: "newline \<notin> set name \<Longrightarrow> length name < n \<Longrightarrow> fgets_chars n (name @ newline # rest) = name @ [newline]"
proof (induction name arbitrary: n)
  case Nil
  then show ?case by (cases n) auto
next
  case (Cons c name)
  then show ?case by (cases n) auto
qed

text \<open>The name of the terminal is used with the newline that ends its line.\<close>

theorem pts_name_newline:
  assumes "newline \<notin> set name" "length name < 254" "\<not> can_open (cstring (name @ [newline]))"
  shows "stats_main (Some (name @ newline # rest)) can_open True rs = Some (1, [])"
  using assms fgets_chars_line [OF assms(1,2), of rest] by (simp add: stats_main_def fgets_def MAXPTS_def)

text \<open>The array that stands for a list of arguments.\<close>

definition argvec_of :: "string list \<Rightarrow> argvec" where
  "argvec_of xs = (Some (map Some xs @ [None]), length xs)"

text \<open>Adding an argument refines adding it to the list, and fails with no change if there is no
  memory for the array; freeing gives back exactly the strings.\<close>

theorem argvec_refines:
  "add_arg_array True True arg (argvec_of xs) = (0, argvec_of (add_arg arg xs))"
  "add_arg_array True True arg (None, 0) = (0, argvec_of (add_arg arg []))"
  "add_arg_array False dup arg av = (-1, av)"
  "free_args (argvec_of xs) = (map Some xs, None, 0)"
  by (simp_all add: add_arg_array_def argvec_of_def add_arg_def free_args_def)

lemma arg_added_of: "xs \<noteq> [] \<Longrightarrow> arg_added n (argvec_of xs) \<longleftrightarrow> length xs = n"
  by (cases xs rule: rev_cases) (auto simp: arg_added_def argvec_of_def nth_append)

lemma test_add_of:
  "xs \<noteq> [] \<Longrightarrow> n < 10 ^ 8 \<Longrightarrow> test_add [length xs - 1..<n] (argvec_of xs) =
    Some (argvec_of (xs @ map (\<lambda>i. ''-'' @ dec i) [length xs - 1..<n]))"
proof (induction "n - (length xs - 1)" arbitrary: xs)
  case (Suc d)
  let ?i = "length xs - 1"
  have i: "[?i..<n] = ?i # [Suc ?i..<n]" "?i < 10 ^ 8" using Suc.hyps(2) Suc.prems by (auto simp: upt_conv_Cons)
  have "length (dec ?i) \<le> 8" using length_dec [of 8 ?i] i(2) by simp
  then have s: "strlcpy (''-'' @ dec ?i) 10 = ''-'' @ dec ?i" by (intro strlcpy_fits) simp
  have "test_add [Suc ?i..<n] (argvec_of (xs @ [''-'' @ dec ?i])) =
    Some (argvec_of ((xs @ [''-'' @ dec ?i]) @ map (\<lambda>i. ''-'' @ dec i) [Suc ?i..<n]))"
    using Suc.hyps(1) [of "xs @ [''-'' @ dec ?i]"] Suc.hyps(2) Suc.prems by (cases xs) auto
  moreover have "length xs + 1 = ?i + 2" using Suc.prems(1) by (cases xs) auto
  ultimately show ?case using Suc.prems(1) s
    unfolding i(1) test_add.simps Let_def s argvec_refines prod.case add_arg_def
    by (simp add: arg_added_of)
qed simp

text \<open>The unit test of \<open>argv.c\<close> passes and shows the eleven arguments.\<close>

theorem argv_unit_test:
  "test_argv argv0 = Some (map (\<lambda>s. ''  '' @ s @ [newline]) (argv0 # map (\<lambda>i. ''-'' @ dec i) [0..<10]))"
proof -
  have "test_add [0..<10] (argvec_of [argv0]) = Some (argvec_of (argv0 # map (\<lambda>i. ''-'' @ dec i) [0..<10]))"
    using test_add_of [of "[argv0]" 10] by simp
  then show ?thesis
    by (simp add: test_argv_def argvec_refines add_arg_def arg_added_of show_args_def del: upt_rec_numeral)
      (simp add: argvec_of_def o_def del: upt_rec_numeral)
qed

end
