(* ===== verification/Retry.thy ===== *)
theory Retry
  imports Rounds
begin

text \<open>
  The build with \<open>VIRTIO_RETRY_ENQUEUE\<close>: \<open>worker_vhost_enqueue_burst\<close> of \<open>virtio_worker.c\<close>, which
  offers the packets that a virtual machine did not accept again, a number of times. Together
  the calls behave as one burst, so that the results on the data path, which rest on what a burst
  promises, hold for this build as well.
\<close>

text \<open>The loop: \<open>n\<close> retries are left.\<close>

primrec enqueue_retries :: "env \<Rightarrow> int \<Rightarrow> nat \<Rightarrow> mbuf list \<Rightarrow> nat \<Rightarrow> nat \<Rightarrow> hist \<Rightarrow> nat \<times> hist" where
  "enqueue_retries env dev q pkts 0 sent h =
     (let c = Rte_vhost_enqueue_burst dev q (drop sent pkts); tx = e_count env h c
      in (sent + tx, h @ [Sent c (take tx (drop sent pkts))]))"
| "enqueue_retries env dev q pkts (Suc n) sent h =
     (let c = Rte_vhost_enqueue_burst dev q (drop sent pkts); tx = e_count env h c;
          h = h @ [Sent c (take tx (drop sent pkts))]
      in if tx = 0 \<or> length pkts \<le> sent + tx then (sent + tx, h)
         else enqueue_retries env dev q pkts n (sent + tx) h)"

definition worker_vhost_enqueue_burst :: "env \<Rightarrow> nat \<Rightarrow> int \<Rightarrow> nat \<Rightarrow> mbuf list \<Rightarrow> hist \<Rightarrow> nat \<times> hist" where
  "worker_vhost_enqueue_burst env retries dev q pkts h = enqueue_retries env dev q pkts retries 0 h"

lemma enqueue_retries_prefix:
  assumes "burst_contract env" "sent \<le> length pkts" "enqueue_retries env dev q pkts n sent h = (sent', h')"
  shows "sent \<le> sent' \<and> sent' \<le> length pkts \<and>
    (\<exists>d. h' = h @ d \<and> vhost_sent d = drop sent (take sent' pkts) \<and> received d = [] \<and> eth_sent d = [] \<and> freed d = [] \<and>
      length d \<le> n + 1)"
  using assms(2,3)
proof (induction n arbitrary: sent h)
  case 0
  let ?c = "Rte_vhost_enqueue_burst dev q (drop sent pkts)"
  have "e_count env h ?c \<le> length pkts - sent" using burst_contractD(4) [OF assms(1), of h dev q "drop sent pkts"] by simp
  then show ?case using 0 by (auto simp: Let_def take_drop add.commute)
next
  case (Suc n)
  let ?c = "Rte_vhost_enqueue_burst dev q (drop sent pkts)"
  define tx where "tx = e_count env h ?c"
  define e where "e = Sent ?c (take tx (drop sent pkts))"
  have tx: "tx \<le> length pkts - sent" using burst_contractD(4) [OF assms(1), of h dev q "drop sent pkts"] by (simp add: tx_def)
  have e: "vhost_sent [e] = drop sent (take (sent + tx) pkts)" "received [e] = []" "eth_sent [e] = []" "freed [e] = []"
    by (simp_all add: e_def take_drop add.commute)
  show ?case
  proof (cases "tx = 0 \<or> length pkts \<le> sent + tx")
    case True
    then have "sent' = sent + tx" "h' = h @ [e]" using Suc.prems(2) by (auto simp: Let_def tx_def e_def)
    then show ?thesis using tx Suc.prems(1) e by (intro conjI exI [of _ "[e]"]) auto
  next
    case False
    then have "enqueue_retries env dev q pkts n (sent + tx) (h @ [e]) = (sent', h')"
      using Suc.prems(2) by (auto simp: Let_def tx_def [symmetric] e_def)
    from Suc.IH [OF _ this] False obtain d where d: "sent + tx \<le> sent'" "sent' \<le> length pkts" "h' = (h @ [e]) @ d"
      "vhost_sent d = drop (sent + tx) (take sent' pkts)" "received d = []" "eth_sent d = []" "freed d = []" "length d \<le> n + 1"
      by auto
    have "drop sent (take (sent + tx) pkts) @ drop (sent + tx) (take sent' pkts) = drop sent (take sent' pkts)"
    proof -
      have "take (sent + tx) pkts = take (sent + tx) (take sent' pkts)" using d(1) by (simp add: min_def)
      then show ?thesis
        by (metis add.commute append_take_drop_id drop_drop take_drop)
    qed
    then show ?thesis using d e by (intro conjI exI [of _ "e # d"]) auto
  qed
qed

text \<open>Offering packets to a virtual machine repeatedly amounts to one burst: a prefix of the packets
  is accepted, in order and each of them once, nothing else happens to packets, and at most one
  call more is made than there are retries.\<close>

theorem retries_are_one_burst:
  assumes "burst_contract env"
  shows "\<exists>sent d. worker_vhost_enqueue_burst env retries dev q pkts h = (sent, h @ d) \<and> sent \<le> length pkts \<and>
    vhost_sent d = take sent pkts \<and> received d = [] \<and> eth_sent d = [] \<and> freed d = [] \<and> length d \<le> retries + 1"
proof -
  obtain sent h' where e: "enqueue_retries env dev q pkts retries 0 h = (sent, h')" by fastforce
  show ?thesis using enqueue_retries_prefix [OF assms _ e] e by (auto simp: worker_vhost_enqueue_burst_def)
qed

theorem retries_are_one_burst_witness:
  "burst_contract demo_env \<and>
   (\<exists>sent d. worker_vhost_enqueue_burst demo_env 3 0 1 [] [] = (sent, d) \<and> sent = 0 \<and> length d \<le> 4)"
  using retries_are_one_burst [OF demo_env_contract, of 3 0 1 "[]" "[]"] demo_env_contract by auto

end
