(* ===== verification/Spec2Isabelle.thy ===== *)
theory Spec2Isabelle
  imports System Services Getopt Legacy Monitors Diagnostics Retry
begin

text \<open>
  A verification of virtio-forwarder, the daemon that relays packets between virtual machines
  (virtio over vhost-user sockets) and SR-IOV virtual functions of a network card (through
  DPDK). The sources are the C files under \<open>src/\<close>.

  \<^bold>\<open>The program.\<close> Each relay joins one virtual machine and one VF or bond. Worker threads, one
  for each worker CPU, poll the relays assigned to them and move packets in both directions.
  The vhost library calls back when a virtual machine connects, changes a queue or
  disconnects. Up to four ZeroMQ servers take requests: port control (add and remove VFs,
  bonds and pairs of sockets and devices), core scheduling (move relays between CPUs),
  statistics and configuration. Two monitors add and remove devices as well, one for commands
  in a file and one for the rows of an OVSDB. The control path asks a worker to let go of a relay by moving
  the state of the relay and waits for the answer.

  \<^bold>\<open>Theories and sources.\<close> In the order of the imports:

  \<^item> \<open>Prelude\<close>: counters with wrap-around, bitmaps and their loops, checked array accesses,
    C strings. \<open>Dpdk\<close>: packets, the calls of DPDK, vhost and libc, the history of calls made,
    and the record \<open>env\<close> of what these calls return as functions of the history.
  \<^item> \<open>Relay\<close>: the structures and constants of \<open>virtio_worker.h\<close>, \<open>virtio_vhostuser.h\<close> and
    \<open>cpuinfo.h\<close>; \<open>gstate\<close> holds the global variables of \<open>virtio_worker.c\<close> and
    \<open>virtio_vhostuser.c\<close>.
  \<^item> \<open>Vring\<close>: queue bookkeeping and the choice of a queue by hash
    (\<open>virtio_forwarder_vring_state_change\<close>, \<open>calc_mbuf_queue\<close>).
  \<^item> \<open>Datapath\<close>, \<open>Rounds\<close>: receiving, sending and dropping packets (\<open>virtio_rx\<close>,
    \<open>dpdk_tx\<close>, \<open>dpdk_rx\<close>, \<open>virtio_tx\<close>, \<open>worker_remove_vf\<close>, \<open>worker_remove_virtio\<close>)
    and the two rounds composed of them (\<open>relay_vm2vf_traffic\<close>, \<open>relay_vf2vm_traffic\<close>). No
    packet is lost or duplicated, order is kept, rounds end and stay inside their arrays, under
    conditions that are exact where the code fails outside them.
  \<^item> \<open>Worker\<close>: the worker threads as a step relation, the choice of a CPU
    (\<open>naive_get_idlest_worker\<close>) and \<open>migrate_relay_cpus\<close>. Conservation and the balance of the
    counters over all interleavings, and the removal protocol.
  \<^item> \<open>Device\<close>, \<open>Control\<close>, \<open>Connect\<close>, \<open>Lifecycle\<close>: the control path of
    \<open>virtio_worker.c\<close>: adding and removing VFs, bonds and virtual machines, memory pools,
    start-up and shutdown. Outcome of each operation, on success and on every failure.
  \<^item> \<open>Frame\<close>: what the operations of the control path preserve. The locale \<open>control_frame\<close> fixes a
    relation between states that respects the few kinds of update they make, and proves it for each
    operation once; \<open>query_frame\<close> and \<open>system_frame\<close> extend it. \<open>Server\<close>, \<open>FileMon\<close>,
    \<open>OvsdbStream\<close> and \<open>System\<close> add their operations to it and interpret it with several
    relations.
  \<^item> \<open>Stats\<close>: \<open>virtio_forwarder_get_stats\<close> and \<open>zmq_stats.c\<close>.
  \<^item> \<open>Vhostuser\<close>, \<open>Sockets\<close>: \<open>virtio_vhostuser.c\<close> and \<open>ugid.c\<close>: socket names, the table
    of sockets, registration, the callbacks of the vhost library, pairs of sockets and devices.
    The table refines a finite map from paths to relays (locale \<open>socket_table\<close>).
  \<^item> \<open>PortControl\<close>, \<open>CoreSched\<close>: \<open>zmq_port_control.c\<close>, \<open>zmq_core_sched.c\<close> and
    \<open>zmq_config.c\<close>: requests, their validation, and that the answers tell the truth.
  \<^item> \<open>Server\<close>: \<open>zmq_service.c\<close> and \<open>zmq_server.c\<close>: the server threads, their start and stop
    and the resources they hold. The locale \<open>service_contract\<close> states what a server relies on
    in a service; it is interpreted for the four services. \<open>Services\<close>: the constructors and
    destructors of the services with the memory they own (locale \<open>constructor\<close>, interpreted for
    the four of them), and the entry of the server thread.
  \<^item> \<open>Options\<close>: \<open>cmdline.c\<close> and \<open>virtio_forwarder_main.c\<close>: the options, the checks of the
    configuration, and the order of start and stop. \<open>Getopt\<close>: the parser from the words of the
    command line on, with \<open>getopt_long\<close> as in the GNU C library, and the unit test of \<open>cmdline.c\<close>.
  \<^item> \<open>Platform\<close>: \<open>cpuinfo.c\<close>, \<open>dpdk_eal.c\<close> and \<open>argv.c\<close>: the topology of the machine, read back
    from what the kernel prints, and the arguments of the EAL.
  \<^item> \<open>FileMon\<close>: \<open>sriov.c\<close> and \<open>file_mon.c\<close>: the device behind an interface, and the commands of
    the command file, each done once and in order.
  \<^item> \<open>OvsdbMon\<close>, \<open>OvsdbStream\<close>: \<open>ovsdb_mon.c\<close> down to its buffers: the rows of the database are
    read back through both quotings and however the stream is cut, and the arrays are never
    written outside (locale \<open>row_invariant\<close>). \<open>Monitors\<close>: how the threads of the two monitors are
    started, told to stop, cancelled and joined, as a step relation.
  \<^item> \<open>Messages\<close>, \<open>Daemon\<close>: \<open>log.c\<close>, the usage message of \<open>cmdline.c\<close>, and the PID file, the
    signals and the main loop of \<open>virtio_forwarder_main.c\<close>. \<open>Retry\<close>: the build with
    \<open>VIRTIO_RETRY_ENQUEUE\<close>, whose repeated calls amount to one burst. \<open>Diagnostics\<close>: the advice on
    the driver of a VF, the backtrace of a crash, the program \<open>virtio_forwarder_stats.c\<close>, and
    \<open>argv.c\<close> with failing allocations and its unit test. \<open>Legacy\<close>: the callbacks of the build for
    DPDK before 16.07.
  \<^item> \<open>System\<close>: the program as one transition system (\<open>system_step\<close>) and the locales
    \<open>background_frame\<close> and \<open>running_frame\<close>, by which a relation that workers and vring changes respect
    holds between all states of a run. They are interpreted with the ledger of packets and counters
    and with the ranges of arrays and queues.
  \<^item> This theory: what holds from start-up on over all runs: packets and counters, ranges, and the
    socket table.

  \<^bold>\<open>Conventions.\<close> Operations take and return the state explicitly. A result \<open>None\<close> is a run
  that leaves the defined behaviour of the program: a failed assertion, an access outside an
  array, a shift by too much, or a loop that never ends. Integers that index arrays or count are
  naturals or integers with the wrap-around written out; bitmaps and statistics are words.
  \<open>MAX_RELAYS\<close>, a constant of the build, is the length of the array of relays.

  \<^bold>\<open>Bounds.\<close> \<open>wait_until\<close> polls 20 times, as the code does (each poll sleeps; the argument
  \<open>sched\<close> is what other threads do meanwhile). The search for the next transmit queue is a
  partial function, with a theorem that says when it returns. All other loops are structural
  or have a termination proof. The loop of a server thread is a function of the list of the
  passes made so far.

  \<^bold>\<open>Interleaving.\<close> A step of a worker is one iteration of its loop, and a step of the system is one
  iteration of a worker, one pass of a server, one round of a monitor, or one callback; the locks
  of the relays make the directions of a relay exclusive. Where the control path sleeps, any number of
  steps of workers and of callbacks that do not sleep themselves (\<open>background_step\<close>) may take place.

  \<^bold>\<open>Parameters.\<close> DPDK, the vhost library, system calls, ZeroMQ, single precision
  arithmetic, the hash \<open>rte_jhash_32b\<close> and the code that protoc generates from
  \<open>virtioforwarder.proto\<close> are not part of the sources: their results are arguments, and what is
  relied on is a hypothesis (for example \<open>burst_contract\<close>: a burst call accepts at most what it
  is given). The build is the one for DPDK from 22.03 on, without \<open>VIRTIO_ECHO\<close> and
  \<open>VIRTIO_RETRY_ENQUEUE\<close>, with bonding and assertions enabled, on a little-endian machine; \<open>Retry\<close> and
  \<open>Legacy\<close> treat the other builds named above.

  \<^bold>\<open>Not modelled.\<close> The calls of the logger inside the modelled functions; the session thread of
  DPDK before 17.05, which only calls the library; the other differences between versions of DPDK
  before 22.03; \<open>VIRTIO_ECHO\<close>; the unit test of \<open>cpuinfo.c\<close>, which prints the table. What remains
  of the sources is declarations, comments and header files.
\<close>

section \<open>The running program\<close>

text \<open>C3: From start-up on, whatever the virtual machines, the clients of the four services, the two
  monitors and the worker threads do and in whatever order, every path of a socket leads to at most one relay, and the
  table of paths has one slot for each relay.\<close>

theorem system_keeps_sockets:
  assumes "virtio_vhostuser_start env lcores conf create_sockets st0 = Some (0, st1)" "MAX_RELAYS st0 \<le> 10 ^ 10"
    "(system_step env nq)\<^sup>*\<^sup>* st1 st2"
  shows "length (relay_ifname_map st2) = MAX_RELAYS st2 \<and>
    (\<forall>i < MAX_RELAYS st2. \<forall>j < MAX_RELAYS st2. \<forall>path.
       relay_ifname_map st2 ! i = Some path \<and> relay_ifname_map st2 ! j = Some path \<longrightarrow> i = j)"
proof -
  have "sockets_ok st2"
    using assms(3) by induction (use start_sockets_ok [OF assms(1,2)] step_sockets_ok in blast)+
  then show ?thesis by (auto simp: sockets_ok_def one_relay_each_def)
qed

text \<open>The program started, and a virtual machine disconnected.\<close>

lemma demo_system_run:
  obtains st1 st2 where
    "virtio_vhostuser_start demo_env [1, 2] demo_conf True (demo_state (demo_one VIRTIO_READY DPDK_READY)) = Some (0, st1)"
    "(system_step demo_env 64)\<^sup>*\<^sup>* st1 st2"
proof -
  obtain st1 where "virtio_vhostuser_start demo_env [1, 2] demo_conf True (demo_state (demo_one VIRTIO_READY DPDK_READY)) = Some (0, st1)"
    using demo_start_sockets by blast
  moreover have "system_step demo_env 64 st1 (virtio_vhostuser_destroy_connection_cb demo_env 0 st1)"
    by (intro Background Disconnection)
  ultimately show thesis using that by blast
qed

theorem system_keeps_sockets_witness:
  "\<exists>st1 st2. virtio_vhostuser_start demo_env [1, 2] demo_conf True (demo_state (demo_one VIRTIO_READY DPDK_READY)) = Some (0, st1) \<and>
     (system_step demo_env 64)\<^sup>*\<^sup>* st1 st2 \<and> length (relay_ifname_map st2) = MAX_RELAYS st2"
proof -
  obtain st1 st2 where
    1: "virtio_vhostuser_start demo_env [1, 2] demo_conf True (demo_state (demo_one VIRTIO_READY DPDK_READY)) = Some (0, st1)"
    and 2: "(system_step demo_env 64)\<^sup>*\<^sup>* st1 st2"
    by (rule demo_system_run)
  have m: "MAX_RELAYS (demo_state (demo_one VIRTIO_READY DPDK_READY)) \<le> 10 ^ 10" by simp
  from system_keeps_sockets [OF 1 m 2] show ?thesis using 1 2 by blast
qed





end
